(* ===== verification/DCF_Prelude.thy ===== *)
theory DCF_Prelude
  imports Complex_Main
begin

text \<open>
  Shared material: named fact collections, and the operations on lists and strings of the
  JavaScript standard library that the sources use (\<open>indexOf\<close>, \<open>split\<close>, \<open>trim\<close>, decimal printing).
  A JavaScript string is an Isabelle \<open>string\<close>; a text outside ASCII that the sources only
  concatenate is written as its UTF-8 bytes.  Strings whose code units are computed with
  (the Base64 component) are lists of numbers instead.
\<close>

named_theorems js_simps \<open>evaluation of the JavaScript library operations\<close>

section \<open>Lists\<close>

fun span_while :: "('a \<Rightarrow> bool) \<Rightarrow> 'a list \<Rightarrow> 'a list \<times> 'a list" where
  "span_while p [] = ([], [])"
| "span_while p (x # xs) =
     (if p x then (let (a, b) = span_while p xs in (x # a, b)) else ([], x # xs))"

lemma span_while_eq: "span_while p xs = (takeWhile p xs, dropWhile p xs)"
  by (induction xs) auto

definition nth_opt :: "'a list \<Rightarrow> nat \<Rightarrow> 'a option" where
  "nth_opt xs i = (if i < length xs then Some (xs ! i) else None)"

lemma nth_opt_Nil [simp]: "nth_opt [] i = None"
  by (simp add: nth_opt_def)

lemma nth_opt_Cons_0 [simp]: "nth_opt (x # xs) 0 = Some x"
  by (simp add: nth_opt_def)

lemma nth_opt_Cons_Suc [simp]: "nth_opt (x # xs) (Suc i) = nth_opt xs i"
  by (simp add: nth_opt_def)

lemma nth_opt_Cons_numeral [simp]: "nth_opt (x # xs) (numeral n) = nth_opt xs (pred_numeral n)"
  by (simp add: numeral_eq_Suc)

fun find_first :: "('a \<Rightarrow> bool) \<Rightarrow> 'a list \<Rightarrow> 'a option" where
  "find_first p [] = None"
| "find_first p (x # xs) = (if p x then Some x else find_first p xs)"

lemma find_first_SomeD: "find_first p xs = Some x \<Longrightarrow> p x \<and> x \<in> set xs"
  by (induction xs) (auto split: if_splits)

lemma find_first_None_iff: "find_first p xs = None \<longleftrightarrow> (\<forall>x \<in> set xs. \<not> p x)"
  by (induction xs) auto

text \<open>Removal of the first occurrence, as \<open>Array.prototype.del\<close> of the scene library.\<close>

fun del_first :: "'a \<Rightarrow> 'a list \<Rightarrow> 'a list" where
  "del_first y [] = []"
| "del_first y (x # xs) = (if x = y then xs else x # del_first y xs)"

lemma del_first_distinct: "distinct xs \<Longrightarrow> del_first y xs = filter (\<lambda>x. x \<noteq> y) xs"
proof (induction xs)
  case (Cons x xs)
  then have "y \<notin> set xs \<Longrightarrow> filter (\<lambda>x. x \<noteq> y) xs = xs"
    by (simp add: filter_id_conv) blast
  with Cons show ?case by auto
qed simp

lemma set_del_first_subset: "set (del_first y xs) \<subseteq> set xs"
  by (induction xs) auto

lemma distinct_del_first: "distinct xs \<Longrightarrow> distinct (del_first y xs)"
  by (simp add: del_first_distinct)

section \<open>Strings\<close>

definition starts_with :: "string \<Rightarrow> string \<Rightarrow> bool" where
  "starts_with p s \<longleftrightarrow> take (length p) s = p"

lemma starts_with_Nil [simp]: "starts_with [] s"
  by (simp add: starts_with_def)

lemma starts_with_Cons [simp]:
  "starts_with (c # p) (d # s) \<longleftrightarrow> c = d \<and> starts_with p s"
  by (auto simp: starts_with_def)

lemma starts_with_Cons_Nil [simp]: "\<not> starts_with (c # p) []"
  by (simp add: starts_with_def)

lemma starts_with_append [simp]: "starts_with p (p @ s)"
  by (simp add: starts_with_def)

lemma starts_withE:
  assumes "starts_with p s"
  obtains r where "s = p @ r"
  using assms unfolding starts_with_def by (metis append_take_drop_id)

text \<open>\<open>s.indexOf(p)\<close>: \<open>None\<close> stands for \<open>-1\<close>.\<close>

fun index_of :: "string \<Rightarrow> string \<Rightarrow> nat option" where
  "index_of p [] = (if p = [] then Some 0 else None)"
| "index_of p (c # s) =
     (if starts_with p (c # s) then Some 0 else map_option Suc (index_of p s))"

definition has_substr :: "string \<Rightarrow> string \<Rightarrow> bool" where
  "has_substr p s \<longleftrightarrow> index_of p s \<noteq> None"

lemma index_of_SomeD:
  "index_of p s = Some i \<Longrightarrow> i + length p \<le> length s \<and> take (length p) (drop i s) = p"
proof (induction s arbitrary: i)
  case Nil
  then show ?case by (auto split: if_splits)
next
  case (Cons c s)
  show ?case
  proof (cases "starts_with p (c # s)")
    case True
    then have "take (length p) (c # s) = p" by (simp add: starts_with_def)
    moreover from this have "length p \<le> length (c # s)"
      by (metis length_take min.absorb_iff2 min.commute min_def_raw nat_le_linear)
    ultimately show ?thesis using True Cons.prems by auto
  next
    case False
    with Cons.prems obtain j where j: "index_of p s = Some j" "i = Suc j"
      by (auto split: if_splits)
    from Cons.IH [OF j(1)] j(2) show ?thesis by simp
  qed
qed

lemma index_of_None_iff: "index_of p s = None \<longleftrightarrow> (\<nexists>a b. s = a @ p @ b)"
proof (induction s)
  case Nil
  then show ?case by auto
next
  case (Cons c s)
  show ?case
  proof (cases "starts_with p (c # s)")
    case True
    then obtain r where "c # s = p @ r" by (rule starts_withE)
    then have "c # s = [] @ p @ r" by simp
    then have "\<exists>a b. c # s = a @ p @ b" by blast
    then show ?thesis using True by simp
  next
    case False
    have "(\<exists>a b. c # s = a @ p @ b) \<longleftrightarrow> (\<exists>a b. s = a @ p @ b)"
    proof
      assume "\<exists>a b. c # s = a @ p @ b"
      then obtain a b where ab: "c # s = a @ p @ b" by blast
      have "a \<noteq> []"
      proof
        assume "a = []"
        with ab have "starts_with p (c # s)" by simp
        with False show False by blast
      qed
      with ab obtain a' where "s = a' @ p @ b" by (cases a) auto
      then show "\<exists>a b. s = a @ p @ b" by blast
    next
      assume "\<exists>a b. s = a @ p @ b"
      then obtain a b where "s = a @ p @ b" by blast
      then have "c # s = (c # a) @ p @ b" by simp
      then show "\<exists>a b. c # s = a @ p @ b" by blast
    qed
    with False Cons.IH show ?thesis by simp
  qed
qed

lemma has_substr_iff: "has_substr p s \<longleftrightarrow> (\<exists>a b. s = a @ p @ b)"
  by (simp add: has_substr_def index_of_None_iff del: not_None_eq)

text \<open>\<open>s.split(sep)\<close> for a separator of one character.\<close>

fun split_on :: "char \<Rightarrow> string \<Rightarrow> string list" where
  "split_on d [] = [[]]"
| "split_on d (c # s) =
     (if c = d then [] # split_on d s
      else case split_on d s of [] \<Rightarrow> [[c]] | w # ws \<Rightarrow> (c # w) # ws)"

fun join_with :: "string \<Rightarrow> string list \<Rightarrow> string" where
  "join_with d [] = []"
| "join_with d [w] = w"
| "join_with d (w # v # ws) = w @ d @ join_with d (v # ws)"

lemma split_on_not_Nil [simp]: "split_on d s \<noteq> []"
  by (cases s) (auto split: list.splits)

lemma split_on_no_sep: "d \<notin> set s \<Longrightarrow> split_on d s = [s]"
  by (induction s) auto

lemma split_on_append_sep: "d \<notin> set w \<Longrightarrow> split_on d (w @ d # s) = w # split_on d s"
  by (induction w) auto

lemma split_on_members: "w \<in> set (split_on d s) \<Longrightarrow> d \<notin> set w"
  by (induction s arbitrary: w) (auto split: if_splits list.splits)

lemma join_split: "join_with [d] (split_on d s) = s"
proof (induction s)
  case (Cons c s)
  obtain w ws where w: "split_on d s = w # ws" by (meson list.exhaust split_on_not_Nil)
  with Cons show ?case by (cases ws) auto
qed simp

lemma split_join: "ws \<noteq> [] \<Longrightarrow> \<forall>w \<in> set ws. d \<notin> set w \<Longrightarrow> split_on d (join_with [d] ws) = ws"
  by (induction d\<equiv>"[d]" ws rule: join_with.induct) (auto simp: split_on_no_sep split_on_append_sep)

text \<open>White space, and trimming at both ends.\<close>

definition is_space :: "char \<Rightarrow> bool" where
  "is_space c \<longleftrightarrow> c \<in> {CHR 0x09, CHR 0x0A, CHR 0x0B, CHR 0x0C, CHR 0x0D, CHR '' ''}"

definition trim_left :: "string \<Rightarrow> string" where
  "trim_left s = dropWhile is_space s"

definition trim_right :: "string \<Rightarrow> string" where
  "trim_right s = rev (dropWhile is_space (rev s))"

definition js_trim :: "string \<Rightarrow> string" where
  "js_trim s = trim_right (trim_left s)"

lemma dropWhile_none: "\<forall>x \<in> set xs. \<not> p x \<Longrightarrow> dropWhile p xs = xs"
  by (cases xs) auto

lemma js_trim_no_space: "\<forall>c \<in> set s. \<not> is_space c \<Longrightarrow> js_trim s = s"
  by (simp add: js_trim_def trim_left_def trim_right_def dropWhile_none)

section \<open>Decimal numerals\<close>

definition is_digit :: "char \<Rightarrow> bool" where
  "is_digit c \<longleftrightarrow> 48 \<le> (of_char c :: nat) \<and> (of_char c :: nat) \<le> 57"

definition digit_val :: "char \<Rightarrow> nat" where
  "digit_val c = of_char c - 48"

definition digit_char :: "nat \<Rightarrow> char" where
  "digit_char d = char_of (48 + d)"

lemma is_digit_digit_char [simp]: "d < 10 \<Longrightarrow> is_digit (digit_char d)"
  by (simp add: is_digit_def digit_char_def)

lemma digit_val_digit_char [simp]: "d < 10 \<Longrightarrow> digit_val (digit_char d) = d"
  by (simp add: digit_val_def digit_char_def)

lemma is_digit_not_space: "is_digit c \<Longrightarrow> \<not> is_space c"
  by (auto simp: is_digit_def is_space_def)

fun show_nat :: "nat \<Rightarrow> string" where
  "show_nat n = (if n < 10 then [digit_char n] else show_nat (n div 10) @ [digit_char (n mod 10)])"

declare show_nat.simps [simp del]

definition show_int :: "int \<Rightarrow> string" where
  "show_int i = (if i < 0 then ''-'' @ show_nat (nat (- i)) else show_nat (nat i))"

definition dec_val :: "string \<Rightarrow> nat" where
  "dec_val s = foldl (\<lambda>a c. 10 * a + digit_val c) 0 s"

lemma dec_val_Nil [simp]: "dec_val [] = 0"
  by (simp add: dec_val_def)

lemma dec_val_snoc [simp]: "dec_val (s @ [c]) = 10 * dec_val s + digit_val c"
  by (simp add: dec_val_def)

lemma show_nat_not_Nil [simp]: "show_nat n \<noteq> []"
  by (subst show_nat.simps) simp

lemma show_nat_digits: "c \<in> set (show_nat n) \<Longrightarrow> is_digit c"
proof (induction n rule: show_nat.induct)
  case (1 n)
  then show ?case by (subst (asm) (2) show_nat.simps) (auto split: if_splits)
qed

lemma dec_val_show_nat [simp]: "dec_val (show_nat n) = n"
proof (induction n rule: show_nat.induct)
  case (1 n)
  then show ?case
    by (subst show_nat.simps) (auto simp: dec_val_def)
qed

lemma show_nat_inj: "show_nat m = show_nat n \<Longrightarrow> m = n"
  by (metis dec_val_show_nat)

text \<open>A text without its line breaks, as a text field of a page keeps it.\<close>

definition one_line :: "string \<Rightarrow> string" where
  "one_line s = filter (\<lambda>c. c \<noteq> CHR 10 \<and> c \<noteq> CHR 13) s"

section \<open>Sequences of statements\<close>

text \<open>The statements of a block, applied in order.\<close>

fun steps :: "('s \<Rightarrow> 's) list \<Rightarrow> 's \<Rightarrow> 's" where
  "steps [] s = s"
| "steps (f # fs) s = steps fs (f s)"

lemma steps_append [simp]: "steps (fs @ gs) s = steps gs (steps fs s)"
  by (induction fs arbitrary: s) auto

lemma steps_inv: "\<forall>f \<in> set fs. \<forall>s. g (f s) = g s \<Longrightarrow> g (steps fs s) = g s"
  by (induction fs arbitrary: s) auto

end
