(* ===== verification/Js_Number.thy ===== *)
theory Js_Number
  imports DCF_Prelude
begin

text \<open>
  JavaScript numbers and their conversions from strings: \<open>+v\<close> (\<open>ToNumber\<close>) and \<open>parseInt\<close>.
  A number is NaN, an infinity or a rational: the rounding of the double format is not
  modelled, the special values are.
\<close>

datatype num = NaN | Infty bool | Fin rat

definition is_nan :: "num \<Rightarrow> bool" where
  "is_nan v \<longleftrightarrow> v = NaN"

fun neg_num :: "num \<Rightarrow> num" where
  "neg_num NaN = NaN"
| "neg_num (Infty b) = Infty (\<not> b)"
| "neg_num (Fin r) = Fin (- r)"

text \<open>\<open>v <= w\<close>: false as soon as one side is NaN.\<close>

fun le_num :: "num \<Rightarrow> num \<Rightarrow> bool" where
  "le_num NaN w = False"
| "le_num v NaN = False"
| "le_num (Infty False) w = True"
| "le_num (Infty True) w = (w = Infty True)"
| "le_num (Fin r) (Infty b) = b"
| "le_num (Fin r) (Fin q) = (r \<le> q)"

text \<open>\<open>v % 1 !== 0\<close> fails exactly for the finite integers.\<close>

fun is_integral :: "num \<Rightarrow> bool" where
  "is_integral (Fin r) = (of_int \<lfloor>r\<rfloor> = r)"
| "is_integral v = False"

section \<open>Numeric literals in strings\<close>

definition hex_val :: "char \<Rightarrow> nat option" where
  "hex_val c = (let n = (of_char c :: nat) in
     if 48 \<le> n \<and> n \<le> 57 then Some (n - 48)
     else if 65 \<le> n \<and> n \<le> 70 then Some (n - 55)
     else if 97 \<le> n \<and> n \<le> 102 then Some (n - 87)
     else None)"

text \<open>The digits of a literal in base \<open>b\<close>: all of them must be digits, and there is at least one.\<close>

fun radix_val :: "nat \<Rightarrow> nat \<Rightarrow> string \<Rightarrow> nat option" where
  "radix_val b a [] = Some a"
| "radix_val b a (c # s) =
     (case hex_val c of None \<Rightarrow> None
      | Some d \<Rightarrow> if d < b then radix_val b (b * a + d) s else None)"

definition radix_literal :: "nat \<Rightarrow> string \<Rightarrow> num" where
  "radix_literal b s =
     (if s = [] then NaN
      else case radix_val b 0 s of None \<Rightarrow> NaN | Some n \<Rightarrow> Fin (of_nat n))"

text \<open>The exponent part: \<open>e\<close>, an optional sign and digits up to the end of the string.\<close>

definition exponent_part :: "string \<Rightarrow> int option" where
  "exponent_part s = (case s of [] \<Rightarrow> Some 0
     | c # r \<Rightarrow>
        if c = CHR ''e'' \<or> c = CHR ''E'' then
          (let (sg, ds) = (case r of [] \<Rightarrow> (1, [])
                           | d # r' \<Rightarrow> if d = CHR ''-'' then (-1, r')
                                       else if d = CHR ''+'' then (1, r') else (1, r))
           in if ds \<noteq> [] \<and> list_all is_digit ds then Some (sg * int (dec_val ds)) else None)
        else None)"

definition scale10 :: "rat \<Rightarrow> int \<Rightarrow> rat" where
  "scale10 m e = (if 0 \<le> e then m * 10 ^ nat e else m / 10 ^ nat (- e))"

definition unsigned_decimal :: "string \<Rightarrow> num" where
  "unsigned_decimal s =
     (if s = ''Infinity'' then Infty True
      else
        (let ip = takeWhile is_digit s; r = dropWhile is_digit s;
             (fp, r') = (case r of [] \<Rightarrow> ([], [])
                         | c # t \<Rightarrow> if c = CHR ''.'' then (takeWhile is_digit t, dropWhile is_digit t)
                                    else ([], r))
         in if ip = [] \<and> fp = [] then NaN
            else case exponent_part r' of None \<Rightarrow> NaN
              | Some e \<Rightarrow> Fin (scale10 (of_nat (dec_val (ip @ fp))) (e - int (length fp)))))"

text \<open>\<open>ToNumber\<close> on strings.\<close>

definition to_number :: "string \<Rightarrow> num" where
  "to_number s =
     (let t = js_trim s in
      if t = [] then Fin 0
      else if starts_with ''0x'' t \<or> starts_with ''0X'' t then radix_literal 16 (drop 2 t)
      else if starts_with ''0o'' t \<or> starts_with ''0O'' t then radix_literal 8 (drop 2 t)
      else if starts_with ''0b'' t \<or> starts_with ''0B'' t then radix_literal 2 (drop 2 t)
      else if starts_with ''-'' t then neg_num (unsigned_decimal (drop 1 t))
      else if starts_with ''+'' t then unsigned_decimal (drop 1 t)
      else unsigned_decimal t)"

text \<open>
  \<open>parseInt(s)\<close> without a radix: leading white space, a sign, then \<open>0x\<close> and hexadecimal
  digits or decimal digits; what follows the digits is ignored.  \<open>None\<close> is NaN.
\<close>

definition is_hex :: "char \<Rightarrow> bool" where
  "is_hex c \<longleftrightarrow> hex_val c \<noteq> None"

definition parse_int :: "string \<Rightarrow> int option" where
  "parse_int s =
     (let t = trim_left s;
          (sg, u) = (if starts_with ''-'' t then (- 1, drop 1 t)
                     else if starts_with ''+'' t then (1, drop 1 t) else (1, t))
      in if starts_with ''0x'' u \<or> starts_with ''0X'' u then
           (let ds = takeWhile is_hex (drop 2 u)
            in if ds = [] then None else map_option (\<lambda>n. sg * int n) (radix_val 16 0 ds))
         else
           (let ds = takeWhile is_digit u
            in if ds = [] then None else Some (sg * int (dec_val ds))))"

section \<open>Decimal numerals round trip\<close>

lemma digits_trim [simp]: "list_all is_digit s \<Longrightarrow> js_trim s = s"
  by (rule js_trim_no_space) (auto simp: list_all_iff is_digit_not_space)

lemma list_all_show_nat [simp]: "list_all is_digit (show_nat n)"
  by (auto simp: list_all_iff show_nat_digits)

lemma is_digit_neq [simp]:
  "is_digit c \<Longrightarrow> c \<noteq> CHR ''-''" "is_digit c \<Longrightarrow> c \<noteq> CHR ''+''"
  "is_digit c \<Longrightarrow> c \<noteq> CHR ''x''" "is_digit c \<Longrightarrow> c \<noteq> CHR ''X''"
  "is_digit c \<Longrightarrow> c \<noteq> CHR ''o''" "is_digit c \<Longrightarrow> c \<noteq> CHR ''O''"
  "is_digit c \<Longrightarrow> c \<noteq> CHR ''b''" "is_digit c \<Longrightarrow> c \<noteq> CHR ''B''"
  "is_digit c \<Longrightarrow> c \<noteq> CHR ''I''" "is_digit c \<Longrightarrow> c \<noteq> CHR ''.''"
  by (auto simp: is_digit_def)

lemma digits_prefix:
  assumes "list_all is_digit s" and "\<not> is_digit b"
  shows "\<not> starts_with [a, b] s" "\<not> starts_with [b] s"
  using assms by (cases s; cases "tl s"; auto)+

lemma unsigned_decimal_digits:
  assumes "s \<noteq> []" and "list_all is_digit s"
  shows "unsigned_decimal s = Fin (of_nat (dec_val s))"
proof -
  have tw: "takeWhile is_digit s = s" "dropWhile is_digit s = []"
    using assms(2) by (auto simp: list_all_iff)
  have "s \<noteq> ''Infinity''"
    using assms(2) by (auto simp: is_digit_def)
  then show ?thesis
    using assms(1) by (simp add: unsigned_decimal_def exponent_part_def scale10_def tw Let_def)
qed

lemma to_number_digits:
  assumes "s \<noteq> []" and "list_all is_digit s"
  shows "to_number s = Fin (of_nat (dec_val s))"
proof -
  note d = digits_prefix [OF assms(2)]
  show ?thesis
    using assms
    by (simp add: to_number_def d unsigned_decimal_digits is_digit_def)
qed

lemma to_number_show_nat [simp]: "to_number (show_nat n) = Fin (of_nat n)"
  by (simp add: to_number_digits)

lemma parse_int_digits:
  assumes "s \<noteq> []" and "list_all is_digit s"
  shows "parse_int s = Some (int (dec_val s))"
proof -
  have tl: "trim_left s = s"
    using assms by (cases s) (auto simp: trim_left_def is_digit_not_space)
  have tw: "takeWhile is_digit s = s" using assms(2) by (auto simp: list_all_iff)
  have "\<not> is_digit (CHR ''x'')" "\<not> is_digit (CHR ''X'')"
    "\<not> is_digit (CHR ''-'')" "\<not> is_digit (CHR ''+'')" by (simp_all add: is_digit_def)
  note d = this [THEN digits_prefix(1) [OF assms(2)]] this [THEN digits_prefix(2) [OF assms(2)]]
  show ?thesis
    using assms(1) by (simp add: parse_int_def tl tw d Let_def)
qed

lemma parse_int_show_nat [simp]: "parse_int (show_nat n) = Some (int n)"
  by (simp add: parse_int_digits)

section \<open>Printing a number\<close>

text \<open>
  \<open>String(v)\<close>: an integer is printed in decimal; another rational by its decimal expansion,
  cut after 17 fractional digits (the precision of the double format).
\<close>

definition frac_digits :: "nat \<Rightarrow> rat \<Rightarrow> string" where
  "frac_digits k r =
     rev (dropWhile (\<lambda>c. c = CHR ''0'')
       (rev (map (\<lambda>i. digit_char (nat (\<lfloor>r * 10 ^ Suc i\<rfloor> mod 10))) [0..<k])))"

definition show_rat :: "rat \<Rightarrow> string" where
  "show_rat r =
     (if of_int \<lfloor>r\<rfloor> = r then show_int \<lfloor>r\<rfloor>
      else (if r < 0 then ''-'' else []) @ show_int \<lfloor>\<bar>r\<bar>\<rfloor> @ ''.'' @
           frac_digits 17 (\<bar>r\<bar> - of_int \<lfloor>\<bar>r\<bar>\<rfloor>))"

fun show_num :: "num \<Rightarrow> string" where
  "show_num NaN = ''NaN''"
| "show_num (Infty b) = (if b then ''Infinity'' else ''-Infinity'')"
| "show_num (Fin r) = show_rat r"

lemma show_num_nat [simp]: "show_num (Fin (of_nat n)) = show_nat n"
  by (simp add: show_rat_def show_int_def)

end
