(* ===== verification/Js_Value.thy ===== *)
theory Js_Value
  imports Js_Number "HOL-Library.AList"
begin

text \<open>
  JavaScript values as far as they can be exchanged as JSON, with the conversions and the loose
  equality of the language, and the lodash operations on objects that the sources use
  (\<open>_.get\<close>, \<open>_.set\<close>, \<open>_.unset\<close>, \<open>_.hasIn\<close>, \<open>_.assign\<close>, \<open>_.isEmpty\<close>, \<open>_.isEqual\<close>) as documented.
  An object is the list of its own properties in insertion order.  Inherited properties, and named
  properties on arrays, are not modelled.
\<close>

datatype jsval =
    JUndef
  | JNull
  | JBool bool
  | JNum num
  | JStr string
  | JArr "jsval list"
  | JObj "(string \<times> jsval) list"

section \<open>Conversions\<close>

fun is_object :: "jsval \<Rightarrow> bool" where
  "is_object (JArr vs) = True"
| "is_object (JObj kvs) = True"
| "is_object v = False"

definition nullish :: "jsval \<Rightarrow> bool" where
  "nullish v \<longleftrightarrow> v = JUndef \<or> v = JNull"

lemma nullish_simps [simp]:
  "nullish JUndef" "nullish JNull" "\<not> nullish (JBool b)" "\<not> nullish (JNum n)"
  "\<not> nullish (JStr s)" "\<not> nullish (JArr vs)" "\<not> nullish (JObj kvs)"
  by (simp_all add: nullish_def)

text \<open>\<open>String(v)\<close>, which is also what \<open>+\<close> with a string appends.\<close>

fun js_str :: "jsval \<Rightarrow> string" where
  "js_str JUndef = ''undefined''"
| "js_str JNull = ''null''"
| "js_str (JBool b) = (if b then ''true'' else ''false'')"
| "js_str (JNum n) = show_num n"
| "js_str (JStr s) = s"
| "js_str (JArr vs) = join_with '','' (map (\<lambda>v. if nullish v then [] else js_str v) vs)"
| "js_str (JObj kvs) = ''[object Object]''"

text \<open>\<open>+v\<close>\<close>

fun js_num :: "jsval \<Rightarrow> num" where
  "js_num JUndef = NaN"
| "js_num JNull = Fin 0"
| "js_num (JBool b) = Fin (if b then 1 else 0)"
| "js_num (JNum n) = n"
| "js_num v = to_number (js_str v)"

fun truthy :: "jsval \<Rightarrow> bool" where
  "truthy JUndef = False"
| "truthy JNull = False"
| "truthy (JBool b) = b"
| "truthy (JNum n) = (n \<noteq> NaN \<and> n \<noteq> Fin 0)"
| "truthy (JStr s) = (s \<noteq> [])"
| "truthy v = True"

definition num_eq :: "num \<Rightarrow> num \<Rightarrow> bool" where
  "num_eq m n \<longleftrightarrow> m \<noteq> NaN \<and> m = n"

text \<open>
  The loose equality \<open>v == w\<close>.  Two objects are equal only if they are the same object, which a
  value does not tell: the sources never compare two objects this way.
\<close>

definition js_eq :: "jsval \<Rightarrow> jsval \<Rightarrow> bool" where
  "js_eq v w =
     (if nullish v \<or> nullish w then nullish v \<and> nullish w
      else if is_object v \<and> is_object w then False
      else (case (v, w) of
              (JStr s, JStr t) \<Rightarrow> s = t
            | (JStr s, _) \<Rightarrow> if is_object w then s = js_str w else num_eq (js_num v) (js_num w)
            | (_, JStr t) \<Rightarrow> if is_object v then js_str v = t else num_eq (js_num v) (js_num w)
            | _ \<Rightarrow> num_eq (js_num v) (js_num w)))"

lemma js_eq_null [simp]: "js_eq v JNull = nullish v" "js_eq v JUndef = nullish v"
  by (simp_all add: js_eq_def)

lemma js_eq_str_str [simp]: "js_eq (JStr s) (JStr t) = (s = t)"
  by (simp add: js_eq_def)

section \<open>Properties and paths\<close>

fun pget :: "jsval \<Rightarrow> string \<Rightarrow> jsval" where
  "pget (JObj kvs) k = (case map_of kvs k of None \<Rightarrow> JUndef | Some v \<Rightarrow> v)"
| "pget v k = JUndef"

fun elem_at :: "jsval \<Rightarrow> nat \<Rightarrow> jsval" where
  "elem_at (JArr vs) i = (if i < length vs then vs ! i else JUndef)"
| "elem_at v i = JUndef"

fun own_props :: "jsval \<Rightarrow> (string \<times> jsval) list" where
  "own_props (JObj kvs) = kvs"
| "own_props (JArr vs) = zip (map show_nat [0..<length vs]) vs"
| "own_props (JStr s) = zip (map show_nat [0..<length s]) (map (\<lambda>c. JStr [c]) s)"
| "own_props v = []"

definition obj_keys :: "jsval \<Rightarrow> string list" where
  "obj_keys v = map fst (own_props v)"

fun get_path :: "jsval \<Rightarrow> string list \<Rightarrow> jsval" where
  "get_path v [] = v"
| "get_path v (k # ks) = get_path (pget v k) ks"

definition as_obj :: "jsval \<Rightarrow> jsval" where
  "as_obj v = (if is_object v then v else JObj [])"

fun set_path :: "jsval \<Rightarrow> string list \<Rightarrow> jsval \<Rightarrow> jsval" where
  "set_path v [] w = v"
| "set_path (JObj kvs) [k] w = JObj (AList.update k w kvs)"
| "set_path (JObj kvs) (k # l # ks) w =
     JObj (AList.update k (set_path (as_obj (pget (JObj kvs) k)) (l # ks) w) kvs)"
| "set_path v ks w = v"

fun unset_path :: "jsval \<Rightarrow> string list \<Rightarrow> jsval" where
  "unset_path v [] = v"
| "unset_path (JObj kvs) [k] = JObj (AList.delete k kvs)"
| "unset_path (JObj kvs) (k # l # ks) =
     (case map_of kvs k of None \<Rightarrow> JObj kvs
      | Some x \<Rightarrow> JObj (AList.update k (unset_path x (l # ks)) kvs))"
| "unset_path v ks = v"

fun has_path :: "jsval \<Rightarrow> string list \<Rightarrow> bool" where
  "has_path v [] = False"
| "has_path v [k] = (k \<in> set (obj_keys v))"
| "has_path v (k # l # ks) = (k \<in> set (obj_keys v) \<and> has_path (pget v k) (l # ks))"

text \<open>A path string names a property of the object itself, if it has one, and a nested one otherwise.\<close>

definition cast_path :: "jsval \<Rightarrow> string \<Rightarrow> string list" where
  "cast_path v p = (if p \<in> set (obj_keys v) then [p] else split_on CHR ''.'' p)"

definition lget :: "jsval \<Rightarrow> string \<Rightarrow> jsval" where
  "lget v p = get_path v (cast_path v p)"

definition lset :: "jsval \<Rightarrow> string \<Rightarrow> jsval \<Rightarrow> jsval" where
  "lset v p w = set_path v (cast_path v p) w"

definition lunset :: "jsval \<Rightarrow> string \<Rightarrow> jsval" where
  "lunset v p = unset_path v (cast_path v p)"

definition lhas :: "jsval \<Rightarrow> string \<Rightarrow> bool" where
  "lhas v p = has_path v (cast_path v p)"

definition assign_props :: "(string \<times> jsval) list \<Rightarrow> (string \<times> jsval) list \<Rightarrow> (string \<times> jsval) list" where
  "assign_props src kvs = foldl (\<lambda>acc (k, v). AList.update k v acc) kvs src"

fun lassign :: "jsval \<Rightarrow> jsval \<Rightarrow> jsval" where
  "lassign (JObj kvs) src = JObj (assign_props (own_props src) kvs)"
| "lassign v src = v"

fun is_empty_val :: "jsval \<Rightarrow> bool" where
  "is_empty_val (JStr s) = (s = [])"
| "is_empty_val (JArr vs) = (vs = [])"
| "is_empty_val (JObj kvs) = (kvs = [])"
| "is_empty_val v = True"

text \<open>\<open>_.isEqual\<close>: deep equality, whatever the order of the properties.\<close>

lemma jsval_size_prop: "(k, v) \<in> set kvs \<Longrightarrow> size v < Suc (size_list (size_prod (\<lambda>x. 0) size) kvs)"
  by (induction kvs) auto

function (sequential) deep_eq :: "jsval \<Rightarrow> jsval \<Rightarrow> bool" where
  "deep_eq (JObj a) (JObj b) =
     (length a = length b \<and>
      (\<forall>kv \<in> set a. case map_of b (fst kv) of None \<Rightarrow> False | Some w \<Rightarrow> deep_eq (snd kv) w))"
| "deep_eq (JArr a) (JArr b) = (length a = length b \<and> (\<forall>p \<in> set (zip a b). deep_eq (fst p) (snd p)))"
| "deep_eq v w = (v = w)"
  by pat_completeness auto
termination
proof (relation "measure (\<lambda>(v, w). size v)", goal_cases)
  case (2 a b kv w)
  then show ?case using jsval_size_prop [of "fst kv" "snd kv" a] by simp
next
  case (3 a b p)
  then have "fst p \<in> set a" by (metis in_set_zipE prod.collapse)
  then have "size (fst p) \<le> size_list size a" by (rule size_list_estimation') simp
  then show ?case by (simp add: case_prod_beta)
qed simp

section \<open>The interface of a store with paths\<close>

text \<open>
  What a client of \<open>_.get\<close>, \<open>_.set\<close> and \<open>_.unset\<close> relies on: a path that is written can be read
  back, one that is removed reads as undefined, and a path that forks off is not affected.
  \<open>settable\<close> says that a value can be stored at a path (no array in the way).
\<close>

definition forks :: "'k list \<Rightarrow> 'k list \<Rightarrow> bool" where
  "forks p q \<longleftrightarrow> (\<exists>us x xs y ys. p = us @ x # xs \<and> q = us @ y # ys \<and> x \<noteq> y)"

locale path_store =
  fixes fetch :: "'o \<Rightarrow> 'k list \<Rightarrow> 'v"
    and store :: "'o \<Rightarrow> 'k list \<Rightarrow> 'v \<Rightarrow> 'o"
    and erase :: "'o \<Rightarrow> 'k list \<Rightarrow> 'o"
    and settable :: "'o \<Rightarrow> 'k list \<Rightarrow> bool"
    and undef :: 'v
  assumes fetch_store: "settable s p \<Longrightarrow> fetch (store s p v) p = v"
    and fetch_store_fork: "forks p q \<Longrightarrow> settable s p \<Longrightarrow> fetch (store s p v) q = fetch s q"
    and fetch_erase: "settable s p \<Longrightarrow> fetch (erase s p) p = undef"
    and fetch_erase_fork: "forks p q \<Longrightarrow> fetch (erase s p) q = fetch s q"
    and settable_store: "settable s p \<Longrightarrow> settable (store s p v) p"
begin

lemma erase_store: "settable s p \<Longrightarrow> fetch (erase (store s p v) p) p = undef"
  by (simp add: fetch_erase settable_store)

lemma erase_store_fork:
  "forks p q \<Longrightarrow> settable s p \<Longrightarrow> fetch (erase (store s p v) p) q = fetch s q"
  by (simp add: fetch_erase_fork fetch_store_fork)

lemma store_store:
  "settable s p \<Longrightarrow> fetch (store (store s p v) p w) p = w"
  by (simp add: fetch_store settable_store)

end

fun can_set :: "jsval \<Rightarrow> string list \<Rightarrow> bool" where
  "can_set v [] = False"
| "can_set (JObj kvs) [k] = True"
| "can_set (JObj kvs) (k # l # ks) = can_set (as_obj (pget (JObj kvs) k)) (l # ks)"
| "can_set v (k # ks) = False"

lemma forks_Cons: "forks (k # ks) (l # ls) \<longleftrightarrow> k \<noteq> l \<or> forks ks ls"
proof
  assume "forks (k # ks) (l # ls)"
  then obtain us x xs y ys
    where f: "k # ks = us @ x # xs" "l # ls = us @ y # ys" "x \<noteq> y" by (auto simp: forks_def)
  show "k \<noteq> l \<or> forks ks ls"
    using f by (cases us) (auto simp: forks_def)
next
  assume "k \<noteq> l \<or> forks ks ls"
  then show "forks (k # ks) (l # ls)"
  proof
    assume "k \<noteq> l"
    then show ?thesis unfolding forks_def by (metis append_Nil)
  next
    assume "forks ks ls"
    then obtain us x xs y ys where f: "ks = us @ x # xs" "ls = us @ y # ys" "x \<noteq> y"
      by (auto simp: forks_def)
    show ?thesis
    proof (cases "k = l")
      case True
      with f have "k # ks = (k # us) @ x # xs" "l # ls = (k # us) @ y # ys" by simp_all
      then show ?thesis unfolding forks_def using f(3) by blast
    next
      case False
      then show ?thesis unfolding forks_def by (metis append_Nil)
    qed
  qed
qed

lemma not_forks_Nil [simp]: "\<not> forks [] q" "\<not> forks p []"
  by (simp_all add: forks_def)

lemma pget_update [simp]:
  "pget (JObj (AList.update k v kvs)) l = (if l = k then v else pget (JObj kvs) l)"
  by (simp add: update_conv')

lemma pget_delete [simp]:
  "pget (JObj (AList.delete k kvs)) l = (if l = k then JUndef else pget (JObj kvs) l)"
  by (simp add: delete_conv')

declare pget.simps(1) [simp del]

lemma get_path_undef [simp]: "get_path JUndef ks = JUndef"
  by (induction ks) auto

lemma get_path_as_obj: "forks p q \<Longrightarrow> \<not> is_object v \<Longrightarrow> get_path (as_obj v) q = get_path v q"
  by (cases q; cases v) (auto simp: as_obj_def pget.simps)

lemma get_set_path: "can_set v ks \<Longrightarrow> get_path (set_path v ks w) ks = w"
  by (induction v ks w rule: set_path.induct) auto

lemma get_set_path_fork:
  "forks ks q \<Longrightarrow> can_set v ks \<Longrightarrow> get_path (set_path v ks w) q = get_path v q"
proof (induction v ks w arbitrary: q rule: set_path.induct)
  case (2 kvs k w)
  then show ?case by (cases q) (auto simp: forks_Cons)
next
  case (3 kvs k l ks w)
  obtain m ms where q: "q = m # ms" using "3.prems"(1) by (cases q) auto
  show ?case
  proof (cases "m = k")
    case True
    with "3.prems" q have f: "forks (l # ks) ms" by (simp add: forks_Cons)
    have "get_path (set_path (as_obj (pget (JObj kvs) k)) (l # ks) w) ms
        = get_path (as_obj (pget (JObj kvs) k)) ms"
      by (rule "3.IH" [OF f]) (use "3.prems" in simp)
    also have "\<dots> = get_path (pget (JObj kvs) k) ms"
      using get_path_as_obj [OF f] by (cases "is_object (pget (JObj kvs) k)") (auto simp: as_obj_def)
    finally show ?thesis by (simp add: q True)
  next
    case False
    then show ?thesis by (simp add: q)
  qed
qed auto

lemma get_unset_path: "can_set v ks \<Longrightarrow> get_path (unset_path v ks) ks = JUndef"
proof (induction v ks rule: unset_path.induct)
  case (3 kvs k l ks)
  show ?case
  proof (cases "map_of kvs k")
    case None
    then have "pget (JObj kvs) k = JUndef" by (simp add: pget.simps)
    then show ?thesis by (simp add: None pget.simps)
  next
    case (Some x)
    then have x: "pget (JObj kvs) k = x" by (simp add: pget.simps)
    show ?thesis
    proof (cases "is_object x")
      case True
      then have "can_set x (l # ks)" using "3.prems" x by (simp add: as_obj_def)
      then show ?thesis using "3.IH" Some by simp
    next
      case False
      then have "pget (unset_path x (l # ks)) l = JUndef" by (cases x) auto
      then show ?thesis using Some by simp
    qed
  qed
qed auto

lemma get_unset_path_fork: "forks ks q \<Longrightarrow> get_path (unset_path v ks) q = get_path v q"
proof (induction v ks arbitrary: q rule: unset_path.induct)
  case (2 kvs k)
  then show ?case by (cases q) (auto simp: forks_Cons)
next
  case (3 kvs k l ks)
  obtain m ms where q: "q = m # ms" using "3.prems"(1) by (cases q) auto
  show ?case
  proof (cases "map_of kvs k")
    case None
    then show ?thesis by simp
  next
    case (Some x)
    then have x: "pget (JObj kvs) k = x" by (simp add: pget.simps)
    show ?thesis
    proof (cases "m = k")
      case True
      with "3.prems" q have "forks (l # ks) ms" by (simp add: forks_Cons)
      then show ?thesis using "3.IH" [OF Some] by (simp add: Some q True x)
    next
      case False
      then show ?thesis by (simp add: Some q)
    qed
  qed
qed auto

lemma can_set_set_path: "can_set v ks \<Longrightarrow> can_set (set_path v ks w) ks"
proof (induction v ks w rule: set_path.induct)
  case (3 kvs k l ks w)
  have "is_object (set_path (as_obj (pget (JObj kvs) k)) (l # ks) w)"
    using "3.prems" by (cases "as_obj (pget (JObj kvs) k)"; cases ks) auto
  then show ?case using 3 by (simp add: as_obj_def)
qed auto

interpretation js_store: path_store get_path set_path unset_path can_set JUndef
  by unfold_locales
    (simp_all add: get_set_path get_set_path_fork get_unset_path get_unset_path_fork can_set_set_path)

section \<open>Objects with distinct keys\<close>

text \<open>Every object has each key once: kept by all operations that build objects.\<close>

fun wf_val :: "jsval \<Rightarrow> bool" where
  "wf_val (JObj kvs) = (distinct (map fst kvs) \<and> (\<forall>kv \<in> set kvs. wf_val (snd kv)))"
| "wf_val (JArr vs) = (\<forall>v \<in> set vs. wf_val v)"
| "wf_val v = True"

lemma set_update_subset: "set (AList.update k v kvs) \<subseteq> insert (k, v) (set kvs)"
  by (induction kvs) auto

lemma wf_pget: "wf_val v \<Longrightarrow> wf_val (pget v k)"
  by (cases v) (auto simp: pget.simps split: option.splits dest!: map_of_SomeD)

lemma wf_update:
  "wf_val (JObj kvs) \<Longrightarrow> wf_val v \<Longrightarrow> wf_val (JObj (AList.update k v kvs))"
  using set_update_subset [of k v kvs] by (auto simp: distinct_update)

lemma wf_delete: "wf_val (JObj kvs) \<Longrightarrow> wf_val (JObj (AList.delete k kvs))"
proof -
  assume w: "wf_val (JObj kvs)"
  have "set (AList.delete k kvs) \<subseteq> set kvs" by (auto simp: AList.delete_eq)
  with w show ?thesis by (auto simp: distinct_delete)
qed

lemma wf_set_path: "wf_val v \<Longrightarrow> wf_val w \<Longrightarrow> wf_val (set_path v ks w)"
proof (induction v ks w rule: set_path.induct)
  case (3 kvs k l ks w)
  have "wf_val (as_obj (pget (JObj kvs) k))"
    using wf_pget [OF "3.prems"(1)] by (simp add: as_obj_def)
  then show ?case using 3 wf_update by simp
qed (auto simp: wf_update simp del: wf_val.simps(1))

end
