(* ===== verification/Js_Json.thy ===== *)
theory Js_Json
  imports Js_Value
begin

text \<open>\<open>JSON.stringify\<close> and \<open>JSON.parse\<close> of the language's library, on the values of \<open>Js_Value\<close>.\<close>

section \<open>Printing\<close>

definition hex_digit :: "nat \<Rightarrow> char" where
  "hex_digit d = (if d < 10 then char_of (48 + d) else char_of (87 + d))"

definition json_char :: "char \<Rightarrow> string" where
  "json_char c =
     (if c = CHR 0x22 then [CHR 0x5C, CHR 0x22]
      else if c = CHR 0x5C then [CHR 0x5C, CHR 0x5C]
      else if c = CHR 0x08 then [CHR 0x5C, CHR ''b'']
      else if c = CHR 0x09 then [CHR 0x5C, CHR ''t'']
      else if c = CHR 0x0A then [CHR 0x5C, CHR ''n'']
      else if c = CHR 0x0C then [CHR 0x5C, CHR ''f'']
      else if c = CHR 0x0D then [CHR 0x5C, CHR ''r'']
      else if (of_char c :: nat) < 32 then
        [CHR 0x5C, CHR ''u'', CHR ''0'', CHR ''0'', hex_digit (of_char c div 16), hex_digit (of_char c mod 16)]
      else [c])"

definition json_quote :: "string \<Rightarrow> string" where
  "json_quote s = CHR 0x22 # concat (map json_char s) @ [CHR 0x22]"

fun json_str :: "jsval \<Rightarrow> string" where
  "json_str JUndef = ''null''"
| "json_str JNull = ''null''"
| "json_str (JBool b) = (if b then ''true'' else ''false'')"
| "json_str (JNum n) = (case n of Fin r \<Rightarrow> show_rat r | _ \<Rightarrow> ''null'')"
| "json_str (JStr s) = json_quote s"
| "json_str (JArr vs) = ''['' @ join_with '','' (map json_str vs) @ '']''"
| "json_str (JObj kvs) = ''{'' @ join_with '',''
     (map (\<lambda>kv. json_quote (fst kv) @ '':'' @ json_str (snd kv)) (filter (\<lambda>kv. snd kv \<noteq> JUndef) kvs)) @ ''}''"

section \<open>Parsing\<close>

definition json_space :: "char \<Rightarrow> bool" where
  "json_space c \<longleftrightarrow> c = CHR '' '' \<or> c = CHR 0x09 \<or> c = CHR 0x0A \<or> c = CHR 0x0D"

definition skip_space :: "string \<Rightarrow> string" where
  "skip_space s = dropWhile json_space s"

text \<open>A code point as UTF-8 bytes.\<close>

definition utf8_of_code :: "nat \<Rightarrow> string" where
  "utf8_of_code n =
     (if n < 128 then [char_of n]
      else if n < 2048 then [char_of (192 + n div 64), char_of (128 + n mod 64)]
      else [char_of (224 + n div 4096), char_of (128 + n div 64 mod 64), char_of (128 + n mod 64)])"

definition simple_escape :: "char \<Rightarrow> char option" where
  "simple_escape e =
     (if e = CHR 0x22 \<or> e = CHR 0x5C \<or> e = CHR ''/'' then Some e
      else if e = CHR ''b'' then Some CHR 0x08 else if e = CHR ''f'' then Some CHR 0x0C
      else if e = CHR ''n'' then Some CHR 0x0A else if e = CHR ''r'' then Some CHR 0x0D
      else if e = CHR ''t'' then Some CHR 0x09 else None)"

text \<open>The rest of a string literal after its opening quote.\<close>

fun json_unquote :: "string \<Rightarrow> (string \<times> string) option" where
  "json_unquote [] = None"
| "json_unquote (c # s) =
     (if c = CHR 0x22 then Some ([], s)
      else if c = CHR 0x5C then
        (case s of [] \<Rightarrow> None
         | e # t \<Rightarrow>
            if e = CHR ''u'' then
              (case radix_val 16 0 (take 4 t) of
                 Some n \<Rightarrow> if length t < 4 then None
                           else map_option (\<lambda>(u, r). (utf8_of_code n @ u, r)) (json_unquote (drop 4 t))
               | None \<Rightarrow> None)
            else (case simple_escape e of
                    None \<Rightarrow> None
                  | Some d \<Rightarrow> map_option (\<lambda>(u, r). (d # u, r)) (json_unquote t)))
      else if (of_char c :: nat) < 32 then None
      else map_option (\<lambda>(u, r). (c # u, r)) (json_unquote s))"

text \<open>A number: an optional minus, digits without a leading zero, a fraction and an exponent.\<close>

definition json_unsigned :: "string \<Rightarrow> (rat \<times> string) option" where
  "json_unsigned s =
     (let ip = takeWhile is_digit s; r = dropWhile is_digit s
      in if ip = [] \<or> (hd ip = CHR ''0'' \<and> length ip > 1) then None
         else (let (fp, r', ok) = (case r of c # t \<Rightarrow>
                   if c = CHR ''.'' then (takeWhile is_digit t, dropWhile is_digit t, takeWhile is_digit t \<noteq> [])
                   else ([], r, True) | [] \<Rightarrow> ([], r, True));
                   (e, r'', ok') = (case r' of c # t \<Rightarrow>
                     if c = CHR ''e'' \<or> c = CHR ''E'' then
                       (let (sg, u) = (case t of d # t' \<Rightarrow>
                              if d = CHR ''-'' then (-1, t') else if d = CHR ''+'' then (1, t') else (1, t)
                              | [] \<Rightarrow> (1, t))
                        in (sg * int (dec_val (takeWhile is_digit u)), dropWhile is_digit u,
                            takeWhile is_digit u \<noteq> []))
                     else (0, r', True) | [] \<Rightarrow> (0, r', True))
               in if ok \<and> ok' then
                    Some (scale10 (of_nat (dec_val (ip @ fp))) (e - int (length fp)), r'')
                  else None))"

definition json_number :: "string \<Rightarrow> (jsval \<times> string) option" where
  "json_number s =
     (if starts_with ''-'' s then map_option (\<lambda>(r, t). (JNum (Fin (- r)), t)) (json_unsigned (drop 1 s))
      else map_option (\<lambda>(r, t). (JNum (Fin r), t)) (json_unsigned s))"

text \<open>
  Values, the elements of an array after the first bracket, and the members of an object.  The fuel
  bounds the number of calls; the length of the text is enough (see \<open>json_parse\<close>).
\<close>

fun json_value :: "nat \<Rightarrow> string \<Rightarrow> (jsval \<times> string) option"
  and json_elems :: "nat \<Rightarrow> string \<Rightarrow> (jsval list \<times> string) option"
  and json_members :: "nat \<Rightarrow> (string \<times> jsval) list \<Rightarrow> string \<Rightarrow> ((string \<times> jsval) list \<times> string) option" where
  "json_value 0 s = None"
| "json_value (Suc n) s =
     (let t = skip_space s in
      if starts_with ''null'' t then Some (JNull, drop 4 t)
      else if starts_with ''true'' t then Some (JBool True, drop 4 t)
      else if starts_with ''false'' t then Some (JBool False, drop 5 t)
      else case t of [] \<Rightarrow> None
      | c # u \<Rightarrow>
          if c = CHR 0x22 then map_option (\<lambda>(x, r). (JStr x, r)) (json_unquote u)
          else if c = CHR ''['' then
            (if starts_with '']'' (skip_space u) then Some (JArr [], drop 1 (skip_space u))
             else map_option (\<lambda>(x, r). (JArr x, r)) (json_elems n u))
          else if c = CHR ''{'' then
            (if starts_with ''}'' (skip_space u) then Some (JObj [], drop 1 (skip_space u))
             else map_option (\<lambda>(x, r). (JObj x, r)) (json_members n [] u))
          else json_number t)"
| "json_elems 0 s = None"
| "json_elems (Suc n) s =
     (case json_value n s of None \<Rightarrow> None
      | Some (v, r) \<Rightarrow>
         (case skip_space r of [] \<Rightarrow> None
          | c # t \<Rightarrow> if c = CHR '']'' then Some ([v], t)
                     else if c = CHR '','' then map_option (\<lambda>(x, r). (v # x, r)) (json_elems n t)
                     else None))"
| "json_members 0 acc s = None"
| "json_members (Suc n) acc s =
     (case skip_space s of [] \<Rightarrow> None
      | q # s' \<Rightarrow>
        if q \<noteq> CHR 0x22 then None
        else case json_unquote s' of None \<Rightarrow> None
        | Some (k, r) \<Rightarrow>
          (case skip_space r of [] \<Rightarrow> None
           | c # t \<Rightarrow>
             if c \<noteq> CHR '':'' then None
             else case json_value n t of None \<Rightarrow> None
             | Some (v, r') \<Rightarrow>
                (case skip_space r' of [] \<Rightarrow> None
                 | d # t' \<Rightarrow> if d = CHR ''}'' then Some (AList.update k v acc, t')
                             else if d = CHR '','' then json_members n (AList.update k v acc) t'
                             else None)))"

text \<open>\<open>JSON.parse(s)\<close>: the whole text is one value; \<open>None\<close> is the exception.\<close>

definition json_parse :: "string \<Rightarrow> jsval option" where
  "json_parse s =
     (case json_value (Suc (2 * length s)) s of None \<Rightarrow> None
      | Some (v, r) \<Rightarrow> if skip_space r = [] then Some v else None)"

lemma skip_space_Cons [simp]: "\<not> json_space c \<Longrightarrow> skip_space (c # s) = c # s"
  by (simp add: skip_space_def)

lemma json_space_chars [simp]:
  "\<not> json_space CHR 0x22" "\<not> json_space CHR ''{''" "\<not> json_space CHR ''}''" "\<not> json_space CHR ''[''"
  "\<not> json_space CHR '']''" "\<not> json_space CHR '',''" "\<not> json_space CHR '':''"
  by (simp_all add: json_space_def)

end
