(* ===== verification/Browser.thy ===== *)
theory Browser
  imports Js_Json
begin

text \<open>
  The page as the scripts see it: the contents of elements (by the selector that the scripts use for
  them), the effects of the DOM library calls, the requests sent and not yet answered with the
  continuation that their answer runs, the timers, and the dialogs shown.  \<open>'h\<close> is the type of the
  click handlers that a script binds, \<open>'k\<close> that of its continuations.
\<close>

datatype http_method = GET | PUT | POST | DELETE

record request =
  req_method :: http_method
  req_url :: string
  req_body :: string

text \<open>The answer to a request: a value, or the message of an error.\<close>

datatype answer = Success jsval | Failure string

record ('h, 'k) page =
  htmls :: "string \<Rightarrow> string"
  vals :: "string \<Rightarrow> string"
  disabled :: "string \<Rightarrow> bool"
  classes :: "string \<Rightarrow> string \<Rightarrow> bool"
  css :: "string \<Rightarrow> string \<Rightarrow> string"
  shown :: "string \<Rightarrow> bool"
  handlers :: "string \<Rightarrow> 'h list"
  alerts :: "string list"
  pending :: "(request \<times> 'k) list"
  timers :: "'k list"
  reloads :: nat

definition set_html :: "string \<Rightarrow> string \<Rightarrow> ('h, 'k) page \<Rightarrow> ('h, 'k) page" where
  "set_html s t p = p\<lparr>htmls := (htmls p)(s := t)\<rparr>"

definition append_html :: "string \<Rightarrow> string \<Rightarrow> ('h, 'k) page \<Rightarrow> ('h, 'k) page" where
  "append_html s t p = set_html s (htmls p s @ t) p"

text \<open>\<open>.text(v)\<close> escapes its argument; with an undefined argument it only reads.\<close>

definition escape_char :: "char \<Rightarrow> string" where
  "escape_char c = (if c = CHR ''&'' then ''&amp;'' else if c = CHR ''<'' then ''&lt;''
     else if c = CHR ''>'' then ''&gt;'' else [c])"

definition html_escape :: "string \<Rightarrow> string" where
  "html_escape s = concat (map escape_char s)"

definition set_text :: "string \<Rightarrow> jsval \<Rightarrow> ('h, 'k) page \<Rightarrow> ('h, 'k) page" where
  "set_text s v p = (if v = JUndef then p else set_html s (html_escape (js_str v)) p)"

text \<open>\<open>.val(v)\<close>: null and undefined clear the field.\<close>

definition val_text :: "jsval \<Rightarrow> string" where
  "val_text v = (if nullish v then [] else js_str v)"

definition set_val :: "string \<Rightarrow> jsval \<Rightarrow> ('h, 'k) page \<Rightarrow> ('h, 'k) page" where
  "set_val s v p = p\<lparr>vals := (vals p)(s := val_text v)\<rparr>"

definition set_disabled :: "string \<Rightarrow> bool \<Rightarrow> ('h, 'k) page \<Rightarrow> ('h, 'k) page" where
  "set_disabled s b p = p\<lparr>disabled := (disabled p)(s := b)\<rparr>"

definition set_class :: "string \<Rightarrow> string \<Rightarrow> bool \<Rightarrow> ('h, 'k) page \<Rightarrow> ('h, 'k) page" where
  "set_class s c b p = p\<lparr>classes := (classes p)(s := (classes p s)(c := b))\<rparr>"

abbreviation add_class :: "string \<Rightarrow> string \<Rightarrow> ('h, 'k) page \<Rightarrow> ('h, 'k) page" where
  "add_class s c \<equiv> set_class s c True"

abbreviation remove_class :: "string \<Rightarrow> string \<Rightarrow> ('h, 'k) page \<Rightarrow> ('h, 'k) page" where
  "remove_class s c \<equiv> set_class s c False"

definition set_css :: "string \<Rightarrow> string \<Rightarrow> string \<Rightarrow> ('h, 'k) page \<Rightarrow> ('h, 'k) page" where
  "set_css s k v p = p\<lparr>css := (css p)(s := (css p s)(k := v))\<rparr>"

definition set_shown :: "string \<Rightarrow> bool \<Rightarrow> ('h, 'k) page \<Rightarrow> ('h, 'k) page" where
  "set_shown s b p = p\<lparr>shown := (shown p)(s := b)\<rparr>"

definition off_click :: "string \<Rightarrow> ('h, 'k) page \<Rightarrow> ('h, 'k) page" where
  "off_click s p = p\<lparr>handlers := (handlers p)(s := [])\<rparr>"

definition on_click :: "string \<Rightarrow> 'h \<Rightarrow> ('h, 'k) page \<Rightarrow> ('h, 'k) page" where
  "on_click s h p = p\<lparr>handlers := (handlers p)(s := handlers p s @ [h])\<rparr>"

definition js_alert :: "string \<Rightarrow> ('h, 'k) page \<Rightarrow> ('h, 'k) page" where
  "js_alert t p = p\<lparr>alerts := alerts p @ [t]\<rparr>"

definition send :: "http_method \<Rightarrow> string \<Rightarrow> string \<Rightarrow> 'k \<Rightarrow> ('h, 'k) page \<Rightarrow> ('h, 'k) page" where
  "send m u b k p = p\<lparr>pending := pending p @ [(\<lparr>req_method = m, req_url = u, req_body = b\<rparr>, k)]\<rparr>"

definition set_timer :: "'k \<Rightarrow> ('h, 'k) page \<Rightarrow> ('h, 'k) page" where
  "set_timer k p = p\<lparr>timers := timers p @ [k]\<rparr>"

definition reload :: "('h, 'k) page \<Rightarrow> ('h, 'k) page" where
  "reload p = p\<lparr>reloads := Suc (reloads p)\<rparr>"

text \<open>Removal of the \<open>i\<close>-th pending request, when its answer arrives.\<close>

definition take_pending :: "nat \<Rightarrow> ('h, 'k) page \<Rightarrow> ('h, 'k) page" where
  "take_pending i p = p\<lparr>pending := take i (pending p) @ drop (Suc i) (pending p)\<rparr>"

lemmas page_defs = set_html_def append_html_def set_text_def set_val_def set_disabled_def set_class_def
  set_css_def set_shown_def off_click_def on_click_def js_alert_def send_def set_timer_def reload_def
  take_pending_def

section \<open>What each call leaves alone\<close>

text \<open>Reading a field of the page after a call: one conditional equation for each pair.\<close>

named_theorems page_simps \<open>the fields of a page after a DOM call\<close>

lemma htmls_simps [page_simps]:
  "htmls (set_html s t p) r = (if r = s then t else htmls p r)"
  "htmls (append_html s t p) r = (if r = s then htmls p s @ t else htmls p r)"
  "htmls (set_val s v p) = htmls p" "htmls (set_disabled s b p) = htmls p"
  "htmls (set_class s c b p) = htmls p" "htmls (set_css s k t p) = htmls p"
  "htmls (set_shown s b p) = htmls p" "htmls (off_click s p) = htmls p"
  "htmls (on_click s h p) = htmls p" "htmls (js_alert t p) = htmls p"
  "htmls (send m u t q p) = htmls p" "htmls (set_timer q p) = htmls p" "htmls (reload p) = htmls p"
  "htmls (take_pending i p) = htmls p"
  by (simp_all add: page_defs)

lemma vals_simps [page_simps]:
  "vals (set_val s v p) r = (if r = s then val_text v else vals p r)"
  "vals (set_html s t p) = vals p" "vals (append_html s t p) = vals p" "vals (set_text s v p) = vals p"
  "vals (set_disabled s b p) = vals p" "vals (set_class s c b p) = vals p" "vals (set_css s k t p) = vals p"
  "vals (set_shown s b p) = vals p" "vals (off_click s p) = vals p" "vals (on_click s h p) = vals p"
  "vals (js_alert t p) = vals p" "vals (send m u t q p) = vals p" "vals (set_timer q p) = vals p"
  "vals (reload p) = vals p" "vals (take_pending i p) = vals p"
  by (simp_all add: page_defs)

lemma disabled_simps [page_simps]:
  "disabled (set_disabled s b p) r = (if r = s then b else disabled p r)"
  "disabled (set_html s t p) = disabled p" "disabled (append_html s t p) = disabled p"
  "disabled (set_text s v p) = disabled p" "disabled (set_val s v p) = disabled p"
  "disabled (set_class s c b p) = disabled p" "disabled (set_css s k t p) = disabled p"
  "disabled (set_shown s b p) = disabled p" "disabled (off_click s p) = disabled p"
  "disabled (on_click s h p) = disabled p" "disabled (js_alert t p) = disabled p"
  "disabled (send m u t q p) = disabled p" "disabled (set_timer q p) = disabled p"
  "disabled (reload p) = disabled p" "disabled (take_pending i p) = disabled p"
  by (simp_all add: page_defs)

lemma classes_simps [page_simps]:
  "classes (set_class s c b p) r d = (if r = s \<and> d = c then b else classes p r d)"
  "classes (set_html s t p) = classes p" "classes (append_html s t p) = classes p"
  "classes (set_text s v p) = classes p" "classes (set_val s v p) = classes p"
  "classes (set_disabled s b p) = classes p" "classes (set_css s k t p) = classes p"
  "classes (set_shown s b p) = classes p" "classes (off_click s p) = classes p"
  "classes (on_click s h p) = classes p" "classes (js_alert t p) = classes p"
  "classes (send m u t q p) = classes p" "classes (set_timer q p) = classes p"
  "classes (reload p) = classes p" "classes (take_pending i p) = classes p"
  by (simp_all add: page_defs)

lemma pending_simps [page_simps]:
  "pending (send m u t q p) = pending p @ [(\<lparr>req_method = m, req_url = u, req_body = t\<rparr>, q)]"
  "pending (set_html s t p) = pending p" "pending (append_html s t p) = pending p"
  "pending (set_text s v p) = pending p" "pending (set_val s v p) = pending p"
  "pending (set_disabled s b p) = pending p" "pending (set_class s c b p) = pending p"
  "pending (set_css s k t p) = pending p" "pending (set_shown s b p) = pending p"
  "pending (off_click s p) = pending p" "pending (on_click s h p) = pending p"
  "pending (js_alert t p) = pending p" "pending (set_timer q p) = pending p"
  "pending (reload p) = pending p"
  "pending (take_pending i p) = take i (pending p) @ drop (Suc i) (pending p)"
  by (simp_all add: page_defs)

lemma handlers_simps [page_simps]:
  "handlers (off_click s p) r = (if r = s then [] else handlers p r)"
  "handlers (on_click s h p) r = (if r = s then handlers p r @ [h] else handlers p r)"
  "handlers (set_html s t p) = handlers p" "handlers (append_html s t p) = handlers p"
  "handlers (set_text s v p) = handlers p" "handlers (set_val s v p) = handlers p"
  "handlers (set_disabled s b p) = handlers p" "handlers (set_class s c b p) = handlers p"
  "handlers (set_css s k t p) = handlers p" "handlers (set_shown s b p) = handlers p"
  "handlers (js_alert t p) = handlers p" "handlers (send m u t q p) = handlers p"
  "handlers (set_timer q p) = handlers p" "handlers (reload p) = handlers p"
  "handlers (take_pending i p) = handlers p"
  by (simp_all add: page_defs)

lemma log_simps [page_simps]:
  "alerts (js_alert t p) = alerts p @ [t]" "reloads (reload p) = Suc (reloads p)"
  "alerts (set_html s t p) = alerts p" "alerts (append_html s t p) = alerts p"
  "alerts (set_text s v p) = alerts p" "alerts (set_val s v p) = alerts p"
  "alerts (set_disabled s b p) = alerts p" "alerts (set_class s c b p) = alerts p"
  "alerts (set_css s k t p) = alerts p" "alerts (set_shown s b p) = alerts p"
  "alerts (off_click s p) = alerts p" "alerts (on_click s h p) = alerts p"
  "alerts (send m u t q p) = alerts p" "alerts (reload p) = alerts p" "alerts (set_timer q p) = alerts p"
  "alerts (take_pending i p) = alerts p"
  "reloads (set_html s t p) = reloads p" "reloads (append_html s t p) = reloads p"
  "reloads (set_text s v p) = reloads p" "reloads (set_val s v p) = reloads p"
  "reloads (set_disabled s b p) = reloads p" "reloads (set_class s c b p) = reloads p"
  "reloads (set_css s k t p) = reloads p" "reloads (set_shown s b p) = reloads p"
  "reloads (off_click s p) = reloads p" "reloads (on_click s h p) = reloads p"
  "reloads (send m u t q p) = reloads p" "reloads (js_alert t p) = reloads p"
  "reloads (set_timer q p) = reloads p" "reloads (take_pending i p) = reloads p"
  by (simp_all add: page_defs)

text \<open>A page on which nothing has happened yet.\<close>

definition blank_page :: "('h, 'k) page" where
  "blank_page = \<lparr>htmls = (\<lambda>s. []), vals = (\<lambda>s. []), disabled = (\<lambda>s. False),
     classes = (\<lambda>s c. False), css = (\<lambda>s k. []), shown = (\<lambda>s. False), handlers = (\<lambda>s. []),
     alerts = [], pending = [], timers = [], reloads = 0\<rparr>"

end
