(* ===== verification/Flow_Config.thy ===== *)
theory Flow_Config
  imports Js_Value
begin

text \<open>
  The data model of the flow table editor (\<open>flow_table_detail.js\<close>): the table of keys
  \<open>flowTableConfig\<close>, the texts shown for a flow entry, and the functions that store, remove and
  collect the actions of an entry.  A flow entry is a JavaScript object (\<open>jsval\<close>).  The paths written
  and read are those of the \<open>path_store\<close> interface.
\<close>

section \<open>The table of keys\<close>

definition field_labels :: "(string \<times> jsval) list" where
  "field_labels =
    [(''inport'', JStr [CHR 0xE5, CHR 0x85, CHR 0xA5, CHR 0xE5, CHR 0x8F, CHR 0xA3]),
     (''ethDst'', JStr ([CHR 0xE4, CHR 0xBB, CHR 0xA5, CHR 0xE5, CHR 0xA4, CHR 0xAA, CHR 0xE7, CHR 0xBD, CHR
         0x91, CHR 0xE7, CHR 0x9B, CHR 0xAE, CHR 0xE7, CHR 0x9A, CHR 0x84] @ '' MAC'')),
     (''ethSrc'', JStr ([CHR 0xE4, CHR 0xBB, CHR 0xA5, CHR 0xE5, CHR 0xA4, CHR 0xAA, CHR 0xE7, CHR 0xBD, CHR
         0x91, CHR 0xE6, CHR 0xBA, CHR 0x90] @ '' MAC'')),
     (''ethType'', JStr [CHR 0xE4, CHR 0xBB, CHR 0xA5, CHR 0xE5, CHR 0xA4, CHR 0xAA, CHR 0xE7, CHR 0xBD, CHR
         0x91, CHR 0xE7, CHR 0xB1, CHR 0xBB, CHR 0xE5, CHR 0x9E, CHR 0x8B]),
     (''vlanId'', JStr ''VLAN ID''),
     (''vlanPcp'', JStr (''VLAN '' @ [CHR 0xE4, CHR 0xBC, CHR 0x98, CHR 0xE5, CHR 0x85, CHR 0x88, CHR 0xE7,
         CHR 0xBA, CHR 0xA7])),
     (''ipDscp'', JStr ''DSCP''),
     (''ipEcn'', JStr ''ECN''),
     (''ipProto'', JStr (''IP '' @ [CHR 0xE5, CHR 0x8D, CHR 0x8F, CHR 0xE8, CHR 0xAE, CHR 0xAE, CHR 0xE7,
         CHR 0xB1, CHR 0xBB, CHR 0xE5, CHR 0x9E, CHR 0x8B])),
     (''ipv4Src'', JStr (''ipv4 '' @ [CHR 0xE6, CHR 0xBA, CHR 0x90] @ '' IP'')),
     (''ipv4Dst'', JStr (''ipv4 '' @ [CHR 0xE7, CHR 0x9B, CHR 0xAE, CHR 0xE7, CHR 0x9A, CHR 0x84] @ '' IP'')),
     (''tcpSrc'', JStr (''TCP '' @ [CHR 0xE6, CHR 0xBA, CHR 0x90, CHR 0xE7, CHR 0xAB, CHR 0xAF, CHR 0xE5,
         CHR 0x8F, CHR 0xA3])),
     (''tcpDst'', JStr (''TCP '' @ [CHR 0xE7, CHR 0x9B, CHR 0xAE, CHR 0xE7, CHR 0x9A, CHR 0x84, CHR 0xE7,
         CHR 0xAB, CHR 0xAF, CHR 0xE5, CHR 0x8F, CHR 0xA3])),
     (''udpSrc'', JStr (''UDP '' @ [CHR 0xE6, CHR 0xBA, CHR 0x90, CHR 0xE7, CHR 0xAB, CHR 0xAF, CHR 0xE5,
         CHR 0x8F, CHR 0xA3])),
     (''udpDst'', JStr (''UDP '' @ [CHR 0xE7, CHR 0x9B, CHR 0xAE, CHR 0xE7, CHR 0x9A, CHR 0x84, CHR 0xE7,
         CHR 0xAB, CHR 0xAF, CHR 0xE5, CHR 0x8F, CHR 0xA3])),
     (''arpOp'', JStr (''ARP '' @ [CHR 0xE5, CHR 0x8D, CHR 0x8F, CHR 0xE8, CHR 0xAE, CHR 0xAE, CHR 0xE7, CHR
         0xB1, CHR 0xBB, CHR 0xE5, CHR 0x9E, CHR 0x8B])),
     (''arpSpa'', JStr (''ARP '' @ [CHR 0xE5, CHR 0x8F, CHR 0x91, CHR 0xE9, CHR 0x80, CHR 0x81, CHR 0xE6,
         CHR 0x96, CHR 0xB9] @ '' IP'')),
     (''arpTpa'', JStr (''ARP '' @ [CHR 0xE5, CHR 0x8F, CHR 0x91, CHR 0xE9, CHR 0x80, CHR 0x81, CHR 0xE6,
         CHR 0x96, CHR 0xB9] @ '' MAC'')),
     (''arpSha'', JStr (''ARP '' @ [CHR 0xE7, CHR 0x9B, CHR 0xAE, CHR 0xE7, CHR 0x9A, CHR 0x84] @ '' IP'')),
     (''arpTha'', JStr (''ARP '' @ [CHR 0xE7, CHR 0x9B, CHR 0xAE, CHR 0xE7, CHR 0x9A, CHR 0x84] @ '' MAC'')),
     (''mplsLabel'', JStr (''MPLS '' @ [CHR 0xE6, CHR 0xA0, CHR 0x87, CHR 0xE7, CHR 0xAD, CHR 0xBE]))]"

definition action_labels :: "(string \<times> jsval) list" where
  "action_labels =
    [(''output'', JStr [CHR 0xE8, CHR 0xBD, CHR 0xAC, CHR 0xE5, CHR 0x87, CHR 0xBA, CHR 0xE7, CHR 0xAB, CHR
         0xAF, CHR 0xE5, CHR 0x8F, CHR 0xA3]),
     (''pushVlan'', JStr ([CHR 0xE5, CHR 0x8A, CHR 0xA0] @ '' VLAN '' @ [CHR 0xE6, CHR 0xA0, CHR 0x87, CHR
         0xE7, CHR 0xAD, CHR 0xBE])),
     (''popVlan'', JStr ([CHR 0xE5, CHR 0x8E, CHR 0xBB] @ '' VLAN '' @ [CHR 0xE6, CHR 0xA0, CHR 0x87, CHR
         0xE7, CHR 0xAD, CHR 0xBE])),
     (''pushMpls'', JStr ([CHR 0xE5, CHR 0x8A, CHR 0xA0] @ '' MPLS '' @ [CHR 0xE6, CHR 0xA0, CHR 0x87, CHR
         0xE7, CHR 0xAD, CHR 0xBE])),
     (''popMpls'', JStr ([CHR 0xE5, CHR 0x8E, CHR 0xBB] @ '' MPLS '' @ [CHR 0xE6, CHR 0xA0, CHR 0x87, CHR
         0xE7, CHR 0xAD, CHR 0xBE])),
     (''group'', JStr (''Group '' @ [CHR 0xE8, CHR 0xA1, CHR 0xA8] @ '' ID'')),
     (''setField'', JObj field_labels)]"

definition flowTableConfig :: jsval where
  "flowTableConfig = JObj
    [(''DPID'', JStr ([CHR 0xE4, CHR 0xBA, CHR 0xA4, CHR 0xE6, CHR 0x8D, CHR 0xA2, CHR 0xE6, CHR 0x9C, CHR
         0xBA] @ '' Datapath ID'')),
     (''tableId'', JStr ([CHR 0xE8, CHR 0xA1, CHR 0xA8, CHR 0xE5, CHR 0x8F, CHR 0xB7] @ ''[Default: 0]'')),
     (''idleTimeout'', JStr ([CHR 0xE7, CHR 0xA9, CHR 0xBA, CHR 0xE9, CHR 0x97, CHR 0xB2, CHR 0xE8, CHR
         0xB6, CHR 0x85, CHR 0xE6, CHR 0x97, CHR 0xB6, CHR 0xE6, CHR 0x97, CHR 0xB6, CHR 0xE9, CHR 0x97, CHR
         0xB4] @ ''[Default: 200]'')),
     (''hardTimeout'', JStr ([CHR 0xE7, CHR 0xA1, CHR 0xAC, CHR 0xE6, CHR 0x80, CHR 0xA7, CHR 0xE8, CHR
         0xB6, CHR 0x85, CHR 0xE6, CHR 0x97, CHR 0xB6, CHR 0xE6, CHR 0x97, CHR 0xB6, CHR 0xE9, CHR 0x97, CHR
         0xB4] @ ''[Default: 200]'')),
     (''priority'', JStr [CHR 0xE4, CHR 0xBC, CHR 0x98, CHR 0xE5, CHR 0x85, CHR 0x88, CHR 0xE7, CHR 0xBA,
         CHR 0xA7]),
     (''match'', JObj field_labels),
     (''instruction'', JObj
       [(''applyAction'', JObj action_labels),
        (''writeAction'', JObj action_labels),
        (''clearAction'', JStr ([CHR 0xE8, CHR 0xA1, CHR 0xA8, CHR 0xE7, CHR 0xA4, CHR 0xBA, CHR 0xE6, CHR
         0xB8, CHR 0x85, CHR 0xE7, CHR 0xA9, CHR 0xBA, CHR 0xE6, CHR 0x89, CHR 0x80, CHR 0xE6, CHR 0x9C, CHR
         0x89] @ '' Action['' @ [CHR 0xE6, CHR 0x97, CHR 0xA0, CHR 0xE9, CHR 0x9C, CHR 0x80, CHR 0xE8, CHR
         0xB5, CHR 0x8B, CHR 0xE5, CHR 0x80, CHR 0xBC] @ '']'')),
        (''gotoTable'', JStr ''table ID''),
        (''meter'', JStr ([CHR 0xE8, CHR 0xAE, CHR 0xA1, CHR 0xE9, CHR 0x87, CHR 0x8F, CHR 0xE8, CHR 0xA1,
         CHR 0xA8] @ '' ID''))])]"

section \<open>Texts of a flow entry\<close>

definition shown_value :: "jsval \<Rightarrow> bool" where
  "shown_value v \<longleftrightarrow> \<not> js_eq v JUndef \<or> \<not> js_eq v (JStr [])"

definition getMatchStr :: "jsval \<Rightarrow> string" where
  "getMatchStr config =
     foldl (\<lambda>str (k, v). if shown_value v then str @ '' '' @ k @ '':'' @ js_str v else str)
       [] (own_props (lget config ''match''))"

definition getMatchStrAutoBr :: "jsval \<Rightarrow> string" where
  "getMatchStrAutoBr config =
     (let (str, t) = foldl (\<lambda>(str, t) (k, v).
            if shown_value v then (str @ (t @ k @ '' : '' @ js_str v) @ ''<br/>'', [])
            else (str, t)) ([], []) (own_props (lget config ''match''))
      in str @ t)"

definition getOtherStr :: "jsval \<Rightarrow> string" where
  "getOtherStr config =
     foldl (\<lambda>str (k, v).
        if k \<notin> set [''uuid'', ''match'', ''instruction'', ''priority'', ''tableId''] then
          (if shown_value v then str @ '' '' @ k @ '' : '' @ js_str v @ ''<br/>'' else str)
        else str) [] (own_props config)"

section \<open>Actions of a flow entry\<close>

text \<open>\<open>key.split(".")[i]\<close>, printed: a missing piece prints as \<open>undefined\<close>.\<close>

definition key_seg :: "string \<Rightarrow> nat \<Rightarrow> string" where
  "key_seg key i =
     (case nth_opt (split_on CHR ''.'' key) i of None \<Rightarrow> ''undefined'' | Some s \<Rightarrow> s)"

definition setAction :: "jsval \<Rightarrow> string \<Rightarrow> jsval \<Rightarrow> jsval" where
  "setAction obj key v =
     (if key_seg key 0 = ''writeAction'' \<or> key_seg key 0 = ''applyAction'' then
        (if lhas flowTableConfig (''instruction.'' @ key) then lset obj (''instruction.'' @ key) v
         else lset obj (''instruction.'' @ key_seg key 0 @ ''.setField.'' @ key_seg key 1) v)
      else lset obj (''instruction.'' @ key) v)"

definition unsetAction :: "jsval \<Rightarrow> string \<Rightarrow> jsval" where
  "unsetAction obj key =
     (if key_seg key 0 = ''writeAction'' \<or> key_seg key 0 = ''applyAction'' then
        (if lhas flowTableConfig (''instruction.'' @ key) then lunset obj (''instruction.'' @ key)
         else lunset obj (''instruction.'' @ key_seg key 0 @ ''.setField.'' @ key_seg key 1))
      else lunset obj (''instruction.'' @ key))"

definition delete_key :: "string \<Rightarrow> jsval \<Rightarrow> jsval" where
  "delete_key k v = (case v of JObj kvs \<Rightarrow> JObj (AList.delete k kvs) | _ \<Rightarrow> v)"

definition getActionObj :: "jsval \<Rightarrow> jsval" where
  "getActionObj config =
     (let obj = JObj [];
          obj = lassign obj (lget config ''instruction'');
          obj = lassign obj (lget config ''instruction.applyAction'');
          obj = lassign obj (lget config ''instruction.applyAction.setField'');
          obj = lassign obj (lget config ''instruction.writeAction'');
          obj = lassign obj (lget config ''instruction.writeAction.setField'');
          obj = delete_key ''applyAction'' obj;
          obj = delete_key ''writeAction'' obj;
          obj = delete_key ''setField'' obj
      in foldl (\<lambda>o' (k, v). if v = JStr [] \<or> v = JUndef then delete_key k o' else o')
           obj (own_props obj))"

definition getActionStr :: "jsval \<Rightarrow> string" where
  "getActionStr config =
     foldl (\<lambda>str (k, v). str @ '' '' @ k @ '' <i class='icon-arrow-left'></i> '' @ js_str v)
       [] (own_props (getActionObj config))"

definition getActionStrAutoBr :: "jsval \<Rightarrow> string" where
  "getActionStrAutoBr config =
     foldl (\<lambda>str (k, v). str @ '' '' @ k @ ''  <i class='icon-arrow-left'></i>  '' @ js_str v @ ''<br/>'')
       [] (own_props (getActionObj config))"

definition getMatchKeys :: "string list" where
  "getMatchKeys = obj_keys (lget flowTableConfig ''match'')"

definition getActionKeys :: "string list" where
  "getActionKeys =
     (let r = foldl (\<lambda>r (k, v). if k \<noteq> ''setField'' then r @ [k] else r) []
                (own_props (lget flowTableConfig ''instruction.applyAction''))
      in foldl (\<lambda>r (k, v). r @ [k]) r
           (own_props (lget flowTableConfig ''instruction.applyAction.setField'')))"

text \<open>The values of the options in the two action menus (\<open>actionGroup\<close> has one group).\<close>

definition actionGroup :: "string list" where
  "actionGroup = [''applyAction'']"

definition instruction_keys :: "string list" where
  "instruction_keys =
     filter (\<lambda>k. k \<noteq> ''applyAction'' \<and> k \<noteq> ''writeAction'')
       (obj_keys (lget flowTableConfig ''instruction''))"

definition action_menu :: "string list" where
  "action_menu =
     concat (map (\<lambda>g. map (\<lambda>k. g @ ''.'' @ k) getActionKeys) actionGroup) @ instruction_keys"

text \<open>
  The value that the editor shows for a key:
  \<open>_.get(c, "instruction." + key) || _.get(c, "instruction." + g + ".setField." + k)\<close>.
\<close>

definition action_value :: "jsval \<Rightarrow> string \<Rightarrow> jsval" where
  "action_value config key =
     (let v = lget config (''instruction.'' @ key)
      in if truthy v then v
         else lget config (''instruction.'' @ key_seg key 0 @ ''.setField.'' @ key_seg key 1))"

definition match_value :: "jsval \<Rightarrow> string \<Rightarrow> jsval" where
  "match_value config key = lget config (''match.'' @ key)"

section \<open>The menus\<close>

lemma getMatchKeys_eval:
  "getMatchKeys =
    [''inport'', ''ethDst'', ''ethSrc'', ''ethType'', ''vlanId'', ''vlanPcp'', ''ipDscp'', ''ipEcn'',
     ''ipProto'', ''ipv4Src'', ''ipv4Dst'', ''tcpSrc'', ''tcpDst'', ''udpSrc'', ''udpDst'', ''arpOp'',
     ''arpSpa'', ''arpTpa'', ''arpSha'', ''arpTha'', ''mplsLabel'']"
  by code_simp

lemma getActionKeys_eval:
  "getActionKeys =
    [''output'', ''pushVlan'', ''popVlan'', ''pushMpls'', ''popMpls'', ''group''] @ getMatchKeys"
  by code_simp

lemma instruction_keys_eval: "instruction_keys = [''clearAction'', ''gotoTable'', ''meter'']"
  by code_simp

section \<open>Where an action is stored\<close>

definition direct_path :: "string \<Rightarrow> string list" where
  "direct_path key = ''instruction'' # split_on CHR ''.'' key"

definition nested_path :: "string \<Rightarrow> string list" where
  "nested_path key = [''instruction'', key_seg key 0, ''setField'', key_seg key 1]"

definition is_direct :: "string \<Rightarrow> bool" where
  "is_direct key \<longleftrightarrow>
     \<not> (key_seg key 0 = ''writeAction'' \<or> key_seg key 0 = ''applyAction'') \<or>
     lhas flowTableConfig (''instruction.'' @ key)"

definition action_path :: "string \<Rightarrow> string list" where
  "action_path key = (if is_direct key then direct_path key else nested_path key)"

definition other_path :: "string \<Rightarrow> string list" where
  "other_path key = (if is_direct key then nested_path key else direct_path key)"

text \<open>An object none of whose own keys has a dot, so that a dotted path is never one key.\<close>

definition plain_obj :: "jsval \<Rightarrow> bool" where
  "plain_obj v = (case v of JObj kvs \<Rightarrow> list_all (\<lambda>k. CHR ''.'' \<notin> set k) (map fst kvs) | _ \<Rightarrow> False)"

lemma cast_path_plain:
  "plain_obj v \<Longrightarrow> CHR ''.'' \<in> set p \<Longrightarrow> cast_path v p = split_on CHR ''.'' p"
  by (auto simp: plain_obj_def cast_path_def obj_keys_def list_all_iff split: jsval.splits)

lemma key_seg_no_dot [simp]: "CHR ''.'' \<notin> set (key_seg key i)"
  using split_on_members [of "nth (split_on CHR ''.'' key) i" "CHR ''.''" key]
  by (auto simp: key_seg_def nth_opt_def)

lemma split_instruction:
  "split_on CHR ''.'' (''instruction.'' @ p) = ''instruction'' # split_on CHR ''.'' p"
  using split_on_append_sep [of "CHR ''.''" "''instruction''" p] by simp

lemma split_nested:
  "split_on CHR ''.'' (''instruction.'' @ key_seg key 0 @ ''.setField.'' @ key_seg key 1) = nested_path key"
proof -
  have "split_on CHR ''.'' (key_seg key 0 @ CHR ''.'' # (''setField'' @ CHR ''.'' # key_seg key 1)) =
    [key_seg key 0, ''setField'', key_seg key 1]"
    by (subst split_on_append_sep; simp?) (simp add: split_on_no_sep)
  then show ?thesis by (simp add: split_instruction nested_path_def del: append_Cons) simp
qed

lemma cast_direct: "plain_obj v \<Longrightarrow> cast_path v (''instruction.'' @ key) = direct_path key"
  by (subst cast_path_plain) (simp_all only: split_instruction direct_path_def, simp)

lemma cast_nested:
  "plain_obj v \<Longrightarrow>
     cast_path v (''instruction.'' @ key_seg key 0 @ ''.setField.'' @ key_seg key 1) = nested_path key"
  by (subst cast_path_plain) (simp_all only: split_nested, simp)

lemma setAction_path: "plain_obj obj \<Longrightarrow> setAction obj key v = set_path obj (action_path key) v"
  unfolding setAction_def lset_def by (simp only: cast_nested) (simp only: cast_direct action_path_def is_direct_def, simp)

lemma unsetAction_path: "plain_obj obj \<Longrightarrow> unsetAction obj key = unset_path obj (action_path key)"
  unfolding unsetAction_def lunset_def by (simp only: cast_nested) (simp only: cast_direct action_path_def is_direct_def, simp)

lemma action_value_path:
  "plain_obj obj \<Longrightarrow> action_value obj key =
     (let v = get_path obj (direct_path key) in if truthy v then v else get_path obj (nested_path key))"
  unfolding action_value_def lget_def by (simp only: cast_nested) (simp only: cast_direct)

lemma plain_update: "plain_obj (JObj kvs) \<Longrightarrow> CHR ''.'' \<notin> set k \<Longrightarrow> plain_obj (JObj (AList.update k v kvs))"
  using set_update_subset [of k v kvs] by (fastforce simp: plain_obj_def list_all_iff)

lemma plain_delete: "plain_obj (JObj kvs) \<Longrightarrow> plain_obj (JObj (AList.delete k kvs))"
  by (auto simp: plain_obj_def list_all_iff AList.delete_eq)

lemma plain_set_path: "plain_obj v \<Longrightarrow> ks \<noteq> [] \<Longrightarrow> CHR ''.'' \<notin> set (hd ks) \<Longrightarrow> plain_obj (set_path v ks w)"
  by (cases "(v, ks, w)" rule: set_path.cases) (auto simp: plain_update)

lemma plain_unset_path: "plain_obj v \<Longrightarrow> ks \<noteq> [] \<Longrightarrow> CHR ''.'' \<notin> set (hd ks) \<Longrightarrow> plain_obj (unset_path v ks)"
  by (cases "(v, ks)" rule: unset_path.cases) (auto simp: plain_update plain_delete split: option.splits)

lemma plain_action_path:
  "plain_obj v \<Longrightarrow> plain_obj (set_path v (action_path key) w)"
  "plain_obj v \<Longrightarrow> plain_obj (unset_path v (action_path key))"
  by (rule plain_set_path plain_unset_path; simp add: action_path_def direct_path_def nested_path_def)+

text \<open>The menu keys have pairwise forking slots; all paths of another key fork from a slot.\<close>

lemma action_menu_cases:
  assumes "k \<in> set action_menu"
  obtains (inner) x where "direct_path k = [''instruction'', ''applyAction'', x]"
      "nested_path k = [''instruction'', ''applyAction'', ''setField'', x]" "x \<noteq> ''setField''"
      "k = ''applyAction.'' @ x"
  | (outer) "direct_path k = [''instruction'', k]"
      "nested_path k = [''instruction'', k, ''setField'', ''undefined'']"
      "k \<noteq> ''applyAction''" "is_direct k"
proof -
  consider x where "k = ''applyAction.'' @ x" "x \<in> set getActionKeys" | "k \<in> set instruction_keys"
    using assms by (auto simp: action_menu_def actionGroup_def)
  then show thesis
  proof cases
    case (1 x)
    then have x: "CHR ''.'' \<notin> set x" "x \<noteq> ''setField''"
      by (auto simp: getActionKeys_eval getMatchKeys_eval)
    have "split_on CHR ''.'' k = [''applyAction'', x]"
      unfolding 1 using split_on_append_sep [of "CHR ''.''" "''applyAction''" x] x(1)
      by (simp add: split_on_no_sep)
    then show thesis
      using inner 1 x by (simp add: direct_path_def nested_path_def key_seg_def)
  next
    case 2
    then have k: "CHR ''.'' \<notin> set k" "k \<noteq> ''applyAction''" "k \<noteq> ''writeAction''"
      by (auto simp: instruction_keys_eval)
    then have "split_on CHR ''.'' k = [k]" by (simp add: split_on_no_sep)
    then show thesis
      using outer k by (simp add: direct_path_def nested_path_def key_seg_def is_direct_def)
  qed
qed

lemma menu_forks:
  assumes "k \<in> set action_menu" "l \<in> set action_menu" "k \<noteq> l"
  shows "forks (action_path k) (direct_path l)" "forks (action_path k) (nested_path l)"
  using assms(1)
  by (cases rule: action_menu_cases; use assms(2) in \<open>cases rule: action_menu_cases\<close>;
      use assms(3) in \<open>auto simp: action_path_def forks_Cons\<close>)+

lemma menu_own:
  assumes "k \<in> set action_menu"
  shows "forks (nested_path k) (direct_path k) \<or> is_direct k \<and> take 2 (nested_path k) = direct_path k"
  using assms by (cases rule: action_menu_cases) (auto simp: forks_Cons)

lemma forks_sym: "forks p q \<longleftrightarrow> forks q p"
  unfolding forks_def by blast

lemma get_path_append: "get_path v (p @ q) = get_path (get_path v p) q"
  by (induction p arbitrary: v) auto

lemma action_value_cases:
  assumes "plain_obj obj" "\<not> truthy (get_path obj (other_path key))"
  shows "truthy (get_path obj (action_path key)) \<Longrightarrow> action_value obj key = get_path obj (action_path key)"
    and "\<not> truthy (get_path obj (action_path key)) \<Longrightarrow> \<not> truthy (action_value obj key)"
  using assms by (auto simp: action_value_path Let_def action_path_def other_path_def split: if_splits)

section \<open>The collected actions\<close>

lemma wf_get_path: "wf_val v \<Longrightarrow> wf_val (get_path v ks)"
  by (induction v ks rule: get_path.induct) (auto simp: wf_pget)

lemma distinct_own_props: "wf_val v \<Longrightarrow> distinct (map fst (own_props v))"
  by (cases v) (auto simp: distinct_map inj_on_def show_nat_inj map_fst_zip_take)

lemma map_of_assign_props:
  "distinct (map fst src) \<Longrightarrow> map_of (assign_props src kvs) = map_of kvs ++ map_of src"
proof (induction src arbitrary: kvs)
  case (Cons kv src)
  obtain k v where kv: "kv = (k, v)" by fastforce
  have "assign_props (kv # src) kvs = assign_props src (AList.update k v kvs)"
    by (simp add: assign_props_def kv)
  then have "map_of (assign_props (kv # src) kvs) = (map_of kvs)(k \<mapsto> v) ++ map_of src"
    using Cons by (simp add: update_conv')
  moreover have "map_of src k = None"
    using Cons.prems by (simp add: kv map_of_eq_None_iff)
  ultimately show ?case 
    by (auto simp: kv fun_eq_iff map_add_def split: option.splits)
qed (simp add: assign_props_def)

lemma distinct_assign_props: "distinct (map fst kvs) \<Longrightarrow> distinct (map fst (assign_props src kvs))"
  by (induction src arbitrary: kvs) (auto simp: assign_props_def distinct_update)

text \<open>The part \<open>p\<close> of an entry, as a map, and the layers in the order in which they are assigned.\<close>

definition layer :: "jsval \<Rightarrow> string \<Rightarrow> string \<rightharpoonup> jsval" where
  "layer config p = map_of (own_props (lget config p))"

definition blank :: "jsval \<Rightarrow> bool" where
  "blank v \<longleftrightarrow> v = JStr [] \<or> v = JUndef"

definition shown_actions :: "jsval \<Rightarrow> string \<rightharpoonup> jsval" where
  "shown_actions config k =
     (if k = ''applyAction'' \<or> k = ''writeAction'' \<or> k = ''setField'' then None
      else case (layer config ''instruction'' ++ layer config ''instruction.applyAction''
             ++ layer config ''instruction.applyAction.setField'' ++ layer config ''instruction.writeAction''
             ++ layer config ''instruction.writeAction.setField'') k of
             None \<Rightarrow> None
           | Some v \<Rightarrow> if blank v then None else Some v)"

lemma fold_delete_blank:
  "foldl (\<lambda>o' (k, v). if v = JStr [] \<or> v = JUndef then delete_key k o' else o') (JObj kvs) ps =
     JObj (foldl (\<lambda>acc k. AList.delete k acc) kvs (map fst (filter (\<lambda>(k, v). blank v) ps)))"
  by (induction ps arbitrary: kvs) (auto simp: blank_def delete_key_def)

lemma fold_delete_map:
  "map_of (foldl (\<lambda>acc k. AList.delete k acc) kvs ks) = map_of kvs |` (- set ks)"
  by (induction ks arbitrary: kvs) (auto simp: delete_conv' restrict_map_def fun_eq_iff)

lemma distinct_fold_delete:
  "distinct (map fst kvs) \<Longrightarrow> distinct (map fst (foldl (\<lambda>acc k. AList.delete k acc) kvs ks))"
  by (induction ks arbitrary: kvs) (auto simp: distinct_delete)

lemma drop_blank_map:
  assumes "distinct (map fst kvs)"
  shows "map_of (foldl (\<lambda>acc k. AList.delete k acc) kvs (map fst (filter (\<lambda>(k, v). blank v) kvs))) k =
    (case map_of kvs k of None \<Rightarrow> None | Some v \<Rightarrow> if blank v then None else Some v)"
proof -
  have "k \<in> fst ` {(k, v) \<in> set kvs. blank v} \<longleftrightarrow> (\<exists>v. map_of kvs k = Some v \<and> blank v)"
    using assms by (force simp: map_of_eq_Some_iff)
  then show ?thesis
    by (auto simp: fold_delete_map restrict_map_def split: option.splits)
qed

lemma getActionObj_layers:
  "getActionObj config = JObj (let kvs =
      AList.delete ''setField'' (AList.delete ''writeAction'' (AList.delete ''applyAction''
        (assign_props (own_props (lget config ''instruction.writeAction.setField''))
          (assign_props (own_props (lget config ''instruction.writeAction''))
            (assign_props (own_props (lget config ''instruction.applyAction.setField''))
              (assign_props (own_props (lget config ''instruction.applyAction''))
                (assign_props (own_props (lget config ''instruction'')) [])))))))
     in foldl (\<lambda>acc k. AList.delete k acc) kvs (map fst (filter (\<lambda>(k, v). blank v) kvs)))"
  by (simp add: getActionObj_def Let_def delete_key_def fold_delete_blank)

lemma getActionObj_distinct: "distinct (map fst (own_props (getActionObj config)))"
  by (simp add: getActionObj_layers Let_def distinct_fold_delete distinct_delete distinct_assign_props)

lemma getActionObj_map:
  assumes "wf_val config"
  shows "map_of (own_props (getActionObj config)) = shown_actions config"
proof
  fix k
  have d: "distinct (map fst (own_props (lget config p)))" for p
    unfolding lget_def by (intro distinct_own_props wf_get_path assms)
  show "map_of (own_props (getActionObj config)) k = shown_actions config k"
    unfolding getActionObj_layers Let_def own_props.simps
    by (subst drop_blank_map)
      (simp_all add: distinct_delete distinct_assign_props map_of_assign_props d delete_conv'
         shown_actions_def layer_def)
qed

section \<open>Properties\<close>

text \<open>
  C36: the action editor reads back what it writes.  For every key of the action menu, a value stored
  with \<open>setAction\<close> is the value that the key-change handler then displays for that key, and for
  every other key of the menu the displayed value does not change.  (The entry is an object without
  dotted keys in which the slot can be set and the alternative slot of the key is not in use.)
\<close>

theorem action_slot_write:
  assumes "plain_obj obj" and "key \<in> set action_menu" and "can_set obj (action_path key)"
    and "\<not> truthy (get_path obj (other_path key))" and "truthy v"
  shows "action_value (setAction obj key v) key = v \<and>
    (key' \<in> set action_menu \<longrightarrow> key' \<noteq> key \<longrightarrow>
       action_value (setAction obj key v) key' = action_value obj key')"
proof -
  let ?obj = "set_path obj (action_path key) v"
  note pl = plain_action_path(1) [OF assms(1), of key v]
  have self: "get_path ?obj (action_path key) = v" using assms(3) by (rule js_store.fetch_store)
  have "\<not> truthy (get_path ?obj (other_path key)) \<or> is_direct key"
    using menu_own [OF assms(2)] js_store.fetch_store_fork assms(3,4)
    by (auto simp: action_path_def other_path_def split: if_splits)
  then have "action_value ?obj key = v"
    unfolding action_value_path [OF pl] Let_def
    using self assms(5) by (auto simp: action_path_def other_path_def split: if_splits)
  moreover have "action_value ?obj key' = action_value obj key'"
    if "key' \<in> set action_menu" "key' \<noteq> key"
    using menu_forks [OF assms(2) that(1) that(2) [symmetric]]
    by (simp add: action_value_path [OF pl] action_value_path [OF assms(1)] Let_def
        js_store.fetch_store_fork [OF _ assms(3)])
  ultimately show ?thesis by (simp add: setAction_path [OF assms(1)])
qed

text \<open>
  Removing an action with \<open>unsetAction\<close> (the value field left blank) empties exactly its slot: the
  displayed value of the key is empty afterwards and those of the other keys of the menu are unchanged.
\<close>

theorem action_slot_remove:
  assumes "plain_obj obj" and "key \<in> set action_menu" and "can_set obj (action_path key)"
    and "\<not> truthy (get_path obj (other_path key))"
  shows "\<not> truthy (action_value (unsetAction obj key) key) \<and>
    (key' \<in> set action_menu \<longrightarrow> key' \<noteq> key \<longrightarrow>
       action_value (unsetAction obj key) key' = action_value obj key')"
proof -
  let ?obj = "unset_path obj (action_path key)"
  note pl = plain_action_path(2) [OF assms(1), of key]
  have self: "get_path ?obj (action_path key) = JUndef" using assms(3) by (rule js_store.fetch_erase)
  have "\<not> truthy (get_path ?obj (other_path key))"
  proof (cases "forks (nested_path key) (direct_path key)")
    case True
    then have "forks (action_path key) (other_path key)"
      using forks_sym by (auto simp: action_path_def other_path_def)
    then show ?thesis using js_store.fetch_erase_fork assms(4) by simp
  next
    case False
    then have "is_direct key" "nested_path key = direct_path key @ drop 2 (nested_path key)"
      using menu_own [OF assms(2)] append_take_drop_id [of 2 "nested_path key"] by auto
    then have "get_path ?obj (other_path key) = JUndef"
      using self get_path_append get_path_undef by (metis action_path_def other_path_def)
    then show ?thesis by simp
  qed
  then have "\<not> truthy (action_value ?obj key)"
    using action_value_cases(2) [OF pl] self by simp
  moreover have "action_value ?obj key' = action_value obj key'"
    if "key' \<in> set action_menu" "key' \<noteq> key"
    using menu_forks [OF assms(2) that(1) that(2) [symmetric]]
    by (simp add: action_value_path [OF pl] action_value_path [OF assms(1)] Let_def
        js_store.fetch_erase_fork)
  ultimately show ?thesis by (simp add: unsetAction_path [OF assms(1)])
qed

text \<open>
  C18: the actions shown for an entry are the merge of its five action layers, later layers first:
  \<open>getActionObj\<close> implements the map \<open>shown_actions\<close>, which has no container key and no blank value.
\<close>

theorem getActionObj_refines:
  assumes "wf_val config"
  shows "map_of (own_props (getActionObj config)) = shown_actions config \<and>
    distinct (map fst (own_props (getActionObj config)))"
  using getActionObj_map [OF assms] getActionObj_distinct by simp

definition sample_flow :: jsval where
  "sample_flow = JObj [(''tableId'', JNum (Fin 0)), (''uuid'', JStr ''7''),
     (''match'', JObj [(''inport'', JStr ''1'')]),
     (''instruction'', JObj
       [(''applyAction'', JObj [(''output'', JStr ''3''), (''setField'', JObj [(''vlanId'', JStr [])])]),
        (''gotoTable'', JStr ''2'')])]"

lemma action_slot_write_witness:
  "action_value (setAction sample_flow ''applyAction.ethDst'' (JStr ''00:00:00:00:00:01''))
     ''applyAction.ethDst'' = JStr ''00:00:00:00:00:01'' \<and>
   action_value (setAction sample_flow ''applyAction.ethDst'' (JStr ''00:00:00:00:00:01''))
     ''applyAction.output'' = JStr ''3''"
proof -
  have h: "plain_obj sample_flow" "''applyAction.ethDst'' \<in> set action_menu"
    "''applyAction.output'' \<in> set action_menu"
    "can_set sample_flow (action_path ''applyAction.ethDst'')"
    "\<not> truthy (get_path sample_flow (other_path ''applyAction.ethDst''))"
    "action_value sample_flow ''applyAction.output'' = JStr ''3''"
    by code_simp+
  show ?thesis
    using action_slot_write [OF h(1,2,4,5), of "JStr ''00:00:00:00:00:01''" "''applyAction.output''"] h(3,6)
    by simp
qed

lemma action_slot_remove_witness:
  "\<not> truthy (action_value (unsetAction sample_flow ''applyAction.output'') ''applyAction.output'') \<and>
   action_value (unsetAction sample_flow ''applyAction.output'') ''gotoTable'' = JStr ''2''"
proof -
  have h: "plain_obj sample_flow" "''applyAction.output'' \<in> set action_menu" "''gotoTable'' \<in> set action_menu"
    "can_set sample_flow (action_path ''applyAction.output'')"
    "\<not> truthy (get_path sample_flow (other_path ''applyAction.output''))"
    "action_value sample_flow ''gotoTable'' = JStr ''2''"
    by code_simp+
  show ?thesis
    using action_slot_remove [OF h(1,2,4,5), of "''gotoTable''"] h(3,6) by simp
qed

lemma getActionObj_refines_witness:
  "map_of (own_props (getActionObj sample_flow)) = shown_actions sample_flow \<and>
   shown_actions sample_flow ''output'' = Some (JStr ''3'') \<and> shown_actions sample_flow ''vlanId'' = None"
proof -
  have "wf_val sample_flow" by code_simp
  moreover have "shown_actions sample_flow ''output'' = Some (JStr ''3'')"
    "shown_actions sample_flow ''vlanId'' = None" by code_simp+
  ultimately show ?thesis using getActionObj_refines [of sample_flow] by simp
qed

end
