(* ===== verification/Flow_Table.thy ===== *)
theory Flow_Table
  imports Browser Flow_Config "HOL-Library.Product_Lexorder"
begin

text \<open>
  The table of flow entries (\<open>flow_table_detail.js\<close>): the state of the page, loading and sorting the
  entries, selecting rows, and the two delete dialogs.  The DataTables widget is a list of rows with
  their selection, which is what its documented calls read and change.
\<close>

section \<open>The state of the page\<close>

record path_table =
  getFlowTabls :: string
  deleteTable :: string
  flushTable :: string
  addTable :: string
  editTable :: string
  switchInfo :: string

definition paths :: path_table where
  "paths = \<lparr>getFlowTabls = ''../gn/flow/json/'', deleteTable = ''../gn/flow/json/'',
     flushTable = ''../gn/flows/all/json/'', addTable = ''../gn/flow/json/'',
     editTable = ''../gn/flow/json/'', switchInfo = ''../gn/switch/json/''\<rparr>"

text \<open>The functions bound to buttons, and the continuations of requests and timers.\<close>

datatype fhandler = HReload | HFakeDeleteAll | HFlushAll | HDeleteSelected "jsval list"

datatype fcont =
    KSwitchInfo | KFlowTables | KFlush
  | KDelete nat jsval
  | KAdd | KEditPut | KEditDelete
  | KEditPost jsval
  | KFakeDone

text \<open>One run of the deletion of selected rows: the variables of its closure.\<close>

record del_run =
  dellist :: "jsval list"
  done_count :: nat
  run_title :: string
  run_items :: string

record flow_app =
  page :: "(fhandler, fcont) page"
  table_rows :: "(jsval list \<times> bool) list"
  flowTables :: jsval
  switchObj :: jsval
  controller :: jsval
  runs :: "del_run list"
  info_run :: "nat option"
  addConfig :: jsval
  addJSONEditor :: "jsval option"
  editConfig :: jsval
  editJSONEditor :: "jsval option"
  editUUID :: jsval
  editBeforeConfig :: jsval

definition on_page :: "((fhandler, fcont) page \<Rightarrow> (fhandler, fcont) page) \<Rightarrow> flow_app \<Rightarrow> flow_app" where
  "on_page f st = st\<lparr>page := f (page st)\<rparr>"

lemma on_page_fields [simp]:
  "page (on_page f st) = f (page st)" "table_rows (on_page f st) = table_rows st"
  "flowTables (on_page f st) = flowTables st" "switchObj (on_page f st) = switchObj st"
  "controller (on_page f st) = controller st" "runs (on_page f st) = runs st"
  "info_run (on_page f st) = info_run st" "addConfig (on_page f st) = addConfig st"
  "addJSONEditor (on_page f st) = addJSONEditor st" "editConfig (on_page f st) = editConfig st"
  "editJSONEditor (on_page f st) = editJSONEditor st" "editUUID (on_page f st) = editUUID st"
  "editBeforeConfig (on_page f st) = editBeforeConfig st"
  by (simp_all add: on_page_def)

definition with_controller :: "string \<Rightarrow> flow_app \<Rightarrow> string" where
  "with_controller url st = url @ ''?controller='' @ js_str (controller st)"

definition obj_put :: "string \<Rightarrow> jsval \<Rightarrow> jsval \<Rightarrow> jsval" where
  "obj_put k v w = (case w of JObj kvs \<Rightarrow> JObj (AList.update k v kvs) | _ \<Rightarrow> w)"

section \<open>The switch\<close>

definition updateSwitchInfo :: "flow_app \<Rightarrow> flow_app" where
  "updateSwitchInfo st = on_page (send GET
     (with_controller (switchInfo paths @ js_str (pget (switchObj st) ''dpid'')) st) [] KSwitchInfo) st"

text \<open>\<open>v.split(":")[i]\<close> of a string; undefined past the last piece.\<close>

definition colon_piece :: "string \<Rightarrow> nat \<Rightarrow> jsval" where
  "colon_piece s i = (case nth_opt (split_on CHR '':'' s) i of None \<Rightarrow> JUndef | Some w \<Rightarrow> JStr w)"

text \<open>Reading a property of null or undefined is a TypeError: the handler ends there.\<close>

definition onSwitchInfo :: "jsval \<Rightarrow> flow_app \<Rightarrow> flow_app" where
  "onSwitchInfo data st =
     (if nullish data then st else
      let sw = steps [obj_put ''hardware'' (pget data ''hwDesc''),
                      obj_put ''manufacturer'' (pget data ''mfrDesc''),
                      obj_put ''openflow'' (pget data ''openflow''),
                      obj_put ''software'' (pget data ''swDesc'')] (switchObj st)
      in case pget data ''inetAddr'' of
           JStr addr \<Rightarrow>
             (let sw' = steps [obj_put ''ip'' (colon_piece addr 0), obj_put ''port'' (colon_piece addr 1)] sw
              in on_page (steps
                   [set_text ''#info-dpid'' (pget sw' ''dpid''),
                    set_text ''#info-ip'' (pget sw' ''ip''),
                    set_text ''#info-port'' (pget sw' ''port''),
                    set_text ''#info-man'' (pget sw' ''manufacturer''),
                    set_text ''#info-soft'' (pget sw' ''software''),
                    set_text ''#info-hard'' (pget sw' ''hardware''),
                    set_text ''#info-proc'' (pget sw' ''openflow'')]) (st\<lparr>switchObj := sw'\<rparr>))
         | _ \<Rightarrow> st\<lparr>switchObj := sw\<rparr>)"

section \<open>Sorting the entries\<close>

text \<open>
  \<open>_.orderBy(fs, ["tableId", "priority"], ["asc", "desc"])\<close> is a stable sort; numbers are compared
  with NaN after all others.
\<close>

fun num_less_eq :: "num \<Rightarrow> num \<Rightarrow> bool" where
  "num_less_eq v NaN = True"
| "num_less_eq NaN w = False"
| "num_less_eq (Infty False) w = True"
| "num_less_eq v (Infty True) = True"
| "num_less_eq (Fin q) (Fin r) = (q \<le> r)"
| "num_less_eq v w = (v = w)"

instantiation num :: linorder
begin

definition less_eq_num :: "num \<Rightarrow> num \<Rightarrow> bool" where
  "less_eq_num v w = num_less_eq v w"

definition less_num :: "num \<Rightarrow> num \<Rightarrow> bool" where
  "less_num v w = (num_less_eq v w \<and> \<not> num_less_eq w v)"

instance
proof
  fix u v w :: num
  show "(u < v) = (u \<le> v \<and> \<not> v \<le> u)" by (simp add: less_eq_num_def less_num_def)
  show "u \<le> u" unfolding less_eq_num_def by (cases "(u, u)" rule: num_less_eq.cases) auto
  show "u \<le> v \<Longrightarrow> v \<le> w \<Longrightarrow> u \<le> w"
    unfolding less_eq_num_def
    by (cases "(u, v)" rule: num_less_eq.cases; cases "(v, w)" rule: num_less_eq.cases) auto
  show "u \<le> v \<Longrightarrow> v \<le> u \<Longrightarrow> u = v"
    unfolding less_eq_num_def by (cases "(u, v)" rule: num_less_eq.cases; cases u) auto
  show "u \<le> v \<or> v \<le> u"
    unfolding less_eq_num_def by (cases "(u, v)" rule: num_less_eq.cases; cases u) auto
qed

end

text \<open>The descending order.\<close>

datatype 'a desc = Desc (undesc: 'a)

instantiation desc :: (linorder) linorder
begin

definition less_eq_desc :: "'a desc \<Rightarrow> 'a desc \<Rightarrow> bool" where
  "less_eq_desc a b \<longleftrightarrow> undesc b \<le> undesc a"

definition less_desc :: "'a desc \<Rightarrow> 'a desc \<Rightarrow> bool" where
  "less_desc a b \<longleftrightarrow> undesc b < undesc a"

instance
  by standard (auto simp: less_eq_desc_def less_desc_def desc.expand)

end

definition coerce_flow :: "jsval \<Rightarrow> jsval" where
  "coerce_flow v = steps [obj_put ''tableId'' (JNum (js_num (pget v ''tableId''))),
     obj_put ''priority'' (JNum (js_num (pget v ''priority'')))] v"

definition flow_key :: "jsval \<Rightarrow> num \<times> num desc" where
  "flow_key v = (js_num (pget v ''tableId''), Desc (js_num (pget v ''priority'')))"

definition order_flows :: "jsval list \<Rightarrow> jsval list" where
  "order_flows fs = sort_key flow_key (map coerce_flow fs)"

section \<open>Loading the table\<close>

text \<open>The cell with the edit button: the entry is written as JSON into the attribute.\<close>

definition edit_button :: "jsval \<Rightarrow> string" where
  \<open>edit_button v =
     ''<div class='btn-group' role='group'> <a class='btn btn-dark btn-small' onclick='onCickEditButton(''
       @ json_str v @ '')'' @ [CHR 0x27, CHR 0x27] @ ''><i class='icon-edit'></i> Edit</a>'' @ ''</div>''\<close>

definition flow_row :: "jsval \<Rightarrow> jsval list" where
  "flow_row v =
     [JStr [], pget v ''tableId'', pget v ''priority'', JStr (getMatchStrAutoBr v),
      JStr (getActionStrAutoBr v), JStr (getOtherStr v), JStr (edit_button v), v]"

definition showFlowTables :: "jsval list list \<Rightarrow> flow_app \<Rightarrow> flow_app" where
  "showFlowTables data st = st\<lparr>table_rows := map (\<lambda>r. (r, False)) data\<rparr>"

definition getFlowTables :: "flow_app \<Rightarrow> flow_app" where
  "getFlowTables st = on_page (send GET
     (with_controller (getFlowTabls paths @ js_str (pget (switchObj st) ''dpid'')) st) [] KFlowTables) st"

text \<open>What \<open>_.each\<close> visits; setting \<open>tableId\<close> of a visited null is a TypeError.\<close>

definition flow_elements :: "jsval \<Rightarrow> jsval list" where
  "flow_elements v = (case v of JArr vs \<Rightarrow> vs | JObj kvs \<Rightarrow> map snd kvs
     | JStr s \<Rightarrow> map (\<lambda>c. JStr [c]) s | _ \<Rightarrow> [])"

definition onFlowTables :: "jsval \<Rightarrow> flow_app \<Rightarrow> flow_app" where
  "onFlowTables data st =
     (if nullish data then st
      else if js_eq (pget data ''retCode'') (JStr ''0'') \<or> js_eq (pget data ''retCode'') (JNum (Fin 0)) then
        (let fs = pget (elem_at (pget data ''switchflowentry'') 0) ''flowEntries'';
             sorted = order_flows (flow_elements fs)
         in if list_ex nullish (flow_elements fs) then st else on_page (steps [set_shown ''#datatable-table'' True,
                            set_css ''#datatable-table'' ''width'' ''100%''])
              (showFlowTables (map flow_row sorted) (st\<lparr>flowTables := JArr sorted\<rparr>)))
      else on_page (js_alert (js_str (pget data ''retMsg''))) st)"

section \<open>Selecting rows\<close>

definition selected_rows :: "flow_app \<Rightarrow> jsval list list" where
  "selected_rows st = map fst (filter snd (table_rows st))"

definition ifSelected :: "flow_app \<Rightarrow> flow_app" where
  "ifSelected st = on_page (set_disabled ''#remove-flow-btn'' (selected_rows st = [])) st"

text \<open>The handler of the \<open>select\<close> and \<open>deselect\<close> events of the table.\<close>

definition onSelectEvent :: "flow_app \<Rightarrow> flow_app" where
  "onSelectEvent st = ifSelected
     (on_page (set_class ''th.select-checkbox'' ''selected''
        (length (selected_rows st) = length (table_rows st))) st)"

definition select_all_rows :: "bool \<Rightarrow> flow_app \<Rightarrow> flow_app" where
  "select_all_rows b st = onSelectEvent (st\<lparr>table_rows := map (\<lambda>(r, _). (r, b)) (table_rows st)\<rparr>)"

text \<open>A click on the checkbox of the table head.\<close>

definition clickSelectHeader :: "flow_app \<Rightarrow> flow_app" where
  "clickSelectHeader st = ifSelected
     (if classes (page st) ''th.select-checkbox'' ''selected'' then
        on_page (remove_class ''th.select-checkbox'' ''selected'') (select_all_rows False st)
      else on_page (add_class ''th.select-checkbox'' ''selected'') (select_all_rows True st))"

text \<open>A click on the first cell of row \<open>i\<close> (the \<open>select\<close> option of the table, style \<open>multi\<close>).\<close>

definition clickRow :: "nat \<Rightarrow> flow_app \<Rightarrow> flow_app" where
  "clickRow i st =
     (if i < length (table_rows st) then
        onSelectEvent (st\<lparr>table_rows := (table_rows st)[i := apsnd Not (table_rows st ! i)]\<rparr>)
      else st)"

text \<open>The older functions \<open>selectAll\<close> (whose last call names a function that does not exist).\<close>

definition selectAll :: "bool \<Rightarrow> flow_app \<Rightarrow> flow_app" where
  "selectAll isSelect st =
     on_page (set_class ''.flow-tables .select-class'' ''checked'' isSelect) st"

section \<open>Deleting\<close>

text \<open>The markup of the dialog's messages.\<close>

definition warn_html :: "string \<Rightarrow> string" where
  \<open>warn_html t = ''<i class="icon-exclamation-sign"  style="color:#fd1212"></i><span>'' @ t @ ''</span>''\<close>

definition ok_html :: "string \<Rightarrow> string" where
  \<open>ok_html t = ''<i class="icon-ok"  style="color:#1fd057"></i><span>'' @ t @ ''</span>''\<close>

definition error_html :: "string \<Rightarrow> string" where
  \<open>error_html t = ''<i class="icon-exclamation-sign"   style="color:#fd1212"></i><span>Error: '' @ t @ ''</span>''\<close>

text \<open>The button \<open>Delete all\<close> of the older page: the confirmation sends nothing.\<close>

definition onFlowTableDelAllBtn :: "flow_app \<Rightarrow> flow_app" where
  "onFlowTableDelAllBtn st = on_page (steps
     [set_text ''#info-title'' (JStr ''Confirmation''),
      set_html ''#info-body'' (warn_html ''Delete All Flow Tables  ?''),
      set_shown ''#info-modal'' True,
      off_click ''#info-yes-btn'',
      set_disabled ''#info-yes-btn'' False,
      on_click ''#info-yes-btn'' HFakeDeleteAll]) (st\<lparr>info_run := None\<rparr>)"

definition onFakeDeleteAll :: "flow_app \<Rightarrow> flow_app" where
  "onFakeDeleteAll st = on_page (steps [set_disabled ''#info-yes-btn'' True, set_timer KFakeDone]) st"

definition onFakeDone :: "flow_app \<Rightarrow> flow_app" where
  "onFakeDone st = on_page
     (set_html ''#info-body'' (ok_html ''Successfull Delete All Flow Tables '')) (st\<lparr>info_run := None\<rparr>)"

definition onFlowTableDelBtn :: "flow_app \<Rightarrow> flow_app" where
  "onFlowTableDelBtn st =
     (if length (selected_rows st) = length (table_rows st) then
        on_page (steps
          [set_text ''#info-title'' (JStr ''Confirmation''),
           set_html ''#info-body'' (warn_html ''Delete All Flow Tables  ?''),
           set_shown ''#info-modal'' True,
           off_click ''#info-yes-btn'',
           set_disabled ''#info-yes-btn'' False,
           on_click ''#info-yes-btn'' HFlushAll]) (st\<lparr>info_run := None\<rparr>)
      else
        (let del_objs = filter (\<lambda>obj. \<not> is_empty_val obj) (map last (selected_rows st))
         in on_page (steps
              [set_text ''#info-title'' (JStr ''Confirmation''),
               off_click ''#info-yes-btn'',
               set_disabled ''#info-yes-btn'' False,
               set_html ''#info-body'' [],
               set_html ''#info-body'' (warn_html ''Delete Selected Flow Tables  ?''),
               set_shown ''#info-modal'' True,
               off_click ''#info-no-btn'',
               on_click ''#info-yes-btn'' (HDeleteSelected del_objs)]) (st\<lparr>info_run := None\<rparr>)))"

text \<open>The confirmed flush of all entries.\<close>

definition lock_dialog :: "(fhandler, fcont) page \<Rightarrow> (fhandler, fcont) page" where
  "lock_dialog = steps
     [set_disabled ''#info-yes-btn'' True, set_disabled ''#info-no-btn'' True,
      off_click ''#info-no-btn'', on_click ''#info-no-btn'' HReload]"

definition onFlushAll :: "flow_app \<Rightarrow> flow_app" where
  "onFlushAll st = on_page (steps
     [lock_dialog,
      send DELETE (with_controller (flushTable paths) st)
        (json_str (JObj [(''DPID'', pget (switchObj st) ''dpid'')])) KFlush]) st"

definition onFlushDone :: "answer \<Rightarrow> flow_app \<Rightarrow> flow_app" where
  "onFlushDone ans st =
     (case ans of
        Success res \<Rightarrow> if nullish res then st else on_page (steps
          [set_html ''#info-body''
             (if js_eq (pget res ''retCode'') (JNum (Fin 0)) then ok_html ''Successfull Delete All Flow Tables ''
              else error_html (js_str (pget res ''retMsg''))),
           set_disabled ''#info-no-btn'' False]) (st\<lparr>info_run := None\<rparr>)
      | Failure msg \<Rightarrow> on_page (steps
          [set_html ''#info-body'' (error_html msg), set_disabled ''#info-no-btn'' False])
          (st\<lparr>info_run := None\<rparr>))"

text \<open>
  The confirmed deletion of the selected entries.  The dialog shows the title and the container of the
  run; the container is a node, so lines appended to it appear while it is attached (\<open>info_run\<close>).
\<close>

definition render_run :: "nat \<Rightarrow> flow_app \<Rightarrow> flow_app" where
  "render_run r st = on_page (set_html ''#info-body''
     (run_title (runs st ! r) @ ''<div class='row-container'>'' @ run_items (runs st ! r) @ ''</div>'')) st"

definition delete_request :: "nat \<Rightarrow> flow_app \<Rightarrow> jsval \<Rightarrow> (fhandler, fcont) page \<Rightarrow> (fhandler, fcont) page" where
  "delete_request r st obj = send DELETE (with_controller (deleteTable paths) st)
     (json_str (JObj [(''DPID'', pget (switchObj st) ''dpid''), (''uuid'', pget obj ''uuid'')])) (KDelete r obj)"

definition onDeleteSelected :: "jsval list \<Rightarrow> flow_app \<Rightarrow> flow_app" where
  "onDeleteSelected objs st =
     (let r = length (runs st);
          run = \<lparr>dellist = objs, done_count = 0, run_title = warn_html ''Deleting ...  '', run_items = []\<rparr>;
          st1 = on_page lock_dialog st;
          st2 = render_run r (st1\<lparr>runs := runs st1 @ [run], info_run := Some r\<rparr>)
      in on_page (steps (map (delete_request r st) objs)) st2)"

definition item_html :: "jsval \<Rightarrow> string \<Rightarrow> string" where
  \<open>item_html obj verdict =
     ''<div class="item" >uuid: '' @ js_str (pget obj ''uuid'') @ ''-------------['' @ verdict @ '']</div>''\<close>

text \<open>The lines for an answer; a null result has no \<open>retCode\<close> to read: a TypeError, no line and no count.\<close>

definition del_lines :: "jsval \<Rightarrow> answer \<Rightarrow> string option" where
  \<open>del_lines obj ans =
     (case ans of
        Success res \<Rightarrow>
          if nullish res then None
          else if js_eq (pget res ''retCode'') (JNum (Fin 0)) then Some (item_html obj ''OK'')
          else Some (item_html obj ''Fail'' @
            ''<div class="item" >Error msg:'' @ js_str (pget res ''retMsg'') @ ''</div>'')
      | Failure msg \<Rightarrow>
          Some (item_html obj ''Fail'' @ ''<div class="item" >Error msg: '' @ msg @ ''</div>''))\<close>

definition delDone :: "nat \<Rightarrow> flow_app \<Rightarrow> flow_app" where
  "delDone r st =
     (let run = runs st ! r in
      if length (dellist run) = done_count run then
        on_page (set_disabled ''#info-no-btn'' False)
          (render_run r (st\<lparr>
             runs := (runs st)[r := run\<lparr>run_title := ok_html ''All Done , please check the result ''\<rparr>],
             info_run := Some r\<rparr>))
      else st)"

definition onDeleted :: "nat \<Rightarrow> jsval \<Rightarrow> answer \<Rightarrow> flow_app \<Rightarrow> flow_app" where
  "onDeleted r obj ans st =
     (case del_lines obj ans of
        None \<Rightarrow> st
      | Some lines \<Rightarrow>
          (let run = runs st ! r;
               run' = run\<lparr>run_items := run_items run @ lines, done_count := Suc (done_count run)\<rparr>;
               st1 = st\<lparr>runs := (runs st)[r := run']\<rparr>;
               st2 = (if info_run st1 = Some r then render_run r st1 else st1)
           in delDone r st2))"

end
