(* ===== verification/Js_Regex.thy ===== *)
theory Js_Regex
  imports DCF_Prelude
begin

text \<open>
  The fragment of regular expressions that the sources use in \<open>test\<close>: character classes,
  sequence, alternation, option and counted repetition.  A matcher returns the rests of the
  input that remain after each way to match a prefix, in the order a backtracking engine
  tries them; it is proved equal to the language of the expression.
\<close>

datatype re =
    Eps
  | Cls "char \<Rightarrow> bool"
  | Seq re re
  | Alt re re
  | Opt re

fun rests :: "re \<Rightarrow> string \<Rightarrow> string list" where
  "rests Eps s = [s]"
| "rests (Cls p) s = (case s of [] \<Rightarrow> [] | c # t \<Rightarrow> if p c then [t] else [])"
| "rests (Seq a b) s = concat (map (rests b) (rests a s))"
| "rests (Alt a b) s = rests a s @ rests b s"
| "rests (Opt a) s = rests a s @ [s]"

fun rep :: "nat \<Rightarrow> re \<Rightarrow> re" where
  "rep 0 r = Eps"
| "rep (Suc n) r = Seq r (rep n r)"

definition chr_range :: "char \<Rightarrow> char \<Rightarrow> char \<Rightarrow> bool" where
  "chr_range a b c \<longleftrightarrow> (of_char a :: nat) \<le> of_char c \<and> (of_char c :: nat) \<le> of_char b"

definition re_char :: "char \<Rightarrow> re" where
  "re_char c = Cls (\<lambda>d. d = c)"

text \<open>\<open>/^r$/.test(s)\<close>\<close>

definition re_test :: "re \<Rightarrow> string \<Rightarrow> bool" where
  "re_test r s \<longleftrightarrow> [] \<in> set (rests r s)"

text \<open>The language of an expression.\<close>

fun re_lang :: "re \<Rightarrow> string set" where
  "re_lang Eps = {[]}"
| "re_lang (Cls p) = {[c] |c. p c}"
| "re_lang (Seq a b) = {u @ v |u v. u \<in> re_lang a \<and> v \<in> re_lang b}"
| "re_lang (Alt a b) = re_lang a \<union> re_lang b"
| "re_lang (Opt a) = insert [] (re_lang a)"

lemma rests_iff: "t \<in> set (rests r s) \<longleftrightarrow> (\<exists>u \<in> re_lang r. s = u @ t)"
proof (induction r arbitrary: s t)
  case (Cls p)
  then show ?case by (cases s) auto
next
  case (Seq a b)
  show ?case
  proof
    assume "t \<in> set (rests (Seq a b) s)"
    then obtain m where "m \<in> set (rests a s)" and "t \<in> set (rests b m)" by auto
    with Seq.IH obtain u v where "u \<in> re_lang a" "s = u @ m" "v \<in> re_lang b" "m = v @ t"
      by blast
    then have "u @ v \<in> re_lang (Seq a b)" and "s = (u @ v) @ t" by auto
    then show "\<exists>u \<in> re_lang (Seq a b). s = u @ t" by blast
  next
    assume "\<exists>u \<in> re_lang (Seq a b). s = u @ t"
    then obtain u v where uv: "u \<in> re_lang a" "v \<in> re_lang b" "s = u @ (v @ t)" by auto
    then have "v @ t \<in> set (rests a s)" and "t \<in> set (rests b (v @ t))"
      using Seq.IH by blast+
    then show "t \<in> set (rests (Seq a b) s)" by auto
  qed
qed auto

lemma re_test_lang: "re_test r s \<longleftrightarrow> s \<in> re_lang r"
  by (simp add: re_test_def rests_iff)

lemma re_lang_char [simp]: "re_lang (re_char c) = {[c]}"
  by (auto simp: re_char_def)

text \<open>
  A block \<open>(r sep){n} r\<close>: the language is the joins of \<open>n + 1\<close> words of \<open>r\<close>, which are the
  pieces of \<open>split\<close> when no word of \<open>r\<close> contains the separator.
\<close>

lemma re_lang_sep_rep:
  "s \<in> re_lang (Seq (rep n (Seq r (re_char d))) r) \<longleftrightarrow>
     (\<exists>ws. length ws = Suc n \<and> (\<forall>w \<in> set ws. w \<in> re_lang r) \<and> s = join_with [d] ws)"
proof (induction n arbitrary: s)
  case 0
  show ?case
  proof
    assume "s \<in> re_lang (Seq (rep 0 (Seq r (re_char d))) r)"
    then have "s \<in> re_lang r" by simp
    then show "\<exists>ws. length ws = Suc 0 \<and> (\<forall>w \<in> set ws. w \<in> re_lang r) \<and> s = join_with [d] ws"
      by (intro exI [of _ "[s]"]) simp
  qed (auto simp: length_Suc_conv)
next
  case (Suc n)
  show ?case
  proof
    assume "s \<in> re_lang (Seq (rep (Suc n) (Seq r (re_char d))) r)"
    then obtain w u z where wuz: "w \<in> re_lang r" "s = w @ d # (u @ z)"
      "u \<in> re_lang (rep n (Seq r (re_char d)))" "z \<in> re_lang r" by auto
    define v where "v = u @ z"
    have w: "w \<in> re_lang r" "s = w @ d # v" "v \<in> re_lang (Seq (rep n (Seq r (re_char d))) r)"
      using wuz by (auto simp: v_def)
    then obtain ws where ws: "length ws = Suc n" "\<forall>x \<in> set ws. x \<in> re_lang r" "v = join_with [d] ws"
      using Suc.IH by blast
    then have "s = join_with [d] (w # ws)" using w(2) by (cases ws) auto
    with w ws show "\<exists>ws. length ws = Suc (Suc n) \<and> (\<forall>w \<in> set ws. w \<in> re_lang r) \<and> s = join_with [d] ws"
      by (intro exI [of _ "w # ws"]) simp
  next
    assume "\<exists>ws. length ws = Suc (Suc n) \<and> (\<forall>w \<in> set ws. w \<in> re_lang r) \<and> s = join_with [d] ws"
    then obtain w x ws where ws: "length (x # ws) = Suc n" "w \<in> re_lang r"
      "\<forall>y \<in> set (x # ws). y \<in> re_lang r" "s = join_with [d] (w # x # ws)"
      by (fastforce simp: length_Suc_conv)
    then have "join_with [d] (x # ws) \<in> re_lang (Seq (rep n (Seq r (re_char d))) r)"
      using Suc.IH by blast
    then obtain u v where uv: "u \<in> re_lang (rep n (Seq r (re_char d)))" "v \<in> re_lang r"
      "join_with [d] (x # ws) = u @ v" by auto
    have "(w @ [d]) @ u \<in> re_lang (rep (Suc n) (Seq r (re_char d)))"
      unfolding rep.simps re_lang.simps re_lang_char using ws(2) uv(1)
      by (intro CollectI exI [of _ "w @ [d]"] exI [of _ u]) auto
    moreover have "s = ((w @ [d]) @ u) @ v" using ws(4) uv(3) by simp
    ultimately show "s \<in> re_lang (Seq (rep (Suc n) (Seq r (re_char d))) r)"
      using uv(2) unfolding re_lang.simps(3) [of "rep (Suc n) (Seq r (re_char d))"] by blast
  qed
qed

lemma re_test_sep_rep:
  assumes "\<And>w. w \<in> re_lang r \<Longrightarrow> d \<notin> set w"
  shows "re_test (Seq (rep n (Seq r (re_char d))) r) s \<longleftrightarrow>
    length (split_on d s) = Suc n \<and> (\<forall>w \<in> set (split_on d s). w \<in> re_lang r)"
proof
  assume "re_test (Seq (rep n (Seq r (re_char d))) r) s"
  then obtain ws where ws: "length ws = Suc n" "\<forall>w \<in> set ws. w \<in> re_lang r" "s = join_with [d] ws"
    unfolding re_test_lang re_lang_sep_rep by blast
  then have "split_on d s = ws" using split_join [of ws d] assms by force
  with ws show "length (split_on d s) = Suc n \<and> (\<forall>w \<in> set (split_on d s). w \<in> re_lang r)" by simp
next
  assume *: "length (split_on d s) = Suc n \<and> (\<forall>w \<in> set (split_on d s). w \<in> re_lang r)"
  show "re_test (Seq (rep n (Seq r (re_char d))) r) s"
    unfolding re_test_lang re_lang_sep_rep
    using * join_split [of d s] by (intro exI [of _ "split_on d s"]) simp
qed

end
