(* ===== verification/Flow_Rules.thy ===== *)
theory Flow_Rules
  imports Js_Regex Js_Value
begin

text \<open>
  The validation rules of the flow table editor (\<open>flow_table_detail.js\<close>): \<open>intCheck\<close>, \<open>strCheck\<close> and
  the table \<open>checkRules\<close>, which gives each key its description and its predicate.  The two regular
  expressions of the table are characterised by the pieces between their separators.
\<close>

named_theorems rule_simps \<open>evaluation of the validation rules\<close>

section \<open>The checks\<close>

definition intCheck :: "int \<Rightarrow> int \<Rightarrow> jsval \<Rightarrow> bool" where
  "intCheck lo hi v =
     (if is_nan (js_num v) then False
      else (let v' = js_num v in
        if \<not> is_integral v' then False
        else le_num (Fin (of_int lo)) v' \<and> le_num v' (Fin (of_int hi))))"

definition strCheck :: "jsval \<Rightarrow> bool" where
  "strCheck v = (if js_eq v (JStr ''controller'') then True else False)"

definition hex_class :: re where
  "hex_class = Cls (\<lambda>c. chr_range CHR ''A'' CHR ''F'' c \<or> chr_range CHR ''a'' CHR ''f'' c \<or>
     chr_range CHR ''0'' CHR ''9'' c)"

definition digit_class :: "char \<Rightarrow> char \<Rightarrow> re" where
  "digit_class a b = Cls (chr_range a b)"

text \<open>\<open>/^([A-Fa-f0-9]{2}:){5}[A-Fa-f0-9]{2}$/\<close>\<close>

definition mac_re :: re where
  "mac_re = Seq (rep 5 (Seq (rep 2 hex_class) (re_char CHR '':''))) (rep 2 hex_class)"

text \<open>\<open>25[0-5]|2[0-4][0-9]|[01]?[0-9][0-9]?\<close>\<close>

definition octet_re :: re where
  "octet_re =
     Alt (Seq (re_char CHR ''2'') (Seq (re_char CHR ''5'') (digit_class CHR ''0'' CHR ''5'')))
    (Alt (Seq (re_char CHR ''2'') (Seq (digit_class CHR ''0'' CHR ''4'') (digit_class CHR ''0'' CHR ''9'')))
         (Seq (Opt (digit_class CHR ''0'' CHR ''1''))
            (Seq (digit_class CHR ''0'' CHR ''9'') (Opt (digit_class CHR ''0'' CHR ''9'')))))"

definition ip_re :: re where
  "ip_re = Seq (rep 3 (Seq octet_re (re_char CHR ''.''))) octet_re"

definition mac_match :: "jsval \<Rightarrow> bool" where
  "mac_match v = re_test mac_re (js_str v)"

definition ip_match :: "jsval \<Rightarrow> bool" where
  "ip_match v = re_test ip_re (js_str v)"

text \<open>
  \<open>_.indexOf(list, v) !== -1\<close> compares with \<open>===\<close>; on a string, the library indexes its characters.
\<close>

definition index_in_list :: "string list \<Rightarrow> jsval \<Rightarrow> bool" where
  "index_in_list ws v = (case v of JStr s \<Rightarrow> s \<in> set ws | _ \<Rightarrow> False)"

definition index_in_string :: "string \<Rightarrow> jsval \<Rightarrow> bool" where
  "index_in_string t v = (case v of JStr [c] \<Rightarrow> c \<in> set t | _ \<Rightarrow> False)"

record check_rule =
  des :: string
  isMatch :: "jsval \<Rightarrow> bool"

definition checkRules :: "(string \<times> check_rule) list" where
  "checkRules =
    [(''inport'', \<lparr>des = ''Accept value: 1-60 or 4294967293'',
        isMatch = (\<lambda>v. intCheck 1 60 v \<or> intCheck 4294967293 4294967293 v)\<rparr>),
     (''ethDst'', \<lparr>des = ''Accept MAC Addr: xx:xx:xx:xx:xx:xx'', isMatch = mac_match\<rparr>),
     (''ethSrc'', \<lparr>des = ''Accept MAC Addr: xx:xx:xx:xx:xx:xx'', isMatch = mac_match\<rparr>),
     (''ethType'', \<lparr>des = ''<br/>Accept value: ARP/IPV4/IPV6/MPLS/VLAN/UNKNOW'',
        isMatch = index_in_list (split_on CHR ''/'' ''ARP/IPV4/IPV6/MPLS/VLAN/UNKNOW'')\<rparr>),
     (''ipv4Src'', \<lparr>des = ''Accept IP Addr: xx.xx.xx.xx'', isMatch = ip_match\<rparr>),
     (''ipv4Dst'', \<lparr>des = ''Accept IP Addr: xx.xx.xx.xx'', isMatch = ip_match\<rparr>),
     (''ippProto'', \<lparr>des = ''Accept value: TCP/UDP/ICMP'',
        isMatch = index_in_string ''TCP/UDP/ICMP''\<rparr>),
     (''tcpSrc'', \<lparr>des = ''Accept value: 1-65535'', isMatch = intCheck 1 65535\<rparr>),
     (''udpSrc'', \<lparr>des = ''Accept value: 1-65535'', isMatch = intCheck 1 65535\<rparr>),
     (''arpOp'', \<lparr>des = ''Accept value: 1 or 2 [1-Request,2-Reply]'', isMatch = intCheck 1 2\<rparr>),
     (''arpSha'', \<lparr>des = ''Accept IP Addr: xx.xx.xx.xx'', isMatch = ip_match\<rparr>),
     (''arpSpa'', \<lparr>des = ''Accept IP Addr: xx.xx.xx.xx'', isMatch = ip_match\<rparr>),
     (''arpTpa'', \<lparr>des = ''Accept MAC Addr: xx:xx:xx:xx:xx:xx'', isMatch = mac_match\<rparr>),
     (''arpTha'', \<lparr>des = ''Accept MAC Addr: xx:xx:xx:xx:xx:xx'', isMatch = mac_match\<rparr>),
     (''output'', \<lparr>des = ''Accept value: 1-65535 or 4294967293 or controller'',
        isMatch = (\<lambda>v. intCheck 1 65535 v \<or> intCheck 4294967293 4294967293 v \<or> strCheck v)\<rparr>),
     (''gotoTable'', \<lparr>des = ''Accept value: 1-255'', isMatch = intCheck 0 255\<rparr>)]"

text \<open>\<open>checkRules[k]\<close>\<close>

definition rule_for :: "string \<Rightarrow> check_rule option" where
  "rule_for k = map_of checkRules k"

section \<open>Integer ranges\<close>

lemma intCheck_fin [rule_simps]:
  "js_num v = Fin r \<Longrightarrow> intCheck lo hi v \<longleftrightarrow> of_int \<lfloor>r\<rfloor> = r \<and> of_int lo \<le> r \<and> r \<le> of_int hi"
  by (auto simp: intCheck_def is_nan_def)

lemma intCheck_iff:
  "intCheck lo hi v \<longleftrightarrow> (\<exists>i. js_num v = Fin (of_int i) \<and> lo \<le> i \<and> i \<le> hi)"
proof
  assume "intCheck lo hi v"
  then obtain r where r: "js_num v = Fin r" "of_int \<lfloor>r\<rfloor> = r" "of_int lo \<le> r" "r \<le> of_int hi"
    by (cases "js_num v") (auto simp: intCheck_def Let_def split: if_splits)
  then show "\<exists>i. js_num v = Fin (of_int i) \<and> lo \<le> i \<and> i \<le> hi"
  proof (intro exI [of _ "\<lfloor>r\<rfloor>"] conjI)
    show "lo \<le> \<lfloor>r\<rfloor>" using r(3) by (simp add: le_floor_iff)
    show "\<lfloor>r\<rfloor> \<le> hi" by (metis r(2,4) of_int_le_iff)
  qed (simp only: r(1,2))
next
  assume "\<exists>i. js_num v = Fin (of_int i) \<and> lo \<le> i \<and> i \<le> hi"
  then show "intCheck lo hi v" by (auto simp: intCheck_def is_nan_def)
qed

lemma js_num_digits: "s \<noteq> [] \<Longrightarrow> list_all is_digit s \<Longrightarrow> js_num (JStr s) = Fin (of_nat (dec_val s))"
  by (simp add: to_number_digits)

lemma intCheck_digits:
  assumes "s \<noteq> []" "list_all is_digit s"
  shows "intCheck lo hi (JStr s) \<longleftrightarrow> lo \<le> int (dec_val s) \<and> int (dec_val s) \<le> hi"
proof -
  have "js_num (JStr s) = Fin (of_int (int (dec_val s)))" using js_num_digits [OF assms] by simp
  then show ?thesis
    unfolding intCheck_iff by (metis num.inject(2) of_int_eq_iff)
qed

section \<open>The regular expressions\<close>

lemma is_digit_range: "chr_range CHR ''0'' CHR ''9'' c \<longleftrightarrow> is_digit c"
  by (simp add: chr_range_def is_digit_def)

definition is_hex_digit :: "char \<Rightarrow> bool" where
  "is_hex_digit c \<longleftrightarrow> hex_val c \<noteq> None"

lemma hex_class_iff:
  "chr_range CHR ''A'' CHR ''F'' c \<or> chr_range CHR ''a'' CHR ''f'' c \<or> chr_range CHR ''0'' CHR ''9'' c
    \<longleftrightarrow> is_hex_digit c"
  by (auto simp: chr_range_def is_hex_digit_def hex_val_def Let_def)

lemma hex2_lang: "w \<in> re_lang (rep 2 hex_class) \<longleftrightarrow> length w = 2 \<and> list_all is_hex_digit w"
  unfolding re_test_lang [symmetric]
  by (cases w; cases "tl w"; cases "tl (tl w)")
    (auto simp: re_test_def numeral_2_eq_2 hex_class_def hex_class_iff)

lemma mac_re_test:
  "re_test mac_re s \<longleftrightarrow>
     length (split_on CHR '':'' s) = 6 \<and>
     (\<forall>w \<in> set (split_on CHR '':'' s). length w = 2 \<and> list_all is_hex_digit w)"
proof -
  have "CHR '':'' \<notin> set w" if "w \<in> re_lang (rep 2 hex_class)" for w
    using that unfolding hex2_lang by (auto simp: list_all_iff is_hex_digit_def hex_val_def)
  then show ?thesis
    unfolding mac_re_def by (subst re_test_sep_rep) (auto simp: hex2_lang)
qed

lemma digit_class_lang [simp]: "re_lang (digit_class a b) = {[c] |c. chr_range a b c}"
  by (simp add: digit_class_def)

lemma dec_val_1: "dec_val [a] = digit_val a"
  by (simp add: dec_val_def)

lemma dec_val_2: "dec_val [a, b] = 10 * digit_val a + digit_val b"
  by (simp add: dec_val_def)

lemma dec_val_3: "dec_val [a, b, c] = 100 * digit_val a + 10 * digit_val b + digit_val c"
  by (simp add: dec_val_def)

definition octet :: "string \<Rightarrow> bool" where
  "octet w \<longleftrightarrow> w \<noteq> [] \<and> length w \<le> 3 \<and> list_all is_digit w \<and> dec_val w \<le> 255"

lemma chr_range_digit:
  "chr_range CHR ''0'' CHR ''1'' c \<longleftrightarrow> is_digit c \<and> digit_val c \<le> 1"
  "chr_range CHR ''0'' CHR ''4'' c \<longleftrightarrow> is_digit c \<and> digit_val c \<le> 4"
  "chr_range CHR ''0'' CHR ''5'' c \<longleftrightarrow> is_digit c \<and> digit_val c \<le> 5"
  by (auto simp: chr_range_def is_digit_def digit_val_def)

lemma digit_lit_iff:
  "(c = CHR ''2'') \<longleftrightarrow> is_digit c \<and> digit_val c = 2" "(c = CHR ''5'') \<longleftrightarrow> is_digit c \<and> digit_val c = 5"
proof -
  have inj: "c = d \<longleftrightarrow> (of_char c :: nat) = of_char d" for d by simp
  show "(c = CHR ''2'') \<longleftrightarrow> is_digit c \<and> digit_val c = 2" "(c = CHR ''5'') \<longleftrightarrow> is_digit c \<and> digit_val c = 5"
    unfolding inj by (auto simp: is_digit_def digit_val_def)
qed

lemma digit_val_le: "is_digit c \<Longrightarrow> digit_val c \<le> 9"
  by (auto simp: is_digit_def digit_val_def)

lemma octet_short:
  "length w \<le> 2 \<Longrightarrow> list_all is_digit w \<Longrightarrow> dec_val w \<le> 255"
proof -
  assume l: "length w \<le> 2" and d: "list_all is_digit w"
  consider "w = []" | a where "w = [a]" | a b where "w = [a, b]"
    using l by (cases w; cases "tl w"; cases "tl (tl w)"; auto)
  then show ?thesis
  proof cases
    case 1 then show ?thesis by simp
  next
    case 2 then show ?thesis using d digit_val_le by (fastforce simp: dec_val_1)
  next
    case (3 a b)
    then have "digit_val a \<le> 9" "digit_val b \<le> 9" using d digit_val_le by auto
    then show ?thesis using 3 by (simp add: dec_val_2)
  qed
qed

lemma octet_re_cases:
  "w \<in> re_lang octet_re \<longleftrightarrow>
     (\<exists>a b c. w = [a, b, c] \<and> is_digit a \<and> is_digit b \<and> is_digit c \<and>
        (digit_val a = 2 \<and> digit_val b = 5 \<and> digit_val c \<le> 5 \<or>
         digit_val a = 2 \<and> digit_val b \<le> 4 \<or> digit_val a \<le> 1)) \<or>
     (\<exists>a b. w = [a, b] \<and> is_digit a \<and> is_digit b) \<or> (\<exists>a. w = [a] \<and> is_digit a)"
  unfolding re_test_lang [symmetric]
  by (cases w; cases "tl w"; cases "tl (tl w)"; cases "tl (tl (tl w))")
    (auto simp: re_test_def octet_re_def re_char_def digit_class_def is_digit_range chr_range_digit
       digit_lit_iff split: if_splits)

lemma octet_lang: "w \<in> re_lang octet_re \<longleftrightarrow> octet w"
proof
  assume "w \<in> re_lang octet_re"
  then consider a b c where "w = [a, b, c]" "is_digit a" "is_digit b" "is_digit c"
      "digit_val a = 2 \<and> digit_val b = 5 \<and> digit_val c \<le> 5 \<or>
       digit_val a = 2 \<and> digit_val b \<le> 4 \<or> digit_val a \<le> 1"
    | "w \<noteq> []" "length w \<le> 2" "list_all is_digit w"
    unfolding octet_re_cases by fastforce
  then show "octet w"
  proof cases
    case (1 a b c)
    then have "digit_val b \<le> 9" "digit_val c \<le> 9" using digit_val_le by auto
    with 1 show ?thesis by (auto simp: octet_def dec_val_3)
  qed (use octet_short in \<open>auto simp: octet_def\<close>)
next
  assume o: "octet w"
  then consider a where "w = [a]" | a b where "w = [a, b]" | a b c where "w = [a, b, c]"
    by (cases w; cases "tl w"; cases "tl (tl w)"; cases "tl (tl (tl w))"; auto simp: octet_def)
  then show "w \<in> re_lang octet_re"
    by cases (use o in \<open>auto simp: octet_re_cases octet_def dec_val_3\<close>)
qed

lemma ip_re_test:
  "re_test ip_re s \<longleftrightarrow>
     length (split_on CHR ''.'' s) = 4 \<and> (\<forall>w \<in> set (split_on CHR ''.'' s). octet w)"
proof -
  have "CHR ''.'' \<notin> set w" if "w \<in> re_lang octet_re" for w
    using that is_digit_neq(10) unfolding octet_lang octet_def list_all_iff by blast
  then show ?thesis
    unfolding ip_re_def by (subst re_test_sep_rep) (auto simp: octet_lang)
qed

section \<open>Properties\<close>

text \<open>
  C38: the address rules accept exactly the addresses of their form.  A MAC rule accepts a value
  exactly if its text has six pieces between colons, each of two hexadecimal digits; an IPv4 rule
  exactly if it has four pieces between dots, each of one to three digits and at most 255.
\<close>

theorem address_rules_exact:
  "map_option (\<lambda>r. isMatch r v) (rule_for (if b then ''ethDst'' else ''ethSrc'')) =
     Some (length (split_on CHR '':'' (js_str v)) = 6 \<and>
       list_all (\<lambda>w. length w = 2 \<and> list_all is_hex_digit w) (split_on CHR '':'' (js_str v))) \<and>
   map_option (\<lambda>r. isMatch r v) (rule_for (if b then ''ipv4Dst'' else ''ipv4Src'')) =
     Some (length (split_on CHR ''.'' (js_str v)) = 4 \<and> list_all octet (split_on CHR ''.'' (js_str v)))"
  by (simp add: rule_for_def checkRules_def mac_match_def ip_match_def mac_re_test ip_re_test list_all_iff)

text \<open>What the rule of a key says of a value, and the values whose number is one of some integers.\<close>

definition accepted :: "string \<Rightarrow> jsval \<Rightarrow> bool option" where
  "accepted k v = map_option (\<lambda>r. isMatch r v) (rule_for k)"

definition number_in :: "int set \<Rightarrow> jsval \<Rightarrow> bool" where
  "number_in R v \<longleftrightarrow> (\<exists>i \<in> R. js_num v = Fin (of_int i))"

text \<open>
  C37: the numeric rules accept exactly the values whose number is an integer of their range.  This is so for every value,
  with the number that JavaScript takes it for: 1 to 60 or the port of the controller, 4294967293, for \<open>inport\<close>, 1 to 65535
  for \<open>tcpSrc\<close> and \<open>udpSrc\<close>, 1 or 2 for \<open>arpOp\<close>; for \<open>output\<close> 1 to 65535, 4294967293 or the word \<open>controller\<close>.  The rule of
  \<open>gotoTable\<close> accepts 0 to 255, although its own description says 1 to 255.  A text of digits has the number that they
  denote, and the empty text has the number 0, so the rule of \<open>gotoTable\<close> accepts it too.  The destination ports have no rule.
\<close>

theorem numeric_rules_exact:
  "accepted ''inport'' v = Some (number_in (insert 4294967293 {1..60}) v) \<and>
   accepted ''tcpSrc'' v = Some (number_in {1..65535} v) \<and> accepted ''udpSrc'' v = Some (number_in {1..65535} v) \<and>
   accepted ''arpOp'' v = Some (number_in {1, 2} v) \<and>
   accepted ''output'' v = Some (number_in (insert 4294967293 {1..65535}) v \<or> js_eq v (JStr ''controller'')) \<and>
   accepted ''gotoTable'' v = Some (number_in {0..255} v) \<and>
   accepted ''tcpDst'' v = None \<and> accepted ''udpDst'' v = None \<and>
   (\<forall>s. v = JStr s \<and> list_all is_digit s \<longrightarrow> number_in R v = (int (dec_val s) \<in> R))"
proof -
  have range: "intCheck lo hi v \<longleftrightarrow> number_in {lo..hi} v" for lo hi
    by (auto simp: intCheck_iff number_in_def)
  have union: "number_in (insert 4294967293 {1..hi}) v = (number_in {1..hi} v \<or> number_in {4294967293} v)" for hi
    by (auto simp: number_in_def)
  have arp: "{1..2} = {1, 2 :: int}" by auto
  have "number_in R v = (int (dec_val s) \<in> R)" if "v = JStr s" "list_all is_digit s" for s
  proof -
    have "js_num v = Fin (of_int (int (dec_val s)))"
    proof (cases "s = []")
      case True
      then show ?thesis using that by (simp add: to_number_def dec_val_def)
    next
      case False
      then show ?thesis using js_num_digits [OF _ that(2)] that(1) by simp
    qed
    then show ?thesis unfolding number_in_def by (metis num.inject(2) of_int_eq_iff)
  qed
  then show ?thesis
    by (simp add: accepted_def rule_for_def checkRules_def range arp union strCheck_def)
qed

text \<open>
  The rule for the IP protocol rejects every value that its own description offers, because the
  list is not split into words; it is also stored under a key (\<open>ippProto\<close>) that is not the key of the
  field (\<open>ipProto\<close>), which therefore has no rule.
\<close>

theorem ip_protocol_rule_broken:
  "map_option (\<lambda>r. map (isMatch r) [JStr ''TCP'', JStr ''UDP'', JStr ''ICMP'']) (rule_for ''ippProto'')
     = Some [False, False, False] \<and>
   map_option (\<lambda>r. isMatch r (JStr ''T'')) (rule_for ''ippProto'') = Some True \<and>
   rule_for ''ipProto'' = None"
  by (simp add: rule_for_def checkRules_def index_in_string_def)

lemma numeric_rules_exact_witness:
  "accepted ''gotoTable'' (JStr ''0'') = Some True \<and> accepted ''gotoTable'' (JStr []) = Some True \<and>
   accepted ''tcpSrc'' (JStr ''65536'') = Some False"
proof -
  have d: "list_all is_digit ''0''" "list_all is_digit ''65536''" "dec_val ''0'' = 0" "dec_val ''65536'' = 65536" "dec_val [] = 0"
    by (simp_all add: is_digit_def dec_val_def digit_val_def)
  show ?thesis
    using numeric_rules_exact [of "JStr ''0''" "{0..255}"] numeric_rules_exact [of "JStr []" "{0..255}"]
      numeric_rules_exact [of "JStr ''65536''" "{1..65535}"] d by simp
qed

end
