(* ===== verification/Cookies.thy ===== *)
theory Cookies
  imports Js_Json
begin

text \<open>
  Cookies and URL parameters: \<open>js/cookie.js\<close>, \<open>setCookie\<close>, \<open>getCookie\<close> and \<open>getUrlParam\<close> of
  \<open>open.js\<close>, and \<open>getURLParam\<close> of \<open>flow_table_detail.js\<close>.  In this theory a character is a code unit
  below 256.  The browser's cookie store keeps, for each name and path, a value and an optional
  expiry time (in milliseconds, rounded down to seconds by \<open>toGMTString\<close>); \<open>document.cookie\<close> joins the
  live pairs with a semicolon and a blank.
\<close>

section \<open>escape and unescape\<close>

definition escape_safe :: "char \<Rightarrow> bool" where
  "escape_safe c \<longleftrightarrow> (let n = (of_char c :: nat) in
     48 \<le> n \<and> n \<le> 57 \<or> 65 \<le> n \<and> n \<le> 90 \<or> 97 \<le> n \<and> n \<le> 122 \<or> c \<in> set ''@*_+-./'')"

definition upper_hex :: "nat \<Rightarrow> char" where
  "upper_hex d = (if d < 10 then char_of (48 + d) else char_of (55 + d))"

definition escape_unit :: "char \<Rightarrow> string" where
  "escape_unit c =
     (if escape_safe c then [c]
      else [CHR ''%'', upper_hex (of_char c div 16), upper_hex (of_char c mod 16)])"

definition js_escape :: "string \<Rightarrow> string" where
  "js_escape s = concat (map escape_unit s)"

definition hex_number :: "nat \<Rightarrow> string \<Rightarrow> nat option" where
  "hex_number k s = (if length s < k then None else radix_val 16 0 (take k s))"

fun js_unescape :: "string \<Rightarrow> string" where
  "js_unescape [] = []"
| "js_unescape (c # s) =
     (if c \<noteq> CHR ''%'' then c # js_unescape s
      else case (if starts_with ''u'' s then hex_number 4 (drop 1 s) else None) of
             Some n \<Rightarrow> utf8_of_code n @ js_unescape (drop 5 s)
           | None \<Rightarrow> (case hex_number 2 s of
                Some n \<Rightarrow> char_of n # js_unescape (drop 2 s)
              | None \<Rightarrow> c # js_unescape s))"

section \<open>The cookie store\<close>

record cookie =
  c_name :: string
  c_value :: string
  c_path :: string
  c_expires :: "int option"

type_synonym jar = "cookie list"

definition gmt :: "int \<Rightarrow> int" where
  "gmt t = t div 1000 * 1000"

definition live :: "int \<Rightarrow> cookie \<Rightarrow> bool" where
  "live now c = (case c_expires c of None \<Rightarrow> True | Some t \<Rightarrow> now < t)"

definition same_slot :: "cookie \<Rightarrow> cookie \<Rightarrow> bool" where
  "same_slot c d \<longleftrightarrow> c_name c = c_name d \<and> c_path c = c_path d"

fun jar_put :: "cookie \<Rightarrow> jar \<Rightarrow> jar" where
  "jar_put c [] = [c]"
| "jar_put c (d # j) = (if same_slot c d then c # j else d # jar_put c j)"

definition pair_text :: "cookie \<Rightarrow> string" where
  "pair_text c = c_name c @ ''='' @ c_value c"

definition document_cookie :: "int \<Rightarrow> jar \<Rightarrow> string" where
  "document_cookie now j = join_with ''; '' (map pair_text (filter (live now) j))"

section \<open>The scripts\<close>

definition addCookie :: "string \<Rightarrow> string \<Rightarrow> int \<Rightarrow> jar \<Rightarrow> jar" where
  "addCookie name value now j = jar_put
     \<lparr>c_name = name, c_value = js_escape value, c_path = ''/'',
      c_expires = Some (gmt (now + 30 * 60 * 1000))\<rparr> j"

text \<open>
  \<open>getCookie\<close> of \<open>cookie.js\<close>: the empty alternative in \<open>(^|)name=([^;]*)(;|$)\<close> matches everywhere, so
  the expression finds the first occurrence of the name followed by an equals sign.
\<close>

definition getCookie :: "string \<Rightarrow> string \<Rightarrow> string option" where
  "getCookie name doc =
     (case index_of (name @ ''='') doc of
        None \<Rightarrow> None
      | Some i \<Rightarrow> Some (js_unescape (takeWhile (\<lambda>c. c \<noteq> CHR '';'') (drop (i + length name + 1) doc))))"

definition delCookie :: "string \<Rightarrow> int \<Rightarrow> jar \<Rightarrow> jar" where
  "delCookie name now j =
     (case getCookie name (document_cookie now j) of
        None \<Rightarrow> j
      | Some cval \<Rightarrow> jar_put
          \<lparr>c_name = name, c_value = cval, c_path = ''/'', c_expires = Some (gmt (now - 1))\<rparr> j)"

text \<open>\<open>logout\<close> removes the user's cookie and leaves the page.\<close>

definition logout :: "int \<Rightarrow> jar \<Rightarrow> jar \<times> string" where
  "logout now j = (delCookie ''user'' now j, ''../login.html'')"

text \<open>\<open>setCookie\<close> and \<open>getCookie\<close> of \<open>open.js\<close>; the default path is that of the page.\<close>

definition setCookie :: "string \<Rightarrow> string \<Rightarrow> int option \<Rightarrow> string \<Rightarrow> int \<Rightarrow> jar \<Rightarrow> jar" where
  "setCookie c_nam value expiredays path now j = jar_put
     \<lparr>c_name = c_nam, c_value = js_escape value, c_path = path,
      c_expires = map_option (\<lambda>d. gmt (now + d * 86400000)) expiredays\<rparr> j"

definition getCookie_open :: "string \<Rightarrow> string \<Rightarrow> string" where
  "getCookie_open c_nam doc =
     (if doc \<noteq> [] then
        (case index_of (c_nam @ ''='') doc of
           None \<Rightarrow> []
         | Some i \<Rightarrow>
             (let c_start = i + length c_nam + 1;
                  c_end = (case index_of '';'' (drop c_start doc) of
                             None \<Rightarrow> length doc | Some k \<Rightarrow> c_start + k)
              in js_unescape (take (c_end - c_start) (drop c_start doc))))
      else [])"

text \<open>
  \<open>getUrlParam\<close>: \<open>(^|&)name=([^&]*)(&|$)\<close> on the query without its question mark; and
  \<open>getURLParam\<close>: \<open>(\?|&)key=([^&]*)(&|$)\<close>, ignoring case, on the whole query.
\<close>

definition lower :: "char \<Rightarrow> char" where
  "lower c = (let n = (of_char c :: nat) in if 65 \<le> n \<and> n \<le> 90 then char_of (n + 32) else c)"

fun param_scan :: "(char \<Rightarrow> bool) \<Rightarrow> (string \<Rightarrow> bool) \<Rightarrow> nat \<Rightarrow> string \<Rightarrow> string option" where
  "param_scan sep hit n [] = None"
| "param_scan sep hit n (c # s) =
     (if sep c \<and> hit s then Some (takeWhile (\<lambda>c. c \<noteq> CHR ''&'') (drop n s))
      else param_scan sep hit n s)"

definition getUrlParam :: "string \<Rightarrow> string \<Rightarrow> string option" where
  "getUrlParam name search = map_option js_unescape
     (param_scan (\<lambda>c. c = CHR ''&'') (starts_with (name @ ''='')) (length name + 1)
        (CHR ''&'' # drop 1 search))"

definition getURLParam :: "string \<Rightarrow> string \<Rightarrow> string option" where
  "getURLParam key search = map_option js_unescape
     (param_scan (\<lambda>c. c = CHR ''?'' \<or> c = CHR ''&'')
        (\<lambda>s. starts_with (map lower (key @ ''='')) (map lower s)) (length key + 1) search)"

section \<open>Unescape inverts escape\<close>

lemma hex_val_upper: "d < 16 \<Longrightarrow> hex_val (upper_hex d) = Some d"
  by (auto simp: hex_val_def upper_hex_def Let_def)

lemma hex_number_2: "n < 256 \<Longrightarrow> hex_number 2 (upper_hex (n div 16) # upper_hex (n mod 16) # s) = Some n"
proof -
  assume "n < 256"
  then have "n div 16 < 16" "n mod 16 < 16" by auto
  then show ?thesis by (simp add: hex_number_def hex_val_upper numeral_2_eq_2)
qed

lemma upper_hex_not_u: "d < 16 \<Longrightarrow> upper_hex d \<noteq> CHR ''u''"
proof
  assume d: "d < 16" and "upper_hex d = CHR ''u''"
  then have "(of_char (upper_hex d) :: nat) = 117" by simp
  with d show False by (auto simp: upper_hex_def split: if_splits)
qed

lemma js_unescape_unit: "js_unescape (escape_unit c @ s) = c # js_unescape s"
proof (cases "escape_safe c")
  case True
  then have "c \<noteq> CHR ''%''" by (auto simp: escape_safe_def Let_def)
  then show ?thesis using True by (simp add: escape_unit_def)
next
  case False
  have c: "(of_char c :: nat) < 256" by simp
  then have "(of_char c :: nat) div 16 < 16" by linarith
  then have "upper_hex (of_char c div 16) \<noteq> CHR ''u''" by (rule upper_hex_not_u)
  then show ?thesis using False c by (simp add: escape_unit_def hex_number_2)
qed

lemma js_unescape_escape [simp]: "js_unescape (js_escape s) = s"
  by (induction s) (simp_all add: js_escape_def js_unescape_unit)

lemma js_escape_chars: "c \<in> set (js_escape s) \<Longrightarrow> escape_safe c \<or> c = CHR ''%''"
proof -
  have "escape_safe (upper_hex d)" if "d < 16" for d
    using that by (auto simp: escape_safe_def upper_hex_def Let_def)
  moreover have "(of_char x :: nat) div 16 < 16" for x :: char
  proof -
    have "(of_char x :: nat) < 256" by simp
    then show ?thesis by linarith
  qed
  ultimately show "c \<in> set (js_escape s) \<Longrightarrow> escape_safe c \<or> c = CHR ''%''"
    by (auto simp: js_escape_def escape_unit_def split: if_splits)
qed

lemma js_escape_no_delim:
  "CHR '';'' \<notin> set (js_escape s)" "CHR ''&'' \<notin> set (js_escape s)" "CHR ''='' \<notin> set (js_escape s)"
  using js_escape_chars by (fastforce simp: escape_safe_def Let_def)+

section \<open>Finding a cookie\<close>

lemma starts_with_cut: "d \<notin> set p \<Longrightarrow> starts_with p (w @ d # r) = starts_with p w"
proof (induction p arbitrary: w)
  case (Cons c p)
  then show ?case by (cases w) auto
qed simp

lemma index_of_cut:
  assumes "p \<noteq> []" "d \<notin> set p"
  shows "index_of p (w @ d # r) = (case index_of p w of None \<Rightarrow> map_option (\<lambda>i. i + length w + 1) (index_of p r)
    | Some i \<Rightarrow> Some i)"
proof (induction w)
  case Nil
  have "\<not> starts_with p (d # r)" using assms by (cases p) auto
  then show ?case using assms(1) by simp
next
  case (Cons c w)
  have "starts_with p ((c # w) @ d # r) = starts_with p (c # w)"
    using starts_with_cut [OF assms(2)] .
  then show ?case using Cons by (auto split: option.splits simp: option.map_comp o_def)
qed

lemma index_of_at:
  assumes "p \<noteq> []" shows "index_of p (p @ s) = Some 0"
proof -
  have "starts_with p (p @ s)" by simp
  with assms show ?thesis by (cases p) (auto simp del: starts_with_Cons)
qed

definition names_cleanly :: "string \<Rightarrow> bool" where
  "names_cleanly n \<longleftrightarrow> n \<noteq> [] \<and> CHR '';'' \<notin> set n \<and> CHR '' '' \<notin> set n"

text \<open>The cookies whose text contains the name followed by an equals sign.\<close>

definition shadows :: "string \<Rightarrow> cookie \<Rightarrow> bool" where
  "shadows n c \<longleftrightarrow> has_substr (n @ ''='') (pair_text c)"

lemma cleanly_pattern:
  "names_cleanly n \<Longrightarrow> n @ ''='' \<noteq> [] \<and> CHR '';'' \<notin> set (n @ ''='') \<and> CHR '' '' \<notin> set (n @ ''='')"
  by (auto simp: names_cleanly_def)

lemma index_of_join:
  assumes "names_cleanly n"
  shows "index_of (n @ ''='') (w @ ''; '' @ r) =
    (case index_of (n @ ''='') w of None \<Rightarrow> map_option (\<lambda>i. i + length w + 2) (index_of (n @ ''='') r)
     | Some i \<Rightarrow> Some i)"
proof -
  let ?p = "n @ ''=''"
  note p = cleanly_pattern [OF assms]
  have "index_of ?p (CHR '' '' # r) = map_option (\<lambda>i. i + 1) (index_of ?p r)"
    using index_of_cut [of ?p "CHR '' ''" "[]" r] p by simp
  moreover have "index_of ?p (w @ ''; '' @ r) =
    (case index_of ?p w of None \<Rightarrow> map_option (\<lambda>i. i + length w + 1) (index_of ?p (CHR '' '' # r))
     | Some i \<Rightarrow> Some i)"
    using index_of_cut [of ?p "CHR '';''" w "CHR '' '' # r"] p by simp
  moreover have "(\<lambda>x. x + 1 + length w + 1) = (\<lambda>i. i + length w + 2)" by auto
  moreover have "w @ CHR '';'' # CHR '' '' # r = w @ ''; '' @ r" by simp
  ultimately show ?thesis by (simp only: option.map_comp o_def)
qed

definition prefix_text :: "cookie list \<Rightarrow> string" where
  "prefix_text cs = concat (map (\<lambda>c. pair_text c @ ''; '') cs)"

lemma join_prefix: "ws \<noteq> [] \<Longrightarrow> join_with ''; '' (map pair_text cs @ ws) = prefix_text cs @ join_with ''; '' ws"
proof (induction cs)
  case (Cons c cs)
  then show ?case by (cases "map pair_text cs @ ws") (auto simp: prefix_text_def)
qed (simp add: prefix_text_def)

lemma index_of_foreign_prefix:
  assumes "names_cleanly n" "\<forall>c \<in> set cs. \<not> shadows n c"
  shows "index_of (n @ ''='') (prefix_text cs @ s) =
    map_option (\<lambda>i. length (prefix_text cs) + i) (index_of (n @ ''='') s)"
  using assms(2)
proof (induction cs)
  case Nil
  then show ?case by (simp add: prefix_text_def option.map_ident)
next
  case (Cons c cs)
  then have "index_of (n @ ''='') (pair_text c) = None" by (simp add: shadows_def has_substr_def)
  moreover have "prefix_text (c # cs) @ s = pair_text c @ ''; '' @ (prefix_text cs @ s)"
    by (simp add: prefix_text_def)
  moreover have "length (prefix_text (c # cs)) = length (pair_text c) + 2 + length (prefix_text cs)"
    by (simp add: prefix_text_def)
  ultimately show ?case
    using Cons index_of_join [OF assms(1), of "pair_text c" "prefix_text cs @ s"]
    by (simp only: option.case option.map_comp o_def)
      (auto simp: option.map_comp o_def add.commute add.left_commute intro!: option.map_cong)
qed

lemma getCookie_first:
  assumes "names_cleanly n" "\<forall>c \<in> set cs. \<not> shadows n c" "CHR '';'' \<notin> set v"
  shows "getCookie n (join_with ''; '' (map pair_text cs @ (n @ ''='' @ v) # ts)) = Some (js_unescape v)"
proof -
  define r where "r = (if ts = [] then [] else ''; '' @ join_with ''; '' ts)"
  have j: "join_with ''; '' ((n @ ''='' @ v) # ts) = (n @ ''='') @ v @ r"
    by (cases ts) (auto simp: r_def)
  have i: "index_of (n @ ''='') ((n @ ''='') @ v @ r) = Some 0"
    by (rule index_of_at) simp
  have "takeWhile (\<lambda>c. c \<noteq> CHR '';'') (v @ r) = v"
  proof -
    have "takeWhile (\<lambda>c. c \<noteq> CHR '';'') v = v" using assms(3) by (induction v) auto
    moreover have "takeWhile (\<lambda>c. c \<noteq> CHR '';'') r = []" by (simp add: r_def)
    ultimately show ?thesis using assms(3) by (simp add: takeWhile_append)
  qed
  then show ?thesis
    unfolding getCookie_def join_prefix [OF list.distinct(2), of cs "n @ ''='' @ v" ts] j
      index_of_foreign_prefix [OF assms(1,2)] i
    by simp
qed

lemma getCookie_none:
  assumes "names_cleanly n" "\<forall>c \<in> set cs. \<not> shadows n c"
  shows "getCookie n (join_with ''; '' (map pair_text cs)) = None"
proof (cases cs rule: rev_cases)
  case Nil
  then show ?thesis using assms(1) by (simp add: getCookie_def names_cleanly_def)
next
  case (snoc ds d)
  have "join_with ''; '' (map pair_text cs) = prefix_text ds @ pair_text d"
    using join_prefix [of "[pair_text d]" ds] by (simp add: snoc)
  moreover have "index_of (n @ ''='') (pair_text d) = None"
    using assms(2) by (simp add: snoc shadows_def has_substr_def)
  moreover have "\<forall>c \<in> set ds. \<not> shadows n c" using assms(2) snoc by simp
  ultimately show ?thesis
    using index_of_foreign_prefix [OF assms(1)] by (simp add: getCookie_def)
qed

section \<open>The interface of a session store\<close>

text \<open>
  What the pages rely on: a value stored under a name is read back while it lives, and is gone once
  removed.  \<open>ok n j\<close> says that nothing else in the store hides the name.
\<close>

locale session_store =
  fixes put :: "string \<Rightarrow> string \<Rightarrow> int \<Rightarrow> 'j \<Rightarrow> 'j"
    and fetch :: "string \<Rightarrow> int \<Rightarrow> 'j \<Rightarrow> string option"
    and del :: "string \<Rightarrow> int \<Rightarrow> 'j \<Rightarrow> 'j"
    and ok :: "string \<Rightarrow> 'j \<Rightarrow> bool"
    and lifetime :: int
  assumes fetch_put: "ok n j \<Longrightarrow> t < now + lifetime \<Longrightarrow> fetch n t (put n v now j) = Some v"
    and fetch_del: "ok n j \<Longrightarrow> now \<le> t \<Longrightarrow> fetch n t (del n now j) = None"
    and ok_put: "ok n j \<Longrightarrow> ok n (put n v now j)"
    and ok_del: "ok n j \<Longrightarrow> ok n (del n now j)"
begin

lemma fetch_session:
  assumes "ok n j" "t < now + lifetime" "t \<le> t'"
  shows "fetch n t (put n v now j) = Some v \<and> fetch n t' (del n t (put n v now j)) = None"
  using assms by (simp add: fetch_put fetch_del ok_put)

lemma refresh:
  assumes "ok n j" "t < now' + lifetime"
  shows "fetch n t (put n w now' (put n v now j)) = Some w"
  using assms by (simp add: fetch_put ok_put)

end

definition slot :: "cookie \<Rightarrow> string \<times> string" where
  "slot c = (c_name c, c_path c)"

definition cookie_ok :: "string \<Rightarrow> jar \<Rightarrow> bool" where
  "cookie_ok n j \<longleftrightarrow> names_cleanly n \<and> distinct (map slot j) \<and>
     (\<forall>d \<in> set j. slot d \<noteq> (n, ''/'') \<longrightarrow> \<not> shadows n d)"

lemma jar_put_split:
  assumes "distinct (map slot j)"
  shows "\<exists>xs ys. jar_put c j = xs @ c # ys \<and> set xs \<union> set ys = {d \<in> set j. slot d \<noteq> slot c} \<and>
    distinct (map slot (xs @ c # ys))"
  using assms
proof (induction j)
  case Nil
  then show ?case by (intro exI [of _ "[]"]) simp
next
  case (Cons d j)
  show ?case
  proof (cases "same_slot c d")
    case True
    then have "slot d = slot c" by (simp add: same_slot_def slot_def)
    moreover from this have "set j = {e \<in> set j. slot e \<noteq> slot c}"
      using Cons.prems by (auto simp: image_iff)
    ultimately show ?thesis
      using True Cons.prems by (intro exI [of _ "[]"] exI [of _ j]) auto
  next
    case False
    then have d: "slot d \<noteq> slot c" by (auto simp: same_slot_def slot_def)
    from Cons obtain xs ys where IH: "jar_put c j = xs @ c # ys"
      "set xs \<union> set ys = {e \<in> set j. slot e \<noteq> slot c}" "distinct (map slot (xs @ c # ys))" by auto
    have "slot d \<notin> slot ` set j" using Cons.prems by simp
    then have "slot d \<notin> slot ` (set xs \<union> set ys)" unfolding IH(2) by blast
    then show ?thesis
      using False d IH by (intro exI [of _ "d # xs"] exI [of _ ys]) auto
  qed
qed

lemma jar_put_ok: "cookie_ok n j \<Longrightarrow> slot c = (n, ''/'') \<Longrightarrow> cookie_ok n (jar_put c j)"
proof -
  assume j: "cookie_ok n j" and c: "slot c = (n, ''/'')"
  obtain xs ys where s: "jar_put c j = xs @ c # ys" "set xs \<union> set ys = {d \<in> set j. slot d \<noteq> slot c}"
    "distinct (map slot (xs @ c # ys))"
    using jar_put_split j unfolding cookie_ok_def by blast
  have "set (jar_put c j) = insert c {d \<in> set j. slot d \<noteq> slot c}" unfolding s(1) s(2) [symmetric] by auto
  then show ?thesis using j c s unfolding cookie_ok_def by auto
qed

lemma fetch_after_put_at:
  assumes n: "names_cleanly n" and d: "distinct (map slot j)" and f: "\<forall>d \<in> set j. slot d \<noteq> slot c \<longrightarrow> \<not> shadows n d"
    and c: "c_name c = n" and v: "CHR '';'' \<notin> set (c_value c)"
  shows "getCookie n (document_cookie t (jar_put c j)) =
    (if live t c then Some (js_unescape (c_value c)) else None)"
proof -
  obtain xs ys where s: "jar_put c j = xs @ c # ys" "set xs \<union> set ys = {d \<in> set j. slot d \<noteq> slot c}"
    using jar_put_split [OF d] by blast
  have f: "\<forall>d \<in> set xs \<union> set ys. \<not> shadows n d" using f s(2) by auto
  have p: "pair_text c = n @ ''='' @ c_value c" using c by (simp add: pair_text_def)
  show ?thesis
  proof (cases "live t c")
    case True
    then have "document_cookie t (jar_put c j) =
      join_with ''; '' (map pair_text (filter (live t) xs) @ (n @ ''='' @ c_value c) #
        map pair_text (filter (live t) ys))"
      by (simp add: document_cookie_def s(1) p)
    then show ?thesis using True getCookie_first [OF n _ v] f by simp
  next
    case False
    then have "document_cookie t (jar_put c j) =
      join_with ''; '' (map pair_text (filter (live t) (xs @ ys)))"
      by (simp add: document_cookie_def s(1))
    then show ?thesis using False getCookie_none [OF n, of "filter (live t) (xs @ ys)"] f by auto
  qed
qed

lemma fetch_after_put:
  assumes "cookie_ok n j" and "slot c = (n, ''/'')" and "CHR '';'' \<notin> set (c_value c)"
  shows "getCookie n (document_cookie t (jar_put c j)) =
    (if live t c then Some (js_unescape (c_value c)) else None)"
  using assms by (intro fetch_after_put_at) (auto simp: cookie_ok_def slot_def)

lemma gmt_bounds: "gmt t \<le> t" "t - 1000 < gmt t"
proof -
  have "t mod 1000 < 1000" "0 \<le> t mod 1000" by simp_all
  moreover have "gmt t + t mod 1000 = t" by (simp add: gmt_def)
  ultimately show "gmt t \<le> t" "t - 1000 < gmt t" by linarith+
qed

lemma getCookie_value:
  "getCookie n doc = Some w \<Longrightarrow> \<exists>u. w = js_unescape u"
  by (auto simp: getCookie_def split: option.splits)

lemma fetch_none_later:
  assumes j: "cookie_ok n j" and none: "getCookie n (document_cookie now j) = None" and "now \<le> t"
  shows "getCookie n (document_cookie t j) = None"
proof -
  have n: "names_cleanly n" using j by (simp add: cookie_ok_def)
  have "\<not> shadows n d" if d: "d \<in> set j" "live t d" for d
  proof
    assume sh: "shadows n d"
    then have sl: "slot d = (n, ''/'')" using j d by (auto simp: cookie_ok_def)
    have "live now d" using d(2) \<open>now \<le> t\<close> by (auto simp: live_def split: option.splits)
    obtain xs ys where xy: "j = xs @ d # ys" using d(1) by (meson split_list)
    then have "distinct (map slot (xs @ d # ys))" using j by (simp add: cookie_ok_def)
    then have "\<forall>x \<in> set xs. slot x \<noteq> slot d" by (force simp: image_iff)
    then have f: "\<forall>x \<in> set (filter (live now) xs). \<not> shadows n x"
      using j xy sl by (auto simp: cookie_ok_def)
    have "document_cookie now j = join_with ''; '' (map pair_text (filter (live now) xs) @
        (n @ ''='' @ c_value d) # map pair_text (filter (live now) ys))"
      using \<open>live now d\<close> sl by (simp add: document_cookie_def xy pair_text_def slot_def)
    moreover have "index_of (n @ ''='') (prefix_text (filter (live now) xs) @
        join_with ''; '' ((n @ ''='' @ c_value d) # map pair_text (filter (live now) ys))) \<noteq> None"
    proof -
      have "\<exists>s. join_with ''; '' ((n @ ''='' @ c_value d) # map pair_text (filter (live now) ys)) =
        (n @ ''='') @ s" by (cases "map pair_text (filter (live now) ys)") auto
      then obtain s where "join_with ''; '' ((n @ ''='' @ c_value d) # map pair_text (filter (live now) ys)) =
        (n @ ''='') @ s" by blast
      then show ?thesis using index_of_at [of "n @ ''=''" s] index_of_foreign_prefix [OF n f] by simp
    qed
    ultimately have "getCookie n (document_cookie now j) \<noteq> None"
      using join_prefix [of "(n @ ''='' @ c_value d) # map pair_text (filter (live now) ys)"]
      by (auto simp: getCookie_def split: option.splits)
    with none show False by simp
  qed
  then show ?thesis unfolding document_cookie_def by (intro getCookie_none n) auto
qed

lemma fetch_after_dead:
  assumes "cookie_ok n j" "slot c = (n, ''/'')" "\<not> live t c"
  shows "getCookie n (document_cookie t (jar_put c j)) = None"
proof -
  obtain xs ys where s: "jar_put c j = xs @ c # ys" "set xs \<union> set ys = {d \<in> set j. slot d \<noteq> slot c}"
    using jar_put_split assms(1) unfolding cookie_ok_def by blast
  have "document_cookie t (jar_put c j) = join_with ''; '' (map pair_text (filter (live t) (xs @ ys)))"
    using assms(3) by (simp add: document_cookie_def s(1))
  moreover have "\<forall>d \<in> set xs \<union> set ys. \<not> shadows n d"
    unfolding s(2) using assms(1,2) by (auto simp: cookie_ok_def)
  ultimately show ?thesis
    using getCookie_none [of n "filter (live t) (xs @ ys)"] assms(1) by (auto simp: cookie_ok_def)
qed

lemma delCookie_fetch:
  assumes "cookie_ok n j" "now \<le> t"
  shows "getCookie n (document_cookie t (delCookie n now j)) = None"
proof (cases "getCookie n (document_cookie now j)")
  case None
  then show ?thesis using fetch_none_later assms by (simp add: delCookie_def)
next
  case (Some w)
  let ?c = "\<lparr>c_name = n, c_value = w, c_path = ''/'', c_expires = Some (gmt (now - 1))\<rparr>"
  have "\<not> live t ?c" using gmt_bounds(1) [of "now - 1"] assms(2) by (simp add: live_def)
  then show ?thesis using fetch_after_dead [OF assms(1), of ?c t] Some by (simp add: delCookie_def slot_def)
qed

interpretation browser_cookies: session_store addCookie "\<lambda>n t j. getCookie n (document_cookie t j)"
  delCookie cookie_ok 1799000
proof
  fix n j t now v
  assume j: "cookie_ok n j"
  let ?c = "\<lparr>c_name = n, c_value = js_escape v, c_path = ''/'', c_expires = Some (gmt (now + 30 * 60 * 1000))\<rparr>"
  show "getCookie n (document_cookie t (addCookie n v now j)) = Some v" if "t < now + 1799000"
  proof -
    have "live t ?c" using gmt_bounds(2) [of "now + 30 * 60 * 1000"] that by (simp add: live_def)
    then show ?thesis
      unfolding addCookie_def using fetch_after_put [OF j, of ?c t] js_escape_no_delim(1)
      by (simp add: slot_def)
  qed
  show "cookie_ok n (addCookie n v now j)"
    unfolding addCookie_def by (rule jar_put_ok [OF j]) (simp add: slot_def)
  show "getCookie n (document_cookie t (delCookie n now j)) = None" if "now \<le> t"
    using delCookie_fetch [OF j that] .
  show "cookie_ok n (delCookie n now j)"
    unfolding delCookie_def using j jar_put_ok [OF j] by (auto simp: slot_def split: option.splits)
qed

lemma getCookie_open_option:
  "getCookie_open n doc = (case getCookie n doc of None \<Rightarrow> [] | Some v \<Rightarrow> v)"
proof (cases "index_of (n @ ''='') doc")
  case None
  then show ?thesis by (simp add: getCookie_open_def getCookie_def)
next
  case (Some i)
  let ?s = "drop (i + length n + 1) doc"
  have tw: "takeWhile (\<lambda>c. c \<noteq> CHR '';'') s =
    (case index_of '';'' s of None \<Rightarrow> s | Some k \<Rightarrow> take k s)" for s
    by (induction s) (auto split: option.splits)
  have "doc \<noteq> []" using Some by auto
  then show ?thesis
    using tw [of ?s] by (auto simp: getCookie_open_def getCookie_def Some Let_def split: option.splits)
qed

text \<open>The cookies of \<open>open.js\<close>, which expire after days.\<close>

lemma setCookie_fetch:
  assumes "names_cleanly n" "distinct (map slot j)" "\<forall>d \<in> set j. slot d \<noteq> (n, path) \<longrightarrow> \<not> shadows n d"
    and "t < now + days * 86400000 - 1000"
  shows "getCookie_open n (document_cookie t (setCookie n v (Some days) path now j)) = v"
proof -
  let ?c = "\<lparr>c_name = n, c_value = js_escape v, c_path = path, c_expires = Some (gmt (now + days * 86400000))\<rparr>"
  have "live t ?c" using gmt_bounds(2) [of "now + days * 86400000"] assms(4) by (simp add: live_def)
  then show ?thesis
    using fetch_after_put_at [OF assms(1,2), of ?c t] assms(3) js_escape_no_delim(1)
    by (simp add: getCookie_open_option setCookie_def slot_def)
qed

section \<open>Query parameters\<close>

definition query_text :: "(string \<times> string) list \<Rightarrow> string" where
  "query_text ps = join_with ''&'' (map (\<lambda>(k, v). k @ ''='' @ js_escape v) ps)"

definition plain_name :: "string \<Rightarrow> bool" where
  "plain_name k \<longleftrightarrow> CHR ''&'' \<notin> set k \<and> CHR ''='' \<notin> set k"

lemma param_scan_skip:
  "CHR ''&'' \<notin> set w \<Longrightarrow>
     param_scan (\<lambda>c. c = CHR ''&'') hit n (w @ s) = param_scan (\<lambda>c. c = CHR ''&'') hit n s"
  by (induction w) auto

lemma starts_with_name:
  "CHR ''='' \<notin> set k \<Longrightarrow> CHR ''='' \<notin> set n \<Longrightarrow> starts_with (n @ ''='') (k @ CHR ''='' # s) \<longleftrightarrow> n = k"
proof (induction n arbitrary: k)
  case Nil
  then show ?case by (cases k) auto
next
  case (Cons c n)
  then show ?case by (cases k) auto
qed

lemma param_scan_query:
  assumes "list_all (plain_name \<circ> fst) ps" "plain_name n" "ps \<noteq> []"
  shows "param_scan (\<lambda>c. c = CHR ''&'') (starts_with (n @ ''='')) (length n + 1) (CHR ''&'' # query_text ps) =
    map_option js_escape (map_of ps n)"
  using assms(1,3)
proof (induction ps)
  case (Cons p ps)
  obtain k v where p: "p = (k, v)" by fastforce
  define r where "r = (if ps = [] then [] else CHR ''&'' # query_text ps)"
  have t: "query_text (p # ps) = k @ CHR ''='' # js_escape v @ r"
    by (cases ps) (auto simp: query_text_def r_def p)
  have k: "CHR ''&'' \<notin> set (k @ CHR ''='' # js_escape v)" "CHR ''='' \<notin> set k"
    using Cons.prems(1) js_escape_no_delim(2) by (auto simp: p plain_name_def)
  have n: "CHR ''='' \<notin> set n" using assms(2) by (simp add: plain_name_def)
  have tw: "takeWhile (\<lambda>c. c \<noteq> CHR ''&'') (js_escape v @ r) = js_escape v"
  proof -
    have "takeWhile (\<lambda>c. c \<noteq> CHR ''&'') (js_escape v) = js_escape v"
      using js_escape_no_delim(2) by (intro takeWhile_eq_all_conv [THEN iffD2]) auto
    moreover have "takeWhile (\<lambda>c. c \<noteq> CHR ''&'') r = []" by (simp add: r_def)
    ultimately show ?thesis using js_escape_no_delim(2) by (auto simp: takeWhile_append)
  qed
  show ?case
  proof (cases "n = k")
    case True
    then show ?thesis using starts_with_name [OF k(2) n] tw by (simp add: t [unfolded p] p)
  next
    case False
    have "param_scan (\<lambda>c. c = CHR ''&'') (starts_with (n @ ''='')) (length n + 1) (CHR ''&'' # query_text (p # ps)) =
      param_scan (\<lambda>c. c = CHR ''&'') (starts_with (n @ ''='')) (length n + 1) r"
      using starts_with_name [OF k(2) n] False param_scan_skip [OF k(1), of _ _ r] by (simp add: t)
    also have "\<dots> = map_option js_escape (map_of ps n)"
      using Cons by (simp add: r_def)
    finally show ?thesis using False by (simp add: p)
  qed
qed simp

section \<open>Properties\<close>

text \<open>
  A session cookie is read back and removed.  When no other cookie's text contains the name
  followed by an equals sign, the value stored with \<open>addCookie\<close> is what \<open>getCookie\<close> returns for the
  next half hour (less the rounding to seconds), and after \<open>delCookie\<close> it is never returned again.
\<close>

theorem cookie_session:
  assumes "cookie_ok n j" and "t < now + 1799000" and "t \<le> t'"
  shows "getCookie n (document_cookie t (addCookie n v now j)) = Some v \<and>
    getCookie n (document_cookie t' (delCookie n t (addCookie n v now j))) = None"
  using browser_cookies.fetch_session [OF assms] .

text \<open>
  \<open>getCookie\<close> confuses a name with a longer one that ends with it.  With a cookie \<open>superuser\<close> stored
  before, the user name just stored is not the one read, and after \<open>logout\<close> a user is still read.
\<close>

theorem cookie_suffix_confusion:
  "let j = [\<lparr>c_name = ''superuser'', c_value = ''root'', c_path = ''/'', c_expires = None\<rparr>];
       j' = addCookie ''user'' v now j
   in getCookie ''user'' (document_cookie now j') = Some ''root'' \<and>
      getCookie ''user'' (document_cookie now (fst (logout now j'))) = Some ''root''"
proof -
  have l: "gmt (now + 1800000) > now" "\<not> now < gmt (now - 1)"
    using gmt_bounds(2) [of "now + 1800000"] gmt_bounds(1) [of "now - 1"] by linarith+
  have r: "index_of ''user='' (''superuser=root; '' @ s) = Some 5" for s by simp
  have u: "js_unescape ''root'' = ''root''" by simp
  have g: "getCookie ''user'' (''superuser=root; '' @ s) = Some ''root''" for s
    using r u by (simp add: getCookie_def)
  have d: "document_cookie now (addCookie ''user'' v now
      [\<lparr>c_name = ''superuser'', c_value = ''root'', c_path = ''/'', c_expires = None\<rparr>]) =
      ''superuser=root; '' @ (''user='' @ js_escape v)"
    using l by (simp add: document_cookie_def addCookie_def same_slot_def live_def pair_text_def)
  have "getCookie ''user'' (document_cookie now (fst (logout now (addCookie ''user'' v now
      [\<lparr>c_name = ''superuser'', c_value = ''root'', c_path = ''/'', c_expires = None\<rparr>])))) = Some ''root''"
    unfolding logout_def delCookie_def d g using l u
    by (simp add: document_cookie_def addCookie_def same_slot_def live_def pair_text_def getCookie_def)
  then show ?thesis unfolding Let_def d g by blast
qed

text \<open>
  A parameter of the query is read exactly.  On a query built from names and escaped values,
  \<open>getUrlParam\<close> is the lookup of the name: other names that end with it do not matter, unlike in
  \<open>getCookie\<close>.
\<close>

theorem getUrlParam_lookup:
  assumes "list_all (plain_name \<circ> fst) ps" and "plain_name n" and "ps \<noteq> []"
  shows "getUrlParam n (CHR ''?'' # query_text ps) = map_of ps n"
  using param_scan_query [OF assms] by (simp add: getUrlParam_def option.map_comp o_def option.map_ident)

text \<open>
  The two implementations of \<open>getCookie\<close> agree: that of \<open>open.js\<close> returns the empty string where
  that of \<open>cookie.js\<close> returns nothing.
\<close>

theorem getCookie_implementations_agree:
  "getCookie_open n doc = (case getCookie n doc of None \<Rightarrow> [] | Some v \<Rightarrow> v)"
  by (rule getCookie_open_option)


lemma cookie_session_witness:
  "getCookie ''user'' (document_cookie 5000 (delCookie ''user'' 4000 (addCookie ''user'' ''a;b'' 1000
     [\<lparr>c_name = ''lang'', c_value = ''en'', c_path = ''/'', c_expires = None\<rparr>]))) = None \<and>
   getCookie ''user'' (document_cookie 4000 (addCookie ''user'' ''a;b'' 1000
     [\<lparr>c_name = ''lang'', c_value = ''en'', c_path = ''/'', c_expires = None\<rparr>])) = Some ''a;b''"
proof -
  have "cookie_ok ''user'' [\<lparr>c_name = ''lang'', c_value = ''en'', c_path = ''/'', c_expires = None\<rparr>]"
    by code_simp
  from cookie_session [OF this, of 4000 1000 5000 "''a;b''"] show ?thesis by simp
qed

lemma getUrlParam_lookup_witness:
  "getUrlParam ''id'' (CHR ''?'' # query_text [(''dpid'', ''7''), (''id'', ''a b'')]) = Some ''a b''"
proof -
  have "list_all (plain_name \<circ> fst) [(''dpid'', ''7''), (''id'', ''a b'')]" "plain_name ''id''"
    by code_simp+
  from getUrlParam_lookup [OF this] show ?thesis by simp
qed

end
