(* ===== verification/Flow_Editor.thy ===== *)
theory Flow_Editor
  imports Flow_Table Flow_Rules Cookies
begin

text \<open>
  The two editors of a flow entry (\<open>flow_table_detail.js\<close>): adding an entry and editing one, through
  fields, through a JSON tree (the vendored JSON editor, which is the value it was last given or the
  user last entered), or through JSON text.  \<open>_.throttle\<close> is applied to a function created on each
  call, so every input event runs its handler at once.
\<close>

section \<open>Menus\<close>

definition option_html :: "string \<Rightarrow> string" where
  "option_html k = ''<option'' @ '' value='' @ k @ ''  title='' @ k @ ''>'' @ k @ ''</option>''"

text \<open>A select element whose options are refilled has its first option selected.\<close>

definition fill_select :: "string \<Rightarrow> string list \<Rightarrow> string \<Rightarrow> (fhandler, fcont) page \<Rightarrow> (fhandler, fcont) page" where
  "fill_select s ks extra = steps
     ([set_html s extra] @ map (\<lambda>k. append_html s (option_html k)) ks @
      [set_val s (case ks of [] \<Rightarrow> JUndef | k # _ \<Rightarrow> JStr k)])"

definition addUpdateMatch :: "flow_app \<Rightarrow> flow_app" where
  "addUpdateMatch st = on_page (fill_select ''#add-match-key'' getMatchKeys []) st"

text \<open>
  A group element is appended complete (the library closes it), and the options follow it.
\<close>

definition group_html :: "string \<Rightarrow> string" where
  "group_html g = ''<optgroup'' @ '' label='' @ g @ '' ></optgroup>''"

definition addUpdateAction :: "flow_app \<Rightarrow> flow_app" where
  "addUpdateAction st = on_page
     (fill_select ''#add-action-key'' action_menu (concat (map group_html [hd actionGroup]))) st"

definition editUpdateMatch :: "flow_app \<Rightarrow> flow_app" where
  "editUpdateMatch st = on_page (fill_select ''#edit-match-key'' getMatchKeys []) st"

definition editUpdateAction :: "flow_app \<Rightarrow> flow_app" where
  "editUpdateAction st = on_page
     (fill_select ''#edit-action-key'' action_menu (concat (map group_html actionGroup))) st"

section \<open>Adding an entry\<close>

text \<open>\<open>$(".add-jsonview-body1").find(c)\<close>\<close>

definition add_field :: "string \<Rightarrow> string" where
  "add_field c = ''.add-jsonview-body1 '' @ c"

definition edit_field :: "string \<Rightarrow> string" where
  "edit_field c = ''.edit-jsonview-body1 '' @ c"

text \<open>The display of a rule: its description, and a warning unless the value passes or is empty.\<close>

definition warn_value :: "string \<Rightarrow> string \<Rightarrow> string \<Rightarrow> jsval \<Rightarrow> (fhandler, fcont) page \<Rightarrow> (fhandler, fcont) page" where
  "warn_value field info key value = steps
     (case rule_for (last (split_on CHR ''.'' key)) of
        Some checker \<Rightarrow>
          set_html info (des checker) #
          (if isMatch checker value \<or> is_empty_val value then
             [remove_class field ''warning'', remove_class info ''info-warning'']
           else [add_class field ''warning'', add_class info ''info-warning''])
      | None \<Rightarrow>
          [remove_class field ''warning'', remove_class info ''info-warning'', set_html info []])"

definition addMatchKeyChange :: "flow_app \<Rightarrow> flow_app" where
  "addMatchKeyChange st =
     (let key = vals (page st) ''#add-match-key'';
          value = match_value (addConfig st) key
      in on_page (steps [set_val (add_field ''.match-value'') value,
           warn_value (add_field ''.match-value'') (add_field ''.match-info'') key value]) st)"

definition addActionKeyChange :: "flow_app \<Rightarrow> flow_app" where
  "addActionKeyChange st =
     (let key = vals (page st) ''#add-action-key'';
          value = action_value (addConfig st) key
      in on_page (steps [set_val (add_field ''.action-value'') value,
           warn_value (add_field ''.action-value'') (add_field ''.action-info'') key value]) st)"

text \<open>
  With \<open>null\<close> as the configuration, the first property read raises an exception after the tree editor
  was set: nothing else is updated.
\<close>

definition addUpdateConfig :: "bool \<Rightarrow> flow_app \<Rightarrow> flow_app" where
  "addUpdateConfig notUpdateEditor st =
     (let st1 = (if addJSONEditor st \<noteq> None \<and> \<not> notUpdateEditor
                 then st\<lparr>addJSONEditor := Some (addConfig st)\<rparr> else st);
          c = addConfig st
      in if nullish c then st1
         else steps
           [on_page (steps
              [set_val (add_field ''.priority'') (pget c ''priority''),
               set_val (add_field ''.tableId'') (pget c ''tableId''),
               set_val (add_field ''.hardTimeout'') (pget c ''hardTimeout''),
               set_val (add_field ''.idleTimeout'') (pget c ''idleTimeout''),
               set_html (add_field ''.match-result'') [],
               append_html (add_field ''.match-result'') (getMatchStr c),
               set_html (add_field ''.action-result'') [],
               append_html (add_field ''.action-result'') (getActionStr c)]),
            addActionKeyChange, addMatchKeyChange] st1)"

definition onAddFlowTable :: "flow_app \<Rightarrow> flow_app" where
  "onAddFlowTable st =
     (let c = JObj [(''tableId'', JNum (Fin 0)), (''idleTimeout'', JNum (Fin 200)),
                    (''hardTimeout'', JNum (Fin 200))]
      in addUpdateConfig False
        ((on_page (steps
           [add_class ''.add-jsonview2'' ''collapsed'', remove_class ''.add-jsonview-body2'' ''in'',
            set_css ''.add-jsonview-body2'' ''height'' ''0px'',
            remove_class ''.add-jsonview1'' ''collapsed'', add_class ''.add-jsonview-body1'' ''in'',
            set_css ''.add-jsonview-body1'' ''height'' ''auto'',
            set_html ''#add-config-json'' [], set_css ''#add-config-json'' ''height'' [],
            set_disabled ''#add-yes-btn'' False, set_disabled ''#add-no-btn'' False]) st)
          \<lparr>addConfig := c, addJSONEditor := Some c\<rparr>))"

text \<open>The \<open>onChange\<close> option of the tree editor, after the user has changed the tree to \<open>v\<close>.\<close>

definition addEditorChange :: "jsval \<Rightarrow> flow_app \<Rightarrow> flow_app" where
  "addEditorChange v st = addUpdateConfig True (st\<lparr>addJSONEditor := Some v, addConfig := v\<rparr>)"

definition addJSONUpdate :: "flow_app \<Rightarrow> flow_app" where
  "addJSONUpdate st =
     (let str = vals (page st) ''#add-json-string'' in
      if str \<noteq> [] \<and> addJSONEditor st \<noteq> None then
        (case json_parse str of
           None \<Rightarrow> on_page (js_alert ''Wrong JSON string !'') st
         | Some jconfig \<Rightarrow>
             (let st1 = addUpdateConfig False (st\<lparr>addConfig := jconfig\<rparr>)
              in on_page (if nullish jconfig then js_alert ''Wrong JSON string !''
                          else set_val ''#add-json-string'' (JStr [])) st1))
      else on_page (js_alert ''Input your JSON string please'') st)"

definition addJSONGen :: "flow_app \<Rightarrow> flow_app" where
  "addJSONGen st = on_page (set_val ''#add-json-string'' (JStr (json_str (addConfig st)))) st"

text \<open>One numeric field of the form: stored when filled, removed when empty.\<close>

definition store_field :: "string \<Rightarrow> string \<Rightarrow> jsval \<Rightarrow> jsval" where
  "store_field k text c = (if text \<noteq> [] then obj_put k (JStr text) c else delete_key k c)"

definition addInfoChange :: "flow_app \<Rightarrow> flow_app" where
  "addInfoChange st =
     (let v = vals (page st)
      in addUpdateConfig False (st\<lparr>addConfig := steps
           [store_field ''priority'' (v (add_field ''.priority'')),
            store_field ''hardTimeout'' (v (add_field ''.hardTimeout'')),
            store_field ''idleTimeout'' (v (add_field ''.idleTimeout'')),
            store_field ''tableId'' (v (add_field ''.tableId''))] (addConfig st)\<rparr>))"

definition addMatchValueChange :: "flow_app \<Rightarrow> flow_app" where
  "addMatchValueChange st =
     (let key = vals (page st) ''#add-match-key'';
          text = vals (page st) (add_field ''.match-value'')
      in addUpdateConfig False (st\<lparr>addConfig :=
           (if js_trim text = [] then lunset (addConfig st) (''match.'' @ key)
            else lset (addConfig st) (''match.'' @ key) (JStr text))\<rparr>))"

definition addActionValueChange :: "flow_app \<Rightarrow> flow_app" where
  "addActionValueChange st =
     (let key = vals (page st) ''#add-action-key'';
          text = vals (page st) (add_field ''.action-value'')
      in addUpdateConfig False (st\<lparr>addConfig :=
           (if js_trim text = [] then unsetAction (addConfig st) key
            else setAction (addConfig st) key (JStr text))\<rparr>))"

definition ret_ok :: "jsval \<Rightarrow> bool" where
  "ret_ok res = js_eq (pget res ''retCode'') (JNum (Fin 0))"

definition error_alert :: "string \<Rightarrow> (fhandler, fcont) page \<Rightarrow> (fhandler, fcont) page" where
  "error_alert msg = js_alert (''Error; '' @ msg)"

definition addOnSaveBtn :: "flow_app \<Rightarrow> flow_app" where
  "addOnSaveBtn st = on_page (steps
     [set_disabled ''#add-yes-btn'' True, set_disabled ''#add-no-btn'' True,
      off_click ''#add-no-btn'', on_click ''#add-no-btn'' HReload,
      send POST (with_controller (addTable paths) st)
        (json_str (lset (addConfig st) ''DPID'' (pget (switchObj st) ''dpid''))) KAdd]) st"

definition onAdded :: "answer \<Rightarrow> flow_app \<Rightarrow> flow_app" where
  "onAdded ans st = on_page (case ans of
       Success res \<Rightarrow> if nullish res then id else if ret_ok res then reload
         else steps [set_disabled ''#add-no-btn'' False, error_alert (js_str (pget res ''retMsg''))]
     | Failure msg \<Rightarrow> steps [set_disabled ''#add-no-btn'' False, error_alert msg]) st"

section \<open>Editing an entry\<close>

definition editMatchKeyChange :: "flow_app \<Rightarrow> flow_app" where
  "editMatchKeyChange st =
     (let key = vals (page st) ''#edit-match-key'';
          value = match_value (editConfig st) key
      in on_page (steps [set_val (edit_field ''.match-value'') value,
           warn_value (edit_field ''.match-value'') (edit_field ''.match-info'') key value]) st)"

definition editActionKeyChange :: "flow_app \<Rightarrow> flow_app" where
  "editActionKeyChange st =
     (let key = vals (page st) ''#edit-action-key'';
          value = action_value (editConfig st) key
      in on_page (steps [set_val (edit_field ''.action-value'') value,
           warn_value (edit_field ''.action-value'') (edit_field ''.action-info'') key value]) st)"

text \<open>\<open>_.assign({}, v)\<close>\<close>

definition shallow_copy :: "jsval \<Rightarrow> jsval" where
  "shallow_copy v = lassign (JObj []) v"

definition editUpdateConfig :: "bool \<Rightarrow> flow_app \<Rightarrow> flow_app" where
  "editUpdateConfig notUpdateEditor st =
     (let st1 = (if editJSONEditor st \<noteq> None \<and> \<not> notUpdateEditor
                 then st\<lparr>editJSONEditor := Some (editConfig st)\<rparr> else st);
          c = editConfig st;
          beforeConfigObj = delete_key ''uuid'' (shallow_copy (editBeforeConfig st));
          afterConfigObj = shallow_copy c
      in if nullish c then st1
         else steps
           [on_page (steps
              [set_val (edit_field ''.priority'') (pget c ''priority''),
               set_val (edit_field ''.tableId'') (pget c ''tableId''),
               set_val (edit_field ''.hardTimeout'') (pget c ''hardTimeout''),
               set_val (edit_field ''.idleTimeout'') (pget c ''idleTimeout''),
               set_html (edit_field ''.match-result'') [],
               append_html (edit_field ''.match-result'') (getMatchStr c),
               set_html (edit_field ''.action-result'') [],
               append_html (edit_field ''.action-result'') (getActionStr c),
               set_disabled ''#edit-yes-btn'' (deep_eq afterConfigObj beforeConfigObj)]),
            editActionKeyChange, editMatchKeyChange] st1)"

definition onCickEditButton :: "jsval \<Rightarrow> flow_app \<Rightarrow> flow_app" where
  "onCickEditButton obj st =
     (let c = delete_key ''createTime'' (delete_key ''uuid'' obj)
      in editUpdateConfig False
        ((on_page (steps
           [set_shown ''#editModal'' True,
            add_class ''.edit-jsonview2'' ''collapsed'', remove_class ''.edit-jsonview-body2'' ''in'',
            set_css ''.edit-jsonview-body2'' ''height'' ''0px'',
            remove_class ''.edit-jsonview1'' ''collapsed'', add_class ''.edit-jsonview-body1'' ''in'',
            set_css ''.edit-jsonview-body1'' ''height'' ''auto'',
            set_html ''#edit-config-json'' [], set_css ''#edit-config-json'' ''height'' []]) st)
          \<lparr>editBeforeConfig := obj, editUUID := pget obj ''uuid'', editConfig := c, editJSONEditor := Some c\<rparr>))"

definition editEditorChange :: "jsval \<Rightarrow> flow_app \<Rightarrow> flow_app" where
  "editEditorChange v st = editUpdateConfig True (st\<lparr>editJSONEditor := Some v, editConfig := v\<rparr>)"

definition editInfoChange :: "flow_app \<Rightarrow> flow_app" where
  "editInfoChange st =
     (let v = vals (page st)
      in editUpdateConfig False (st\<lparr>editConfig := steps
           [store_field ''priority'' (v (edit_field ''.priority'')),
            store_field ''hardTimeout'' (v (edit_field ''.hardTimeout'')),
            store_field ''idleTimeout'' (v (edit_field ''.idleTimeout'')),
            store_field ''tableId'' (v (edit_field ''.tableId''))] (editConfig st)\<rparr>))"

definition editMatchValueChange :: "flow_app \<Rightarrow> flow_app" where
  "editMatchValueChange st =
     (let key = vals (page st) ''#edit-match-key'';
          text = vals (page st) (edit_field ''.match-value'')
      in editUpdateConfig False (st\<lparr>editConfig :=
           (if js_trim text = [] then lunset (editConfig st) (''match.'' @ key)
            else lset (editConfig st) (''match.'' @ key) (JStr text))\<rparr>))"

definition editActionValueChange :: "flow_app \<Rightarrow> flow_app" where
  "editActionValueChange st =
     (let key = vals (page st) ''#edit-action-key'';
          text = vals (page st) (edit_field ''.action-value'')
      in editUpdateConfig False (st\<lparr>editConfig :=
           (if js_trim text = [] then unsetAction (editConfig st) key
            else setAction (editConfig st) key (JStr text))\<rparr>))"

definition editJSONUpdate :: "flow_app \<Rightarrow> flow_app" where
  "editJSONUpdate st =
     (let str = vals (page st) ''#edit-json-string'' in
      if str \<noteq> [] \<and> editJSONEditor st \<noteq> None then
        (case json_parse str of
           None \<Rightarrow> on_page (js_alert ''Wrong JSON string !'') st
         | Some jconfig \<Rightarrow>
             (let st1 = editUpdateConfig False (st\<lparr>editConfig := jconfig\<rparr>)
              in on_page (if nullish jconfig then js_alert ''Wrong JSON string !''
                          else set_val ''#edit-json-string'' (JStr [])) st1))
      else on_page (js_alert ''Input your JSON string please'') st)"

definition editJSONGen :: "flow_app \<Rightarrow> flow_app" where
  "editJSONGen st = on_page (set_val ''#edit-json-string'' (JStr (json_str (editConfig st)))) st"

section \<open>Saving an edited entry\<close>

text \<open>The fields that identify an entry on the switch are unchanged.\<close>

definition same_identity :: "jsval \<Rightarrow> jsval \<Rightarrow> bool" where
  "same_identity before after \<longleftrightarrow>
     js_eq (pget before ''tableId'') (pget after ''tableId'') \<and>
     js_eq (pget before ''priority'') (pget after ''priority'') \<and>
     deep_eq (pget before ''match'') (pget after ''match'')"

text \<open>A null configuration (given as JSON text) has no \<open>tableId\<close> to compare: a TypeError, and nothing is sent.\<close>

definition onClickEditSaveBtn :: "flow_app \<Rightarrow> flow_app" where
  "onClickEditSaveBtn st =
     (let st1 = on_page (steps
            [set_disabled ''#edit-yes-btn'' True, set_disabled ''#edit-no-btn'' True,
             off_click ''#eidt-no-btn'', on_click ''#eidt-no-btn'' HReload]) st
      in if nullish (editBeforeConfig st) \<or> nullish (editConfig st) then st1
         else if same_identity (editBeforeConfig st) (editConfig st) then
           on_page (send PUT (with_controller (editTable paths) st)
             (json_str (steps [obj_put ''DPID'' (pget (switchObj st) ''dpid''), obj_put ''uuid'' (editUUID st)]
                (editConfig st))) KEditPut) st1
         else
           on_page (send DELETE (with_controller (deleteTable paths) st)
             (json_str (JObj [(''DPID'', pget (switchObj st) ''dpid''), (''uuid'', editUUID st)])) KEditDelete) st1)"

definition edit_failed :: "string \<Rightarrow> (fhandler, fcont) page \<Rightarrow> (fhandler, fcont) page" where
  "edit_failed msg = steps [set_disabled ''#edit-no-btn'' False, error_alert msg]"

definition onEditPut :: "answer \<Rightarrow> flow_app \<Rightarrow> flow_app" where
  "onEditPut ans st = on_page (case ans of
       Success res \<Rightarrow> if nullish res then id else if ret_ok res then reload else edit_failed (js_str (pget res ''retMsg''))
     | Failure msg \<Rightarrow> edit_failed msg) st"

text \<open>The entry is added again, with the configuration at that time, once its deletion has succeeded.\<close>

definition onEditDelete :: "answer \<Rightarrow> flow_app \<Rightarrow> flow_app" where
  "onEditDelete ans st = on_page (case ans of
       Success res \<Rightarrow>
         if nullish res then id
         else if ret_ok res then
           send POST (with_controller (addTable paths) st)
             (json_str (lset (editConfig st) ''DPID'' (pget (switchObj st) ''dpid''))) (KEditPost res)
         else edit_failed (js_str (pget res ''retMsg''))
     | Failure msg \<Rightarrow> edit_failed msg) st"

text \<open>The error handler of the addition prints the message of the deletion's result \<open>res\<close>.\<close>

definition onEditPost :: "jsval \<Rightarrow> answer \<Rightarrow> flow_app \<Rightarrow> flow_app" where
  "onEditPost res ans st = on_page (case ans of
       Success r \<Rightarrow> if nullish r then id else if ret_ok r then reload else edit_failed (js_str (pget r ''retMsg''))
     | Failure msg \<Rightarrow> edit_failed (js_str (pget res ''retMsg''))) st"

section \<open>The page\<close>

text \<open>The collapsible panels set the height of the tree editors.\<close>

definition onCollapse :: "bool \<Rightarrow> string \<Rightarrow> flow_app \<Rightarrow> flow_app" where
  "onCollapse hide panel st = on_page
     (set_css (if panel = ''#collapseOne'' then ''#add-config-json'' else ''#edit-config-json'')
        ''height'' (if hide then ''400px'' else [])) st"

definition param_val :: "string option \<Rightarrow> jsval" where
  "param_val v = (case v of None \<Rightarrow> JUndef | Some s \<Rightarrow> JStr s)"

text \<open>The start of the page, with the user's name and the query of its address.\<close>

definition startPage :: "string \<Rightarrow> string \<Rightarrow> flow_app \<Rightarrow> flow_app" where
  "startPage user search st =
     (let dpid = param_val (getURLParam ''dpid'' search);
          st1 = (on_page (set_html ''#user_login span'' user) st)
            \<lparr>controller := param_val (getURLParam ''controller'' search), switchObj := JObj [(''dpid'', dpid)]\<rparr>
      in if dpid = JStr [] \<or> dpid = JUndef then
           on_page (js_alert ''Can't get switch infomation,please check '') st1
         else steps [updateSwitchInfo, getFlowTables, addUpdateMatch, addUpdateAction,
                     editUpdateAction, editUpdateMatch] st1)"

text \<open>The continuation of a request, and the handler of a button.\<close>

definition runAnswer :: "fcont \<Rightarrow> answer \<Rightarrow> flow_app \<Rightarrow> flow_app" where
  "runAnswer k ans st =
     (case k of
        KSwitchInfo \<Rightarrow> (case ans of Success d \<Rightarrow> onSwitchInfo d st | Failure m \<Rightarrow> st)
      | KFlowTables \<Rightarrow> (case ans of Success d \<Rightarrow> onFlowTables d st | Failure m \<Rightarrow> st)
      | KFlush \<Rightarrow> onFlushDone ans st
      | KDelete r obj \<Rightarrow> onDeleted r obj ans st
      | KAdd \<Rightarrow> onAdded ans st
      | KEditPut \<Rightarrow> onEditPut ans st
      | KEditDelete \<Rightarrow> onEditDelete ans st
      | KEditPost res \<Rightarrow> onEditPost res ans st
      | KFakeDone \<Rightarrow> onFakeDone st)"

definition runHandler :: "fhandler \<Rightarrow> flow_app \<Rightarrow> flow_app" where
  "runHandler h st =
     (case h of HReload \<Rightarrow> on_page reload st
      | HFakeDeleteAll \<Rightarrow> onFakeDeleteAll st
      | HFlushAll \<Rightarrow> onFlushAll st
      | HDeleteSelected objs \<Rightarrow> onDeleteSelected objs st)"

text \<open>The answer to the \<open>i\<close>-th pending request arrives; a click on a bound button.\<close>

definition deliver :: "nat \<Rightarrow> answer \<Rightarrow> flow_app \<Rightarrow> flow_app" where
  "deliver i ans st =
     (if i < length (pending (page st)) then
        runAnswer (snd (pending (page st) ! i)) ans (on_page (take_pending i) st)
      else st)"

definition press :: "string \<Rightarrow> flow_app \<Rightarrow> flow_app" where
  "press s st =
     (if disabled (page st) s then st else steps (map runHandler (handlers (page st) s)) st)"

end
