(* ===== verification/Flow_Run.thy ===== *)
theory Flow_Run
  imports Flow_Editor "HOL-Library.Multiset"
begin

text \<open>
  The behaviour of the flow table page over time: the deletion of the selected entries under every
  order and outcome of its answers, the selection of rows under every sequence of clicks, the sorted
  table, and the protocols of the two editors.
\<close>

section \<open>The deletion of the selected entries\<close>

text \<open>
  A run of answers is a list: which of the requests still pending is answered, and how.  The entries
  still waiting are in the order of their requests, so the list decides which entry gets which answer.
\<close>

fun replies :: "'a list \<Rightarrow> (nat \<times> answer) list \<Rightarrow> ('a \<times> answer) list \<times> 'a list" where
  "replies objs [] = ([], objs)"
| "replies objs ((i, ans) # ds) =
     (if i < length objs then apfst (Cons (objs ! i, ans)) (replies (take i objs @ drop (Suc i) objs) ds)
      else replies objs ds)"

definition deliver_all :: "(nat \<times> answer) list \<Rightarrow> flow_app \<Rightarrow> flow_app" where
  "deliver_all ds = fold (\<lambda>(i, ans). deliver i ans) ds"

text \<open>What the dialog is to say of an entry and its answer; nothing, if the result is null.\<close>

definition has_verdict :: "answer \<Rightarrow> bool" where
  "has_verdict ans = (case ans of Success res \<Rightarrow> res \<noteq> JNull \<and> res \<noteq> JUndef | Failure msg \<Rightarrow> True)"

definition verdict_lines :: "jsval \<Rightarrow> answer \<Rightarrow> string" where
  \<open>verdict_lines obj ans =
     (case ans of
        Failure msg \<Rightarrow> ''<div class="item" >uuid: '' @ js_str (pget obj ''uuid'') @ ''-------------[Fail]</div>'' @
          ''<div class="item" >Error msg: '' @ msg @ ''</div>''
      | Success res \<Rightarrow>
          if js_eq (pget res ''retCode'') (JNum (Fin 0)) then ''<div class="item" >uuid: '' @ js_str (pget obj ''uuid'') @ ''-------------[OK]</div>''
          else if has_verdict ans then
            ''<div class="item" >uuid: '' @ js_str (pget obj ''uuid'') @ ''-------------[Fail]</div>'' @
            ''<div class="item" >Error msg:'' @ js_str (pget res ''retMsg'') @ ''</div>''
          else [])\<close>

definition verdicts :: "(jsval \<times> answer) list \<Rightarrow> nat" where
  "verdicts outs = length (filter (has_verdict \<circ> snd) outs)"

definition all_done_title :: string where
  "all_done_title = ok_html ''All Done , please check the result ''"

lemma del_lines_verdict:
  "del_lines obj ans = (if has_verdict ans then Some (verdict_lines obj ans) else None)"
  "\<not> has_verdict ans \<Longrightarrow> verdict_lines obj ans = []"
  by (auto simp: del_lines_def verdict_lines_def has_verdict_def item_html_def ret_ok_def nullish_def
      js_eq_def pget.simps split: answer.splits)

lemma mset_take_drop:
  "i < length xs \<Longrightarrow> mset (take i xs @ drop (Suc i) xs) + {#xs ! i#} = mset xs"
  by (metis add_mset_add_single id_take_nth_drop mset.simps(2) mset_append union_mset_add_mset_right)

lemma replies_mset:
  "replies objs ds = (outs, rest) \<Longrightarrow> mset (map fst outs) + mset rest = mset objs"
proof (induction objs ds arbitrary: outs rest rule: replies.induct)
  case (2 objs i ans ds)
  show ?case
  proof (cases "i < length objs")
    case True
    obtain outs1 rest1 where a: "replies (take i objs @ drop (Suc i) objs) ds = (outs1, rest1)" by fastforce
    then have "outs = (objs ! i, ans) # outs1" "rest = rest1" using 2(3) True by auto
    then show ?thesis using 2(1) [OF True a] mset_take_drop [OF True] by (simp add: ac_simps)
  qed (use 2 in simp)
qed simp

lemma verdicts_le: "replies objs ds = (outs, rest) \<Longrightarrow> verdicts outs + length rest \<le> length objs"
proof -
  assume "replies objs ds = (outs, rest)"
  then have "mset (map fst outs) + mset rest = mset objs" by (rule replies_mset)
  then have "size (mset (map fst outs)) + size (mset rest) = size (mset objs)" by (metis size_union)
  moreover have "verdicts outs \<le> length outs" by (simp add: verdicts_def)
  ultimately show ?thesis by simp
qed

text \<open>
  The state after the answers \<open>outs\<close>, with the entries \<open>rest\<close> still pending; \<open>q\<close> gives their requests.
\<close>

definition del_inv :: "jsval list \<Rightarrow> nat \<Rightarrow> (jsval \<Rightarrow> request) \<Rightarrow> (jsval \<times> answer) list \<Rightarrow> jsval list \<Rightarrow> flow_app \<Rightarrow> bool" where
  "del_inv objs r q outs rest st \<longleftrightarrow>
     r < length (runs st) \<and> dellist (runs st ! r) = objs \<and> done_count (runs st ! r) = verdicts outs \<and>
     verdicts outs + length rest \<le> length objs \<and>
     run_items (runs st ! r) = concat (map (\<lambda>(obj, ans). verdict_lines obj ans) outs) \<and>
     run_title (runs st ! r) =
       (if verdicts outs = length objs then all_done_title else warn_html ''Deleting ...  '') \<and>
     pending (page st) = map (\<lambda>obj. (q obj, KDelete r obj)) rest \<and>
     (disabled (page st) ''#info-no-btn'' \<longleftrightarrow> verdicts outs < length objs) \<and>
     htmls (page st) ''#info-body'' =
       run_title (runs st ! r) @ ''<div class='row-container'>'' @ run_items (runs st ! r) @ ''</div>'' \<and>
     info_run st = Some r"

definition deletion :: "flow_app \<Rightarrow> jsval \<Rightarrow> request" where
  "deletion st obj = \<lparr>req_method = DELETE, req_url = with_controller (deleteTable paths) st,
     req_body = json_str (JObj [(''DPID'', pget (switchObj st) ''dpid''), (''uuid'', pget obj ''uuid'')])\<rparr>"

lemma steps_delete_requests:
  "steps (map (delete_request r st) objs) p =
     p\<lparr>pending := pending p @ map (\<lambda>obj. (deletion st obj, KDelete r obj)) objs\<rparr>"
  by (induction objs arbitrary: p) (simp_all add: delete_request_def send_def deletion_def)

lemma del_inv_start:
  assumes "pending (page st) = []" "objs \<noteq> []"
  shows "del_inv objs (length (runs st)) (deletion st) [] objs (onDeleteSelected objs st)"
  using assms unfolding del_inv_def
  by (simp add: onDeleteSelected_def Let_def steps_delete_requests render_run_def lock_dialog_def
      page_simps verdicts_def)

text \<open>The next answer, with a verdict or without.\<close>

lemma del_inv_taken:
  assumes "del_inv objs r q outs rest st"
  shows "pending (page (on_page (take_pending i) st)) =
    map (\<lambda>obj. (q obj, KDelete r obj)) (take i rest @ drop (Suc i) rest)"
  using assms by (simp add: del_inv_def page_simps take_map drop_map)

lemma del_inv_silent:
  assumes inv: "del_inv objs r q outs rest st" and i: "i < length rest" and a: "\<not> has_verdict ans"
  shows "del_inv objs r q (outs @ [(rest ! i, ans)]) (take i rest @ drop (Suc i) rest) (deliver i ans st)"
proof -
  note I = inv [unfolded del_inv_def]
  have "deliver i ans st = on_page (take_pending i) st"
    using I i a by (simp add: deliver_def runAnswer_def onDeleted_def del_lines_verdict)
  then show ?thesis
    using I a i del_inv_taken [OF inv, of i] unfolding del_inv_def
    by (auto simp: verdicts_def page_simps del_lines_verdict(2))
qed

lemma del_inv_verdict:
  assumes inv: "del_inv objs r q outs rest st" and i: "i < length rest" and a: "has_verdict ans"
  shows "del_inv objs r q (outs @ [(rest ! i, ans)]) (take i rest @ drop (Suc i) rest) (deliver i ans st)"
proof -
  let ?st = "on_page (take_pending i) st"
  note I = inv [unfolded del_inv_def] and P = del_inv_taken [OF inv, of i]
  let ?run = "runs st ! r"
  define run' where "run' = ?run\<lparr>run_items := run_items ?run @ verdict_lines (rest ! i) ans,
    done_count := Suc (done_count ?run)\<rparr>"
  have v: "verdicts (outs @ [(rest ! i, ans)]) = Suc (verdicts outs)" "verdicts outs < length objs"
    "Suc (verdicts outs) + length (take i rest @ drop (Suc i) rest) \<le> length objs"
    using a I i by (auto simp: verdicts_def)
  have rr: "dellist run' = objs" "done_count run' = Suc (verdicts outs)"
    "run_items run' = concat (map (\<lambda>(obj, ans). verdict_lines obj ans) (outs @ [(rest ! i, ans)]))"
    "run_title run' = warn_html ''Deleting ...  ''" "r < length (runs st)" "info_run st = Some r"
    using I v(2) by (auto simp: run'_def)
  have d: "deliver i ans st = delDone r (render_run r (?st\<lparr>runs := (runs st)[r := run']\<rparr>))"
    using I i a by (simp add: deliver_def runAnswer_def onDeleted_def run'_def Let_def del_lines_verdict)
  show ?thesis
  proof (cases "length objs = Suc (verdicts outs)")
    case True
    then have e: "deliver i ans st = on_page (set_disabled ''#info-no-btn'' False)
      (render_run r (on_page (set_html ''#info-body'' (run_title run' @ ''<div class='row-container'>'' @
          run_items run' @ ''</div>''))
        (?st\<lparr>runs := (runs st)[r := run'\<lparr>run_title := all_done_title\<rparr>], info_run := Some r\<rparr>)))"
      unfolding d using rr by (simp add: delDone_def Let_def render_run_def all_done_title_def on_page_def)
    show ?thesis
      unfolding del_inv_def v(1) using P v(3) rr True by (simp add: e render_run_def page_simps)
  next
    case False
    then have e: "deliver i ans st = render_run r (?st\<lparr>runs := (runs st)[r := run']\<rparr>)"
      unfolding d using rr by (simp add: delDone_def Let_def render_run_def)
    have "disabled (page st) ''#info-no-btn''" using I v by simp
    then show ?thesis
      unfolding del_inv_def v(1) using P v(2,3) rr False by (auto simp: e render_run_def page_simps)
  qed
qed

lemma del_inv_all:
  assumes "del_inv objs r q outs rest st" "replies rest ds = (outs', rest')"
  shows "del_inv objs r q (outs @ outs') rest' (deliver_all ds st)"
  using assms
proof (induction rest ds arbitrary: outs outs' st rule: replies.induct)
  case (1 rest)
  then show ?case by (simp add: deliver_all_def)
next
  case (2 rest i ans ds)
  show ?case
  proof (cases "i < length rest")
    case True
    let ?rest = "take i rest @ drop (Suc i) rest"
    obtain outs1 where a: "replies ?rest ds = (outs1, rest')" "outs' = (rest ! i, ans) # outs1"
      using 2(4) True by (cases "replies ?rest ds") auto
    have "del_inv objs r q (outs @ [(rest ! i, ans)]) ?rest (deliver i ans st)"
      using 2(3) True by (cases "has_verdict ans") (simp_all add: del_inv_verdict del_inv_silent)
    from 2(1) [OF True this a(1)] show ?thesis by (simp add: a(2) deliver_all_def)
  next
    case False
    then have "deliver i ans st = st" using 2(3) by (simp add: deliver_def del_inv_def)
    then show ?thesis using 2(2) [OF False 2(3)] 2(4) False by (simp add: deliver_all_def)
  qed
qed

section \<open>Selecting rows\<close>

inductive select_step :: "flow_app \<Rightarrow> flow_app \<Rightarrow> bool" where
  header: "select_step st (clickSelectHeader st)"
| row: "i < length (table_rows st) \<Longrightarrow> select_step st (clickRow i st)"

definition select_inv :: "jsval list list \<Rightarrow> flow_app \<Rightarrow> bool" where
  "select_inv rs st \<longleftrightarrow> map fst (table_rows st) = rs \<and>
     classes (page st) ''th.select-checkbox'' ''selected'' = list_all snd (table_rows st) \<and>
     disabled (page st) ''#remove-flow-btn'' = (\<not> list_ex snd (table_rows st))"

lemma selected_all_iff: "(length (selected_rows st) = length (table_rows st)) = list_all snd (table_rows st)"
proof -
  have "(length (filter snd xs) = length xs) = list_all snd xs" for xs :: "(jsval list \<times> bool) list"
    by (metis length_filter_less list_all_iff filter_True less_irrefl)
  then show ?thesis by (simp add: selected_rows_def)
qed

lemma selected_none_iff: "(selected_rows st = []) = (\<not> list_ex snd (table_rows st))"
  by (auto simp: selected_rows_def filter_empty_conv list_ex_iff)

lemma onSelectEvent_inv: "select_inv (map fst (table_rows st)) (onSelectEvent st)"
  using selected_all_iff [of st] selected_none_iff [of st]
  by (simp add: select_inv_def onSelectEvent_def ifSelected_def page_simps selected_rows_def)

lemma select_step_inv:
  assumes "select_step st st'" "table_rows st \<noteq> []"
  shows "select_inv (map fst (table_rows st)) st'"
  using assms
proof cases
  case header
  have all: "list_all snd (map (\<lambda>(r, _). (r, b)) xs) = (b \<or> xs = [])"
    "list_ex snd (map (\<lambda>(r, _). (r, b)) xs) = (b \<and> xs \<noteq> [])" for b and xs :: "(jsval list \<times> bool) list"
    by (induction xs) auto
  have "\<not> list_ex snd (map (\<lambda>(r, _). (r, b)) (table_rows st)) \<longleftrightarrow> \<not> b" for b
    using all(2) assms(2) by auto
  then show ?thesis
    using all(1) assms(2) selected_none_iff
    by (auto simp: header select_inv_def clickSelectHeader_def select_all_rows_def onSelectEvent_def
        ifSelected_def page_simps selected_rows_def filter_empty_conv o_def case_prod_beta)
next
  case (row i)
  then show ?thesis
    using onSelectEvent_inv [of "st\<lparr>table_rows := (table_rows st)[i := apsnd Not (table_rows st ! i)]\<rparr>"]
    by (simp add: clickRow_def map_update) (metis (no_types, lifting) length_map list_update_id nth_map)
qed

section \<open>The loaded table\<close>

definition flow_before :: "jsval \<Rightarrow> jsval \<Rightarrow> bool" where
  "flow_before a b \<longleftrightarrow>
     (let ta = js_num (pget a ''tableId''); tb = js_num (pget b ''tableId'')
      in ta < tb \<or> ta = tb \<and> js_num (pget b ''priority'') \<le> js_num (pget a ''priority''))"

lemma flow_before_key: "flow_key a \<le> flow_key b \<longleftrightarrow> flow_before a b"
  by (auto simp: flow_key_def flow_before_def less_eq_prod_def less_eq_desc_def Let_def)

lemma order_flows_props:
  "sorted_wrt flow_before (order_flows fs)"
  "mset (order_flows fs) = mset (map coerce_flow fs)"
  "filter (\<lambda>v. flow_key v = k) (order_flows fs) = filter (\<lambda>v. flow_key v = k) (map coerce_flow fs)"
proof -
  have "sorted (map flow_key (order_flows fs))" by (simp add: order_flows_def)
  then show "sorted_wrt flow_before (order_flows fs)"
    by (simp add: sorted_map flow_before_key)
  show "mset (order_flows fs) = mset (map coerce_flow fs)" by (simp add: order_flows_def)
  show "filter (\<lambda>v. flow_key v = k) (order_flows fs) = filter (\<lambda>v. flow_key v = k) (map coerce_flow fs)"
    using sort_key_stable [of flow_key k "map coerce_flow fs"] by (simp add: order_flows_def)
qed

section \<open>The editors\<close>

lemma assign_props_fresh:
  "distinct (map fst (acc @ src)) \<Longrightarrow> assign_props src acc = acc @ src"
proof (induction src arbitrary: acc)
  case (Cons kv src)
  obtain k v where kv: "kv = (k, v)" by fastforce
  have "k \<notin> set (map fst acc)" using Cons.prems by (simp add: kv)
  then have "AList.update k v acc = acc @ [(k, v)]" by (induction acc) auto
  then have "assign_props (kv # src) acc = assign_props src (acc @ [kv])"
    by (simp add: assign_props_def kv)
  also have "\<dots> = (acc @ [kv]) @ src" by (rule Cons.IH) (use Cons.prems in simp)
  finally show ?case by simp
qed (simp add: assign_props_def)

lemma shallow_copy_obj: "distinct (map fst kvs) \<Longrightarrow> shallow_copy (JObj kvs) = JObj kvs"
  using assign_props_fresh [of "[]" kvs] by (simp add: shallow_copy_def)

lemma deep_eq_refl: "wf_val v \<Longrightarrow> deep_eq v v"
proof (induction v)
  case (JArr vs)
  then show ?case by (auto simp: zip_same_conv_map)
next
  case (JObj kvs)
  show ?case
  proof (simp, intro ballI)
    fix kv assume kv: "kv \<in> set kvs"
    then have "map_of kvs (fst kv) = Some (snd kv)" using JObj.prems by (simp add: map_of_eq_Some_iff)
    moreover have "deep_eq (snd kv) (snd kv)"
      using JObj kv by (metis (no_types, lifting) prod.collapse snds.intros wf_val.simps(1))
    ultimately show "case map_of kvs (fst kv) of None \<Rightarrow> False | Some w \<Rightarrow> deep_eq (snd kv) w" by simp
  qed
qed simp_all

lemma match_path:
  assumes "plain_obj v"
  shows "lget v (''match.'' @ k) = get_path v (''match'' # split_on CHR ''.'' k)"
    "lset v (''match.'' @ k) w = set_path v (''match'' # split_on CHR ''.'' k) w"
    "lunset v (''match.'' @ k) = unset_path v (''match'' # split_on CHR ''.'' k)"
proof -
  have "cast_path v (''match.'' @ k) = split_on CHR ''.'' (''match.'' @ k)"
    using assms by (rule cast_path_plain) simp
  also have "\<dots> = ''match'' # split_on CHR ''.'' k"
    using split_on_append_sep [of "CHR ''.''" "''match''" k] by simp
  finally have c: "cast_path v (''match.'' @ k) = ''match'' # split_on CHR ''.'' k" .
  show "lget v (''match.'' @ k) = get_path v (''match'' # split_on CHR ''.'' k)"
    "lset v (''match.'' @ k) w = set_path v (''match'' # split_on CHR ''.'' k) w"
    "lunset v (''match.'' @ k) = unset_path v (''match'' # split_on CHR ''.'' k)"
    unfolding lget_def lset_def lunset_def c by simp_all
qed

lemma delete_shorter: "k \<in> fst ` set al \<Longrightarrow> length (AList.delete k al) < length al"
  unfolding AList.delete_eq by (auto intro: length_filter_less)

lemma ret_ok_nullish: "ret_ok res \<Longrightarrow> \<not> nullish res"
  by (auto simp: ret_ok_def nullish_def js_eq_def pget.simps)

section \<open>Properties\<close>

text \<open>
  C2: deleting the selected entries reports every answer as it came and unlocks the dialog exactly at
  the end.  After the confirmation, let the requests be answered in any order and in any way: the
  delivered answers, in their order, are \<open>outs\<close>, and \<open>rest\<close> are the entries still waiting.  Then the
  dialog holds the lines of exactly these answers in that order: \<open>[OK]\<close> for a result with code 0,
  \<open>[Fail]\<close> and the message of the result or of the failure for the others; the requests still pending
  are the deletions of \<open>rest\<close>; each entry is answered or waiting once.  The close button is enabled, and
  the title says that all is done, exactly when every entry has got a verdict.  An answer whose body is
  null gives none (its handler ends with a TypeError), so one such answer leaves the dialog locked.
\<close>

theorem delete_selected_run:
  assumes "pending (page st) = []" and "objs \<noteq> []"
    and "replies objs ds = (outs, rest)"
  shows "htmls (page (deliver_all ds (onDeleteSelected objs st))) ''#info-body'' =
      (if verdicts outs = length objs then all_done_title else warn_html ''Deleting ...  '') @
      ''<div class='row-container'>'' @ concat (map (\<lambda>(obj, ans). verdict_lines obj ans) outs) @ ''</div>'' \<and>
    disabled (page (deliver_all ds (onDeleteSelected objs st))) ''#info-no-btn'' = (verdicts outs < length objs) \<and>
    pending (page (deliver_all ds (onDeleteSelected objs st))) =
      map (\<lambda>obj. (deletion st obj, KDelete (length (runs st)) obj)) rest \<and>
    mset (map fst outs) + mset rest = mset objs"
  using del_inv_all [OF del_inv_start [OF assms(1,2)] assms(3)] replies_mset [OF assms(3)]
  by (simp add: del_inv_def)

text \<open>
  C39: the selection stays consistent.  Whatever is clicked (rows or the box of the table head), the
  head is marked exactly when all rows are selected, the remove button is disabled exactly when
  none is, and the rows themselves do not change.
\<close>

theorem selection_consistent:
  assumes "select_step\<^sup>+\<^sup>+ st st'" and "table_rows st \<noteq> []"
  shows "map fst (table_rows st') = map fst (table_rows st) \<and>
    classes (page st') ''th.select-checkbox'' ''selected'' = list_all snd (table_rows st') \<and>
    disabled (page st') ''#remove-flow-btn'' = (\<not> list_ex snd (table_rows st'))"
proof -
  have "select_inv (map fst (table_rows st)) st'"
    using assms(1)
  proof induction
    case (base y)
    then show ?case using select_step_inv assms(2) by blast
  next
    case (step y z)
    then have y: "map fst (table_rows y) = map fst (table_rows st)" by (simp add: select_inv_def)
    then have "table_rows y \<noteq> []" using assms(2) by auto
    then show ?case using select_step_inv [OF step.hyps(2)] y by simp
  qed
  then show ?thesis by (simp add: select_inv_def)
qed

text \<open>
  C17: the table shows all entries of the switch in order.  When the entries arrive, the rows are those
  of the received entries (with numeric table and priority), ordered by ascending table and descending
  priority, entries that agree on both keep their order, and no row is selected.  A null among the entries ends
  the handler with a TypeError, and the table stays as it was.
\<close>

theorem flow_table_loaded:
  assumes "js_eq (pget data ''retCode'') (JNum (Fin 0))"
    and "pget (elem_at (pget data ''switchflowentry'') 0) ''flowEntries'' = JArr fs"
  shows "if JNull \<in> set fs \<or> JUndef \<in> set fs then table_rows (onFlowTables data st) = table_rows st
    else sorted_wrt flow_before (map (last \<circ> fst) (table_rows (onFlowTables data st))) \<and>
      mset (map (last \<circ> fst) (table_rows (onFlowTables data st))) = mset (map coerce_flow fs) \<and>
      filter (\<lambda>v. flow_key v = k) (map (last \<circ> fst) (table_rows (onFlowTables data st))) =
        filter (\<lambda>v. flow_key v = k) (map coerce_flow fs) \<and>
      selected_rows (onFlowTables data st) = []"
proof -
  have d: "\<not> nullish data" using assms(1) by (auto simp: nullish_def js_eq_def pget.simps)
  have n: "list_ex nullish fs \<longleftrightarrow> JNull \<in> set fs \<or> JUndef \<in> set fs" by (auto simp: list_ex_iff nullish_def)
  show ?thesis
  proof (cases "list_ex nullish fs")
    case True
    then show ?thesis using assms d n by (simp add: onFlowTables_def flow_elements_def Let_def)
  next
    case False
    have "map (last \<circ> fst) (table_rows (onFlowTables data st)) = order_flows fs"
      using assms d False
      by (simp add: onFlowTables_def showFlowTables_def flow_elements_def flow_row_def o_def Let_def)
    moreover have "selected_rows (onFlowTables data st) = []"
      using assms d False
      by (simp add: onFlowTables_def showFlowTables_def selected_rows_def flow_elements_def o_def Let_def)
    ultimately show ?thesis using order_flows_props False n by simp
  qed
qed

lemma ret_ok_null [simp]: "\<not> ret_ok JNull" "\<not> ret_ok JUndef"
  by (simp_all add: ret_ok_def js_eq_def pget.simps)


text \<open>
  When the second request of an edit fails, the message of the failure is lost.  After a successful
  deletion, a failing POST alerts the message of the deletion's result, whatever the failure was; the
  entry is no longer on the switch, and the page is not reloaded.
\<close>

theorem edit_post_failure_message:
  assumes "pending (page st) = []" and "\<not> same_identity (editBeforeConfig st) (editConfig st)"
    and "\<not> nullish (editBeforeConfig st)" "\<not> nullish (editConfig st)" "ret_ok res"
  shows "alerts (page (deliver 0 (Failure msg) (deliver 0 (Success res) (onClickEditSaveBtn st)))) =
      alerts (page st) @ [''Error; '' @ js_str (pget res ''retMsg'')] \<and>
    reloads (page (deliver 0 (Failure msg) (deliver 0 (Success res) (onClickEditSaveBtn st)))) =
      reloads (page st)"
  using assms
  by (simp add: onClickEditSaveBtn_def Let_def page_simps deliver_def runAnswer_def
      onEditDelete_def onEditPost_def edit_failed_def error_alert_def ret_ok_nullish)

lemma page_editActionKeyChange:
  "disabled (page (editActionKeyChange st)) = disabled (page st)"
  "disabled (page (editMatchKeyChange st)) = disabled (page st)"
  by (auto simp: editActionKeyChange_def editMatchKeyChange_def Let_def warn_value_def page_simps
      split: option.split)

text \<open>
  The save button of the editor is disabled for an unchanged entry only if the entry carries no
  creation time, because that property is removed from the edited copy but not from the original
  that it is compared with.
\<close>

theorem edit_unchanged_save_button:
  assumes "wf_val (JObj kvs)"
  shows "disabled (page (onCickEditButton (JObj kvs) st)) ''#edit-yes-btn'' \<longleftrightarrow>
    ''createTime'' \<notin> set (map fst kvs)"
proof -
  let ?a = "AList.delete ''createTime'' (AList.delete ''uuid'' kvs)"
  let ?b = "AList.delete ''uuid'' kvs"
  have d: "distinct (map fst kvs)" "wf_val (JObj ?b)" using assms wf_delete by auto
  then have s: "shallow_copy (JObj kvs) = JObj kvs" "shallow_copy (JObj ?a) = JObj ?a"
    by (simp_all add: shallow_copy_obj distinct_delete)
  have "disabled (page (onCickEditButton (JObj kvs) st)) ''#edit-yes-btn'' = deep_eq (JObj ?a) (JObj ?b)"
    by (simp add: onCickEditButton_def Let_def editUpdateConfig_def page_editActionKeyChange page_simps
        delete_key_def s)
  also have "\<dots> = (''createTime'' \<notin> set (map fst kvs))"
  proof (cases "''createTime'' \<in> set (map fst kvs)")
    case True
    then have "''createTime'' \<in> set (map fst ?b)" by (force simp: AList.delete_eq)
    then have "length ?a < length ?b" by (intro delete_shorter) simp
    then show ?thesis using True by simp
  next
    case False
    then have "''createTime'' \<notin> fst ` set ?b" by (force simp: AList.delete_eq)
    then have "?a = ?b" by (rule delete_id)
    then show ?thesis using False deep_eq_refl [OF d(2)] by simp
  qed
  finally show ?thesis .
qed

lemma page_addKeyChange [page_simps]:
  "vals (page (addActionKeyChange st)) s =
     (if s = add_field ''.action-value''
      then val_text (action_value (addConfig st) (vals (page st) ''#add-action-key'')) else vals (page st) s)"
  "addConfig (addActionKeyChange st) = addConfig st" "addConfig (addMatchKeyChange st) = addConfig st"
  by (auto simp: addActionKeyChange_def addMatchKeyChange_def Let_def warn_value_def page_simps
      split: option.split)

lemma addUpdateConfig_config: "addConfig (addUpdateConfig b st) = addConfig st"
  by (simp add: addUpdateConfig_def Let_def page_simps)

lemma addUpdateConfig_match:
  assumes "\<not> nullish (addConfig st)" "vals (page st) ''#add-match-key'' = key"
  shows "vals (page (addUpdateConfig b st)) (add_field ''.match-value'') = val_text (match_value (addConfig st) key) \<and>
    classes (page (addUpdateConfig b st)) (add_field ''.match-value'') ''warning'' =
      (case rule_for (last (split_on CHR ''.'' key)) of None \<Rightarrow> False
       | Some r \<Rightarrow> \<not> (isMatch r (match_value (addConfig st) key) \<or> is_empty_val (match_value (addConfig st) key)))"
proof -
  obtain p where p: "addUpdateConfig b st =
      addMatchKeyChange (addActionKeyChange (on_page p (if addJSONEditor st \<noteq> None \<and> \<not> b
                 then st\<lparr>addJSONEditor := Some (addConfig st)\<rparr> else st)))"
    "\<And>pg. vals (p pg) ''#add-match-key'' = vals pg ''#add-match-key''"
    using assms(1) by (auto simp: addUpdateConfig_def Let_def page_simps add_field_def)
  have k: "vals (page (addActionKeyChange (on_page p (if addJSONEditor st \<noteq> None \<and> \<not> b
      then st\<lparr>addJSONEditor := Some (addConfig st)\<rparr> else st)))) ''#add-match-key'' = key"
    using assms(2) p(2) by (simp add: page_simps add_field_def)
  show ?thesis
    unfolding p(1) addMatchKeyChange_def [of "addActionKeyChange _"] Let_def k
    by (auto simp: warn_value_def page_simps add_field_def split: option.split)
qed

lemma match_keys_no_dot: "k \<in> set getMatchKeys \<Longrightarrow> split_on CHR ''.'' k = [k]"
  by (rule split_on_no_sep) (auto simp: getMatchKeys_eval)

text \<open>
  Typing a match value stores it and shows it.  In the dialog that adds an entry, a value that is
  not blank is stored under the chosen key, the other keys keep their values, the field shows what was
  typed, and the warning appears exactly when the rule of the key rejects the value.
\<close>

theorem add_match_value:
  assumes "plain_obj (addConfig st)" and "can_set (addConfig st) [''match'', key]"
    and "vals (page st) ''#add-match-key'' = key" and "key \<in> set getMatchKeys"
    and "vals (page st) (add_field ''.match-value'') = text" and "js_trim text \<noteq> []"
  shows "match_value (addConfig (addMatchValueChange st)) key = JStr text \<and>
    vals (page (addMatchValueChange st)) (add_field ''.match-value'') = text \<and>
    classes (page (addMatchValueChange st)) (add_field ''.match-value'') ''warning'' =
      (case rule_for key of None \<Rightarrow> False | Some r \<Rightarrow> \<not> isMatch r (JStr text)) \<and>
    (key' \<in> set getMatchKeys \<longrightarrow> key' \<noteq> key \<longrightarrow>
       match_value (addConfig (addMatchValueChange st)) key' = match_value (addConfig st) key')"
proof -
  let ?c = "set_path (addConfig st) [''match'', key] (JStr text)"
  note nd = match_keys_no_dot
  have pl: "plain_obj ?c" using assms(1) by (rule plain_set_path) auto
  have nn: "\<not> nullish ?c" using pl by (auto simp: nullish_def plain_obj_def)
  have ne: "text \<noteq> []" using assms(6) by (auto simp: js_trim_def trim_left_def trim_right_def)
  have st: "addMatchValueChange st = addUpdateConfig False (st\<lparr>addConfig := ?c\<rparr>)"
    using assms(3,5,6) nd [OF assms(4)]
    unfolding addMatchValueChange_def match_path(2) [OF assms(1)] Let_def by simp
  have mv: "match_value ?c key = JStr text"
    using js_store.fetch_store [OF assms(2)] nd [OF assms(4)]
    unfolding match_value_def match_path(1) [OF pl] by simp
  have up: "vals (page (addUpdateConfig False (st\<lparr>addConfig := ?c\<rparr>))) (add_field ''.match-value'') = text"
    "classes (page (addUpdateConfig False (st\<lparr>addConfig := ?c\<rparr>))) (add_field ''.match-value'') ''warning'' =
      (case rule_for key of None \<Rightarrow> False | Some r \<Rightarrow> \<not> isMatch r (JStr text))"
    using addUpdateConfig_match [of "st\<lparr>addConfig := ?c\<rparr>" key False] nn assms(3) mv ne nd [OF assms(4)]
    by (auto simp: val_text_def split: option.split)
  have other: "match_value ?c key' = match_value (addConfig st) key'"
    if "key' \<in> set getMatchKeys" "key' \<noteq> key"
    using js_store.fetch_store_fork [of "[''match'', key]" "[''match'', key']", OF _ assms(2)] that nd [OF that(1)]
    unfolding match_value_def match_path(1) [OF pl] match_path(1) [OF assms(1)] by (simp add: forks_Cons)
  show ?thesis
    unfolding st using up mv other by (simp add: addUpdateConfig_config)
qed

section \<open>Witnesses\<close>

definition idle_app :: flow_app where
  "idle_app = \<lparr>page = blank_page, table_rows = [], flowTables = JArr [],
     switchObj = JObj [(''dpid'', JStr ''7'')], controller = JStr ''c1'', runs = [], info_run = None,
     addConfig = JUndef, addJSONEditor = None, editConfig = JUndef, editJSONEditor = None,
     editUUID = JUndef, editBeforeConfig = JUndef\<rparr>"

definition entry :: "string \<Rightarrow> jsval" where
  "entry u = JObj [(''uuid'', JStr u)]"

lemma idle_simps [simp]:
  "pending (page idle_app) = []" "disabled (page idle_app) s = False" "vals (page idle_app) s = []"
  "classes (page idle_app) s c = False" "alerts (page idle_app) = []" "reloads (page idle_app) = 0"
  by (simp_all add: idle_app_def blank_page_def)

lemma delete_selected_run_witness:
  \<open>let st = deliver_all [(1, Failure ''down''), (0, Success (JObj [(''retCode'', JNum (Fin 0))]))]
       (onDeleteSelected [entry ''1'', entry ''2''] idle_app)
   in \<not> disabled (page st) ''#info-no-btn'' \<and> pending (page st) = [] \<and>
     htmls (page st) ''#info-body'' = all_done_title @ ''<div class='row-container'>'' @
       ''<div class="item" >uuid: 2-------------[Fail]</div><div class="item" >Error msg: down</div>'' @
       ''<div class="item" >uuid: 1-------------[OK]</div></div>''\<close>
proof -
  let ?ok = "JObj [(''retCode'', JNum (Fin 0))]" and ?ds = "[(1, Failure ''down''), (0, Success (JObj [(''retCode'', JNum (Fin 0))]))]"
  have "js_eq (JNum (Fin 0)) (JNum (Fin 0))" by code_simp
  then have v: "verdict_lines (entry ''1'') (Success ?ok) = ''<div class=\"item\" >uuid: 1-------------[OK]</div>''"
    by (simp add: verdict_lines_def entry_def pget.simps)
  have "replies [entry ''1'', entry ''2''] ?ds = ([(entry ''2'', Failure ''down''), (entry ''1'', Success ?ok)], [])"
    by simp
  from delete_selected_run [OF idle_simps(1) list.distinct(2) this] show ?thesis
    by (simp add: v) (simp add: verdicts_def has_verdict_def verdict_lines_def entry_def pget.simps)
qed

lemma selection_consistent_witness:
  "let st = idle_app\<lparr>table_rows := [([JStr ''a''], False), ([JStr ''b''], True)]\<rparr>
   in classes (page (clickRow 0 st)) ''th.select-checkbox'' ''selected''"
proof -
  let ?st = "idle_app\<lparr>table_rows := [([JStr ''a''], False), ([JStr ''b''], True)]\<rparr>"
  have "select_step\<^sup>+\<^sup>+ ?st (clickRow 0 ?st)" by (rule tranclp.r_into_trancl, rule row) simp
  moreover have "list_all snd (table_rows (clickRow 0 ?st))"
    by (simp add: clickRow_def onSelectEvent_def ifSelected_def)
  ultimately show ?thesis using selection_consistent [of ?st "clickRow 0 ?st"] by (simp add: Let_def)
qed

definition two_flows :: jsval where
  "two_flows = JArr [JObj [(''tableId'', JStr ''1''), (''priority'', JStr ''5'')],
     JObj [(''tableId'', JStr ''0''), (''priority'', JStr ''9'')]]"

lemma flow_table_loaded_witness:
  "selected_rows (onFlowTables (JObj [(''retCode'', JStr ''0''),
     (''switchflowentry'', JArr [JObj [(''flowEntries'', two_flows)]])]) idle_app) = []"
proof -
  let ?d = "JObj [(''retCode'', JStr ''0''), (''switchflowentry'', JArr [JObj [(''flowEntries'', two_flows)]])]"
  have "js_eq (pget ?d ''retCode'') (JNum (Fin 0))" by code_simp
  moreover have "pget (elem_at (pget ?d ''switchflowentry'') 0) ''flowEntries'' = JArr
    [JObj [(''tableId'', JStr ''1''), (''priority'', JStr ''5'')],
     JObj [(''tableId'', JStr ''0''), (''priority'', JStr ''9'')]]"
    by (simp add: pget.simps two_flows_def)
  ultimately show ?thesis
    using flow_table_loaded [of ?d "[JObj [(''tableId'', JStr ''1''), (''priority'', JStr ''5'')],
      JObj [(''tableId'', JStr ''0''), (''priority'', JStr ''9'')]]" idle_app] by simp
qed

definition edited_app :: flow_app where
  "edited_app = idle_app\<lparr>editUUID := JStr ''7'',
     editBeforeConfig := JObj [(''tableId'', JNum (Fin 0)), (''priority'', JNum (Fin 1))],
     editConfig := JObj [(''tableId'', JNum (Fin 0)), (''priority'', JNum (Fin 2))]\<rparr>"

lemma edited_app_simps:
  "\<not> nullish (editBeforeConfig edited_app)" "\<not> nullish (editConfig edited_app)"
  "pending (page edited_app) = []" "reloads (page edited_app) = 0" "alerts (page edited_app) = []"
  "\<not> same_identity (editBeforeConfig edited_app) (editConfig edited_app)"
proof -
  show "\<not> same_identity (editBeforeConfig edited_app) (editConfig edited_app)"
    by (simp add: edited_app_def same_identity_def pget.simps js_eq_def num_eq_def)
qed (simp_all add: edited_app_def)


lemma edit_post_failure_message_witness:
  "alerts (page (deliver 0 (Failure ''down'')
     (deliver 0 (Success (JObj [(''retCode'', JNum (Fin 0))])) (onClickEditSaveBtn edited_app)))) =
   [''Error; undefined'']"
proof -
  have "ret_ok (JObj [(''retCode'', JNum (Fin 0))])" by code_simp
  from edit_post_failure_message [OF edited_app_simps(3,6,1,2) this, of "''down''"] edited_app_simps(5)
  show ?thesis by (simp add: pget.simps)
qed

lemma edit_unchanged_save_button_witness:
  "\<not> disabled (page (onCickEditButton (JObj [(''uuid'', JStr ''7''), (''createTime'', JStr ''1'')]) idle_app))
     ''#edit-yes-btn''"
proof -
  have "wf_val (JObj [(''uuid'', JStr ''7''), (''createTime'', JStr ''1'')])" by code_simp
  from edit_unchanged_save_button [OF this, of idle_app] show ?thesis by simp
qed

lemma add_match_value_witness:
  "let st = idle_app\<lparr>addConfig := JObj [], page := set_val ''#add-match-key'' (JStr ''tcpSrc'')
              (set_val (add_field ''.match-value'') (JStr ''0'') blank_page)\<rparr>
   in classes (page (addMatchValueChange st)) (add_field ''.match-value'') ''warning''"
proof -
  let ?st = "idle_app\<lparr>addConfig := JObj [], page := set_val ''#add-match-key'' (JStr ''tcpSrc'')
              (set_val (add_field ''.match-value'') (JStr ''0'') blank_page)\<rparr>"
  have c: "plain_obj (JObj [])" "can_set (JObj []) [''match'', ''tcpSrc'']" "''tcpSrc'' \<in> set getMatchKeys"
    "js_trim ''0'' \<noteq> []"
    by code_simp+
  have "isMatch (the (rule_for ''tcpSrc'')) (JStr ''0'') = False" "rule_for ''tcpSrc'' \<noteq> None"
    using intCheck_digits [of "''0''" 1 65535]
    by (simp_all add: rule_for_def checkRules_def is_digit_def dec_val_def digit_val_def)
  then show ?thesis
    using add_match_value [of ?st "''tcpSrc''" "''0''" "''tcpSrc''"] c
    by (auto simp: page_simps val_text_def add_field_def Let_def)
qed

end
