(* ===== verification/Base64.thy ===== *)
theory Base64
  imports DCF_Prelude
begin

unbundle bit_operations_syntax

text \<open>
  The component \<open>js/Base64.js\<close>: UTF-8 and Base64 encoding of strings.  A string is the list of its
  UTF-16 code units (numbers below 65536); \<open>charCodeAt\<close> past the end is NaN (\<open>None\<close>), which the bit
  operators read as 0.  All values stay below 2 ^ 31, so the 32-bit operators are those on \<open>nat\<close>.
  A codec is an interface (locale); the two layers and their composition are its instances.
\<close>

type_synonym units = "nat list"

section \<open>Bit operations as arithmetic\<close>

lemma and_mask_nat: "(x::nat) AND (2 ^ n - 1) = x mod 2 ^ n"
  by (metis mask_eq_exp_minus_1 take_bit_eq_mask take_bit_eq_mod)

lemma and_3: "(x::nat) AND 3 = x mod 4"
  using and_mask_nat [of x 2] by simp

lemma and_15: "(x::nat) AND 15 = x mod 16"
  using and_mask_nat [of x 4] by simp

lemma and_31: "(x::nat) AND 31 = x mod 32"
  using and_mask_nat [of x 5] by simp

lemma and_63: "(x::nat) AND 63 = x mod 64"
  using and_mask_nat [of x 6] by simp

lemma push_or_add: "(b::nat) < 2 ^ n \<Longrightarrow> push_bit n a OR b = a * 2 ^ n + b"
proof -
  assume b: "b < 2 ^ n"
  have "push_bit n a + b = push_bit n a OR b"
  proof (rule disjunctive_add)
    fix m
    have "\<not> bit b m" if "n \<le> m"
      using that b by (metis bit_take_bit_iff leD take_bit_nat_eq_self)
    then show "\<not> bit (push_bit n a) m \<or> \<not> bit b m"
      by (auto simp: bit_push_bit_iff)
  qed
  then show ?thesis by (simp add: push_bit_eq_mult)
qed

lemma or_192: "(c::nat) < 64 \<Longrightarrow> c OR 192 = 192 + c"
  using push_or_add [of c 6 3] by (simp add: or.commute push_bit_eq_mult)

lemma or_128: "(c::nat) < 128 \<Longrightarrow> c OR 128 = 128 + c"
  using push_or_add [of c 7 1] by (simp add: or.commute push_bit_eq_mult)

lemma or_224: "(c::nat) < 32 \<Longrightarrow> c OR 224 = 224 + c"
  using push_or_add [of c 5 7] by (simp add: or.commute push_bit_eq_mult)

lemmas bit_arith = and_3 and_15 and_31 and_63 or_192 or_128 or_224

section \<open>The interface of a codec\<close>

locale codec =
  fixes enc :: "'a \<Rightarrow> 'b" and dec :: "'b \<Rightarrow> 'a" and ok :: "'a \<Rightarrow> bool"
  assumes dec_enc: "ok x \<Longrightarrow> dec (enc x) = x"
begin

lemma enc_inj: "ok x \<Longrightarrow> ok y \<Longrightarrow> enc x = enc y \<Longrightarrow> x = y"
  by (metis dec_enc)

end

locale codec_pipe = outer: codec enc1 dec1 ok1 + inner: codec enc2 dec2 ok2
  for enc1 :: "'a \<Rightarrow> 'b" and dec1 ok1 and enc2 :: "'b \<Rightarrow> 'c" and dec2 ok2 +
  assumes ok_enc: "ok1 x \<Longrightarrow> ok2 (enc1 x)"

sublocale codec_pipe \<subseteq> both: codec "\<lambda>x. enc2 (enc1 x)" "\<lambda>y. dec1 (dec2 y)" ok1
  by unfold_locales (simp add: inner.dec_enc outer.dec_enc ok_enc)

section \<open>UTF-8\<close>

text \<open>\<open>string.replace(/\\r\\n/g, "\\n")\<close>\<close>

fun crlf_to_lf :: "units \<Rightarrow> units" where
  "crlf_to_lf (a # b # s) =
     (if a = 13 \<and> b = 10 then 10 # crlf_to_lf s else a # crlf_to_lf (b # s))"
| "crlf_to_lf s = s"

definition utf8_unit :: "nat \<Rightarrow> units" where
  "utf8_unit c =
     (if c < 128 then [c]
      else if c > 127 \<and> c < 2048 then [drop_bit 6 c OR 192, (c AND 63) OR 128]
      else [drop_bit 12 c OR 224, (drop_bit 6 c AND 63) OR 128, (c AND 63) OR 128])"

definition utf8_units :: "units \<Rightarrow> units" where
  "utf8_units s = concat (map utf8_unit s)"

definition utf8_encode :: "units \<Rightarrow> units" where
  "utf8_encode s = utf8_units (crlf_to_lf s)"

text \<open>A code unit read from the string: NaN counts as 0 in the bit operators.\<close>

definition unit_at :: "units \<Rightarrow> nat \<Rightarrow> nat" where
  "unit_at s i = (case nth_opt s i of None \<Rightarrow> 0 | Some c \<Rightarrow> c)"

fun utf8_decode :: "units \<Rightarrow> units" where
  "utf8_decode [] = []"
| "utf8_decode (c # s) =
     (if c < 128 then c # utf8_decode s
      else if c > 191 \<and> c < 224 then
        (push_bit 6 (c AND 31) OR (unit_at s 0 AND 63)) # utf8_decode (drop 1 s)
      else
        (push_bit 12 (c AND 15) OR push_bit 6 (unit_at s 0 AND 63) OR (unit_at s 1 AND 63))
          # utf8_decode (drop 2 s))"

definition units_ok :: "nat \<Rightarrow> units \<Rightarrow> bool" where
  "units_ok b s \<longleftrightarrow> (\<forall>c \<in> set s. c < b)"

lemma units_ok_simps [simp]: "units_ok b []" "units_ok b (c # s) \<longleftrightarrow> c < b \<and> units_ok b s"
  "units_ok b (s @ t) \<longleftrightarrow> units_ok b s \<and> units_ok b t"
  by (auto simp: units_ok_def)

lemma units_ok_drop: "units_ok b s \<Longrightarrow> units_ok b (drop n s)"
  by (auto simp: units_ok_def dest: in_set_dropD)

lemma utf8_unit_arith:
  assumes "c < 65536"
  shows "utf8_unit c =
    (if c < 128 then [c]
     else if c < 2048 then [192 + c div 64, 128 + c mod 64]
     else [224 + c div 4096, 128 + c div 64 mod 64, 128 + c mod 64])"
proof -
  have "c < 2048 \<Longrightarrow> c div 64 < 64" "c div 4096 < 32" "c mod 64 < 128" "c div 64 mod 64 < 128"
    using assms by (auto intro: less_trans [of _ 64])
  then show ?thesis by (simp add: utf8_unit_def bit_arith drop_bit_eq_div)
qed

lemma utf8_decode_unit:
  assumes "c < 65536"
  shows "utf8_decode (utf8_unit c @ s) = c # utf8_decode s"
proof -
  consider "c < 128" | "128 \<le> c" "c < 2048" | "2048 \<le> c" by linarith
  then show ?thesis
  proof cases
    case 1
    then show ?thesis using assms by (simp add: utf8_unit_arith)
  next
    case 2
    have "push_bit 6 (c div 64) OR (c mod 64) = c"
      using push_or_add [of "c mod 64" 6 "c div 64"] by simp
    moreover have "c div 64 < 32" using 2 by (simp add: div_less_iff_less_mult)
    moreover from this have "(192 + c div 64) mod 32 = c div 64"
      using mod_mult_self3 [of 6 32 "c div 64"] by simp
    moreover have "(128 + c mod 64) mod 64 = c mod 64" using mod_mult_self3 [of 2 64 "c mod 64"] by simp
    ultimately show ?thesis
      using 2 assms by (simp add: utf8_unit_arith unit_at_def bit_arith)
  next
    case 3
    have "c div 4096 < 16" using assms by (simp add: div_less_iff_less_mult)
    then have m: "(224 + c div 4096) mod 16 = c div 4096"
      using mod_mult_self3 [of 14 16 "c div 4096"] by simp
    have b: "(128 + c div 64 mod 64) mod 64 = c div 64 mod 64" "(128 + c mod 64) mod 64 = c mod 64"
      using mod_mult_self3 [of 2 64 "c div 64 mod 64"] mod_mult_self3 [of 2 64 "c mod 64"] by simp_all
    have "push_bit 6 (c div 64 mod 64) OR (c mod 64) = c div 64 mod 64 * 64 + c mod 64"
      using push_or_add [of "c mod 64" 6 "c div 64 mod 64"] by simp
    moreover have "c div 64 mod 64 * 64 + c mod 64 = c mod 4096"
      using mod_mult2_eq [of c 64 64] by simp
    moreover have "push_bit 12 (c div 4096) OR (c mod 4096) = c"
      using push_or_add [of "c mod 4096" 12 "c div 4096"] by simp
    ultimately show ?thesis
      using 3 assms by (simp add: utf8_unit_arith unit_at_def bit_arith m b or.assoc)
  qed
qed

lemma utf8_unit_bytes: "c < 65536 \<Longrightarrow> units_ok 256 (utf8_unit c)"
  by (auto simp: utf8_unit_arith intro: less_trans [of _ 64])

lemma utf8_units_bytes: "units_ok 65536 s \<Longrightarrow> units_ok 256 (utf8_units s)"
  by (induction s) (auto simp: utf8_units_def utf8_unit_bytes)

interpretation utf8: codec utf8_units utf8_decode "units_ok 65536"
proof
  fix s :: units
  assume "units_ok 65536 s"
  then show "utf8_decode (utf8_units s) = s"
    by (induction s) (auto simp: utf8_units_def utf8_decode_unit)
qed

section \<open>Base64\<close>

definition key_str :: units where
  "key_str = map of_char ''ABCDEFGHIJKLMNOPQRSTUVWXYZabcdefghijklmnopqrstuvwxyz0123456789+/=''"

text \<open>\<open>_keyStr.charAt(e)\<close>, the empty string outside the key.\<close>

definition key_char :: "nat \<Rightarrow> units" where
  "key_char e = (case nth_opt key_str e of None \<Rightarrow> [] | Some c \<Rightarrow> [c])"

definition i32 :: "nat option \<Rightarrow> nat" where
  "i32 v = (case v of None \<Rightarrow> 0 | Some c \<Rightarrow> c)"

text \<open>The four indices of a group of up to three code units.\<close>

definition enc_group :: "nat \<Rightarrow> nat option \<Rightarrow> nat option \<Rightarrow> nat \<times> nat \<times> nat \<times> nat" where
  "enc_group chr1 chr2 chr3 =
     (let enc1 = drop_bit 2 chr1;
          enc2 = push_bit 4 (chr1 AND 3) OR drop_bit 4 (i32 chr2);
          enc3 = push_bit 2 (i32 chr2 AND 15) OR drop_bit 6 (i32 chr3);
          enc4 = i32 chr3 AND 63
      in if chr2 = None then (enc1, enc2, 64, 64)
         else if chr3 = None then (enc1, enc2, enc3, 64)
         else (enc1, enc2, enc3, enc4))"

fun encode_loop :: "units \<Rightarrow> units" where
  "encode_loop [] = []"
| "encode_loop (chr1 # s) =
     (let (e1, e2, e3, e4) = enc_group chr1 (nth_opt s 0) (nth_opt s 1)
      in key_char e1 @ key_char e2 @ key_char e3 @ key_char e4 @ encode_loop (drop 2 s))"

definition encode :: "units \<Rightarrow> units" where
  "encode input = encode_loop (utf8_encode input)"

text \<open>
  \<open>_keyStr.indexOf(input.charAt(i))\<close>: past the end \<open>charAt\<close> is the empty string, found at 0.  A
  character outside the key does not occur, since \<open>decode\<close> removes it first.
\<close>

definition key_index :: "nat option \<Rightarrow> nat" where
  "key_index c = (case c of None \<Rightarrow> 0 | Some u \<Rightarrow> length (takeWhile (\<lambda>k. k \<noteq> u) key_str))"

definition dec_group :: "nat \<Rightarrow> nat \<Rightarrow> nat \<Rightarrow> nat \<Rightarrow> units" where
  "dec_group enc1 enc2 enc3 enc4 =
     (let chr1 = push_bit 2 enc1 OR drop_bit 4 enc2;
          chr2 = push_bit 4 (enc2 AND 15) OR drop_bit 2 enc3;
          chr3 = push_bit 6 (enc3 AND 3) OR enc4
      in [chr1] @ (if enc3 \<noteq> 64 then [chr2] else []) @ (if enc4 \<noteq> 64 then [chr3] else []))"

fun decode_loop :: "units \<Rightarrow> units" where
  "decode_loop [] = []"
| "decode_loop (c # s) =
     dec_group (key_index (Some c)) (key_index (nth_opt s 0)) (key_index (nth_opt s 1))
       (key_index (nth_opt s 2)) @ decode_loop (drop 3 s)"

text \<open>\<open>/[^A-Za-z0-9\\+\\/\\=]/g\<close> is what \<open>decode\<close> deletes.\<close>

definition is_b64_unit :: "nat \<Rightarrow> bool" where
  "is_b64_unit c \<longleftrightarrow> (65 \<le> c \<and> c \<le> 90) \<or> (97 \<le> c \<and> c \<le> 122) \<or> (48 \<le> c \<and> c \<le> 57) \<or>
     c = 43 \<or> c = 47 \<or> c = 61"

definition decode :: "units \<Rightarrow> units" where
  "decode input = utf8_decode (decode_loop (filter is_b64_unit input))"

section \<open>The groups round trip\<close>

lemma length_key_str [simp]: "length key_str = 65"
  by (simp add: key_str_def)

lemma key_str_eval:
  "key_str = [65,66,67,68,69,70,71,72,73,74,75,76,77,78,79,80,81,82,83,84,85,86,87,88,89,90,
     97,98,99,100,101,102,103,104,105,106,107,108,109,110,111,112,113,114,115,116,117,118,119,
     120,121,122,48,49,50,51,52,53,54,55,56,57,43,47,61]"
  by (simp add: key_str_def)

lemma distinct_key_str: "distinct key_str"
  by (simp add: key_str_eval)

lemma key_str_b64: "c \<in> set key_str \<Longrightarrow> is_b64_unit c"
  by (auto simp: key_str_eval is_b64_unit_def)

lemma key_char_in: "e < 65 \<Longrightarrow> key_char e = [key_str ! e]"
  by (simp add: key_char_def nth_opt_def)

lemma takeWhile_neq_nth: "distinct xs \<Longrightarrow> i < length xs \<Longrightarrow> length (takeWhile (\<lambda>k. k \<noteq> xs ! i) xs) = i"
proof (induction xs arbitrary: i)
  case (Cons x xs)
  then show ?case by (cases i) (auto simp: nth_mem)
qed simp

lemma key_index_nth [simp]: "e < 65 \<Longrightarrow> key_index (Some (key_str ! e)) = e"
  by (simp add: key_index_def takeWhile_neq_nth distinct_key_str)

lemma enc_group_arith:
  assumes "a < 256" "case_option True (\<lambda>b. b < 256) b" "case_option True (\<lambda>c. c < 256) c"
  shows "enc_group a b c =
    (let e1 = a div 4; e2 = a mod 4 * 16 + i32 b div 16; e3 = i32 b mod 16 * 4 + i32 c div 64
     in if b = None then (e1, e2, 64, 64) else if c = None then (e1, e2, e3, 64)
        else (e1, e2, e3, i32 c mod 64))"
proof -
  have b: "i32 b < 256" using assms(2) by (auto simp: i32_def split: option.splits)
  have c: "i32 c < 256" using assms(3) by (auto simp: i32_def split: option.splits)
  have "push_bit 4 (a mod 4) OR (i32 b div 16) = a mod 4 * 16 + i32 b div 16"
    using b push_or_add [of "i32 b div 16" 4 "a mod 4"] by simp
  moreover have "push_bit 2 (i32 b mod 16) OR (i32 c div 64) = i32 b mod 16 * 4 + i32 c div 64"
    using c push_or_add [of "i32 c div 64" 2 "i32 b mod 16"] by simp
  ultimately show ?thesis
    by (simp add: enc_group_def bit_arith drop_bit_eq_div Let_def)
qed

lemma dec_group_arith:
  assumes "e2 < 64" "e3 \<le> 64" "e4 \<le> 64"
  shows "dec_group e1 e2 e3 e4 =
    [e1 * 4 + e2 div 16] @ (if e3 \<noteq> 64 then [e2 mod 16 * 16 + e3 div 4] else []) @
    (if e4 \<noteq> 64 then [e3 mod 4 * 64 + e4] else [])"
proof -
  have "push_bit 2 e1 OR (e2 div 16) = e1 * 4 + e2 div 16"
    using assms push_or_add [of "e2 div 16" 2 e1] by simp
  moreover have "e3 \<noteq> 64 \<Longrightarrow> push_bit 4 (e2 mod 16) OR (e3 div 4) = e2 mod 16 * 16 + e3 div 4"
    using assms push_or_add [of "e3 div 4" 4 "e2 mod 16"] by simp
  moreover have "e4 \<noteq> 64 \<Longrightarrow> push_bit 6 (e3 mod 4) OR e4 = e3 mod 4 * 64 + e4"
    using assms push_or_add [of e4 6 "e3 mod 4"] by simp
  ultimately show ?thesis
    by (simp add: dec_group_def bit_arith drop_bit_eq_div Let_def)
qed

definition group_bytes :: "nat \<Rightarrow> nat option \<Rightarrow> nat option \<Rightarrow> units" where
  "group_bytes a b c = a # (case b of None \<Rightarrow> [] | Some b' \<Rightarrow> b' # (case c of None \<Rightarrow> [] | Some c' \<Rightarrow> [c']))"

lemma group_bounds:
  assumes "a < 256" "case_option True (\<lambda>b. b < 256) b" "case_option True (\<lambda>c. c < 256) c"
    and "enc_group a b c = (e1, e2, e3, e4)"
  shows "e1 < 64 \<and> e2 < 64 \<and> e3 \<le> 64 \<and> e4 \<le> 64"
proof -
  have b: "i32 b div 16 < 16" "i32 b mod 16 < 16"
    using assms(2) by (auto simp: i32_def split: option.splits)
  have c: "i32 c div 64 < 4" using assms(3) by (auto simp: i32_def split: option.splits)
  have a: "a div 4 < 64" "a mod 4 < 4" "i32 c mod 64 < 64" using assms(1) by auto
  have "a mod 4 * 16 + i32 b div 16 < 64" "i32 b mod 16 * 4 + i32 c div 64 \<le> 64"
    using a b c by linarith+
  with a show ?thesis
    using assms(4) unfolding enc_group_arith [OF assms(1-3)] Let_def by (auto split: if_splits)
qed

lemma dec_enc_group:
  assumes "a < 256" "case_option True (\<lambda>b. b < 256) b" "case_option True (\<lambda>c. c < 256) c"
    and "b = None \<longrightarrow> c = None" and "enc_group a b c = (e1, e2, e3, e4)"
  shows "dec_group e1 e2 e3 e4 = group_bytes a b c"
proof -
  note bd = group_bounds [OF assms(1-3,5)]
  have mx: "e2 < 64" "e3 \<le> 64" "e4 \<le> 64" using bd by auto
  have q16: "(m * 16 + q) div 16 = m" "(m * 16 + q) mod 16 = q" if "q < 16" for m q :: nat
    using that by simp_all
  have q4: "(m * 4 + q) div 4 = m" "(m * 4 + q) mod 4 = q" if "q < 4" for m q :: nat
    using that by simp_all
  have d16: "x div 16 < 16" if "x < 256" for x :: nat using that by simp
  have d64: "y div 64 < 4" if "y < 256" for y :: nat using that by simp
  have n3: "x mod 16 * 4 + y div 64 \<noteq> 64" if "y < 256" for x y :: nat
    using d64 [OF that] mod_less_divisor [of 16 x] by linarith
  have n4: "y mod 64 \<noteq> 64" for y :: nat using mod_less_divisor [of 64 y] by linarith
  have dm: "x div 4 * 4 + x mod 4 = x" "x div 16 * 16 + x mod 16 = x" "x div 64 * 64 + x mod 64 = x"
    for x :: nat by simp_all
  have eq: "[e1 * 4 + e2 div 16] @ (if e3 \<noteq> 64 then [e2 mod 16 * 16 + e3 div 4] else []) @
    (if e4 \<noteq> 64 then [e3 mod 4 * 64 + e4] else []) = group_bytes a b c"
  proof (cases b)
    case None
    then show ?thesis
      using assms(4,5) unfolding enc_group_arith [OF assms(1-3)] Let_def
      by (auto simp: group_bytes_def i32_def dm)
  next
    case (Some x)
    then have x: "x < 256" using assms(2) by simp
    show ?thesis
    proof (cases c)
      case None
      then show ?thesis
        using assms(5) Some x unfolding enc_group_arith [OF assms(1-3)] Let_def
        by (auto simp: group_bytes_def i32_def q16 d16 q4 dm n3 [of 0, simplified])
    next
      case (Some y)
      then have "y < 256" using assms(3) by simp
      then show ?thesis
        using assms(5) \<open>b = Some x\<close> Some x unfolding enc_group_arith [OF assms(1-3)] Let_def
        by (auto simp: group_bytes_def i32_def q16 d16 d64 q4 dm n3 n4)
    qed
  qed
  show ?thesis unfolding dec_group_arith [OF mx] by (rule eq)
qed

lemma group_split:
  "a # s = group_bytes a (nth_opt s 0) (nth_opt s 1) @ drop 2 s"
  by (cases s; cases "tl s") (auto simp: group_bytes_def)

lemma opt_byte: "units_ok 256 s \<Longrightarrow> case_option True (\<lambda>b. b < 256) (nth_opt s i)"
  by (auto simp: nth_opt_def units_ok_def)

lemma nth_opt_0_1: "nth_opt s 0 = None \<longrightarrow> nth_opt s 1 = None"
  by (cases s) auto

lemma group_quad:
  assumes "units_ok 256 (a # s)" "enc_group a (nth_opt s 0) (nth_opt s 1) = (e1, e2, e3, e4)"
  shows "e1 < 64" "e2 < 64" "e3 \<le> 64" "e4 \<le> 64"
    "encode_loop (a # s) = [key_str ! e1, key_str ! e2, key_str ! e3, key_str ! e4] @ encode_loop (drop 2 s)"
    "dec_group e1 e2 e3 e4 = group_bytes a (nth_opt s 0) (nth_opt s 1)"
proof -
  have s: "a < 256" "units_ok 256 s" using assms(1) by auto
  note bd = group_bounds [OF s(1) opt_byte [OF s(2)] opt_byte [OF s(2)] assms(2)]
  then show "e1 < 64" "e2 < 64" "e3 \<le> 64" "e4 \<le> 64" by auto
  then show "encode_loop (a # s) =
    [key_str ! e1, key_str ! e2, key_str ! e3, key_str ! e4] @ encode_loop (drop 2 s)"
    using assms(2) by (simp add: key_char_in)
  show "dec_group e1 e2 e3 e4 = group_bytes a (nth_opt s 0) (nth_opt s 1)"
    by (rule dec_enc_group [OF s(1) opt_byte [OF s(2)] opt_byte [OF s(2)] nth_opt_0_1 assms(2)])
qed

lemma len3: "(length (drop 2 s) + 2) div 3 + 1 = (length (a # s) + 2) div 3"
proof -
  consider "length s \<le> 1" | n where "length s = n + 2"
    by (metis Suc_1 add.commute le_Suc_ex not_less_eq_eq)
  then show ?thesis
  proof cases
    case 1
    then have "length s = 0 \<or> length s = 1" by linarith
    then show ?thesis by auto
  next
    case 2
    then have "(length (a # s) + 2) div 3 = (3 + (n + 2)) div 3" by simp
    also have "\<dots> = (n + 2) div 3 + 1" by simp
    finally show ?thesis using 2 by simp
  qed
qed

lemma encode_loop_props:
  "units_ok 256 s \<Longrightarrow> decode_loop (encode_loop s) = s \<and>
     set (encode_loop s) \<subseteq> set key_str \<and> length (encode_loop s) = 4 * ((length s + 2) div 3)"
proof (induction s rule: encode_loop.induct)
  case (2 a s)
  obtain e1 e2 e3 e4 where e: "enc_group a (nth_opt s 0) (nth_opt s 1) = (e1, e2, e3, e4)"
    by (metis prod_cases4)
  note q = group_quad [OF "2.prems" e]
  have IH: "decode_loop (encode_loop (drop 2 s)) = drop 2 s"
    "set (encode_loop (drop 2 s)) \<subseteq> set key_str"
    "length (encode_loop (drop 2 s)) = 4 * ((length (drop 2 s) + 2) div 3)"
    using "2.IH" [OF e [symmetric] refl refl refl] "2.prems" units_ok_drop by auto
  have "decode_loop (encode_loop (a # s)) = a # s"
    unfolding q(5) using q IH(1) group_split [of a s] by simp
  moreover have "set (encode_loop (a # s)) \<subseteq> set key_str"
    unfolding q(5) using q(1-4) IH(2) by (auto intro!: nth_mem)
  moreover have "length (encode_loop (a # s)) = 4 * ((length (a # s) + 2) div 3)"
  proof -
    have "(length (drop 2 s) + 2) div 3 + 1 = (length (a # s) + 2) div 3" by (rule len3)
    then show ?thesis unfolding q(5) using IH(3) by simp
  qed
  ultimately show ?case by blast
qed simp

interpretation b64: codec encode_loop decode_loop "units_ok 256"
  by unfold_locales (simp add: encode_loop_props)

interpretation b64_utf8: codec_pipe utf8_units utf8_decode "units_ok 65536" encode_loop decode_loop "units_ok 256"
  by unfold_locales (rule utf8_units_bytes)

lemma set_crlf_to_lf: "set (crlf_to_lf s) \<subseteq> insert 10 (set s)"
  by (induction s rule: crlf_to_lf.induct) auto

lemma units_ok_crlf: "units_ok 65536 s \<Longrightarrow> units_ok 65536 (crlf_to_lf s)"
  using set_crlf_to_lf [of s] by (auto simp: units_ok_def)

lemma encode_alphabet:
  assumes "units_ok 65536 s"
  shows "\<forall>c \<in> set (encode s). is_b64_unit c"
  using encode_loop_props [OF utf8_units_bytes [OF units_ok_crlf [OF assms]]] key_str_b64
  by (auto simp: encode_def utf8_encode_def)

lemma crlf_to_lf_id: "13 \<notin> set s \<Longrightarrow> crlf_to_lf s = s"
  by (induction s rule: crlf_to_lf.induct) auto

lemma decode_encode: "units_ok 65536 s \<Longrightarrow> 13 \<notin> set s \<Longrightarrow> decode (encode s) = s"
  using b64_utf8.both.dec_enc [of s] encode_alphabet [of s]
  by (simp add: decode_def encode_def utf8_encode_def crlf_to_lf_id)

section \<open>Properties\<close>

text \<open>
  C12: decoding inverts encoding, whatever is inserted into the encoded text.  If the Base64
  characters of a text are those of \<open>encode s\<close> (line breaks or blanks may be interspersed), the text
  decodes to \<open>s\<close> with its CR-LF pairs replaced by LF; without a carriage return, to \<open>s\<close> itself.
\<close>

theorem base64_roundtrip:
  assumes "units_ok 65536 s" and "filter is_b64_unit t = encode s"
  shows "decode t = crlf_to_lf s \<and> (13 \<notin> set s \<longrightarrow> decode t = s)"
proof -
  have "decode t = utf8_decode (decode_loop (encode_loop (utf8_units (crlf_to_lf s))))"
    by (simp add: decode_def assms(2) encode_def utf8_encode_def)
  then show ?thesis
    using b64_utf8.both.dec_enc [OF units_ok_crlf [OF assms(1)]] crlf_to_lf_id by simp
qed

text \<open>
  The output of \<open>encode\<close> consists of Base64 characters only, and its length is four times the
  number of started three-byte groups of the UTF-8 text.
\<close>

theorem base64_output_form:
  assumes "units_ok 65536 s"
  shows "list_all is_b64_unit (encode s) \<and>
    length (encode s) = 4 * ((length (utf8_encode s) + 2) div 3)"
  using encode_alphabet [OF assms] encode_loop_props [OF utf8_units_bytes [OF units_ok_crlf [OF assms]]]
  by (simp add: list_all_iff encode_def utf8_encode_def)

lemma base64_roundtrip_witness:
  "decode (map of_char ''TW''  @ [10, 32] @ map of_char ''Fu'') = map of_char ''Man''"
proof -
  have "units_ok 65536 (map of_char ''Man'')" by (simp add: units_ok_def)
  moreover have "filter is_b64_unit (map of_char ''TW'' @ [10, 32] @ map of_char ''Fu'') =
    encode (map of_char ''Man'')"
    by (simp add: encode_def utf8_encode_def utf8_units_def utf8_unit_def enc_group_def key_char_def
        key_str_eval is_b64_unit_def i32_def push_bit_eq_mult drop_bit_eq_div)
  ultimately show ?thesis using base64_roundtrip by simp
qed

lemma base64_output_form_witness: "length (encode [20320, 13, 10]) = 8"
proof -
  have "units_ok 65536 [20320, 13, 10]" by simp
  moreover have "length (utf8_encode [20320, 13, 10]) = 4"
    by (simp add: utf8_encode_def utf8_units_def utf8_unit_def)
  ultimately show ?thesis using base64_output_form [of "[20320, 13, 10]"] by simp
qed

end
