(* ===== verification/Topo_Data.thy ===== *)
theory Topo_Data
  imports Js_Value
begin

text \<open>
  The data of the topology view (\<open>jtopo/js/open.js\<close>): how a datum received from the server is
  classified, how the switches of a sub-network are grouped, and the canvas node that is made of it.
  A datum is a JavaScript object; its \<open>id\<close> is a string, as the interface documents (ids that are names
  of inherited object properties are not considered).  A coordinate is a real number, \<open>None\<close> for a
  value that is not finite.
\<close>

datatype js_error = TypeError | ReferenceError | SyntaxError

section \<open>Classification\<close>

definition isPhysical :: "jsval \<Rightarrow> bool" where
  "isPhysical e =
     (if js_eq (pget e ''isPhysical'') JNull then
        js_eq (pget e ''mininet'') JNull \<or> js_eq (pget e ''mininet'') (JStr [])
      else js_eq (pget e ''isPhysical'') (JStr ''1''))"

definition isCoreSwitch :: "jsval \<Rightarrow> bool" where
  "isCoreSwitch e =
     ((js_eq (pget e ''core'') (JBool True) \<or> js_eq (pget e ''core'') (JStr ''true'')) \<and> \<not> isPhysical e)"

definition notCoreSwitch :: "jsval \<Rightarrow> bool" where
  "notCoreSwitch e =
     (if js_eq (pget e ''type'') (JStr ''host'') then False
      else (js_eq (pget e ''core'') JNull \<or> js_eq (pget e ''core'') (JBool False) \<or>
            js_eq (pget e ''core'') (JStr ''false'')) \<and> \<not> isPhysical e)"

definition isBelongsMininet :: "jsval \<Rightarrow> bool" where
  "isBelongsMininet e \<longleftrightarrow>
     \<not> js_eq (pget e ''mininet'') JNull \<and> \<not> js_eq (pget e ''mininet'') (JStr [])"

section \<open>Sub-networks\<close>

text \<open>
  \<open>map\<close> starts as \<open>{}\<close>: the names of the properties that every object inherits are found in it, and
  what is found has no \<open>push\<close>.
\<close>

definition inherited_names :: "string list" where
  "inherited_names = [''constructor'', ''toString'', ''toLocaleString'', ''valueOf'', ''hasOwnProperty'',
     ''isPrototypeOf'', ''propertyIsEnumerable'', ''__proto__'', ''__defineGetter__'',
     ''__defineSetter__'', ''__lookupGetter__'', ''__lookupSetter__'']"

record mininet_info =
  mi_names :: "jsval list"
  mi_map :: "(string \<times> jsval list) list"
  mi_count :: nat

definition mininet_step :: "jsval \<Rightarrow> mininet_info \<Rightarrow> js_error + mininet_info" where
  "mininet_step e info =
     (if nullish e then Inl TypeError
      else if isBelongsMininet e then
        (let name = pget e ''mininet''; k = js_str name
         in if k \<in> set inherited_names then Inl TypeError
            else if map_of (mi_map info) k = None then
              Inr \<lparr>mi_names = mi_names info @ [name], mi_map = mi_map info @ [(k, [e])],
                   mi_count = Suc (mi_count info)\<rparr>
            else Inr (info\<lparr>mi_map := AList.map_entry k (\<lambda>es. es @ [e]) (mi_map info)\<rparr>))
      else Inr info)"

fun mininet_fold :: "jsval list \<Rightarrow> mininet_info \<Rightarrow> js_error + mininet_info" where
  "mininet_fold [] info = Inr info"
| "mininet_fold (e # es) info =
     (case mininet_step e info of Inl err \<Rightarrow> Inl err | Inr info' \<Rightarrow> mininet_fold es info')"

definition getMininetInfo :: "jsval list \<Rightarrow> js_error + mininet_info" where
  "getMininetInfo datas = mininet_fold datas \<lparr>mi_names = [], mi_map = [], mi_count = 0\<rparr>"

section \<open>Nodes\<close>

type_synonym coord = "real option"

record topo_node =
  n_id :: string
  n_type :: string
  n_data :: jsval
  n_text :: string
  n_image :: string
  n_x :: coord
  n_y :: coord
  n_width :: real
  n_height :: real
  n_angle :: "real option"
  n_border :: nat
  n_selected :: bool
  n_zIndex :: int
  n_hosts :: "(nat \<times> nat list \<times> nat list) option"

definition prefix :: string where
  "prefix = ''../jtopo/''"

text \<open>\<open>new JTopo.Node(text)\<close>: at the origin, 32 wide and high.\<close>

definition new_node :: "jsval \<Rightarrow> topo_node" where
  "new_node txt = \<lparr>n_id = ''undefined'', n_type = ''undefined'', n_data = JUndef, n_text = js_str txt,
     n_image = [], n_x = Some 0, n_y = Some 0, n_width = 32, n_height = 32, n_angle = None, n_border = 0,
     n_selected = False, n_zIndex = 3, n_hosts = None\<rparr>"

text \<open>The middle of a node, which the library derives from its corner and size.\<close>

definition n_cx :: "topo_node \<Rightarrow> coord" where
  "n_cx n = map_option (\<lambda>x. x + n_width n / 2) (n_x n)"

definition n_cy :: "topo_node \<Rightarrow> coord" where
  "n_cy n = map_option (\<lambda>y. y + n_height n / 2) (n_y n)"

definition set_cx :: "coord \<Rightarrow> topo_node \<Rightarrow> topo_node" where
  "set_cx c n = n\<lparr>n_x := map_option (\<lambda>a. a - n_width n / 2) c\<rparr>"

definition set_cy :: "coord \<Rightarrow> topo_node \<Rightarrow> topo_node" where
  "set_cy c n = n\<lparr>n_y := map_option (\<lambda>a. a - n_height n / 2) c\<rparr>"

definition parsed_coord :: "jsval \<Rightarrow> coord \<Rightarrow> coord" where
  "parsed_coord v old = (if truthy v then map_option of_int (parse_int (js_str v)) else old)"

definition switchToNode :: "jsval \<Rightarrow> topo_node" where
  "switchToNode obj =
     (let (img, size) = (if isPhysical obj then (''img/wulijiaohuanji.png'', 54)
                         else if isCoreSwitch obj then (''img/hexinjiaohuanji.png'', 48)
                         else (''img/jiaohuanji.png'', 48));
          node = new_node (pget obj ''name'')
      in node\<lparr>n_image := prefix @ img, n_width := size, n_height := size,
          n_id := js_str (pget obj ''id''), n_type := ''switch'', n_data := obj,
          n_x := parsed_coord (pget obj ''x'') (n_x node), n_y := parsed_coord (pget obj ''y'') (n_y node)\<rparr>)"

text \<open>
  A host keeps the size of a new node: \<open>setImage(url, true)\<close> takes over the size of the image when the
  library has loaded it, an event outside the model.
\<close>

definition hostToNode :: "jsval \<Rightarrow> topo_node" where
  "hostToNode obj = (new_node (pget obj ''name''))
     \<lparr>n_image := prefix @ ''img/host.png'', n_id := js_str (pget obj ''id''), n_type := ''host'', n_data := obj\<rparr>"

text \<open>\<open>randomHost\<close>, with its counter.\<close>

definition randomHost :: "nat \<Rightarrow> jsval \<times> nat" where
  "randomHost host_counter =
     (let i = ''H_'' @ show_nat host_counter
      in (JObj [(''id'', JStr (''H_'' @ i)), (''name'', JStr (''H_'' @ i))], Suc host_counter))"

section \<open>Lemmas\<close>

lemma switch_fields [simp]:
  "n_id (switchToNode obj) = js_str (pget obj ''id'')" "n_data (switchToNode obj) = obj"
  "n_type (switchToNode obj) = ''switch''" "n_hosts (switchToNode obj) = None"
  "n_border (switchToNode obj) = 0" "n_angle (switchToNode obj) = None"
  by (simp_all add: switchToNode_def new_node_def Let_def split: prod.split)

lemma host_fields [simp]:
  "n_id (hostToNode obj) = js_str (pget obj ''id'')" "n_data (hostToNode obj) = obj"
  "n_type (hostToNode obj) = ''host''" "n_hosts (hostToNode obj) = None"
  by (simp_all add: hostToNode_def new_node_def)

lemma set_cx_cx [simp]: "n_cx (set_cx c n) = c" "n_cy (set_cx c n) = n_cy n"
  by (cases c; simp add: n_cx_def n_cy_def set_cx_def)+

lemma set_cy_cy [simp]: "n_cy (set_cy c n) = c" "n_cx (set_cy c n) = n_cx n"
  by (cases c; simp add: n_cx_def n_cy_def set_cy_def)+

definition mininet_group :: "jsval list \<Rightarrow> string \<Rightarrow> jsval list" where
  "mininet_group datas k = filter (\<lambda>e. isBelongsMininet e \<and> js_str (pget e ''mininet'') = k) datas"

definition mininet_inv :: "jsval list \<Rightarrow> mininet_info \<Rightarrow> bool" where
  "mininet_inv seen info \<longleftrightarrow>
     map js_str (mi_names info) = map fst (mi_map info) \<and> distinct (map fst (mi_map info)) \<and>
     mi_count info = length (mi_names info) \<and>
     (\<forall>k. map_of (mi_map info) k =
        (if mininet_group seen k = [] then None else Some (mininet_group seen k)))"

lemma map_of_map_entry': "map_of (AList.map_entry k f al) = (map_of al)(k := map_option f (map_of al k))"
  by (induction al) (auto simp: fun_eq_iff)

lemma fst_map_entry: "map fst (AList.map_entry k f al) = map fst al"
  by (induction al) auto

lemma mininet_step_inv:
  assumes "mininet_inv seen info" "mininet_step e info = Inr info'"
  shows "mininet_inv (seen @ [e]) info'"
proof (cases "isBelongsMininet e")
  case False
  then have "info' = info" using assms(2) by (simp add: mininet_step_def split: if_splits)
  then show ?thesis using assms(1) False by (simp add: mininet_inv_def mininet_group_def)
next
  case True
  let ?k = "js_str (pget e ''mininet'')"
  have grp: "mininet_group (seen @ [e]) k = mininet_group seen k @ (if k = ?k then [e] else [])" for k
    using True by (auto simp: mininet_group_def)
  show ?thesis
  proof (cases "map_of (mi_map info) ?k")
    case None
    have "map_of (mi_map info) ?k =
        (if mininet_group seen ?k = [] then None else Some (mininet_group seen ?k))"
      using assms(1) unfolding mininet_inv_def by blast
    then have "mininet_group seen ?k = []" using None by (simp split: if_splits)
    moreover have "?k \<notin> set (map fst (mi_map info))"
      using None by (simp add: map_of_eq_None_iff)
    moreover have "info' = \<lparr>mi_names = mi_names info @ [pget e ''mininet''],
        mi_map = mi_map info @ [(?k, [e])], mi_count = Suc (mi_count info)\<rparr>"
      using assms(2) True None by (auto simp: mininet_step_def Let_def split: if_splits)
    ultimately show ?thesis
      using assms(1) by (auto simp: mininet_inv_def grp map_add_def split: option.splits)
  next
    case (Some es)
    then have "mininet_group seen ?k = es" "es \<noteq> []"
      using assms(1) by (auto simp: mininet_inv_def split: if_splits)
    moreover have "info' = info\<lparr>mi_map := AList.map_entry ?k (\<lambda>es. es @ [e]) (mi_map info)\<rparr>"
      using assms(2) True Some by (auto simp: mininet_step_def Let_def split: if_splits)
    ultimately show ?thesis
      using assms(1) Some by (auto simp: mininet_inv_def grp map_of_map_entry' fst_map_entry)
  qed
qed

lemma mininet_fold_inv:
  "mininet_inv seen info \<Longrightarrow> mininet_fold es info = Inr info' \<Longrightarrow> mininet_inv (seen @ es) info'"
proof (induction es arbitrary: seen info)
  case (Cons e es)
  then obtain i where "mininet_step e info = Inr i" "mininet_fold es i = Inr info'"
    by (auto split: sum.splits)
  with Cons mininet_step_inv show ?case by fastforce
qed simp

lemma mininet_fold_total:
  "list_all (\<lambda>e. \<not> nullish e \<and> js_str (pget e ''mininet'') \<notin> set inherited_names) es \<Longrightarrow>
     \<exists>info'. mininet_fold es info = Inr info'"
proof (induction es arbitrary: info)
  case (Cons e es)
  then have "\<exists>i. mininet_step e info = Inr i"
    by (auto simp: mininet_step_def Let_def)
  with Cons show ?case by auto
qed simp

section \<open>Properties\<close>

text \<open>
  No datum is drawn in two classes, and one that is not a host is drawn in exactly one class
  unless it has a \<open>core\<close> value that is neither a truth value nor absent: such a switch is dropped.
\<close>

theorem classification_exclusive:
  "length (filter (\<lambda>p. p e) [isPhysical, isCoreSwitch, notCoreSwitch]) \<le> 1 \<and>
   (length (filter (\<lambda>p. p e) [isPhysical, isCoreSwitch, notCoreSwitch]) = 0) =
     (\<not> isPhysical e \<and> \<not> isCoreSwitch e \<and> \<not> notCoreSwitch e) \<and>
   (isPhysical e \<or> isCoreSwitch e \<or> notCoreSwitch e \<or> js_eq (pget e ''type'') (JStr ''host'') \<or>
    list_all (\<lambda>v. \<not> js_eq (pget e ''core'') v)
      [JNull, JBool False, JStr ''false'', JBool True, JStr ''true''])"
proof -
  have t: "to_number ''true'' = NaN" "to_number ''false'' = NaN" by code_simp+
  have x: "\<not> (js_eq v (JBool True) \<or> js_eq v (JStr ''true'')) \<or>
    \<not> (js_eq v JNull \<or> js_eq v (JBool False) \<or> js_eq v (JStr ''false''))" for v
    by (cases v) (auto simp: js_eq_def num_eq_def t split: if_splits)
  show ?thesis
    using x [of "pget e ''core''"] by (auto simp: isCoreSwitch_def notCoreSwitch_def)
qed

text \<open>
  The sub-networks are a partition of the data that belong to one, in order of appearance.
  \<open>getMininetInfo\<close> lists each name once, with exactly the data of that name in their order, and counts
  them; it fails only when a name is that of a property that every object inherits.
\<close>

theorem getMininetInfo_groups:
  assumes "getMininetInfo datas = Inr info"
  shows "map js_str (mi_names info) = map fst (mi_map info) \<and> distinct (map fst (mi_map info)) \<and>
    mi_count info = length (mi_names info) \<and>
    map_of (mi_map info) k =
      (if mininet_group datas k = [] then None else Some (mininet_group datas k))"
proof -
  have "mininet_inv [] \<lparr>mi_names = [], mi_map = [], mi_count = 0\<rparr>"
    by (simp add: mininet_inv_def mininet_group_def)
  from mininet_fold_inv [OF this] assms have "mininet_inv datas info"
    by (simp add: getMininetInfo_def)
  then show ?thesis by (simp add: mininet_inv_def)
qed

text \<open>
  A sub-network named like an inherited property stops the grouping: with such a datum (or a null) the whole
  circular view fails, whatever the other data are.
\<close>

theorem getMininetInfo_inherited_name:
  "(getMininetInfo datas = Inl TypeError) =
     list_ex (\<lambda>e. nullish e \<or> isBelongsMininet e \<and> js_str (pget e ''mininet'') \<in> set inherited_names) datas"
proof -
  have "(mininet_fold es info = Inl TypeError) =
    list_ex (\<lambda>e. nullish e \<or> isBelongsMininet e \<and> js_str (pget e ''mininet'') \<in> set inherited_names) es" for es info
    by (induction es arbitrary: info)
      (auto simp: mininet_step_def Let_def split: sum.splits if_splits)
  then show ?thesis by (simp add: getMininetInfo_def)
qed

lemma getMininetInfo_groups_witness:
  "map_of (mi_map (projr (getMininetInfo [JObj [(''mininet'', JStr ''1'')], JObj [(''mininet'', JStr ''1'')]]))) ''1''
     = Some [JObj [(''mininet'', JStr ''1'')], JObj [(''mininet'', JStr ''1'')]]"
proof -
  let ?e = "JObj [(''mininet'', JStr ''1'')]"
  have b: "pget ?e ''mininet'' = JStr ''1''" "isBelongsMininet ?e"
    by (simp_all add: isBelongsMininet_def pget.simps)
  then have "getMininetInfo [?e, ?e] = Inr \<lparr>mi_names = [JStr ''1''], mi_map = [(''1'', [?e, ?e])], mi_count = 1\<rparr>"
    by (simp add: getMininetInfo_def mininet_step_def inherited_names_def Let_def)
  then show ?thesis using getMininetInfo_groups [of "[?e, ?e]" _ "''1''"] b
    by (simp add: mininet_group_def)
qed

end
