(* ===== verification/Layout.thy ===== *)
theory Layout
  imports Topo_Data
begin

text \<open>
  The geometry of the topology view (\<open>jtopo/js/open.js\<close>): circles and rows of nodes.  Computations
  are over the real numbers; \<open>None\<close> stands for a result that is not finite (NaN or an infinity).
\<close>

named_theorems layout_simps \<open>layouts of finite data\<close>

section \<open>Arithmetic with values that are not finite\<close>

definition lift2 :: "(real \<Rightarrow> real \<Rightarrow> real) \<Rightarrow> coord \<Rightarrow> coord \<Rightarrow> coord" where
  "lift2 f a b = (case (a, b) of (Some x, Some y) \<Rightarrow> Some (f x y) | _ \<Rightarrow> None)"

definition cdiv :: "coord \<Rightarrow> coord \<Rightarrow> coord" where
  "cdiv a b = (case (a, b) of (Some x, Some y) \<Rightarrow> if y = 0 then None else Some (x / y) | _ \<Rightarrow> None)"

lemma lift2_simps [simp]:
  "lift2 f (Some x) (Some y) = Some (f x y)" "lift2 f None b = None" "lift2 f a None = None"
  by (simp_all add: lift2_def split: option.split)

lemma cdiv_Some [simp]: "cdiv (Some x) (Some y) = (if y = 0 then None else Some (x / y))"
  by (simp add: cdiv_def)

text \<open>\<open>v || d\<close> for a number or undefined.\<close>

definition or_default :: "coord \<Rightarrow> real \<Rightarrow> real" where
  "or_default v d = (case v of None \<Rightarrow> d | Some x \<Rightarrow> if x = 0 then d else x)"

section \<open>Circles\<close>

text \<open>What the layout reads of a node.\<close>

record shape =
  s_diameter :: coord
  s_radius :: coord
  s_width :: coord
  s_height :: coord

definition is_set :: "coord \<Rightarrow> bool" where
  "is_set v = (case v of None \<Rightarrow> False | Some x \<Rightarrow> x \<noteq> 0)"

definition getNodeDiameter :: "shape \<Rightarrow> coord" where
  "getNodeDiameter node =
     (if is_set (s_diameter node) then s_diameter node
      else if is_set (s_radius node) then map_option (\<lambda>r. r * 2) (s_radius node)
      else lift2 (\<lambda>w h. sqrt (2 * w * h)) (s_width node) (s_height node))"

definition getNodesCenter :: "(coord \<times> coord) list \<Rightarrow> coord \<times> coord" where
  "getNodesCenter nodes =
     (let x = foldl (\<lambda>x e. lift2 (+) x (fst e)) (Some 0) nodes;
          y = foldl (\<lambda>y e. lift2 (+) y (snd e)) (Some 0) nodes;
          n = Some (real (length nodes))
      in (cdiv x n, cdiv y n))"

definition moveNodes :: "real \<Rightarrow> real \<Rightarrow> topo_node list \<Rightarrow> topo_node list" where
  "moveNodes dx dy nodes =
     map (\<lambda>n. n\<lparr>n_x := map_option (\<lambda>x. x + dx) (n_x n), n_y := map_option (\<lambda>y. y + dy) (n_y n)\<rparr>) nodes"

record circle_opt =
  o_cx :: "coord option"
  o_cy :: "coord option"
  o_minRadius :: coord
  o_hScale :: coord
  o_vScale :: coord
  o_beginAngle :: coord
  o_endAngle :: coord
  o_dxRadius :: coord

definition no_opt :: circle_opt where
  "no_opt = \<lparr>o_cx = None, o_cy = None, o_minRadius = None, o_hScale = None, o_vScale = None,
     o_beginAngle = None, o_endAngle = None, o_dxRadius = None\<rparr>"

record circle_layout =
  cl_cx :: coord
  cl_cy :: coord
  cl_radius :: coord
  cl_radiusB :: coord
  cl_locations :: "(coord \<times> coord) list"
  cl_angles :: "coord list"

text \<open>
  With no node two of radius 64 are simulated; to an array of one node a copy of the node's sizes is
  pushed, which changes the array of the caller.
\<close>

definition clone_shape :: "shape \<Rightarrow> shape" where
  "clone_shape s = \<lparr>s_diameter = s_diameter s, s_radius = s_radius s, s_width = s_width s, s_height = s_height s\<rparr>"

definition simulated :: shape where
  "simulated = \<lparr>s_diameter = None, s_radius = Some 64, s_width = None, s_height = None\<rparr>"

definition circle_nodes :: "shape list \<Rightarrow> shape list" where
  "circle_nodes nodes =
     (case nodes of [] \<Rightarrow> [simulated, simulated] | [s] \<Rightarrow> [s, clone_shape s] | _ \<Rightarrow> nodes)"

definition caller_nodes :: "shape list \<Rightarrow> shape list" where
  "caller_nodes nodes = (case nodes of [s] \<Rightarrow> [s, clone_shape s] | _ \<Rightarrow> nodes)"

text \<open>The angle of each node: the previous one plus half of each of the two sectors.\<close>

fun run_angles :: "coord \<Rightarrow> coord option \<Rightarrow> coord list \<Rightarrow> coord list" where
  "run_angles da prev [] = []"
| "run_angles da prev (a # as) =
     (let da' = lift2 (+) da (case prev of None \<Rightarrow> a | Some p \<Rightarrow> lift2 (+) p a)
      in da' # run_angles da' (Some a) as)"

definition circle_point :: "coord \<Rightarrow> coord \<Rightarrow> coord \<Rightarrow> coord \<Rightarrow> coord \<Rightarrow> coord \<times> coord" where
  "circle_point cx cy ra rb da =
     (lift2 (+) cx (lift2 (*) (map_option cos da) ra), lift2 (+) cy (lift2 (*) (map_option sin da) rb))"

text \<open>The centers \<open>e.cx\<close>, \<open>e.cy\<close> of the nodes are used only when the options give no center.\<close>

definition getCircleLayout :: "shape list \<Rightarrow> (coord \<times> coord) list \<Rightarrow> circle_opt \<Rightarrow> circle_layout" where
  "getCircleLayout nodes0 centers opt =
     (let nodes = circle_nodes nodes0;
          hScale = or_default (o_hScale opt) 1;
          vScale = or_default (o_vScale opt) 1;
          beginAngle = or_default (o_beginAngle opt) 0;
          endAngle = or_default (o_endAngle opt) (2 * pi);
          totalAngle = endAngle - beginAngle;
          (cx, cy) = (case (o_cx opt, o_cy opt) of (Some x, Some y) \<Rightarrow> (x, y)
                      | _ \<Rightarrow> getNodesCenter centers);
          diameters = map getNodeDiameter nodes;
          perimeter = foldl (lift2 (+)) (Some 0) diameters;
          angles = map (\<lambda>d. map_option (\<lambda>rate. totalAngle / 2 * rate) (cdiv d perimeter)) diameters;
          angle = hd angles;
          diameter = hd diameters;
          radius0 = cdiv (map_option (\<lambda>d. d / 2) diameter) (map_option sin angle);
          radius1 = (case (o_minRadius opt, radius0) of
                       (Some m, Some r) \<Rightarrow> if m > r then Some m else Some r
                     | _ \<Rightarrow> radius0);
          circleRadius = (if is_set (o_dxRadius opt) then lift2 (+) radius1 (o_dxRadius opt) else radius1);
          circleRadiusA = map_option (\<lambda>r. r * hScale) circleRadius;
          circleRadiusB = map_option (\<lambda>r. r * vScale) circleRadius;
          nodeAngles = run_angles (Some beginAngle) None angles
      in \<lparr>cl_cx = cx, cl_cy = cy, cl_radius = circleRadiusA, cl_radiusB = circleRadiusB,
          cl_locations = map (circle_point cx cy circleRadiusA circleRadiusB) nodeAngles,
          cl_angles = nodeAngles\<rparr>)"

section \<open>Rows\<close>

text \<open>
  \<open>treeLayoutNodes\<close>, for nodes of the given widths: without a width, that of the first node is read,
  which fails on an empty array.
\<close>

definition treeLayoutNodes ::
  "coord \<Rightarrow> coord \<Rightarrow> real list \<Rightarrow> real option \<Rightarrow> real \<Rightarrow> js_error + (coord \<times> coord) list" where
  "treeLayoutNodes cx startY widths width gap0 =
     (let count = real (length widths);
          gap = (if gap0 = 0 then 20 else gap0)
      in case (if is_set width then width else nth_opt widths 0) of
           None \<Rightarrow> Inl TypeError
         | Some nodeWidth \<Rightarrow>
             (let startX = map_option (\<lambda>x. x - (nodeWidth + gap) * count / 2) cx
              in Inr (map (\<lambda>i. (map_option (\<lambda>x. x + real i * (gap + nodeWidth)) startX, startY))
                   [0..<length widths])))"

section \<open>Angles\<close>

lemma upt_0_Suc: "[0..<Suc n] = 0 # map Suc [0..<n]"
  by (simp add: upt_conv_Cons map_Suc_upt del: upt_Suc)

lemma run_angles_prev:
  "run_angles (Some b) (Some (Some p)) (map Some as) =
     map (\<lambda>i. Some (b + p + 2 * sum_list (take i as) + as ! i)) [0..<length as]"
proof (induction as arbitrary: b p)
  case (Cons a as)
  have "map (\<lambda>i. Some (b + p + 2 * sum_list (take i (a # as)) + (a # as) ! i)) [0..<length (a # as)] =
    Some (b + p + a) # map (\<lambda>i. Some (b + p + 2 * (a + sum_list (take i as)) + as ! i)) [0..<length as]"
    by (simp add: upt_0_Suc o_def del: upt_Suc)
  also have "map (\<lambda>i. Some (b + p + 2 * (a + sum_list (take i as)) + as ! i)) [0..<length as] =
    map (\<lambda>i. Some ((b + p + a) + a + 2 * sum_list (take i as) + as ! i)) [0..<length as]"
    by (simp add: algebra_simps)
  finally show ?case using Cons.IH [of "b + p + a" a] by (simp add: Let_def add.assoc)
qed simp

lemma run_angles_finite:
  "run_angles (Some b) None (map Some as) =
     map (\<lambda>i. Some (b + 2 * sum_list (take i as) + as ! i)) [0..<length as]"
proof (cases as)
  case (Cons a bs)
  have "map (\<lambda>i. Some (b + 2 * sum_list (take i (a # bs)) + (a # bs) ! i)) [0..<length (a # bs)] =
    Some (b + a) # map (\<lambda>i. Some (b + 2 * (a + sum_list (take i bs)) + bs ! i)) [0..<length bs]"
    by (simp add: upt_0_Suc o_def del: upt_Suc)
  also have "map (\<lambda>i. Some (b + 2 * (a + sum_list (take i bs)) + bs ! i)) [0..<length bs] =
    map (\<lambda>i. Some ((b + a) + a + 2 * sum_list (take i bs) + bs ! i)) [0..<length bs]"
    by (simp add: algebra_simps)
  finally show ?thesis using run_angles_prev [of "b + a" a bs] by (simp add: Cons Let_def)
qed simp

lemma perimeter_finite: "foldl (lift2 (+)) (Some p) (map Some ds) = Some (p + sum_list ds)"
  by (induction ds arbitrary: p) (auto simp: add.assoc)

text \<open>A layout of at least two nodes with the given positive diameters, around a given center.\<close>

definition sized :: "shape list \<Rightarrow> real list \<Rightarrow> bool" where
  "sized nodes ds \<longleftrightarrow> map getNodeDiameter nodes = map Some ds \<and> 2 \<le> length ds \<and> (\<forall>d \<in> set ds. 0 < d)"

lemma sized_nodes: "sized nodes ds \<Longrightarrow> circle_nodes nodes = nodes \<and> length nodes = length ds"
  by (auto simp: sized_def circle_nodes_def split: list.splits dest: map_eq_imp_length_eq)

lemma sized_sum: "sized nodes ds \<Longrightarrow> 0 < sum_list ds"
proof -
  assume s: "sized nodes ds"
  then obtain d es where ds: "ds = d # es" by (cases ds) (auto simp: sized_def)
  then have "0 < d" "\<forall>e \<in> set es. 0 \<le> e" using s by (auto simp: sized_def less_imp_le)
  then show ?thesis using sum_list_nonneg [of es] by (simp add: ds)
qed

definition sector :: "real list \<Rightarrow> real \<Rightarrow> nat \<Rightarrow> real" where
  "sector ds tot i = tot / 2 * (ds ! i / sum_list ds)"

definition node_angle :: "real list \<Rightarrow> real \<Rightarrow> real \<Rightarrow> nat \<Rightarrow> real" where
  "node_angle ds b tot i = b + tot / 2 * ((2 * sum_list (take i ds) + ds ! i) / sum_list ds)"

lemma sector_bounds:
  assumes "sized nodes ds" "0 < tot" "tot \<le> 2 * pi" "i < length ds"
  shows "0 < sector ds tot i" "sector ds tot i < pi"
proof -
  have p: "0 < ds ! i" "0 < sum_list ds" using assms sized_sum by (auto simp: sized_def)
  have "ds ! i < sum_list ds"
  proof -
    have "sum_list ds = ds ! i + sum_list (take i ds @ drop (Suc i) ds)"
      using id_take_nth_drop [OF assms(4)] by (metis add.left_commute sum_list.Cons sum_list.append)
    moreover have "0 < sum_list (take i ds @ drop (Suc i) ds)"
    proof -
      have "take i ds @ drop (Suc i) ds \<noteq> []" using assms(1,4) by (auto simp: sized_def)
      moreover have "\<forall>d \<in> set (take i ds @ drop (Suc i) ds). 0 < d"
        using assms(1) by (auto simp: sized_def dest: in_set_takeD in_set_dropD)
      ultimately show ?thesis
        by (cases "take i ds @ drop (Suc i) ds")
          (auto intro!: add_pos_nonneg sum_list_nonneg simp: less_imp_le)
    qed
    ultimately show ?thesis by linarith
  qed
  then have q: "0 < ds ! i / sum_list ds" "ds ! i / sum_list ds < 1" using p by auto
  then show "0 < sector ds tot i" unfolding sector_def using assms(2) by (intro mult_pos_pos) auto
  have "tot / 2 * (ds ! i / sum_list ds) < tot / 2 * 1"
    using q(2) assms(2) by (intro mult_strict_left_mono) auto
  then show "sector ds tot i < pi" unfolding sector_def using assms(3) by linarith
qed

definition ring_radius :: "real list \<Rightarrow> real \<Rightarrow> circle_opt \<Rightarrow> real" where
  "ring_radius ds tot opt =
     (let r = (hd ds / 2) / sin (sector ds tot 0);
          r' = (case o_minRadius opt of None \<Rightarrow> r | Some m \<Rightarrow> max m r)
      in if is_set (o_dxRadius opt) then r' + the (o_dxRadius opt) else r')"

lemma sum_list_scaled: "sum_list (map (\<lambda>d. t * (d / S)) xs) = t * (sum_list xs / (S :: real))"
  by (induction xs) (auto simp: add_divide_distrib distrib_left)

lemma getCircleLayout_finite:
  assumes sz: "sized nodes ds" and c: "o_cx opt = Some (Some cx)" "o_cy opt = Some (Some cy)"
    and t: "tot = or_default (o_endAngle opt) (2 * pi) - or_default (o_beginAngle opt) 0"
    and tb: "0 < tot" "tot \<le> 2 * pi"
  shows "getCircleLayout nodes centers opt =
    (let ra = ring_radius ds tot opt * or_default (o_hScale opt) 1;
         rb = ring_radius ds tot opt * or_default (o_vScale opt) 1;
         ang = node_angle ds (or_default (o_beginAngle opt) 0) tot
     in \<lparr>cl_cx = Some cx, cl_cy = Some cy, cl_radius = Some ra, cl_radiusB = Some rb,
         cl_locations = map (\<lambda>i. (Some (cx + cos (ang i) * ra), Some (cy + sin (ang i) * rb))) [0..<length ds],
         cl_angles = map (\<lambda>i. Some (ang i)) [0..<length ds]\<rparr>)"
proof -
  let ?b = "or_default (o_beginAngle opt) 0"
  let ?as = "map (\<lambda>d. tot / 2 * (d / sum_list ds)) ds"
  have n: "circle_nodes nodes = nodes" and dd: "map getNodeDiameter nodes = map Some ds"
    and p: "0 < sum_list ds" and ne: "ds \<noteq> []"
    using sized_nodes [OF sz] sized_sum [OF sz] sz by (auto simp: sized_def)
  have per: "foldl (lift2 (+)) (Some 0) (map Some ds) = Some (sum_list ds)" by (simp add: perimeter_finite)
  have an: "map (\<lambda>d. map_option (\<lambda>rate. tot / 2 * rate) (cdiv d (Some (sum_list ds)))) (map Some ds) = map Some ?as"
    using p by (simp add: o_def)
  have h: "hd (map Some ?as) = Some (sector ds tot 0)" "hd (map Some ds) = Some (hd ds)"
    using ne by (simp_all add: hd_map sector_def hd_conv_nth)
  have s: "sin (sector ds tot 0) \<noteq> 0"
    using sector_bounds [OF sz tb] ne sin_gt_zero by (metis less_irrefl length_greater_0_conv)
  have na: "run_angles (Some ?b) None (map Some ?as) = map (\<lambda>i. Some (node_angle ds ?b tot i)) [0..<length ds]"
  proof -
    have "?b + 2 * sum_list (take i ?as) + ?as ! i = node_angle ds ?b tot i" if "i < length ds" for i
    proof -
      have "sum_list (take i ?as) = tot / 2 * (sum_list (take i ds) / sum_list ds)"
        by (simp only: take_map sum_list_scaled)
      then show ?thesis using that by (simp add: node_angle_def algebra_simps add_divide_distrib)
    qed
    then show ?thesis unfolding run_angles_finite by simp
  qed
  show ?thesis
    unfolding getCircleLayout_def n dd per Let_def t [symmetric] an h na
    using s c by (cases "o_minRadius opt"; cases "o_dxRadius opt")
      (auto simp: ring_radius_def Let_def circle_point_def is_set_def max_def)
qed

section \<open>Distances on a ring\<close>

definition loc_dist :: "(coord \<times> coord) \<Rightarrow> (coord \<times> coord) \<Rightarrow> real" where
  "loc_dist p q = (case (p, q) of
      ((Some x, Some y), (Some x', Some y')) \<Rightarrow> sqrt ((x - x')\<^sup>2 + (y - y')\<^sup>2) | _ \<Rightarrow> 0)"

lemma chord:
  assumes "0 \<le> r" "0 \<le> sin ((b - a) / 2)"
  shows "sqrt ((cx + cos a * r - (cx + cos b * r))\<^sup>2 + (cy + sin a * r - (cy + sin b * r))\<^sup>2) =
    2 * r * sin ((b - a) / 2)"
proof -
  have half: "cos (b - a) = 1 - 2 * (sin ((b - a) / 2))\<^sup>2"
  proof -
    obtain h where "b - a = 2 * h" by (metis field_sum_of_halves mult_2)
    then show ?thesis by (simp add: cos_double_sin)
  qed
  have "(cx + cos a * r - (cx + cos b * r))\<^sup>2 + (cy + sin a * r - (cy + sin b * r))\<^sup>2 =
    r\<^sup>2 * ((cos a)\<^sup>2 + (sin a)\<^sup>2) + r\<^sup>2 * ((cos b)\<^sup>2 + (sin b)\<^sup>2) - 2 * r\<^sup>2 * (cos b * cos a + sin b * sin a)"
    by algebra
  also have "\<dots> = 2 * r\<^sup>2 - 2 * r\<^sup>2 * cos (b - a)" by (simp add: cos_diff)
  also have "\<dots> = (2 * r * sin ((b - a) / 2))\<^sup>2"
    by (simp add: half power2_eq_square algebra_simps)
  finally show ?thesis using assms by simp
qed

lemma sin_multiple_ge:
  assumes "2 \<le> n" "1 \<le> k" "k < n"
  shows "sin (pi / real n) \<le> sin (real k * pi / real n)"
proof (cases "2 * k \<le> n")
  case True
  have "pi / real n \<le> real k * pi / real n" using assms by (simp add: divide_right_mono)
  moreover have "real k * pi / real n \<le> pi / 2"
    using True assms by (simp add: field_simps)
  ultimately show ?thesis using assms by (intro sin_monotone_2pi_le) (auto intro: order_trans [of _ 0])
next
  case False
  have r: "real k * pi / real n = pi - real (n - k) * pi / real n"
    using assms by (simp add: of_nat_diff field_simps)
  have "pi / real n \<le> real (n - k) * pi / real n" using assms by (simp add: divide_right_mono)
  moreover have "real (n - k) * pi / real n \<le> pi / 2"
  proof -
    have "2 * real (n - k) \<le> real n" using False assms by (simp add: of_nat_diff)
    then have "2 * real (n - k) * pi \<le> real n * pi" by (rule mult_right_mono) simp
    then show ?thesis using assms by (simp add: field_simps)
  qed
  ultimately have "sin (pi / real n) \<le> sin (real (n - k) * pi / real n)"
    using assms by (intro sin_monotone_2pi_le) (auto intro: order_trans [of _ 0])
  then show ?thesis unfolding r by simp
qed

lemma equal_sized_angles:
  assumes "i < n" "0 < d" "ds = replicate n d"
  shows "node_angle ds b (2 * pi) i = b + (2 * real i + 1) * (pi / real n)"
    "sector ds (2 * pi) i = pi / real n"
proof -
  have t: "take i (replicate n d) = replicate i d" using assms(1) by (simp add: min_def)
  have n: "0 < real n" using assms(1) by simp
  show "node_angle ds b (2 * pi) i = b + (2 * real i + 1) * (pi / real n)"
    using assms n by (simp add: node_angle_def t sum_list_replicate field_simps)
  show "sector ds (2 * pi) i = pi / real n"
    using assms n by (simp add: sector_def sum_list_replicate field_simps)
qed

section \<open>Properties\<close>

text \<open>
  C27: nodes on a circle do not overlap.  For two or more nodes of one diameter laid out with the
  default angles and scales around a given center, any two centers are at least one diameter apart,
  and without a minimal radius neighbours are exactly one diameter apart.
\<close>

theorem circle_no_overlap:
  assumes "map getNodeDiameter nodes = replicate n (Some d)" and "2 \<le> n" and "0 < d"
    and "i < j" and "j < n"
  shows "d \<le> loc_dist
      (cl_locations (getCircleLayout nodes centers (no_opt\<lparr>o_cx := Some (Some cx), o_cy := Some (Some cy), o_minRadius := m\<rparr>)) ! i)
      (cl_locations (getCircleLayout nodes centers (no_opt\<lparr>o_cx := Some (Some cx), o_cy := Some (Some cy), o_minRadius := m\<rparr>)) ! j) \<and>
    (m = None \<longrightarrow> j = Suc i \<longrightarrow> loc_dist
      (cl_locations (getCircleLayout nodes centers (no_opt\<lparr>o_cx := Some (Some cx), o_cy := Some (Some cy), o_minRadius := m\<rparr>)) ! i)
      (cl_locations (getCircleLayout nodes centers (no_opt\<lparr>o_cx := Some (Some cx), o_cy := Some (Some cy), o_minRadius := m\<rparr>)) ! j) = d)"
proof -
  let ?opt = "no_opt\<lparr>o_cx := Some (Some cx), o_cy := Some (Some cy), o_minRadius := m\<rparr>"
  let ?ds = "replicate n d"
  let ?r = "ring_radius ?ds (2 * pi) ?opt"
  have sz: "sized nodes ?ds" using assms by (auto simp: sized_def)
  have ij: "i < n" "j < n" using assms by auto
  have p: "0 < pi / real n" "pi / real n < pi" using assms(2) by (auto simp: field_simps)
  have s: "0 < sin (pi / real n)" using p sin_gt_zero by blast
  have hd: "hd ?ds = d" using assms(2) by (cases n) auto
  have r0: "d / 2 / sin (pi / real n) \<le> ?r" "m = None \<Longrightarrow> ?r = d / 2 / sin (pi / real n)"
    using equal_sized_angles(2) [of 0 n d ?ds] assms
    by (auto simp: ring_radius_def Let_def hd no_opt_def is_set_def split: option.split)
  have rn: "0 \<le> ?r" using r0(1) assms(3) s by (meson divide_nonneg_pos half_gt_zero less_imp_le order_trans)
  have loc: "cl_locations (getCircleLayout nodes centers ?opt) ! k =
    (Some (cx + cos (node_angle ?ds 0 (2 * pi) k) * ?r), Some (cy + sin (node_angle ?ds 0 (2 * pi) k) * ?r))"
    if "k < n" for k
    using getCircleLayout_finite [OF sz, of ?opt cx cy "2 * pi" centers] that
    by (simp add: no_opt_def or_default_def Let_def)
  have diff: "(node_angle ?ds 0 (2 * pi) j - node_angle ?ds 0 (2 * pi) i) / 2 = real (j - i) * pi / real n"
    using equal_sized_angles(1) [OF _ assms(3) refl, of _ n 0] assms(4) ij
    by (simp add: of_nat_diff field_simps)
  have ge: "sin (pi / real n) \<le> sin (real (j - i) * pi / real n)"
    using sin_multiple_ge [of n "j - i"] assms by auto
  have dist: "loc_dist (cl_locations (getCircleLayout nodes centers ?opt) ! i)
      (cl_locations (getCircleLayout nodes centers ?opt) ! j) = 2 * ?r * sin (real (j - i) * pi / real n)"
    unfolding loc [OF ij(1)] loc [OF ij(2)] loc_dist_def using chord [OF rn] ge s by (simp add: diff)
  have "d = 2 * (d / 2 / sin (pi / real n)) * sin (pi / real n)" using s by simp
  also have "\<dots> \<le> 2 * ?r * sin (pi / real n)" using r0(1) s by (intro mult_right_mono) auto
  also have "\<dots> \<le> 2 * ?r * sin (real (j - i) * pi / real n)" using ge rn by (intro mult_left_mono) auto
  finally have le: "d \<le> 2 * ?r * sin (real (j - i) * pi / real n)" .
  have "2 * ?r * sin (real (j - i) * pi / real n) = d" if "m = None" "j = Suc i"
    using r0(2) [OF that(1)] that(2) s by simp
  then show ?thesis unfolding dist using le by blast
qed

text \<open>
  The layout fills the ring in order.  For any two or more positive diameters, the angles of the
  nodes increase, each node's sector begins where that of the previous one ends, the sectors fill the
  range from the first to the last angle, and every center lies on the ellipse of the two radii.
\<close>

theorem circle_sectors:
  assumes "map getNodeDiameter nodes = map Some ds" and "2 \<le> length ds" and "list_all (\<lambda>d. 0 < d) ds"
    and "o_cx opt = Some (Some cx)" and "o_cy opt = Some (Some cy)" and "or_default (o_beginAngle opt) 0 = b"
    and "or_default (o_endAngle opt) (2 * pi) = b + tot" and "0 < tot" and "tot \<le> 2 * pi"
  shows "cl_angles (getCircleLayout nodes centers opt) = map (\<lambda>i. Some (node_angle ds b tot i)) [0..<length ds] \<and>
    node_angle ds b tot 0 - sector ds tot 0 = b \<and>
    (Suc i < length ds \<longrightarrow>
       node_angle ds b tot i + sector ds tot i = node_angle ds b tot (Suc i) - sector ds tot (Suc i) \<and>
       node_angle ds b tot i < node_angle ds b tot (Suc i)) \<and>
    node_angle ds b tot (length ds - 1) + sector ds tot (length ds - 1) = b + tot \<and>
    cl_locations (getCircleLayout nodes centers opt) =
      map (circle_point (Some cx) (Some cy) (cl_radius (getCircleLayout nodes centers opt))
             (cl_radiusB (getCircleLayout nodes centers opt))) (cl_angles (getCircleLayout nodes centers opt))"
proof -
  have sz: "sized nodes ds" using assms by (auto simp: sized_def list_all_iff)
  have S: "0 < sum_list ds" using sized_sum [OF sz] .
  have fin: "getCircleLayout nodes centers opt =
    (let ra = ring_radius ds tot opt * or_default (o_hScale opt) 1;
         rb = ring_radius ds tot opt * or_default (o_vScale opt) 1;
         ang = node_angle ds b tot
     in \<lparr>cl_cx = Some cx, cl_cy = Some cy, cl_radius = Some ra, cl_radiusB = Some rb,
         cl_locations = map (\<lambda>i. (Some (cx + cos (ang i) * ra), Some (cy + sin (ang i) * rb))) [0..<length ds],
         cl_angles = map (\<lambda>i. Some (ang i)) [0..<length ds]\<rparr>)"
    using getCircleLayout_finite [OF sz assms(4,5), of tot centers] assms(6-9) by simp
  have step: "node_angle ds b tot i + sector ds tot i = node_angle ds b tot (Suc i) - sector ds tot (Suc i) \<and>
     node_angle ds b tot i < node_angle ds b tot (Suc i)" if i: "Suc i < length ds" for i
  proof -
    have "sum_list (take (Suc i) ds) = sum_list (take i ds) + ds ! i"
      using i by (simp add: take_Suc_conv_app_nth)
    then have e: "node_angle ds b tot (Suc i) = node_angle ds b tot i + sector ds tot i + sector ds tot (Suc i)"
      using S by (simp add: node_angle_def sector_def field_simps)
    show ?thesis using e sector_bounds(1) [OF sz assms(8,9)] i by (simp add: add_pos_pos)
  qed
  have last: "node_angle ds b tot (length ds - 1) + sector ds tot (length ds - 1) = b + tot"
  proof -
    have n: "length ds - 1 < length ds" using assms(2) by simp
    have "sum_list (take (Suc (length ds - 1)) ds) = sum_list (take (length ds - 1) ds) + ds ! (length ds - 1)"
      by (simp only: take_Suc_conv_app_nth [OF n]) simp
    moreover have "take (Suc (length ds - 1)) ds = ds" using assms(2) by simp
    ultimately have "sum_list ds = sum_list (take (length ds - 1) ds) + ds ! (length ds - 1)" by simp
    then have e: "2 * sum_list (take (length ds - 1) ds) + ds ! (length ds - 1) + ds ! (length ds - 1) = 2 * sum_list ds"
      by simp
    have "tot / 2 * ((2 * sum_list (take (length ds - 1) ds) + ds ! (length ds - 1)) / sum_list ds) +
        tot / 2 * (ds ! (length ds - 1) / sum_list ds) =
      tot / 2 * ((2 * sum_list (take (length ds - 1) ds) + ds ! (length ds - 1) + ds ! (length ds - 1)) / sum_list ds)"
      by (simp only: add_divide_distrib distrib_left)
    also have "\<dots> = tot" unfolding e using S by simp
    finally show ?thesis by (simp add: node_angle_def sector_def)
  qed
  have first: "node_angle ds b tot 0 - sector ds tot 0 = b" by (simp add: node_angle_def sector_def)
  show ?thesis using step first last unfolding fin by (simp add: Let_def circle_point_def o_def)
qed

text \<open>
  A row of nodes is evenly spaced and centered.  The nodes of a row have the given height, each
  begins one node width and gap after the previous one, and the row with its gaps is centered.  An
  empty row without a given width fails.
\<close>

theorem tree_row:
  assumes "w > 0" and "g > 0"
  shows "treeLayoutNodes cx' y' [] None g = Inl TypeError \<and>
    (\<exists>ps. treeLayoutNodes (Some cx) (Some y) widths (Some w) g = Inr (map (\<lambda>(a, b). (Some a, Some b)) ps) \<and>
       length ps = length widths \<and>
       list_all (\<lambda>p. snd p = y) ps \<and>
       list_all (\<lambda>i. fst (ps ! Suc i) = fst (ps ! i) + w + g) [0..<length widths - 1] \<and>
       (widths \<noteq> [] \<longrightarrow> (fst (hd ps) + (fst (last ps) + w + g)) / 2 = cx))"
proof -
  let ?f = "\<lambda>i. (cx - (w + g) * real (length widths) / 2 + real i * (g + w), y)"
  have "treeLayoutNodes (Some cx) (Some y) widths (Some w) g =
      Inr (map (\<lambda>(a, b). (Some a, Some b)) (map ?f [0..<length widths]))"
    using assms by (simp add: treeLayoutNodes_def is_set_def o_def)
  moreover have "(fst (hd (map ?f [0..<length widths])) + (fst (last (map ?f [0..<length widths])) + w + g)) / 2 = cx"
    if "widths \<noteq> []"
  proof -
    have "real (length widths - Suc 0) = real (length widths) - 1" using that by (cases widths) auto
    then show ?thesis using that by (simp add: hd_map last_map field_simps)
  qed
  moreover have "treeLayoutNodes cx' y' [] None g = Inl TypeError"
    by (simp add: treeLayoutNodes_def is_set_def Let_def nth_opt_def)
  ultimately show ?thesis
    by (intro conjI exI [of _ "map ?f [0..<length widths]"]) (auto simp: list_all_iff algebra_simps)
qed

lemma circle_no_overlap_witness:
  "96 \<le> loc_dist
     (cl_locations (getCircleLayout (replicate 3 \<lparr>s_diameter = Some 96, s_radius = None, s_width = None, s_height = None\<rparr>)
        [] (no_opt\<lparr>o_cx := Some (Some 0), o_cy := Some (Some 0), o_minRadius := Some 250\<rparr>)) ! 0)
     (cl_locations (getCircleLayout (replicate 3 \<lparr>s_diameter = Some 96, s_radius = None, s_width = None, s_height = None\<rparr>)
        [] (no_opt\<lparr>o_cx := Some (Some 0), o_cy := Some (Some 0), o_minRadius := Some 250\<rparr>)) ! 2)"
  using circle_no_overlap [of "replicate 3 \<lparr>s_diameter = Some 96, s_radius = None, s_width = None, s_height = None\<rparr>"
      3 96 0 2 "[]" "Some 250" 0 0]
  by (simp add: getNodeDiameter_def is_set_def)

lemma circle_sectors_witness:
  "node_angle [64, 32] 0 (2 * pi) 0 < node_angle [64, 32] 0 (2 * pi) (Suc 0)"
  using circle_sectors [of "[\<lparr>s_diameter = Some 64, s_radius = None, s_width = None, s_height = None\<rparr>,
      \<lparr>s_diameter = Some 32, s_radius = None, s_width = None, s_height = None\<rparr>]" "[64, 32]"
      "no_opt\<lparr>o_cx := Some (Some 0), o_cy := Some (Some 0)\<rparr>" 0 0 0 "2 * pi" "[]" 0]
  by (simp add: getNodeDiameter_def is_set_def no_opt_def or_default_def)

lemma tree_row_witness: "treeLayoutNodes (Some 500) (Some 50) [] None 20 = Inl TypeError"
  using tree_row [of 256 20 "Some 500" "Some 50" 500 50 "[]"] by simp

end
