(* ===== verification/Topo_Scene.thy ===== *)
theory Topo_Scene
  imports Topo_Data
begin

text \<open>
  A scene of the canvas library as the scripts use it (\<open>jtopo/js/open.js\<close>): nodes, links and
  containers are objects with identity, kept in stores and named by their index; the scene is the list
  of the elements added to it.  Removing a node also removes the links in the scene that end at it.  On
  top of it: \<open>addToScene\<close> and \<open>linkNodes\<close> with their maps from ids to nodes and links.
\<close>

named_theorems view_simps \<open>fields of a view after an operation\<close>

record topo_link =
  l_a :: nat
  l_z :: nat
  l_width :: real
  l_bak :: "real option"
  l_alpha :: real
  l_color :: "string option"
  l_portA :: jsval
  l_portZ :: jsval
  l_up :: "nat option"
  l_down :: "nat option"
  l_index :: "nat option"
  l_gap :: "real option"

datatype elem = ENode nat | ELink nat | EBox nat

record box =
  b_members :: "nat list"
  b_x :: real
  b_y :: real
  b_fill :: string
  b_zIndex :: int

text \<open>A place in a layout: a node, or the copy pushed by the circle layout.\<close>

datatype slot = SNode nat | SPhantom nat

record view =
  nodes :: "topo_node list"
  links :: "topo_link list"
  boxes :: "box list"
  childs :: "elem list"
  nodeMap :: "string \<Rightarrow> nat option"
  linkMap :: "string \<Rightarrow> nat option"
  phys :: "slot list"
  cores :: "slot list"
  others :: "slot list"
  v_data :: "jsval list"
  v_need_layout :: jsval
  v_width :: real
  v_height :: real
  v_names :: "jsval list"
  frames :: nat
  v_mode :: string
  flashes :: "(nat \<times> nat) list"
  v_ready :: bool
  translate :: "(real \<times> real) option"

definition new_link :: "nat \<Rightarrow> nat \<Rightarrow> topo_link" where
  "new_link a z = \<lparr>l_a = a, l_z = z, l_width = 2, l_bak = None, l_alpha = 1, l_color = None,
     l_portA = JUndef, l_portZ = JUndef, l_up = None, l_down = None, l_index = None, l_gap = None\<rparr>"

section \<open>The scene\<close>

definition alloc_node :: "topo_node \<Rightarrow> view \<Rightarrow> view" where
  "alloc_node n v = v\<lparr>nodes := nodes v @ [n]\<rparr>"

definition alloc_link :: "topo_link \<Rightarrow> view \<Rightarrow> view" where
  "alloc_link l v = v\<lparr>links := links v @ [l]\<rparr>"

definition scene_add :: "elem \<Rightarrow> view \<Rightarrow> view" where
  "scene_add e v = v\<lparr>childs := childs v @ [e]\<rparr>"

text \<open>Whether an element is a link that ends at the node \<open>a\<close>.\<close>

definition ends_at :: "view \<Rightarrow> nat \<Rightarrow> elem \<Rightarrow> bool" where
  "ends_at v a e = (case e of ELink l \<Rightarrow> l_a (links v ! l) = a \<or> l_z (links v ! l) = a | _ \<Rightarrow> False)"

definition scene_remove :: "elem \<Rightarrow> view \<Rightarrow> view" where
  "scene_remove e v = v\<lparr>childs :=
     (case e of ENode a \<Rightarrow> filter (\<lambda>c. \<not> ends_at v a c) (del_first e (childs v))
      | _ \<Rightarrow> del_first e (childs v))\<rparr>"

definition upd_node :: "nat \<Rightarrow> (topo_node \<Rightarrow> topo_node) \<Rightarrow> view \<Rightarrow> view" where
  "upd_node a f v = v\<lparr>nodes := (nodes v)[a := f (nodes v ! a)]\<rparr>"

definition upd_link :: "nat \<Rightarrow> (topo_link \<Rightarrow> topo_link) \<Rightarrow> view \<Rightarrow> view" where
  "upd_link l f v = v\<lparr>links := (links v)[l := f (links v ! l)]\<rparr>"

text \<open>\<open>stage.find('link')\<close> and \<open>stage.find('node')\<close>.\<close>

definition find_links :: "view \<Rightarrow> nat list" where
  "find_links v = concat (map (\<lambda>e. case e of ELink l \<Rightarrow> [l] | _ \<Rightarrow> []) (childs v))"

definition find_nodes :: "view \<Rightarrow> nat list" where
  "find_nodes v = concat (map (\<lambda>e. case e of ENode a \<Rightarrow> [a] | _ \<Rightarrow> []) (childs v))"

definition id_of :: "view \<Rightarrow> nat \<Rightarrow> string" where
  "id_of v a = n_id (nodes v ! a)"

text \<open>\<open>addToScene(obj)\<close> for a node just made: the new address is the number of nodes before.\<close>

definition addToScene :: "topo_node \<Rightarrow> view \<Rightarrow> view" where
  "addToScene n v =
     (let a = length (nodes v)
      in (scene_add (ENode a) (alloc_node n v))\<lparr>nodeMap := (nodeMap v)(n_id n := Some a)\<rparr>)"

fun add_all :: "topo_node list \<Rightarrow> view \<Rightarrow> view" where
  "add_all [] v = v"
| "add_all (n # ns) v = add_all ns (addToScene n v)"

section \<open>Linking\<close>

definition link_pair :: "nat \<Rightarrow> nat \<Rightarrow> jsval \<Rightarrow> jsval \<Rightarrow> view \<Rightarrow> view" where
  "link_pair nodeA nodeZ portA portZ v =
     (let k1 = id_of v nodeA @ id_of v nodeZ;
          k2 = id_of v nodeZ @ id_of v nodeA
      in if linkMap v k1 = None \<or> linkMap v k2 = None then
           (let l = length (links v);
                lk = (new_link nodeA nodeZ)\<lparr>l_width := 1, l_alpha := 4 / 10, l_portA := portA, l_portZ := portZ\<rparr>
            in scene_add (ELink l) ((alloc_link lk v)\<lparr>linkMap := (linkMap v)(k1 := Some l, k2 := Some l)\<rparr>))
         else v)"

text \<open>The entries of \<open>upNode\<close> and \<open>downNode\<close>: ids, or objects with an id and ports.\<close>

definition neighbour_items :: "jsval \<Rightarrow> jsval list" where
  "neighbour_items v = (case v of JArr vs \<Rightarrow> vs | JStr s \<Rightarrow> map (\<lambda>c. JStr [c]) s | _ \<Rightarrow> [])"

definition neighbour :: "jsval \<Rightarrow> string \<times> jsval \<times> jsval" where
  "neighbour v = (case v of JStr s \<Rightarrow> (s, JStr [], JStr [])
     | _ \<Rightarrow> (js_str (pget v ''id''), pget v ''portA'', pget v ''portZ''))"

text \<open>A null entry has no id to read: a TypeError ends the linking where it is.\<close>

fun link_ups :: "nat \<Rightarrow> jsval list \<Rightarrow> view \<Rightarrow> view" where
  "link_ups node [] v = v"
| "link_ups node (u # us) v =
     (if nullish u then v
      else let (i, pa, pz) = neighbour u
      in link_ups node us (case nodeMap v i of None \<Rightarrow> v | Some up \<Rightarrow> link_pair up node pa pz v))"

fun link_downs :: "nat \<Rightarrow> jsval list \<Rightarrow> view \<Rightarrow> view" where
  "link_downs node [] v = v"
| "link_downs node (d # ds) v =
     (if nullish d then v
      else let (i, pa, pz) = neighbour d
      in link_downs node ds (case nodeMap v i of None \<Rightarrow> v | Some down \<Rightarrow> link_pair node down pa pz v))"

definition link_datum :: "jsval \<Rightarrow> view \<Rightarrow> view" where
  "link_datum e v =
     (case nodeMap v (js_str (pget e ''id'')) of None \<Rightarrow> v
      | Some node \<Rightarrow>
          (let v1 = link_ups node (neighbour_items (pget e ''upNode'')) v
           in if list_ex nullish (neighbour_items (pget e ''upNode'')) then v1
              else link_downs node (neighbour_items (pget e ''downNode'')) v1))"

definition datum_fault :: "view \<Rightarrow> jsval \<Rightarrow> bool" where
  "datum_fault v e \<longleftrightarrow> nodeMap v (js_str (pget e ''id'')) \<noteq> None \<and>
     list_ex nullish (neighbour_items (pget e ''upNode'') @ neighbour_items (pget e ''downNode''))"

fun linkNodes :: "jsval list \<Rightarrow> view \<Rightarrow> view" where
  "linkNodes [] v = v"
| "linkNodes (e # es) v = (if datum_fault v e then link_datum e v else linkNodes es (link_datum e v))"

text \<open>The exception with which it ends, if any; linking does not change the map of nodes.\<close>

definition link_fault :: "jsval list \<Rightarrow> view \<Rightarrow> js_error option" where
  "link_fault es v = (if list_ex (datum_fault v) es then Some TypeError else None)"

section \<open>Lemmas\<close>

lemma nth_update_if: "b < length xs \<Longrightarrow> xs[a := x] ! b = (if a = b then x else xs ! b)"
  by simp

lemma scene_simps [view_simps]:
  "nodes (scene_add e v) = nodes v" "links (scene_add e v) = links v" "nodeMap (scene_add e v) = nodeMap v"
  "linkMap (scene_add e v) = linkMap v" "childs (scene_add e v) = childs v @ [e]"
  "nodes (alloc_link l v) = nodes v" "links (alloc_link l v) = links v @ [l]"
  "nodeMap (alloc_link l v) = nodeMap v" "linkMap (alloc_link l v) = linkMap v"
  "childs (alloc_link l v) = childs v"
  "nodes (scene_remove e v) = nodes v" "links (scene_remove e v) = links v"
  "nodeMap (scene_remove e v) = nodeMap v" "linkMap (scene_remove e v) = linkMap v"
  by (simp_all add: scene_add_def alloc_link_def scene_remove_def)

lemma link_pair_nodes [view_simps]:
  "nodes (link_pair a z p q v) = nodes v" "nodeMap (link_pair a z p q v) = nodeMap v"
  "id_of (link_pair a z p q v) = id_of v"
  by (simp_all add: link_pair_def Let_def view_simps id_of_def fun_eq_iff)

lemma link_ups_nodes [view_simps]:
  "nodes (link_ups a us v) = nodes v" "nodeMap (link_ups a us v) = nodeMap v"
  by (induction a us v rule: link_ups.induct) (auto simp: view_simps Let_def split: prod.splits option.splits)

lemma link_downs_nodes [view_simps]:
  "nodes (link_downs a us v) = nodes v" "nodeMap (link_downs a us v) = nodeMap v"
  by (induction a us v rule: link_downs.induct) (auto simp: view_simps Let_def split: prod.splits option.splits)

lemma linkNodes_nodes [view_simps]:
  "nodes (linkNodes es v) = nodes v" "nodeMap (linkNodes es v) = nodeMap v"
  by (induction es v rule: linkNodes.induct) (auto simp: view_simps link_datum_def Let_def split: option.splits)

text \<open>Everything \<open>linkNodes\<close> does is a sequence of \<open>link_pair\<close> calls.\<close>

inductive links_to :: "view \<Rightarrow> view \<Rightarrow> bool" where
  same: "links_to v v"
| more: "links_to v w \<Longrightarrow> a \<in> ran (nodeMap w) \<Longrightarrow> z \<in> ran (nodeMap w) \<Longrightarrow> links_to v (link_pair a z p q w)"

inductive_cases links_toE: "links_to v w"

lemma links_to_trans: "links_to v w \<Longrightarrow> links_to w u \<Longrightarrow> links_to v u"
  by (rotate_tac, induction rule: links_to.induct) (auto intro: links_to.intros)

lemma links_to_fields0: "links_to v w \<Longrightarrow> nodeMap w = nodeMap v"
  by (induction rule: links_to.induct) (auto simp: view_simps)

lemma links_to_ups: "a \<in> ran (nodeMap v) \<Longrightarrow> links_to v (link_ups a us v)"
proof (induction us arbitrary: v)
  case (Cons u us)
  obtain i p q where n: "neighbour u = (i, p, q)" by (metis prod_cases3)
  define v1 where "v1 = (case nodeMap v i of None \<Rightarrow> v | Some up \<Rightarrow> link_pair up a p q v)"
  have to: "links_to v v1"
    using Cons.prems by (auto intro!: links_to.intros simp: ran_def v1_def split: option.splits)
  have "a \<in> ran (nodeMap v1)" using Cons.prems links_to_fields0 [OF to] by simp
  from links_to_trans [OF to Cons.IH [OF this]] show ?case by (simp add: n v1_def same)
qed (simp add: same)

lemma links_to_downs: "a \<in> ran (nodeMap v) \<Longrightarrow> links_to v (link_downs a us v)"
proof (induction us arbitrary: v)
  case (Cons u us)
  obtain i p q where n: "neighbour u = (i, p, q)" by (metis prod_cases3)
  define v1 where "v1 = (case nodeMap v i of None \<Rightarrow> v | Some down \<Rightarrow> link_pair a down p q v)"
  have to: "links_to v v1"
    using Cons.prems by (auto intro!: links_to.intros simp: ran_def v1_def split: option.splits)
  have "a \<in> ran (nodeMap v1)" using Cons.prems links_to_fields0 [OF to] by simp
  from links_to_trans [OF to Cons.IH [OF this]] show ?case by (simp add: n v1_def same)
qed (simp add: same)

lemma links_to_datum: "links_to v (link_datum e v)"
proof (cases "nodeMap v (js_str (pget e ''id''))")
  case (Some a)
  then have a: "a \<in> ran (nodeMap v)" by (auto simp: ran_def)
  show ?thesis
    using links_to_trans [OF links_to_ups [OF a] links_to_downs] links_to_ups [OF a] a
    by (simp add: link_datum_def Some view_simps Let_def)
qed (simp add: link_datum_def same)

lemma links_to_linkNodes: "links_to v (linkNodes es v)"
  by (induction es v rule: linkNodes.induct) (auto intro: links_to.intros links_to_trans links_to_datum)

section \<open>Which links are drawn\<close>

definition connects :: "view \<Rightarrow> nat \<Rightarrow> string \<Rightarrow> string \<Rightarrow> bool" where
  "connects v l i j \<longleftrightarrow>
     (let a = id_of v (l_a (links v ! l)); z = id_of v (l_z (links v ! l))
      in a = i \<and> z = j \<or> a = j \<and> z = i)"

definition has_keys :: "view \<Rightarrow> string \<Rightarrow> string \<Rightarrow> bool" where
  "has_keys v i j \<longleftrightarrow> linkMap v (i @ j) \<noteq> None \<and> linkMap v (j @ i) \<noteq> None"

lemma has_keys_sym: "has_keys v i j \<longleftrightarrow> has_keys v j i"
  by (auto simp: has_keys_def)

lemma link_pair_done: "has_keys v (id_of v a) (id_of v z) \<Longrightarrow> link_pair a z p q v = v"
  by (auto simp: link_pair_def has_keys_def)

lemma link_pair_keys: "has_keys (link_pair a z p q v) (id_of v a) (id_of v z)"
  by (auto simp: link_pair_def has_keys_def Let_def view_simps)

lemma link_pair_mono: "linkMap v k \<noteq> None \<Longrightarrow> linkMap (link_pair a z p q v) k \<noteq> None"
  by (auto simp: link_pair_def Let_def view_simps)

lemma has_keys_mono: "has_keys v i j \<Longrightarrow> has_keys (link_pair a z p q v) i j"
  by (simp add: has_keys_def link_pair_mono del: not_None_eq)

lemma links_to_mono: "links_to v w \<Longrightarrow> has_keys v i j \<Longrightarrow> has_keys w i j"
  by (induction rule: links_to.induct) (auto simp: has_keys_def link_pair_mono simp del: not_None_eq)

lemma links_to_fields: "links_to v w \<Longrightarrow> nodes w = nodes v \<and> nodeMap w = nodeMap v"
  by (induction rule: links_to.induct) (auto simp: view_simps)

lemma links_to_ids: "links_to v w \<Longrightarrow> id_of w = id_of v"
  by (auto simp: id_of_def fun_eq_iff dest: links_to_fields)

text \<open>The state of the two maps: each link has its two keys, and each key names a link of that text.\<close>

definition link_inv :: "view \<Rightarrow> bool" where
  "link_inv v \<longleftrightarrow>
     (\<forall>l < length (links v). has_keys v (id_of v (l_a (links v ! l))) (id_of v (l_z (links v ! l)))) \<and>
     (\<forall>l m i j. l < m \<and> m < length (links v) \<and> connects v l i j \<longrightarrow> \<not> connects v m i j) \<and>
     (\<forall>k l. linkMap v k = Some l \<longrightarrow> l < length (links v) \<and>
        (\<exists>i j. connects v l i j \<and> k = i @ j))"

lemma connects_keys:
  assumes "link_inv v" "l < length (links v)" "connects v l i j"
  shows "has_keys v i j"
proof -
  have "has_keys v (id_of v (l_a (links v ! l))) (id_of v (l_z (links v ! l)))"
    using assms(1,2) by (simp add: link_inv_def)
  then show ?thesis using assms(3) by (auto simp: connects_def Let_def has_keys_def)
qed

text \<open>A link that is new: it connects its two nodes, and the others connect what they did.\<close>

lemma link_pair_new:
  assumes "\<not> has_keys v (id_of v a) (id_of v z)"
  shows "links (link_pair a z p q v) = links v @ [(new_link a z)\<lparr>l_width := 1, l_alpha := 4 / 10, l_portA := p, l_portZ := q\<rparr>]"
    "linkMap (link_pair a z p q v) = (linkMap v)(id_of v a @ id_of v z := Some (length (links v)),
       id_of v z @ id_of v a := Some (length (links v)))"
    "id_of (link_pair a z p q v) = id_of v"
    "l < length (links v) \<Longrightarrow> connects (link_pair a z p q v) l i j = connects v l i j"
    "connects (link_pair a z p q v) (length (links v)) i j \<longleftrightarrow> id_of v a = i \<and> id_of v z = j \<or> id_of v a = j \<and> id_of v z = i"
proof -
  show w: "links (link_pair a z p q v) = links v @ [(new_link a z)\<lparr>l_width := 1, l_alpha := 4 / 10, l_portA := p, l_portZ := q\<rparr>]"
    "linkMap (link_pair a z p q v) = (linkMap v)(id_of v a @ id_of v z := Some (length (links v)),
       id_of v z @ id_of v a := Some (length (links v)))"
    "id_of (link_pair a z p q v) = id_of v"
    using assms by (auto simp: link_pair_def has_keys_def Let_def view_simps id_of_def fun_eq_iff)
  show "l < length (links v) \<Longrightarrow> connects (link_pair a z p q v) l i j = connects v l i j"
    by (simp add: connects_def w nth_append)
  show "connects (link_pair a z p q v) (length (links v)) i j \<longleftrightarrow>
      id_of v a = i \<and> id_of v z = j \<or> id_of v a = j \<and> id_of v z = i"
    by (simp add: connects_def w new_link_def Let_def)
qed

lemma link_pair_inv:
  assumes "link_inv v"
  shows "link_inv (link_pair a z p q v)"
proof (cases "has_keys v (id_of v a) (id_of v z)")
  case True
  then show ?thesis using assms by (simp add: link_pair_done)
next
  case False
  let ?w = "link_pair a z p q v"
  let ?n = "length (links v)"
  note w = link_pair_new [OF False, where p = p and q = q]
  have no: "\<not> connects v l i j" if "l < ?n" "connects ?w ?n i j" for l i j
    using that connects_keys [OF assms that(1), of i j] False has_keys_sym by (auto simp: w(5))
  show ?thesis
    unfolding link_inv_def
  proof (intro conjI allI impI)
    fix l assume "l < length (links ?w)"
    then consider "l < ?n" | "l = ?n" by (force simp: w(1))
    then show "has_keys ?w (id_of ?w (l_a (links ?w ! l))) (id_of ?w (l_z (links ?w ! l)))"
    proof cases
      case 1
      then have "has_keys v (id_of v (l_a (links v ! l))) (id_of v (l_z (links v ! l)))"
        using assms by (simp add: link_inv_def)
      then show ?thesis using 1 has_keys_mono w(3) by (simp add: w(1) nth_append)
    next
      case 2
      then show ?thesis using link_pair_keys [of a z p q v] by (simp add: w(1,3) new_link_def)
    qed
  next
    fix l m i j assume lm: "l < m \<and> m < length (links ?w) \<and> connects ?w l i j"
    then consider "m < ?n" | "m = ?n" by (force simp: w(1))
    then show "\<not> connects ?w m i j" using lm assms no w(4) by cases (auto simp: link_inv_def)
  next
    fix k l assume k: "linkMap ?w k = Some l"
    show "l < length (links ?w)"
      using k assms by (auto simp: w(1,2) link_inv_def less_Suc_eq split: if_splits)
    show "\<exists>i j. connects ?w l i j \<and> k = i @ j"
    proof (cases "k = id_of v a @ id_of v z \<or> k = id_of v z @ id_of v a")
      case True
      then have "l = ?n" using k by (auto simp: w(2) split: if_splits)
      then show ?thesis using True w(5) by blast
    next
      case False
      then have "linkMap v k = Some l" using k by (auto simp: w(2) split: if_splits)
      then have "l < ?n" "\<exists>i j. connects v l i j \<and> k = i @ j" using assms by (auto simp: link_inv_def)
      then show ?thesis using w(4) by blast
    qed
  qed
qed

lemma links_to_inv: "links_to v w \<Longrightarrow> link_inv v \<Longrightarrow> link_inv w"
  by (induction rule: links_to.induct) (auto intro: link_pair_inv)

text \<open>The neighbours of a datum that are on the scene get their keys, and keep them.\<close>

definition datum_done :: "jsval \<Rightarrow> view \<Rightarrow> bool" where
  "datum_done e w \<longleftrightarrow>
     (\<forall>a u b. nodeMap w (js_str (pget e ''id'')) = Some a \<longrightarrow>
        u \<in> set (neighbour_items (pget e ''upNode'')) \<union> set (neighbour_items (pget e ''downNode'')) \<longrightarrow>
        nodeMap w (fst (neighbour u)) = Some b \<longrightarrow> has_keys w (id_of w a) (id_of w b))"

lemma link_ups_keys:
  "\<not> list_ex nullish us \<Longrightarrow> u \<in> set us \<Longrightarrow> nodeMap v (fst (neighbour u)) = Some b \<Longrightarrow> a \<in> ran (nodeMap v) \<Longrightarrow>
     has_keys (link_ups a us v) (id_of v a) (id_of v b)"
proof (induction a us v rule: link_ups.induct)
  case (2 node u' us v)
  obtain i p q where n: "neighbour u' = (i, p, q)" by (metis prod_cases3)
  define v1 where "v1 = (case nodeMap v i of None \<Rightarrow> v | Some up \<Rightarrow> link_pair up node p q v)"
  have to: "links_to v v1"
    using "2.prems"(4) by (auto simp: v1_def ran_def intro!: links_to.intros split: option.splits)
  have f: "nodeMap v1 = nodeMap v" "id_of v1 = id_of v" using links_to_fields [OF to] links_to_ids [OF to] by auto
  have e: "link_ups node (u' # us) v = link_ups node us v1" using "2.prems"(1) by (simp add: n v1_def)
  show ?case
  proof (cases "u = u'")
    case True
    then have "has_keys v1 (id_of v b) (id_of v node)"
      using "2.prems"(3) link_pair_keys by (simp add: n v1_def)
    then show ?thesis
      unfolding e using links_to_mono [OF links_to_ups] has_keys_sym "2.prems"(4) f(1) by metis
  next
    case False
    then have "has_keys (link_ups node us v1) (id_of v1 node) (id_of v1 b)"
      using "2.IH" [OF _ n [symmetric] refl] "2.prems" f(1) by (simp add: v1_def)
    then show ?thesis unfolding e f(2) .
  qed
qed simp

lemma link_downs_keys:
  "\<not> list_ex nullish us \<Longrightarrow> u \<in> set us \<Longrightarrow> nodeMap v (fst (neighbour u)) = Some b \<Longrightarrow> a \<in> ran (nodeMap v) \<Longrightarrow>
     has_keys (link_downs a us v) (id_of v a) (id_of v b)"
proof (induction a us v rule: link_downs.induct)
  case (2 node u' us v)
  obtain i p q where n: "neighbour u' = (i, p, q)" by (metis prod_cases3)
  define v1 where "v1 = (case nodeMap v i of None \<Rightarrow> v | Some down \<Rightarrow> link_pair node down p q v)"
  have to: "links_to v v1"
    using "2.prems"(4) by (auto simp: v1_def ran_def intro!: links_to.intros split: option.splits)
  have f: "nodeMap v1 = nodeMap v" "id_of v1 = id_of v" using links_to_fields [OF to] links_to_ids [OF to] by auto
  have e: "link_downs node (u' # us) v = link_downs node us v1" using "2.prems"(1) by (simp add: n v1_def)
  show ?case
  proof (cases "u = u'")
    case True
    then have "has_keys v1 (id_of v node) (id_of v b)"
      using "2.prems"(3) link_pair_keys by (simp add: n v1_def)
    then show ?thesis unfolding e using links_to_mono [OF links_to_downs] "2.prems"(4) f(1) by metis
  next
    case False
    then have "has_keys (link_downs node us v1) (id_of v1 node) (id_of v1 b)"
      using "2.IH" [OF _ n [symmetric] refl] "2.prems" f(1) by (simp add: v1_def)
    then show ?thesis unfolding e f(2) .
  qed
qed simp

lemma link_datum_done: "\<not> datum_fault v e \<Longrightarrow> datum_done e (link_datum e v)"
proof -
  assume ok: "\<not> datum_fault v e"
  have "has_keys (link_datum e v) (id_of (link_datum e v) a) (id_of (link_datum e v) b)"
    if a: "nodeMap v (js_str (pget e ''id'')) = Some a"
      and u: "u \<in> set (neighbour_items (pget e ''upNode'')) \<union> set (neighbour_items (pget e ''downNode''))"
      and b: "nodeMap v (fst (neighbour u)) = Some b" for a u b
  proof -
    let ?v1 = "link_ups a (neighbour_items (pget e ''upNode'')) v"
    have nn: "\<not> list_ex nullish (neighbour_items (pget e ''upNode''))"
      "\<not> list_ex nullish (neighbour_items (pget e ''downNode''))" using ok a by (auto simp: datum_fault_def)
    have e: "link_datum e v = link_downs a (neighbour_items (pget e ''downNode'')) ?v1"
      using a nn by (simp add: link_datum_def)
    have i: "id_of (link_datum e v) = id_of v" using links_to_ids [OF links_to_datum] .
    have ar: "a \<in> ran (nodeMap v)" using a by (auto simp: ran_def)
    have i1: "id_of ?v1 = id_of v" using links_to_ids [OF links_to_ups [OF ar]] .
    show ?thesis
    proof (cases "u \<in> set (neighbour_items (pget e ''upNode''))")
      case True
      then have "has_keys ?v1 (id_of v a) (id_of v b)" using link_ups_keys nn b ar by blast
      moreover have "a \<in> ran (nodeMap ?v1)" using ar by (simp add: view_simps)
      ultimately show ?thesis unfolding i using links_to_mono [OF links_to_downs] e by metis
    next
      case False
      then have "u \<in> set (neighbour_items (pget e ''downNode''))" using u by blast
      from link_downs_keys [OF nn(2) this, of ?v1 b a] b ar show ?thesis
        unfolding i by (simp add: e i1 view_simps)
    qed
  qed
  then show ?thesis
    using links_to_fields [OF links_to_datum] by (simp add: datum_done_def)
qed

lemma datum_done_mono: "links_to v w \<Longrightarrow> datum_done e v \<Longrightarrow> datum_done e w"
  unfolding datum_done_def
  using links_to_fields [of v w] links_to_ids [of v w] links_to_mono [of v w] by simp

lemma datum_fault_datum [simp]: "datum_fault (link_datum e v) = datum_fault v"
  using links_to_fields [OF links_to_datum] by (simp add: datum_fault_def fun_eq_iff)

lemma linkNodes_done: "link_fault es v = None \<Longrightarrow> e \<in> set es \<Longrightarrow> datum_done e (linkNodes es v)"
proof (induction es v rule: linkNodes.induct)
  case (2 e' es v)
  then have f: "\<not> datum_fault v e'" "link_fault es (link_datum e' v) = None"
    by (auto simp: link_fault_def split: if_splits)
  show ?case
  proof (cases "e = e'")
    case True
    then show ?thesis using datum_done_mono [OF links_to_linkNodes link_datum_done [OF f(1)]] f by simp
  next
    case False
    then show ?thesis using 2 f by simp
  qed
qed simp

lemma link_ups_id:
  "(\<And>u b. u \<in> set us \<Longrightarrow> nodeMap v (fst (neighbour u)) = Some b \<Longrightarrow> has_keys v (id_of v a) (id_of v b)) \<Longrightarrow>
     link_ups a us v = v"
proof (induction us)
  case (Cons u us)
  obtain i p q where n: "neighbour u = (i, p, q)" by (metis prod_cases3)
  have "(case nodeMap v i of None \<Rightarrow> v | Some up \<Rightarrow> link_pair up a p q v) = v"
    using Cons.prems [of u] has_keys_sym by (auto simp: n intro!: link_pair_done split: option.splits)
  moreover have "link_ups a us v = v" by (rule Cons.IH) (use Cons.prems in auto)
  ultimately show ?case by (simp add: n)
qed simp

lemma link_downs_id:
  "(\<And>u b. u \<in> set us \<Longrightarrow> nodeMap v (fst (neighbour u)) = Some b \<Longrightarrow> has_keys v (id_of v a) (id_of v b)) \<Longrightarrow>
     link_downs a us v = v"
proof (induction us)
  case (Cons u us)
  obtain i p q where n: "neighbour u = (i, p, q)" by (metis prod_cases3)
  have "(case nodeMap v i of None \<Rightarrow> v | Some down \<Rightarrow> link_pair a down p q v) = v"
    using Cons.prems [of u] by (auto simp: n intro!: link_pair_done split: option.splits)
  moreover have "link_downs a us v = v" by (rule Cons.IH) (use Cons.prems in auto)
  ultimately show ?case by (simp add: n)
qed simp

lemma link_datum_id: "datum_done e v \<Longrightarrow> link_datum e v = v"
  by (auto simp: datum_done_def link_datum_def link_ups_id link_downs_id Let_def split: option.split)

lemma linkNodes_id: "(\<And>e. e \<in> set es \<Longrightarrow> datum_done e v) \<Longrightarrow> linkNodes es v = v"
  by (induction es) (auto simp: link_datum_id)

definition ends_known :: "view \<Rightarrow> bool" where
  "ends_known v \<longleftrightarrow> (\<forall>l < length (links v). l_a (links v ! l) \<in> ran (nodeMap v) \<and> l_z (links v ! l) \<in> ran (nodeMap v))"

lemma link_pair_ends:
  "ends_known v \<Longrightarrow> a \<in> ran (nodeMap v) \<Longrightarrow> z \<in> ran (nodeMap v) \<Longrightarrow> ends_known (link_pair a z p q v)"
  by (auto simp: ends_known_def link_pair_def Let_def view_simps nth_append new_link_def)

lemma links_to_ends: "links_to v w \<Longrightarrow> ends_known v \<Longrightarrow> ends_known w"
  by (induction rule: links_to.induct) (auto intro: link_pair_ends)

definition map_ok :: "view \<Rightarrow> bool" where
  "map_ok v \<longleftrightarrow> (\<forall>i a. nodeMap v i = Some a \<longrightarrow> id_of v a = i)"

definition clash_free :: "view \<Rightarrow> bool" where
  "clash_free v \<longleftrightarrow> (\<forall>i j i' j'. {i, j, i', j'} \<subseteq> dom (nodeMap v) \<longrightarrow> i @ j = i' @ j' \<longrightarrow> i = i' \<and> j = j')"

lemma linked_once:
  assumes inv: "link_inv w" "ends_known w" "map_ok w" "clash_free w"
    and k: "has_keys w i j" and d: "nodeMap w i = Some a" "nodeMap w j = Some b"
  shows "\<exists>!l. l < length (links w) \<and> connects w l i j"
proof -
  obtain l where l: "linkMap w (i @ j) = Some l" using k by (auto simp: has_keys_def)
  then obtain i' j' where c: "l < length (links w)" "connects w l i' j'" "i @ j = i' @ j'"
    using inv(1) unfolding link_inv_def by blast
  have "l_a (links w ! l) \<in> ran (nodeMap w)" "l_z (links w ! l) \<in> ran (nodeMap w)"
    using inv(2) c(1) by (auto simp: ends_known_def)
  then have dom: "id_of w (l_a (links w ! l)) \<in> dom (nodeMap w)" "id_of w (l_z (links w ! l)) \<in> dom (nodeMap w)"
    using inv(3) by (auto simp: map_ok_def ran_def)
  then have "{i, j, i', j'} \<subseteq> dom (nodeMap w)"
    using c(2) d by (auto simp: connects_def Let_def)
  then have "i = i'" "j = j'" using inv(4) c(3) unfolding clash_free_def by blast+
  then have l': "l < length (links w) \<and> connects w l i j" using c by simp
  moreover have "m = l" if "m < length (links w) \<and> connects w m i j" for m
    using that l' inv(1) unfolding link_inv_def by (metis linorder_neqE_nat)
  ultimately show ?thesis by blast
qed

section \<open>Properties\<close>

definition empty_view :: "(string \<Rightarrow> nat option) \<Rightarrow> jsval list \<Rightarrow> jsval \<Rightarrow> real \<Rightarrow> real \<Rightarrow> view" where
  "empty_view nm datas need w h = \<lparr>nodes = [], links = [], boxes = [], childs = [], nodeMap = nm,
     linkMap = (\<lambda>k. None), phys = [], cores = [], others = [], v_data = datas, v_need_layout = need,
     v_width = w, v_height = h, v_names = [], frames = 0, v_mode = ''normal'', flashes = [], v_ready = False, translate = None\<rparr>"

lemma empty_link_inv: "links v = [] \<Longrightarrow> linkMap v = (\<lambda>k. None) \<Longrightarrow> link_inv v \<and> ends_known v"
  by (simp add: link_inv_def ends_known_def)

text \<open>The links of the scene are those that were made, once each.\<close>

lemma link_pair_scene:
  "find_links (link_pair a z p q v) = find_links v @ [length (links v)..<length (links (link_pair a z p q v))]"
  by (auto simp: link_pair_def Let_def view_simps find_links_def)

lemma links_to_scene:
  "links_to v w \<Longrightarrow> find_links v = [0..<length (links v)] \<Longrightarrow> find_links w = [0..<length (links w)]"
proof (induction rule: links_to.induct)
  case (more v w a z p q)
  have "length (links w) \<le> length (links (link_pair a z p q w))"
    by (simp add: link_pair_def Let_def view_simps)
  then show ?case using more by (simp add: link_pair_scene upt_add_eq_append [of 0, simplified, symmetric])
    (metis le_add_diff_inverse upt_add_eq_append zero_le)
qed simp

lemma one_in_range: "\<exists>!l. l < n \<and> P l \<Longrightarrow> length (filter P [0..<n]) = 1"
proof -
  assume ex: "\<exists>!l. l < n \<and> P l"
  then obtain l where "{i. i < n \<and> P i} = {l}" by blast
  moreover have "length (filter P [0..<n]) = card {i. i < n \<and> P i}"
    by (simp add: length_filter_conv_card cong: conj_cong)
  ultimately show ?thesis by simp
qed

text \<open>
  C4: every pair of neighbours is linked exactly once on the scene, and linking again changes nothing.
  On a scene without links, if no entry of the neighbour lists is null and no two pairs of ids on the
  scene have the same concatenation, then for every datum and every neighbour it names, both on the
  scene, exactly one of the links that are on the scene after \<open>linkNodes\<close> connects them, even when each
  names the other; and a second call with the same data adds nothing.
\<close>

theorem linkNodes_exact:
  assumes "links v = []" and "linkMap v = (\<lambda>k. None)" and "find_links v = []"
    and "map_ok v" and "clash_free v" and "link_fault es v = None"
    and "e \<in> set es" and "nodeMap v (js_str (pget e ''id'')) = Some a"
    and "u \<in> set (neighbour_items (pget e ''upNode'') @ neighbour_items (pget e ''downNode''))"
    and "nodeMap v (fst (neighbour u)) = Some b"
  shows "length (filter (\<lambda>l. connects (linkNodes es v) l (js_str (pget e ''id'')) (fst (neighbour u)))
      (find_links (linkNodes es v))) = 1 \<and>
    linkNodes es (linkNodes es v) = linkNodes es v"
proof -
  let ?w = "linkNodes es v"
  note to = links_to_linkNodes [of v es]
  have f: "nodeMap ?w = nodeMap v" "id_of ?w = id_of v" using links_to_fields [OF to] links_to_ids [OF to] by auto
  have inv: "link_inv ?w" "ends_known ?w"
    using links_to_inv [OF to] links_to_ends [OF to] empty_link_inv [OF assms(1,2)] by auto
  have ok: "map_ok ?w" "clash_free ?w" using assms(4,5) by (simp_all add: map_ok_def clash_free_def f)
  have "datum_done e ?w" using linkNodes_done [OF assms(6,7)] .
  then have "has_keys ?w (js_str (pget e ''id'')) (fst (neighbour u))"
    using assms(4,8,9,10) unfolding datum_done_def map_ok_def by (auto simp: f)
  then have "\<exists>!l. l < length (links ?w) \<and> connects ?w l (js_str (pget e ''id'')) (fst (neighbour u))"
    using linked_once [OF inv ok] assms(8,10) by (simp add: f)
  moreover have "find_links ?w = [0..<length (links ?w)]" using links_to_scene [OF to] assms(1,3) by simp
  moreover have "linkNodes es ?w = ?w" by (rule linkNodes_id) (rule linkNodes_done [OF assms(6)])
  ultimately show ?thesis using one_in_range by metis
qed

definition six_nodes :: view where
  "six_nodes = add_all (map (\<lambda>i. switchToNode (JObj [(''id'', JStr i)]))
       [''1'', ''23'', ''31'', ''2'', ''12'', ''3''])
     (empty_view (\<lambda>i. None) [] JUndef 100 100)"

text \<open>
  Pairs of nodes can be taken for one another.  The links 1-23 and 31-2 are drawn; the nodes 12 and
  3, which name each other just the same, are not linked, because the map of links is keyed by the
  concatenated ids and both 123 and 312 are already in it.
\<close>

theorem linkNodes_key_collision:
  "let v = linkNodes [JObj [(''id'', JStr ''1''), (''upNode'', JArr [JStr ''23''])],
                      JObj [(''id'', JStr ''31''), (''upNode'', JArr [JStr ''2''])],
                      JObj [(''id'', JStr ''12''), (''upNode'', JArr [JStr ''3'']), (''downNode'', JArr [JStr ''3''])],
                      JObj [(''id'', JStr ''3''), (''upNode'', JArr [JStr ''12''])]] six_nodes
   in list_ex (\<lambda>l. connects v l ''1'' ''23'') [0..<length (links v)] \<and>
      list_ex (\<lambda>l. connects v l ''31'' ''2'') [0..<length (links v)] \<and>
      \<not> list_ex (\<lambda>l. connects v l ''12'' ''3'') [0..<length (links v)]"
  by (simp add: six_nodes_def empty_view_def addToScene_def scene_add_def alloc_node_def alloc_link_def
      Let_def link_datum_def datum_fault_def pget.simps neighbour_items_def neighbour_def link_pair_def id_of_def
      new_link_def connects_def)

definition two_nodes :: view where
  "two_nodes = add_all (map (\<lambda>i. switchToNode (JObj [(''id'', JStr i)])) [''a'', ''b''])
     (empty_view (\<lambda>i. None) [] JUndef 100 100)"

lemma two_nodes_facts:
  "links two_nodes = []" "linkMap two_nodes = (\<lambda>k. None)" "find_links two_nodes = []" "map_ok two_nodes" "clash_free two_nodes"
  "nodeMap two_nodes ''a'' = Some 0" "nodeMap two_nodes ''b'' = Some 1"
proof -
  have m: "nodeMap two_nodes = [''a'' \<mapsto> 0, ''b'' \<mapsto> 1]"
    by (simp add: two_nodes_def empty_view_def addToScene_def Let_def scene_add_def alloc_node_def pget.simps)
  show "map_ok two_nodes"
    unfolding map_ok_def m
    by (simp add: two_nodes_def empty_view_def addToScene_def Let_def scene_add_def alloc_node_def id_of_def pget.simps)
  have "dom (nodeMap two_nodes) = {''a'', ''b''}" by (auto simp: m)
  then show "clash_free two_nodes" by (auto simp: clash_free_def)
qed (simp_all add: two_nodes_def empty_view_def find_links_def addToScene_def Let_def scene_add_def alloc_node_def pget.simps)

lemma linkNodes_exact_witness:
  "let e = JObj [(''id'', JStr ''a''), (''upNode'', JArr [JStr ''b'']), (''downNode'', JArr [JStr ''b''])];
       w = linkNodes [e] two_nodes
   in length (filter (\<lambda>l. connects w l ''a'' ''b'') (find_links w)) = 1"
proof -
  let ?e = "JObj [(''id'', JStr ''a''), (''upNode'', JArr [JStr ''b'']), (''downNode'', JArr [JStr ''b''])]"
  have "link_fault [?e] two_nodes = None"
    by (simp add: link_fault_def datum_fault_def pget.simps neighbour_items_def)
  from linkNodes_exact [OF two_nodes_facts(1-5) this, of ?e 0 "JStr ''b''" 1] two_nodes_facts(6,7)
  show ?thesis by (simp add: pget.simps neighbour_items_def neighbour_def)
qed

end
