(* ===== verification/Topo_View.thy ===== *)
theory Topo_View
  imports Layout Topo_Scene "HOL-Library.Multiset"
begin

text \<open>
  The two views of the topology (\<open>jtopo/js/open.js\<close>): the tree (\<open>initTree\<close>) and the circles
  (\<open>initCircle\<close>), each a scene with its own maps, with the layout of all nodes, the double click that
  shows or hides the hosts of a switch, the answer to the poll for added and deleted nodes, and the
  flashing of nodes.  A JavaScript exception is the first component of a result; what was done before
  it stays done.
\<close>

section \<open>Places\<close>

fun slot_node :: "slot \<Rightarrow> nat" where
  "slot_node (SNode a) = a"
| "slot_node (SPhantom a) = a"

definition slot_shape :: "view \<Rightarrow> slot \<Rightarrow> shape" where
  "slot_shape v s = (let n = nodes v ! slot_node s
     in \<lparr>s_diameter = None, s_radius = None, s_width = Some (n_width n), s_height = Some (n_height n)\<rparr>)"

definition slot_center :: "view \<Rightarrow> slot \<Rightarrow> coord \<times> coord" where
  "slot_center v s = (let n = nodes v ! slot_node s in (n_cx n, n_cy n))"

definition slot_data :: "view \<Rightarrow> slot \<Rightarrow> jsval" where
  "slot_data v s = n_data (nodes v ! slot_node s)"

definition caller_slots :: "slot list \<Rightarrow> slot list" where
  "caller_slots ss = (case ss of [s] \<Rightarrow> [s, SPhantom (slot_node s)] | _ \<Rightarrow> ss)"

definition put_corner :: "slot \<Rightarrow> coord \<times> coord \<Rightarrow> view \<Rightarrow> view" where
  "put_corner s p v = (case s of SNode a \<Rightarrow> upd_node a (\<lambda>n. n\<lparr>n_x := fst p, n_y := snd p\<rparr>) v | _ \<Rightarrow> v)"

definition put_center :: "slot \<Rightarrow> coord \<times> coord \<Rightarrow> view \<Rightarrow> view" where
  "put_center s p v = (case s of SNode a \<Rightarrow> upd_node a (\<lambda>n. set_cy (snd p) (set_cx (fst p) n)) v | _ \<Rightarrow> v)"

definition put_angle :: "slot \<Rightarrow> coord \<Rightarrow> view \<Rightarrow> view" where
  "put_angle s p v = (case s of SNode a \<Rightarrow> upd_node a (\<lambda>n. n\<lparr>n_angle := p\<rparr>) v | _ \<Rightarrow> v)"

definition layoutNodes :: "slot list \<Rightarrow> (coord \<times> coord) list \<Rightarrow> view \<Rightarrow> view" where
  "layoutNodes ss locations = steps (map (\<lambda>(s, p). put_center s p) (zip ss locations))"

definition need_layout :: "view \<Rightarrow> bool" where
  "need_layout v \<longleftrightarrow> js_eq (v_need_layout v) (JBool True) \<or> js_eq (v_need_layout v) (JStr ''true'')"

section \<open>Drawing the data\<close>

text \<open>The physical, core and other switches, in this order.\<close>

definition draw_all :: "view \<Rightarrow> view" where
  "draw_all v =
     (let ps = filter isPhysical (v_data v);
          cs = filter isCoreSwitch (v_data v);
          os = filter notCoreSwitch (v_data v);
          i = length (nodes v);
          j = i + length ps;
          k = j + length cs
      in (add_all (map switchToNode os) (add_all (map switchToNode cs) (add_all (map switchToNode ps) v)))
         \<lparr>phys := map SNode [i..<j], cores := map SNode [j..<k], others := map SNode [k..<k + length os]\<rparr>)"

section \<open>The tree\<close>

definition row_nodes :: "coord \<Rightarrow> coord \<Rightarrow> slot list \<Rightarrow> real option \<Rightarrow> real \<Rightarrow> view \<Rightarrow> js_error option \<times> view" where
  "row_nodes cx y ss width gap v =
     (case treeLayoutNodes cx y (map (\<lambda>s. n_width (nodes v ! slot_node s)) ss) width gap of
        Inl e \<Rightarrow> (Some e, v)
      | Inr ps \<Rightarrow> (None, steps (map (\<lambda>(s, p). put_corner s p) (zip ss ps)) v))"

fun place_rows :: "coord \<Rightarrow> (real \<times> slot list \<times> real option) list \<Rightarrow> view \<Rightarrow> js_error option \<times> view" where
  "place_rows cx [] v = (None, v)"
| "place_rows cx ((y, ss, width) # rows) v =
     (case row_nodes cx (Some y) ss width 20 v of
        (Some e, v') \<Rightarrow> (Some e, v')
      | (None, v') \<Rightarrow> place_rows cx rows v')"

definition pick :: "(nat \<Rightarrow> bool) \<Rightarrow> 'a list \<Rightarrow> 'a list" where
  "pick p xs = map snd (filter (\<lambda>(i, x). p i) (enumerate 0 xs))"

definition switch_rows :: "slot list \<Rightarrow> slot list \<Rightarrow> (real \<times> slot list \<times> real option) list" where
  "switch_rows core ss =
     (if length ss \<ge> length core * 2 then
        [(400, pick (\<lambda>i. i mod 2 = 0) ss, None), (500, pick (\<lambda>i. i mod 2 \<noteq> 0) ss, None)]
      else if length ss \<ge> length core * 3 then
        [(400, pick (\<lambda>i. i mod 2 = 0) ss, None), (500, pick (\<lambda>i. i mod 3 = 0) ss, None),
         (600, pick (\<lambda>i. i mod 2 \<noteq> 0 \<and> i mod 3 \<noteq> 0) ss, None)]
      else [(400, ss, Some 256)])"

definition layout_tree :: "view \<Rightarrow> js_error option \<times> view" where
  "layout_tree v =
     (if \<not> need_layout v then (None, v)
      else place_rows (Some (v_width v / 2))
             ([(50, phys v, Some 256), (200, cores v, Some 256)] @ switch_rows (cores v) (others v)) v)"

text \<open>The scene after \<open>linkNodes\<close>; only if it ended without an exception does the start go on.\<close>

definition linked :: "jsval list \<Rightarrow> view \<Rightarrow> js_error option \<times> view" where
  "linked datas v = (link_fault datas v, (linkNodes datas v)\<lparr>v_ready := link_fault datas v = None\<rparr>)"

definition initTree :: "jsval list \<Rightarrow> jsval \<Rightarrow> real \<Rightarrow> real \<Rightarrow> js_error option \<times> view" where
  "initTree datas need w h =
     (let v0 = empty_view (\<lambda>i. None) datas need w h
      in if list_ex nullish datas then (Some TypeError, v0)
         else case layout_tree (draw_all v0) of
                (Some e, v) \<Rightarrow> (Some e, v)
              | (None, v) \<Rightarrow> linked datas v)"

section \<open>The circles\<close>

definition around :: "coord \<Rightarrow> coord \<Rightarrow> circle_opt" where
  "around x y = no_opt\<lparr>o_cx := Some x, o_cy := Some y\<rparr>"

definition circle_of :: "slot list \<Rightarrow> circle_opt \<Rightarrow> view \<Rightarrow> circle_layout" where
  "circle_of ss opt v = getCircleLayout (map (slot_shape v) ss) (map (slot_center v) ss) opt"

definition in_mininet :: "jsval \<Rightarrow> view \<Rightarrow> slot \<Rightarrow> bool" where
  "in_mininet name v s = js_eq (pget (slot_data v s) ''mininet'') (JStr (js_str name))"

definition virtual_shape :: "coord \<Rightarrow> shape" where
  "virtual_shape r = \<lparr>s_diameter = None, s_radius = map_option (\<lambda>x. x + 32) r, s_width = None, s_height = None\<rparr>"

definition phy_radius :: "coord \<Rightarrow> real" where
  "phy_radius r = (case r of None \<Rightarrow> 128 | Some x \<Rightarrow> if x < 128 then 128 else x + 128)"

definition swCenters :: "coord \<Rightarrow> coord \<Rightarrow> view \<Rightarrow> coord \<Rightarrow> (coord \<times> coord) list" where
  "swCenters cx cy v r =
     cl_locations (getCircleLayout
       (map (\<lambda>name. virtual_shape (cl_radius
           (circle_of (filter (in_mininet name v) (others v)) ((around cx cy)\<lparr>o_minRadius := Some 250\<rparr>) v))) (v_names v))
       [] ((around cx cy)\<lparr>o_dxRadius := Some (phy_radius r)\<rparr>))"

definition place_core_group :: "jsval \<times> coord \<times> coord \<Rightarrow> view \<Rightarrow> view" where
  "place_core_group g v =
     (case g of (name, x, y) \<Rightarrow>
        (let ss = filter (in_mininet name v) (cores v)
         in layoutNodes ss (cl_locations (circle_of ss (around x y) v)) v))"

definition place_other_group :: "jsval \<times> coord \<times> coord \<Rightarrow> view \<Rightarrow> view" where
  "place_other_group g v =
     (case g of (name, x, y) \<Rightarrow>
        (let ss = filter (in_mininet name v) (others v);
             layout = circle_of ss ((around x y)\<lparr>o_minRadius := Some 150\<rparr>) v
         in layoutNodes ss (cl_locations layout)
              (steps (map (\<lambda>(s, d). put_angle s d) (zip ss (cl_angles layout))) v)))"

definition layout_circle :: "view \<Rightarrow> view" where
  "layout_circle v =
     (if \<not> need_layout v then v
      else let cx = Some (v_width v / 2);
               cy = Some (v_height v / 2);
               phy = circle_of (phys v) (around cx cy) v;
               v1 = layoutNodes (caller_slots (phys v)) (cl_locations phy) (v\<lparr>phys := caller_slots (phys v)\<rparr>);
               groups = zip (v_names v) (swCenters cx cy v1 (cl_radius phy))
           in steps (map place_core_group groups @ map place_other_group groups) v1)"

definition initCircle :: "jsval list \<Rightarrow> jsval \<Rightarrow> real \<Rightarrow> real \<Rightarrow> js_error option \<times> view" where
  "initCircle datas need w h =
     (let v = empty_view (\<lambda>i. None) datas need w h
      in case getMininetInfo datas of
           Inl e \<Rightarrow> (Some e, v)
         | Inr info \<Rightarrow> linked datas ((draw_all v)\<lparr>v_names := mi_names info\<rparr>))"

section \<open>Hosts\<close>

definition remove_all :: "elem list \<Rightarrow> view \<Rightarrow> view" where
  "remove_all es = steps (map scene_remove es)"

definition collapse :: "nat \<Rightarrow> view \<Rightarrow> view" where
  "collapse a v =
     (case n_hosts (nodes v ! a) of
        None \<Rightarrow> v
      | Some (b, hs, ls) \<Rightarrow>
          upd_node a (\<lambda>n. n\<lparr>n_hosts := None\<rparr>)
            (scene_remove (EBox b) (remove_all (map ENode hs) (remove_all (map ELink ls) v))))"

text \<open>A double click: an exception, or the new view and the id of the switch whose hosts are requested.\<close>

definition dbclick :: "elem option \<Rightarrow> view \<Rightarrow> js_error + (view \<times> jsval option)" where
  "dbclick target v =
     (case target of
        None \<Rightarrow> Inr (v, None)
      | Some (ENode a) \<Rightarrow>
          (let coreSwitch = n_data (nodes v ! a)
           in if isPhysical coreSwitch then Inr (v, None)
              else if n_hosts (nodes v ! a) \<noteq> None then Inr (collapse a v, None)
              else Inr (v, Some (pget coreSwitch ''id'')))
      | Some _ \<Rightarrow> Inl TypeError)"

definition hosts_of :: "jsval \<Rightarrow> js_error + jsval list" where
  "hosts_of response =
     (if \<not> truthy response \<or> \<not> truthy (pget response ''data'') then Inr []
      else case pget (pget response ''data'') ''nodes'' of
             JArr hs \<Rightarrow> if list_ex nullish hs then Inl TypeError else Inr hs
           | JStr [] \<Rightarrow> Inr []
           | JObj kvs \<Rightarrow> if js_eq (pget (JObj kvs) ''length'') (JNum (Fin 0)) then Inr [] else Inl TypeError
           | _ \<Rightarrow> Inl TypeError)"

fun link_hosts :: "nat \<Rightarrow> nat list \<Rightarrow> view \<Rightarrow> view" where
  "link_hosts a [] v = v"
| "link_hosts a (h # hs) v =
     link_hosts a hs (scene_add (ELink (length (links v))) (alloc_link ((new_link a h)\<lparr>l_alpha := 4 / 10\<rparr>) v))"

definition show_hosts :: "nat \<Rightarrow> real \<times> real \<Rightarrow> jsval list \<Rightarrow> view \<Rightarrow> view" where
  "show_hosts a xy hosts v =
     (let i = length (nodes v);
          hs = [i..<i + length hosts];
          b = length (boxes v);
          l = length (links v);
          v1 = add_all (map (\<lambda>h. (hostToNode h)\<lparr>n_zIndex := 4\<rparr>) hosts) v;
          v2 = scene_add (EBox b) (v1\<lparr>boxes := boxes v1 @
                 [\<lparr>b_members = hs, b_x = fst xy, b_y = snd xy, b_fill = ''191,191,191'', b_zIndex = 3\<rparr>]\<rparr>)
      in upd_node a (\<lambda>n. n\<lparr>n_hosts := Some (b, hs, [l..<l + length hosts])\<rparr>) (link_hosts a hs v2))"

definition row_hosts :: "nat \<Rightarrow> nat list \<Rightarrow> view \<Rightarrow> view" where
  "row_hosts a hs v =
     (let node = nodes v ! a;
          dy = (if isCoreSwitch (n_data node) then 350 else 200)
      in snd (row_nodes (n_cx node) (map_option (\<lambda>y. y + dy) (n_cy node)) (map SNode hs) (Some 64) 10 v))"

definition ring_hosts :: "nat \<Rightarrow> nat list \<Rightarrow> view \<Rightarrow> view" where
  "ring_hosts a hs v =
     (let node = nodes v ! a;
          angle = or_default (n_angle node) (pi / 2);
          out = (\<lambda>c t r. lift2 (+) c (map_option (\<lambda>x. t * x) r))
      in case hs of
           [h] \<Rightarrow> put_corner (SNode h) (out (n_cx node) (cos angle) (Some 64), out (n_cy node) (sin angle) (Some 64)) v
         | _ \<Rightarrow>
             (let layout = circle_of (map SNode hs)
                    ((around (n_cx node) (n_cy node))\<lparr>o_beginAngle := Some (angle - pi / 2), o_endAngle := Some (angle + pi / 2)\<rparr>) v;
                  x = lift2 (-) (out (n_cx node) (cos angle) (cl_radius layout)) (n_cx node);
                  y = lift2 (-) (out (n_cy node) (sin angle) (cl_radius layout)) (n_cy node)
              in steps (map (\<lambda>h. upd_node h (\<lambda>n. n\<lparr>n_x := lift2 (+) (n_x n) x, n_y := lift2 (+) (n_y n) y\<rparr>)) hs)
                   (layoutNodes (map SNode hs) (cl_locations layout) v)))"

definition hosts_answer ::
  "(nat \<Rightarrow> nat list \<Rightarrow> view \<Rightarrow> view) \<Rightarrow> nat \<Rightarrow> real \<times> real \<Rightarrow> jsval \<Rightarrow> view \<Rightarrow> js_error option \<times> view" where
  "hosts_answer place a xy response v =
     (case hosts_of response of
        Inl e \<Rightarrow> (Some e, v)
      | Inr hosts \<Rightarrow>
          (if hosts = [] then (None, v)
           else (None, place a [length (nodes v)..<length (nodes v) + length hosts] (show_hosts a xy hosts v))))"

section \<open>Flashing\<close>

text \<open>\<open>n\<close> counts half steps; a pending timer is a pair of a node and the remaining count.\<close>

definition nodeFlash :: "nat \<Rightarrow> nat \<Rightarrow> view \<Rightarrow> view" where
  "nodeFlash a n v =
     (if n = 0 then upd_node a (\<lambda>x. x\<lparr>n_border := 0\<rparr>) v
      else (upd_node a (\<lambda>x. x\<lparr>n_border := if n_border x = 4 then 0 else 4\<rparr>) v)
             \<lparr>flashes := flashes v @ [(a, n - 1)]\<rparr>)"

definition flash_tick :: "nat \<Rightarrow> view \<Rightarrow> view" where
  "flash_tick i v =
     (case nth_opt (flashes v) i of
        None \<Rightarrow> v
      | Some (a, n) \<Rightarrow> nodeFlash a n (v\<lparr>flashes := take i (flashes v) @ drop (Suc i) (flashes v)\<rparr>))"

definition flash_all :: "nat list \<Rightarrow> nat \<Rightarrow> view \<Rightarrow> view" where
  "flash_all as n = steps (map (\<lambda>a. nodeFlash a n) as)"

section \<open>Added and deleted nodes\<close>

definition arr_items :: "jsval \<Rightarrow> jsval list" where
  "arr_items v = (case v of JArr vs \<Rightarrow> vs | _ \<Rightarrow> [])"

definition push_slot :: "nat \<Rightarrow> view \<Rightarrow> view" where
  "push_slot a v =
     (let d = n_data (nodes v ! a)
      in if isPhysical d then v\<lparr>phys := phys v @ [SNode a]\<rparr>
         else if isCoreSwitch d then v\<lparr>cores := cores v @ [SNode a]\<rparr>
         else if notCoreSwitch d then v\<lparr>others := others v @ [SNode a]\<rparr>
         else v)"

definition topo_remove :: "jsval list \<Rightarrow> view \<Rightarrow> view" where
  "topo_remove ids v =
     steps (concat (map (\<lambda>a. map (\<lambda>i. \<lambda>w. if js_eq (JStr (id_of v a)) i then scene_remove (ENode a) w else w) ids)
        (find_nodes v))) v"

definition dynamic_add :: "(view \<Rightarrow> js_error option \<times> view) \<Rightarrow> jsval list \<Rightarrow> view \<Rightarrow> js_error option \<times> view" where
  "dynamic_add layoutAll adds v =
     (let datas = filter (\<lambda>e. nodeMap v (js_str (pget e ''id'')) = None) adds;
          i = length (nodes v);
          new = [i..<i + length datas]
      in if list_ex nullish adds then (Some TypeError, v)
         else if datas = [] then (None, v)
         else case layoutAll (steps (map push_slot new) (add_all (map switchToNode datas) v)) of
                (Some e, v') \<Rightarrow> (Some e, v')
              | (None, v') \<Rightarrow>
                  (case link_fault datas v' of
                     Some e \<Rightarrow> (Some e, linkNodes datas v')
                   | None \<Rightarrow> (None, flash_all new 20 (linkNodes datas v'))))"

text \<open>The answer to the poll: an object whose \<open>add\<close> and \<open>delete\<close>, when present, are arrays.\<close>

definition dynamic_answer :: "(view \<Rightarrow> js_error option \<times> view) \<Rightarrow> jsval \<Rightarrow> view \<Rightarrow> js_error option \<times> view" where
  "dynamic_answer layoutAll response v =
     (if nullish response then (Some TypeError, v)
      else case dynamic_add layoutAll (arr_items (pget response ''add'')) v of
        (Some e, v') \<Rightarrow> (Some e, v')
      | (None, v') \<Rightarrow> (None, topo_remove (arr_items (pget response ''delete'')) v'))"

definition circle_all :: "view \<Rightarrow> js_error option \<times> view" where
  "circle_all v = (None, layout_circle v)"

section \<open>What an operation leaves as it is\<close>

text \<open>From \<open>v\<close> to \<open>w\<close> nodes have moved, and nothing else of the scene has changed.\<close>

definition fixed_part :: "topo_node \<Rightarrow> string \<times> jsval \<times> (nat \<times> nat list \<times> nat list) option \<times> real \<times> real \<times> nat" where
  "fixed_part n = (n_id n, n_data n, n_hosts n, n_width n, n_height n, n_border n)"

definition moved :: "view \<Rightarrow> view \<Rightarrow> bool" where
  "moved v w \<longleftrightarrow> childs w = childs v \<and> links w = links v \<and> boxes w = boxes v \<and> nodeMap w = nodeMap v \<and>
     linkMap w = linkMap v \<and> map fixed_part (nodes w) = map fixed_part (nodes v) \<and> flashes w = flashes v \<and>
     v_data w = v_data v \<and> v_need_layout w = v_need_layout v \<and> cores w = cores v \<and> others w = others v \<and>
     v_ready w = v_ready v \<and> v_names w = v_names v \<and> v_width w = v_width v \<and> v_height w = v_height v \<and>
     slot_node ` set (phys w) = slot_node ` set (phys v)"

lemma moved_refl [intro, simp]: "moved v v"
  by (simp add: moved_def)

lemma moved_trans: "moved v w \<Longrightarrow> moved w u \<Longrightarrow> moved v u"
  by (simp add: moved_def)

lemma moved_steps: "(\<And>f w. f \<in> set fs \<Longrightarrow> moved w (f w)) \<Longrightarrow> moved v (steps fs v)"
proof (induction fs arbitrary: v)
  case (Cons f fs)
  show ?case using moved_trans [of v "f v"] Cons by simp
qed simp

lemma moved_upd_node: "(\<And>n. fixed_part (f n) = fixed_part n) \<Longrightarrow> moved v (upd_node a f v)"
  by (simp add: moved_def upd_node_def map_update) (metis list_update_id map_update)

lemma moved_put [intro, simp]:
  "moved v (put_corner s p v)" "moved v (put_center s p v)" "moved v (put_angle s d v)"
  by (auto simp: put_corner_def put_center_def put_angle_def set_cx_def set_cy_def fixed_part_def
      intro!: moved_upd_node split: slot.split)

lemma moved_layoutNodes [intro, simp]: "moved v (layoutNodes ss ps v)"
  by (auto simp: layoutNodes_def intro!: moved_steps)

lemma moved_row_nodes [intro, simp]: "moved v (snd (row_nodes cx y ss width gap v))"
  by (auto simp: row_nodes_def intro!: moved_steps split: sum.split)

lemma moved_place_rows [intro, simp]: "moved v (snd (place_rows cx rows v))"
proof (induction cx rows v rule: place_rows.induct)
  case (2 cx y ss width rows v)
  obtain e v' where r: "row_nodes cx (Some y) ss width 20 v = (e, v')" by (metis prod.exhaust)
  then have "moved v v'" using moved_row_nodes [of v cx "Some y" ss width 20] by simp
  then show ?case using "2.IH" [OF r [symmetric]] moved_trans r by (cases e) auto
qed simp

lemma moved_layout_tree [intro, simp]: "moved v (snd (layout_tree v))"
  by (simp add: layout_tree_def del: place_rows.simps append.simps)

lemma moved_place_core [intro, simp]: "moved v (place_core_group g v)"
  by (simp add: place_core_group_def Let_def split: prod.split)

lemma moved_place_other [intro, simp]: "moved v (place_other_group g v)"
  by (auto simp: place_other_group_def Let_def intro!: moved_trans [OF moved_steps moved_layoutNodes] split: prod.split)

lemma caller_slots_nodes [simp]: "slot_node ` set (caller_slots ss) = slot_node ` set ss"
  by (auto simp: caller_slots_def split: list.splits)

lemma moved_layout_circle [intro, simp]: "moved v (layout_circle v)"
proof -
  have p: "moved v (v\<lparr>phys := caller_slots (phys v)\<rparr>)" by (simp add: moved_def)
  have s: "moved w (steps (map place_core_group gs @ map place_other_group gs) w)" for gs w
    by (rule moved_steps) auto
  show ?thesis
  proof (cases "need_layout v")
    case True
    show ?thesis
      unfolding layout_circle_def Let_def
      by (simp only: True not_True_eq_False if_False)
        (rule moved_trans [OF moved_trans [OF p moved_layoutNodes] s])
  qed (simp add: layout_circle_def)
qed

lemma moved_row_hosts [intro, simp]: "moved v (row_hosts a hs v)"
  by (simp add: row_hosts_def Let_def)

lemma moved_ring_hosts [intro, simp]: "moved v (ring_hosts a hs v)"
proof -
  have s: "moved w (steps (map (\<lambda>h. upd_node h (\<lambda>n. n\<lparr>n_x := lift2 (+) (n_x n) x, n_y := lift2 (+) (n_y n) y\<rparr>)) hs) w)"
    for w x y by (rule moved_steps) (auto simp: fixed_part_def intro!: moved_upd_node)
  show ?thesis
    unfolding ring_hosts_def Let_def
    by (auto simp only: moved_put moved_trans [OF moved_layoutNodes s] split: list.split)
qed

section \<open>Well-formed views\<close>

text \<open>Every address names an allocated object, and an element is on the scene at most once.\<close>

definition node_addr :: "view \<Rightarrow> nat \<Rightarrow> bool" where
  "node_addr v a \<longleftrightarrow> a < length (nodes v)"

definition allocated :: "view \<Rightarrow> elem \<Rightarrow> bool" where
  "allocated v e = (case e of ENode a \<Rightarrow> a < length (nodes v) | ELink l \<Rightarrow> l < length (links v)
     | EBox b \<Rightarrow> b < length (boxes v))"

definition hosts_ok :: "view \<Rightarrow> (nat \<times> nat list \<times> nat list) option \<Rightarrow> bool" where
  "hosts_ok v h = (case h of None \<Rightarrow> True
     | Some (b, hs, ls) \<Rightarrow> list_all (allocated v) (EBox b # map ENode hs @ map ELink ls))"

definition scene_wf :: "view \<Rightarrow> bool" where
  "scene_wf v \<longleftrightarrow>
     list_all (allocated v) (childs v) \<and> distinct (childs v) \<and>
     list_all (\<lambda>l. node_addr v (l_a l) \<and> node_addr v (l_z l)) (links v) \<and>
     (\<forall>i a. nodeMap v i = Some a \<longrightarrow> node_addr v a) \<and>
     list_all (\<lambda>n. hosts_ok v (n_hosts n)) (nodes v) \<and>
     list_all (\<lambda>s. node_addr v (slot_node s)) (phys v @ cores v @ others v) \<and>
     list_all (\<lambda>(a, n). node_addr v a) (flashes v)"

text \<open>\<open>w\<close> has all the objects of \<open>v\<close>.\<close>

definition grows :: "view \<Rightarrow> view \<Rightarrow> bool" where
  "grows v w \<longleftrightarrow> length (nodes v) \<le> length (nodes w) \<and> length (links v) \<le> length (links w) \<and>
     length (boxes v) \<le> length (boxes w)"

lemma grows_addr: "grows v w \<Longrightarrow> node_addr v a \<Longrightarrow> node_addr w a"
  by (simp add: grows_def node_addr_def)

lemma grows_allocated: "grows v w \<Longrightarrow> allocated v e \<Longrightarrow> allocated w e"
  by (auto simp: grows_def allocated_def split: elem.splits)

lemma grows_hosts: "grows v w \<Longrightarrow> hosts_ok v h \<Longrightarrow> hosts_ok w h"
  using grows_allocated by (auto simp: hosts_ok_def list_all_iff split: option.splits)

lemma same_size:
  assumes "length (nodes w) = length (nodes v)" "length (links w) = length (links v)" "length (boxes w) = length (boxes v)"
  shows "allocated w = allocated v" "node_addr w = node_addr v" "hosts_ok w = hosts_ok v"
proof -
  show a: "allocated w = allocated v" "node_addr w = node_addr v"
    using assms by (auto simp: allocated_def node_addr_def fun_eq_iff split: elem.split)
  show "hosts_ok w = hosts_ok v" by (auto simp: hosts_ok_def a fun_eq_iff split: option.split)
qed

lemma moved_wf:
  assumes m: "moved v w" and wf: "scene_wf v"
  shows "scene_wf w"
proof -
  have n: "length (nodes w) = length (nodes v)"
    using m by (metis moved_def length_map)
  have h: "map n_hosts (nodes w) = map n_hosts (nodes v)"
  proof -
    have "map (fst \<circ> snd \<circ> snd) (map fixed_part (nodes w)) = map (fst \<circ> snd \<circ> snd) (map fixed_part (nodes v))"
      using m by (simp only: moved_def)
    then show ?thesis by (simp add: fixed_part_def o_def)
  qed
  have s: "length (links w) = length (links v)" "length (boxes w) = length (boxes v)"
    using m by (simp_all add: moved_def)
  have "list_all (\<lambda>n. hosts_ok v (n_hosts n)) (nodes w) = list_all (\<lambda>n. hosts_ok v (n_hosts n)) (nodes v)"
  proof -
    have "list_all (hosts_ok v) (map n_hosts (nodes w)) = list_all (hosts_ok v) (map n_hosts (nodes v))"
      by (simp only: h)
    then show ?thesis by (simp add: list.pred_map o_def)
  qed
  moreover have "list_all (\<lambda>s. node_addr v (slot_node s)) (phys w) = list_all (\<lambda>s. node_addr v (slot_node s)) (phys v)"
  proof -
    have e: "list_all (\<lambda>s. node_addr v (slot_node s)) ss = (\<forall>a \<in> slot_node ` set ss. node_addr v a)" for ss
      by (auto simp: list_all_iff)
    have "slot_node ` set (phys w) = slot_node ` set (phys v)" using m by (simp add: moved_def)
    then show ?thesis unfolding e by (simp only:)
  qed
  ultimately show ?thesis
    using m wf unfolding scene_wf_def same_size [OF n s] moved_def by simp
qed

lemma wf_grow:
  assumes wf: "scene_wf v" and g: "grows v w"
    and c: "childs w = childs v @ es" "distinct es" "list_all (\<lambda>e. \<not> allocated v e \<and> allocated w e) es"
    and l: "links w = links v @ ks" "list_all (\<lambda>l. node_addr w (l_a l) \<and> node_addr w (l_z l)) ks"
    and n: "nodes w = nodes v @ ns" "list_all (\<lambda>n. hosts_ok w (n_hosts n)) ns"
    and m: "\<And>i a. nodeMap w i = Some a \<Longrightarrow> nodeMap v i = Some a \<or> node_addr w a"
    and o: "phys w = phys v" "cores w = cores v" "others w = others v" "flashes w = flashes v"
  shows "scene_wf w"
proof -
  have "list_all (allocated w) (childs v)" "list_all (\<lambda>l. node_addr w (l_a l) \<and> node_addr w (l_z l)) (links v)"
    "list_all (\<lambda>n. hosts_ok w (n_hosts n)) (nodes v)"
    "list_all (\<lambda>s. node_addr w (slot_node s)) (phys v @ cores v @ others v)" "list_all (\<lambda>(a, n). node_addr w a) (flashes v)"
    using wf grows_addr [OF g] grows_allocated [OF g] grows_hosts [OF g]
    by (auto simp: scene_wf_def list_all_iff)
  moreover have "distinct (childs w)"
    using wf c by (auto simp: scene_wf_def list_all_iff)
  moreover have "node_addr w a" if "nodeMap w i = Some a" for i a
    using m [OF that] wf grows_addr [OF g] by (auto simp: scene_wf_def)
  ultimately show ?thesis
    using c l n unfolding scene_wf_def o by (auto simp: list_all_iff)
qed

lemma wf_addToScene:
  assumes "scene_wf v" "n_hosts n = None"
  shows "scene_wf (addToScene n v)"
  by (rule wf_grow [OF assms(1), where es = "[ENode (length (nodes v))]" and ks = "[]" and ns = "[n]"])
    (auto simp: assms(2) grows_def addToScene_def Let_def scene_add_def alloc_node_def allocated_def node_addr_def
      hosts_ok_def split: if_splits)

lemma wf_add_all: "scene_wf v \<Longrightarrow> \<forall>n \<in> set ns. n_hosts n = None \<Longrightarrow> scene_wf (add_all ns v)"
  by (induction ns v rule: add_all.induct) (auto intro: wf_addToScene)

lemma wf_new_link:
  assumes "scene_wf v" "node_addr v (l_a k)" "node_addr v (l_z k)" "l = length (links v)"
  shows "scene_wf (scene_add (ELink l) ((alloc_link k v)\<lparr>linkMap := m\<rparr>))"
  by (rule wf_grow [OF assms(1), where es = "[ELink l]" and ks = "[k]" and ns = "[]"])
    (use assms in \<open>auto simp: grows_def scene_add_def alloc_link_def allocated_def node_addr_def\<close>)

lemma wf_link_pair:
  "scene_wf v \<Longrightarrow> node_addr v a \<Longrightarrow> node_addr v z \<Longrightarrow> scene_wf (link_pair a z p q v)"
  by (auto simp: link_pair_def Let_def new_link_def intro!: wf_new_link)

lemma wf_links_to: "links_to v w \<Longrightarrow> scene_wf v \<Longrightarrow> scene_wf w"
proof (induction rule: links_to.induct)
  case (more v w a z p q)
  then have "scene_wf w" by simp
  moreover from this more.hyps have "node_addr w a" "node_addr w z" by (auto simp: scene_wf_def ran_def)
  ultimately show ?case by (rule wf_link_pair)
qed

lemma wf_linkNodes: "scene_wf v \<Longrightarrow> scene_wf (linkNodes es v)"
  using wf_links_to links_to_linkNodes by blast

lemma scene_remove_childs: "set (childs (scene_remove e v)) \<subseteq> set (childs v)"
  using set_del_first_subset by (force simp: scene_remove_def split: elem.splits)

lemma scene_remove_distinct: "distinct (childs v) \<Longrightarrow> distinct (childs (scene_remove e v))"
  by (auto simp: scene_remove_def distinct_del_first split: elem.splits)

lemma scene_remove_fields [view_simps]:
  "boxes (scene_remove e v) = boxes v" "flashes (scene_remove e v) = flashes v" "phys (scene_remove e v) = phys v"
  "cores (scene_remove e v) = cores v" "others (scene_remove e v) = others v"
  by (simp_all add: scene_remove_def)

lemma wf_scene_remove:
  assumes "scene_wf v"
  shows "scene_wf (scene_remove e v)"
proof -
  have s: "length (nodes (scene_remove e v)) = length (nodes v)" "length (links (scene_remove e v)) = length (links v)"
    "length (boxes (scene_remove e v)) = length (boxes v)"
    by (simp_all add: view_simps)
  show ?thesis
    using assms scene_remove_childs [of e v] scene_remove_distinct [of v e]
    unfolding scene_wf_def same_size [OF s] by (auto simp: view_simps list_all_iff)
qed

lemma wf_steps: "(\<And>f w. f \<in> set fs \<Longrightarrow> scene_wf w \<Longrightarrow> scene_wf (f w)) \<Longrightarrow> scene_wf v \<Longrightarrow> scene_wf (steps fs v)"
  by (induction fs arbitrary: v) auto

lemma wf_remove_all: "scene_wf v \<Longrightarrow> scene_wf (remove_all es v)"
  unfolding remove_all_def by (rule wf_steps) (auto intro: wf_scene_remove)

lemma wf_upd_node:
  assumes "scene_wf v" "\<And>n. hosts_ok v (n_hosts n) \<Longrightarrow> hosts_ok v (n_hosts (f n))"
  shows "scene_wf (upd_node a f v)"
proof -
  have s: "length (nodes (upd_node a f v)) = length (nodes v)" "length (links (upd_node a f v)) = length (links v)"
    "length (boxes (upd_node a f v)) = length (boxes v)"
    by (simp_all add: upd_node_def)
  have "list_all (\<lambda>n. hosts_ok v (n_hosts n)) (nodes (upd_node a f v))"
  proof (cases "a < length (nodes v)")
    case True
    have l: "list_all (\<lambda>n. hosts_ok v (n_hosts n)) (nodes v)" using assms(1) by (simp add: scene_wf_def)
    then have "hosts_ok v (n_hosts (f (nodes v ! a)))" using True assms(2) by (simp add: list_all_length)
    then show ?thesis using l set_update_subset_insert [of "nodes v" a]
      by (auto simp: upd_node_def list_all_iff)
  next
    case False
    then show ?thesis using assms(1) by (simp add: upd_node_def scene_wf_def list_update_beyond)
  qed
  then show ?thesis
    using assms(1) unfolding scene_wf_def same_size [OF s] by (simp add: upd_node_def)
qed

lemma wf_collapse: "scene_wf v \<Longrightarrow> scene_wf (collapse a v)"
  by (auto simp: collapse_def hosts_ok_def intro!: wf_upd_node wf_scene_remove wf_remove_all split: option.split)

lemma wf_dbclick: "scene_wf v \<Longrightarrow> dbclick e v = Inr (w, r) \<Longrightarrow> scene_wf w"
  by (auto simp: dbclick_def Let_def wf_collapse split: option.splits elem.splits if_splits)

lemma add_all_fields [view_simps]:
  "nodes (add_all ns v) = nodes v @ ns" "links (add_all ns v) = links v" "boxes (add_all ns v) = boxes v"
  "childs (add_all ns v) = childs v @ map ENode [length (nodes v)..<length (nodes v) + length ns]"
  "flashes (add_all ns v) = flashes v" "phys (add_all ns v) = phys v" "cores (add_all ns v) = cores v"
  "others (add_all ns v) = others v" "v_data (add_all ns v) = v_data v" "linkMap (add_all ns v) = linkMap v"
  "v_need_layout (add_all ns v) = v_need_layout v" "v_ready (add_all ns v) = v_ready v" "v_width (add_all ns v) = v_width v"
  by (induction ns v rule: add_all.induct)
    (auto simp: addToScene_def Let_def scene_add_def alloc_node_def upt_conv_Cons simp del: upt_Suc)

lemma link_hosts_fields [view_simps]:
  "nodes (link_hosts a hs v) = nodes v" "boxes (link_hosts a hs v) = boxes v"
  "nodeMap (link_hosts a hs v) = nodeMap v"
  "links (link_hosts a hs v) = links v @ map (\<lambda>h. (new_link a h)\<lparr>l_alpha := 4 / 10\<rparr>) hs"
  "childs (link_hosts a hs v) = childs v @ map ELink [length (links v)..<length (links v) + length hs]"
  by (induction a hs v rule: link_hosts.induct)
    (auto simp: scene_add_def alloc_link_def upt_conv_Cons simp del: upt_Suc)

lemma wf_link_hosts:
  "scene_wf v \<Longrightarrow> node_addr v a \<Longrightarrow> list_all (node_addr v) hs \<Longrightarrow> scene_wf (link_hosts a hs v)"
proof (induction a hs v rule: link_hosts.induct)
  case (2 a h hs v)
  let ?v = "scene_add (ELink (length (links v))) (alloc_link ((new_link a h)\<lparr>l_alpha := 4 / 10\<rparr>) v)"
  have m: "alloc_link k v = (alloc_link k v)\<lparr>linkMap := linkMap v\<rparr>" for k by (simp add: alloc_link_def)
  have "scene_wf ?v"
    by (subst m, rule wf_new_link) (use 2 in \<open>auto simp: new_link_def\<close>)
  moreover have "node_addr ?v = node_addr v" by (simp add: node_addr_def fun_eq_iff view_simps)
  ultimately show ?case using 2 by simp
qed simp

lemma show_hosts_wf:
  assumes "scene_wf v" "node_addr v a"
  shows "scene_wf (show_hosts a xy hosts v)"
proof -
  let ?hs = "[length (nodes v)..<length (nodes v) + length hosts]"
  let ?v1 = "add_all (map (\<lambda>h. (hostToNode h)\<lparr>n_zIndex := 4\<rparr>) hosts) v"
  let ?box = "\<lparr>b_members = ?hs, b_x = fst xy, b_y = snd xy, b_fill = ''191,191,191'', b_zIndex = 3\<rparr>"
  let ?v2 = "scene_add (EBox (length (boxes v))) (?v1\<lparr>boxes := boxes ?v1 @ [?box]\<rparr>)"
  have w1: "scene_wf ?v1" using assms(1) by (rule wf_add_all) auto
  have w2: "scene_wf ?v2"
    by (rule wf_grow [OF w1, where es = "[EBox (length (boxes v))]" and ks = "[]" and ns = "[]"])
      (auto simp: view_simps grows_def scene_add_def allocated_def)
  have n: "node_addr ?v2 a" "list_all (node_addr ?v2) ?hs"
    using assms(2) by (auto simp: node_addr_def view_simps scene_add_def list_all_iff)
  have "list_all (allocated (link_hosts a ?hs ?v2))
      (EBox (length (boxes v)) # map ENode ?hs @ map ELink [length (links v)..<length (links v) + length hosts])"
    by (auto simp: list_all_iff allocated_def view_simps scene_add_def)
  then show ?thesis
    unfolding show_hosts_def Let_def
    by (intro wf_upd_node wf_link_hosts w2 n) (simp add: hosts_ok_def)
qed

lemma wf_nodeFlash: "scene_wf v \<Longrightarrow> node_addr v a \<Longrightarrow> scene_wf (nodeFlash a n v)"
proof -
  assume wf: "scene_wf v" and a: "node_addr v a"
  show "scene_wf (nodeFlash a n v)"
  proof (cases "n = 0")
    case True
    then show ?thesis using wf by (simp add: nodeFlash_def wf_upd_node)
  next
    case False
    let ?u = "upd_node a (\<lambda>x. x\<lparr>n_border := if n_border x = 4 then 0 else 4\<rparr>) v"
    have u: "scene_wf ?u" using wf by (intro wf_upd_node) auto
    have s: "nodes (?u\<lparr>flashes := fs\<rparr>) = nodes ?u" "flashes ?u = flashes v" for fs by (simp_all add: upd_node_def)
    have z: "allocated (?u\<lparr>flashes := fs\<rparr>) = allocated ?u" "node_addr (?u\<lparr>flashes := fs\<rparr>) = node_addr ?u"
      "hosts_ok (?u\<lparr>flashes := fs\<rparr>) = hosts_ok ?u" for fs by (rule same_size; simp)+
    have a': "node_addr ?u a" using a by (simp add: node_addr_def upd_node_def)
    show ?thesis using u a' False unfolding nodeFlash_def scene_wf_def
      by (simp only: if_False z) (simp add: s)
  qed
qed

lemma flashes_wf: "scene_wf v \<Longrightarrow> list_all (\<lambda>(a, n). node_addr v a) fs \<Longrightarrow> scene_wf (v\<lparr>flashes := fs\<rparr>)"
  using same_size [of "v\<lparr>flashes := fs\<rparr>" v] by (simp add: scene_wf_def)

lemma wf_flash_tick:
  assumes "scene_wf v"
  shows "scene_wf (flash_tick i v)"
proof (cases "nth_opt (flashes v) i")
  case (Some p)
  obtain a n where p: "p = (a, n)" by (cases p)
  have fl: "list_all (\<lambda>(a, n). node_addr v a) (flashes v)" using assms by (simp add: scene_wf_def)
  have "(a, n) \<in> set (flashes v)" using Some p nth_mem by (fastforce simp: nth_opt_def split: if_splits)
  then have a: "node_addr v a" using fl by (auto simp: list_all_iff)
  have "list_all (\<lambda>(a, n). node_addr v a) (take i (flashes v) @ drop (Suc i) (flashes v))"
    using fl by (auto simp: list_all_iff dest: in_set_takeD in_set_dropD)
  then have "scene_wf (v\<lparr>flashes := take i (flashes v) @ drop (Suc i) (flashes v)\<rparr>)" by (rule flashes_wf [OF assms])
  then show ?thesis
    using a Some p by (auto simp: flash_tick_def node_addr_def intro!: wf_nodeFlash)
qed (simp add: flash_tick_def assms)

lemma nodeFlash_addr [simp]: "node_addr (nodeFlash a n v) = node_addr v"
  by (simp add: nodeFlash_def node_addr_def upd_node_def fun_eq_iff)

lemma wf_flash_all: "scene_wf v \<Longrightarrow> list_all (node_addr v) as \<Longrightarrow> scene_wf (flash_all as n v)"
  unfolding flash_all_def by (induction as arbitrary: v) (auto simp: wf_nodeFlash)

lemma wf_push_slot: "scene_wf v \<Longrightarrow> node_addr v a \<Longrightarrow> scene_wf (push_slot a v)"
proof -
  assume wf: "scene_wf v" and a: "node_addr v a"
  have z: "allocated (push_slot a v) = allocated v" "node_addr (push_slot a v) = node_addr v"
    "hosts_ok (push_slot a v) = hosts_ok v" by (rule same_size; simp add: push_slot_def Let_def)+
  show ?thesis using wf a unfolding scene_wf_def z by (auto simp: push_slot_def Let_def)
qed

lemma push_slot_fields [view_simps]:
  "nodes (push_slot a v) = nodes v" "nodeMap (push_slot a v) = nodeMap v" "childs (push_slot a v) = childs v"
  "links (push_slot a v) = links v" "linkMap (push_slot a v) = linkMap v" "v_need_layout (push_slot a v) = v_need_layout v"
  by (simp_all add: push_slot_def Let_def)

lemma wf_push_slots:
  "scene_wf v \<Longrightarrow> list_all (node_addr v) as \<Longrightarrow> scene_wf (steps (map push_slot as) v)"
proof (induction as arbitrary: v)
  case (Cons a as)
  have "node_addr (push_slot a v) = node_addr v" by (simp add: node_addr_def view_simps fun_eq_iff)
  then show ?case using Cons by (simp add: wf_push_slot)
qed simp

lemma wf_topo_remove: "scene_wf v \<Longrightarrow> scene_wf (topo_remove ids v)"
  unfolding topo_remove_def by (rule wf_steps) (auto intro: wf_scene_remove)

lemma wf_empty_view: "scene_wf (empty_view (\<lambda>i. None) datas need w h)"
  by (simp add: scene_wf_def empty_view_def)

lemma wf_fields:
  "scene_wf (v\<lparr>v_ready := b\<rparr>) = scene_wf v" "scene_wf (v\<lparr>v_names := ns\<rparr>) = scene_wf v"
  using same_size [of "v\<lparr>v_ready := b\<rparr>" v] same_size [of "v\<lparr>v_names := ns\<rparr>" v] by (simp_all add: scene_wf_def)

lemma wf_draw_all: "scene_wf v \<Longrightarrow> scene_wf (draw_all v)"
proof -
  assume wf: "scene_wf v"
  let ?os = "map switchToNode (filter notCoreSwitch (v_data v))"
  let ?cs = "map switchToNode (filter isCoreSwitch (v_data v))"
  let ?ps = "map switchToNode (filter isPhysical (v_data v))"
  have w: "scene_wf (add_all ?os (add_all ?cs (add_all ?ps v)))"
    by (intro wf_add_all wf) auto
  have s: "length (nodes (draw_all v)) = length (nodes (add_all ?os (add_all ?cs (add_all ?ps v))))"
    "length (links (draw_all v)) = length (links (add_all ?os (add_all ?cs (add_all ?ps v))))"
    "length (boxes (draw_all v)) = length (boxes (add_all ?os (add_all ?cs (add_all ?ps v))))"
    by (simp_all add: draw_all_def Let_def)
  show ?thesis using w unfolding scene_wf_def same_size [OF s]
    by (auto simp: draw_all_def Let_def view_simps node_addr_def list_all_iff)
qed

section \<open>The layouts as an interface\<close>

text \<open>
  The handlers of both views use two operations: one lays out all nodes, the other places the hosts of
  a switch.  All that is asked of them is that they only move nodes.
\<close>

locale placement =
  fixes layoutAll :: "view \<Rightarrow> js_error option \<times> view"
    and placeHosts :: "nat \<Rightarrow> nat list \<Rightarrow> view \<Rightarrow> view"
  assumes layout_moves: "moved v (snd (layoutAll v))"
    and hosts_move: "moved v (placeHosts a hs v)"
begin

lemma layout_wf: "scene_wf v \<Longrightarrow> layoutAll v = (e, w) \<Longrightarrow> scene_wf w"
  using moved_wf [OF layout_moves [of v]] by simp

lemma hosts_wf: "scene_wf v \<Longrightarrow> node_addr v a \<Longrightarrow> scene_wf (snd (hosts_answer placeHosts a xy r v))"
  by (auto simp: hosts_answer_def intro!: moved_wf [OF hosts_move] show_hosts_wf split: sum.split)

lemma add_wf:
  assumes "scene_wf v"
  shows "scene_wf (snd (dynamic_add layoutAll adds v))"
proof -
  let ?datas = "filter (\<lambda>e. nodeMap v (js_str (pget e ''id'')) = None) adds"
  let ?new = "[length (nodes v)..<length (nodes v) + length ?datas]"
  let ?v1 = "steps (map push_slot ?new) (add_all (map switchToNode ?datas) v)"
  have w: "scene_wf (add_all (map switchToNode ?datas) v)" using assms by (rule wf_add_all) auto
  have w1: "scene_wf ?v1"
    by (rule wf_push_slots [OF w]) (auto simp: list_all_iff node_addr_def view_simps)
  have s1: "nodes (steps (map push_slot as) u) = nodes u" for as u
    by (induction as arbitrary: u) (auto simp: view_simps)
  show ?thesis
  proof (cases "layoutAll ?v1")
    case (Pair e v2)
    then have w2: "scene_wf v2" using layout_wf [OF w1] by simp
    have "map fixed_part (nodes v2) = map fixed_part (nodes ?v1)"
      using layout_moves [of ?v1] Pair by (simp add: moved_def)
    then have "length (nodes v2) = length (nodes v) + length ?datas"
      using map_eq_imp_length_eq by (fastforce simp: s1 view_simps)
    then have n: "list_all (node_addr (linkNodes ?datas v2)) ?new"
      by (auto simp: list_all_iff node_addr_def view_simps)
    have "scene_wf (flash_all ?new 20 (linkNodes ?datas v2))"
      using wf_flash_all [OF wf_linkNodes [OF w2] n] .
    then show ?thesis
      using w2 wf_linkNodes [OF w2] Pair assms by (auto simp: dynamic_add_def Let_def split: option.split)
  qed
qed

lemma answer_wf: "scene_wf v \<Longrightarrow> scene_wf (snd (dynamic_answer layoutAll r v))"
  using add_wf [of v "arr_items (pget r ''add'')"]
  by (auto simp: dynamic_answer_def intro!: wf_topo_remove split: prod.split option.split)

end

interpretation tree: placement layout_tree row_hosts
  by unfold_locales auto

interpretation circle: placement circle_all ring_hosts
  by unfold_locales (auto simp: circle_all_def)

section \<open>Steps of a view\<close>

text \<open>What can happen to a view, given its two layout operations.\<close>

inductive view_step ::
  "(view \<Rightarrow> js_error option \<times> view) \<Rightarrow> (nat \<Rightarrow> nat list \<Rightarrow> view \<Rightarrow> view) \<Rightarrow> view \<Rightarrow> view \<Rightarrow> bool"
  for layoutAll placeHosts where
  clicked: "dbclick target v = Inr (w, r) \<Longrightarrow> view_step layoutAll placeHosts v w"
| hosts: "node_addr v a \<Longrightarrow> view_step layoutAll placeHosts v (snd (hosts_answer placeHosts a xy response v))"
| polled: "view_step layoutAll placeHosts v (snd (dynamic_answer layoutAll response v))"
| flashed: "view_step layoutAll placeHosts v (flash_tick i v)"
| laid: "view_step layoutAll placeHosts v (snd (layoutAll v))"

inductive_cases view_stepE: "view_step la ph v w"

context placement
begin

lemma step_wf: "view_step layoutAll placeHosts v w \<Longrightarrow> scene_wf v \<Longrightarrow> scene_wf w"
  by (erule view_stepE) (auto intro: wf_dbclick hosts_wf answer_wf wf_flash_tick moved_wf [OF layout_moves])

lemma steps_wf: "(view_step layoutAll placeHosts)\<^sup>*\<^sup>* v w \<Longrightarrow> scene_wf v \<Longrightarrow> scene_wf w"
  by (induction rule: rtranclp_induct) (auto intro: step_wf)

end

lemma linked_wf: "scene_wf v \<Longrightarrow> scene_wf (snd (linked datas v))"
  by (simp add: linked_def wf_fields wf_linkNodes)

lemma linked_None: "linked datas v = (None, w) \<Longrightarrow> w = (linkNodes datas v)\<lparr>v_ready := True\<rparr>"
  by (auto simp: linked_def)

lemma initTree_wf: "scene_wf (snd (initTree datas need w h))"
proof -
  let ?v = "draw_all (empty_view (\<lambda>i. None) datas need w h)"
  have "scene_wf ?v" by (intro wf_draw_all wf_empty_view)
  then have "scene_wf (snd (layout_tree ?v))" using moved_wf moved_layout_tree by blast
  then show ?thesis
    by (auto simp: initTree_def Let_def intro!: linked_wf wf_empty_view split: prod.split option.split)
qed

lemma initCircle_wf: "scene_wf (snd (initCircle datas need w h))"
  by (auto simp: initCircle_def Let_def wf_fields intro!: linked_wf wf_draw_all wf_empty_view split: sum.split)

section \<open>Removing\<close>

lemma remove_all_fields [view_simps]:
  "nodes (remove_all es v) = nodes v" "links (remove_all es v) = links v" "boxes (remove_all es v) = boxes v"
  "nodeMap (remove_all es v) = nodeMap v" "linkMap (remove_all es v) = linkMap v"
  by (auto simp: remove_all_def view_simps intro!: steps_inv)

lemma remove_all_Cons [simp]:
  "remove_all [] v = v" "remove_all (e # es) v = remove_all es (scene_remove e v)"
  by (simp_all add: remove_all_def)

text \<open>What removing some elements takes off the scene: them, and the links that end at a node of them.\<close>

definition taken :: "view \<Rightarrow> elem list \<Rightarrow> elem \<Rightarrow> bool" where
  "taken v es c \<longleftrightarrow> c \<in> set es \<or> list_ex (\<lambda>e. case e of ENode a \<Rightarrow> ends_at v a c | _ \<Rightarrow> False) es"

lemma scene_remove_filter:
  "distinct (childs v) \<Longrightarrow> childs (scene_remove e v) = filter (\<lambda>c. \<not> taken v [e] c) (childs v)"
  by (auto simp: scene_remove_def taken_def del_first_distinct conj_commute split: elem.split intro!: filter_cong)

lemma remove_all_filter:
  "distinct (childs v) \<Longrightarrow> childs (remove_all es v) = filter (\<lambda>c. \<not> taken v es c) (childs v)"
proof (induction es arbitrary: v)
  case (Cons e es)
  have d: "distinct (childs (scene_remove e v))" using Cons.prems by (rule scene_remove_distinct)
  have t: "taken (scene_remove e v) es = taken v es"
  proof -
    have "ends_at (scene_remove e v) = ends_at v" by (auto simp: ends_at_def view_simps fun_eq_iff split: elem.split)
    then show ?thesis by (simp only: taken_def [abs_def])
  qed
  have "childs (remove_all (e # es) v) = filter (\<lambda>c. \<not> taken v es c) (filter (\<lambda>c. \<not> taken v [e] c) (childs v))"
    using Cons.IH [OF d] scene_remove_filter [OF Cons.prems, of e] by (simp add: t)
  also have "\<dots> = filter (\<lambda>c. \<not> taken v (e # es) c) (childs v)"
    by (auto simp: taken_def intro!: filter_cong)
  finally show ?case .
qed (simp add: taken_def)

lemma remove_matching:
  "steps (map (\<lambda>i w. if p i then scene_remove e w else w) js) v = remove_all (map (\<lambda>i. e) (filter p js)) v"
  by (induction js arbitrary: v) auto

definition removed_nodes :: "jsval list \<Rightarrow> view \<Rightarrow> elem list" where
  "removed_nodes ids v = concat (map (\<lambda>a. map (\<lambda>i. ENode a) (filter (\<lambda>i. js_eq (JStr (id_of v a)) i) ids)) (find_nodes v))"

lemma topo_remove_all: "topo_remove ids v = remove_all (removed_nodes ids v) v"
proof -
  have "steps (concat (map (\<lambda>a. map (\<lambda>i w. if js_eq (JStr (id_of v a)) i then scene_remove (ENode a) w else w) ids) as)) w =
    remove_all (concat (map (\<lambda>a. map (\<lambda>i. ENode a) (filter (\<lambda>i. js_eq (JStr (id_of v a)) i) ids)) as)) w" for as w
    by (induction as arbitrary: w) (auto simp: remove_matching remove_all_def)
  then show ?thesis by (simp add: topo_remove_def removed_nodes_def)
qed

lemma find_nodes_set [simp]: "set (find_nodes v) = {a. ENode a \<in> set (childs v)}"
  by (auto simp: find_nodes_def split: elem.splits)

lemma find_links_set [simp]: "set (find_links v) = {l. ELink l \<in> set (childs v)}"
  by (auto simp: find_links_def split: elem.splits)

lemma removed_nodes_set:
  "set (removed_nodes ids v) = {ENode a | a. ENode a \<in> set (childs v) \<and> list_ex (\<lambda>i. js_eq (JStr (id_of v a)) i) ids}"
  by (auto simp: removed_nodes_def list_ex_iff)

section \<open>Showing and hiding hosts\<close>

lemma show_hosts_fields:
  "childs (show_hosts a xy hosts v) = childs v @
     map ENode [length (nodes v)..<length (nodes v) + length hosts] @ EBox (length (boxes v)) #
     map ELink [length (links v)..<length (links v) + length hosts]"
  "links (show_hosts a xy hosts v) = links v @
     map (\<lambda>h. (new_link a h)\<lparr>l_alpha := 4 / 10\<rparr>) [length (nodes v)..<length (nodes v) + length hosts]"
  "node_addr v a \<Longrightarrow> n_hosts (nodes (show_hosts a xy hosts v) ! a) =
     Some (length (boxes v), [length (nodes v)..<length (nodes v) + length hosts],
       [length (links v)..<length (links v) + length hosts])"
  by (simp_all add: show_hosts_def Let_def upd_node_def view_simps scene_add_def node_addr_def)

lemma moved_hosts: "moved v w \<Longrightarrow> a < length (nodes v) \<Longrightarrow> n_hosts (nodes w ! a) = n_hosts (nodes v ! a)"
proof -
  assume m: "moved v w" and a: "a < length (nodes v)"
  then have e: "map fixed_part (nodes w) = map fixed_part (nodes v)" by (simp add: moved_def)
  have "length (nodes w) = length (nodes v)" using e by (metis length_map)
  then have "fixed_part (nodes w ! a) = fixed_part (nodes v ! a)" using e a by (metis nth_map)
  then show ?thesis by (simp add: fixed_part_def)
qed

text \<open>A view in which exactly the given hosts, box and links were put on the scene of \<open>v\<close>.\<close>

lemma collapse_shown:
  assumes wf: "scene_wf v" "node_addr v a" and m: "moved (show_hosts a xy hosts v) w"
  shows "childs (collapse a w) = childs v \<and> n_hosts (nodes (collapse a w) ! a) = None"
proof -
  let ?u = "show_hosts a xy hosts v"
  let ?hs = "[length (nodes v)..<length (nodes v) + length hosts]"
  let ?ls = "[length (links v)..<length (links v) + length hosts]"
  have uwf: "scene_wf ?u" using show_hosts_wf [OF wf] .
  have lw: "length (nodes w) = length (nodes ?u)" using m by (metis moved_def length_map)
  have a: "a < length (nodes ?u)"
    using wf(2) by (simp add: node_addr_def show_hosts_def Let_def upd_node_def view_simps scene_add_def)
  have h: "n_hosts (nodes w ! a) = Some (length (boxes v), ?hs, ?ls)"
    using moved_hosts [OF m a] show_hosts_fields(3) [OF wf(2)] by simp
  have cw: "childs w = childs ?u" and lk: "links w = links ?u" using m by (simp_all add: moved_def)
  have d: "distinct (childs w)" using uwf cw by (simp add: scene_wf_def)
  let ?es = "map ELink ?ls @ map ENode ?hs @ [EBox (length (boxes v))]"
  have r: "scene_remove (EBox b) (remove_all (map ENode hs) (remove_all (map ELink ls) w)) =
    remove_all (map ELink ls @ map ENode hs @ [EBox b]) w" for b hs ls
    by (simp add: remove_all_def)
  have old: "\<not> taken w ?es c" if c: "c \<in> set (childs v)" for c
  proof -
    have al: "allocated v c" using wf(1) c by (auto simp: scene_wf_def list_all_iff)
    then have "c \<notin> set ?es" by (auto simp: allocated_def)
    moreover have "\<not> ends_at w h c" if "h \<in> set ?hs" for h
    proof (cases c)
      case (ELink l)
      then have l: "l < length (links v)" using al by (simp add: allocated_def)
      then have "links w ! l = links v ! l" by (simp add: lk show_hosts_fields nth_append)
      moreover have "node_addr v (l_a (links v ! l))" "node_addr v (l_z (links v ! l))"
        using wf(1) l by (auto simp: scene_wf_def list_all_length)
      ultimately show ?thesis using that ELink by (auto simp: ends_at_def node_addr_def)
    qed (simp_all add: ends_at_def)
    ultimately show ?thesis by (auto simp: taken_def list_ex_iff)
  qed
  have new: "taken w ?es c" if "c \<in> set (map ENode ?hs @ EBox (length (boxes v)) # map ELink ?ls)" for c
    using that by (auto simp: taken_def)
  have "childs (collapse a w) = filter (\<lambda>c. \<not> taken w ?es c) (childs w)"
    using remove_all_filter [OF d, of ?es] by (simp add: collapse_def h r upd_node_def del: remove_all_Cons)
  also have "\<dots> = childs v"
    unfolding cw show_hosts_fields(1) filter_append
    using old new by (simp add: filter_id_conv filter_empty_conv)
  finally have c: "childs (collapse a w) = childs v" .
  have "n_hosts (nodes (collapse a w) ! a) = None"
    using a lw by (simp add: collapse_def h upd_node_def view_simps)
  with c show ?thesis by blast
qed

context placement
begin

lemma expand_collapse:
  assumes "scene_wf v" "node_addr v a" "hosts_of response = Inr hosts" "hosts \<noteq> []"
  shows "childs (collapse a (snd (hosts_answer placeHosts a xy response v))) = childs v \<and>
     n_hosts (nodes (collapse a (snd (hosts_answer placeHosts a xy response v))) ! a) = None"
  using collapse_shown [OF assms(1,2) hosts_move] assms(3,4) by (simp add: hosts_answer_def)

lemma answer_childs:
  assumes "hosts_of response = Inr hosts" "hosts \<noteq> []"
  shows "childs (snd (hosts_answer placeHosts a xy response v)) = childs (show_hosts a xy hosts v)"
proof -
  have "moved (show_hosts a xy hosts v) (snd (hosts_answer placeHosts a xy response v))"
    using hosts_move assms by (simp add: hosts_answer_def)
  then show ?thesis by (simp add: moved_def)
qed

lemma answer_addr: "node_addr v b \<Longrightarrow> node_addr (snd (hosts_answer placeHosts a xy response v)) b"
proof (cases "hosts_of response")
  case (Inr hosts)
  assume b: "node_addr v b"
  let ?u = "show_hosts a xy hosts v"
  have s: "length (nodes (placeHosts a hs u)) = length (nodes u)" for u hs
    using hosts_move [of u a hs] by (metis moved_def length_map)
  have "length (nodes ?u) \<ge> length (nodes v)"
    by (simp add: show_hosts_def Let_def upd_node_def view_simps scene_add_def)
  with b Inr s show ?thesis by (simp add: hosts_answer_def node_addr_def)
qed (simp add: hosts_answer_def)

lemma twice_shown:
  assumes "scene_wf v" "node_addr v a" "hosts_of r1 = Inr hosts" "hosts \<noteq> []"
    and "hosts_of r2 = Inr hosts2" "hosts2 \<noteq> []"
  shows "childs (collapse a (snd (hosts_answer placeHosts a xy r2 (snd (hosts_answer placeHosts a xy r1 v))))) =
     childs v @ map ENode [length (nodes v)..<length (nodes v) + length hosts] @ EBox (length (boxes v)) #
     map ELink [length (links v)..<length (links v) + length hosts]"
  using expand_collapse [OF hosts_wf [OF assms(1,2)] answer_addr [OF assms(2)] assms(5,6)]
    answer_childs [OF assms(3,4)] by (simp add: show_hosts_fields)

end

section \<open>Rows of the tree\<close>

lemma pick_split: "mset (pick p xs) + mset (pick (\<lambda>i. \<not> p i) xs) = mset xs"
proof -
  have "mset (pick p xs) + mset (pick (\<lambda>i. \<not> p i) xs) = image_mset snd (mset (enumerate 0 xs))"
    using multiset_partition [of "mset (enumerate 0 xs)" "\<lambda>x. p (fst x)"]
    by (simp add: pick_def case_prod_beta' flip: image_mset_union)
  also have "\<dots> = mset xs" by (simp flip: mset_map)
  finally show ?thesis .
qed

lemma row_nodes_fails:
  "fst (row_nodes cx y ss width gap v) =
     (if ss = [] \<and> \<not> is_set width then Some TypeError else None)"
  by (cases ss) (auto simp: row_nodes_def treeLayoutNodes_def Let_def nth_opt_def is_set_def split: option.split)

lemma place_rows_fails:
  "fst (place_rows cx rows v) =
     (if list_ex (\<lambda>(y, ss, width). ss = [] \<and> \<not> is_set width) rows then Some TypeError else None)"
proof (induction cx rows v rule: place_rows.induct)
  case (2 cx y ss width rows v)
  obtain e v' where r: "row_nodes cx (Some y) ss width 20 v = (e, v')" by (metis prod.exhaust)
  then have "e = (if ss = [] \<and> \<not> is_set width then Some TypeError else None)"
    using row_nodes_fails [of cx "Some y" ss width 20 v] by simp
  then show ?case using "2.IH" [OF r [symmetric]] r by auto
qed simp

lemma pick_even_Nil: "pick (\<lambda>i. i mod 2 = 0) xs = [] \<longleftrightarrow> xs = []"
  by (cases xs) (simp_all add: pick_def)

lemma pick_odd_Nil: "pick (\<lambda>i. i mod 2 \<noteq> 0) xs = [] \<longleftrightarrow> length xs \<le> 1"
proof (cases xs)
  case (Cons x ys)
  then show ?thesis by (cases ys) (simp_all add: pick_def)
qed (simp add: pick_def)

lemma layout_tree_fails:
  "fst (layout_tree v) =
     (if need_layout v \<and> cores v = [] \<and> length (others v) \<le> 1 then Some TypeError else None)"
proof (cases "need_layout v")
  case True
  have e: "list_ex (\<lambda>(y, ss, width). ss = [] \<and> \<not> is_set width)
      ([(50, phys v, Some 256), (200, cores v, Some 256)] @ switch_rows (cores v) (others v)) =
    (length (others v) \<ge> length (cores v) * 2 \<and> length (others v) \<le> 1)"
    unfolding switch_rows_def
    using pick_even_Nil [of "others v"] pick_odd_Nil [of "others v"] by (auto simp: is_set_def)
  have "(length (others v) \<ge> length (cores v) * 2 \<and> length (others v) \<le> 1) =
    (cores v = [] \<and> length (others v) \<le> 1)"
    by (cases "cores v") auto
  with e True show ?thesis by (simp only: layout_tree_def place_rows_fails if_False not_True_eq_False simp_thms)
qed (simp add: layout_tree_def)

lemma draw_all_fields [view_simps]:
  "need_layout (draw_all v) = need_layout v" "links (draw_all v) = links v" "v_ready (draw_all v) = v_ready v"
  "cores (draw_all v) = map SNode [length (nodes v) + length (filter isPhysical (v_data v))..<
      length (nodes v) + length (filter isPhysical (v_data v)) + length (filter isCoreSwitch (v_data v))]"
  "length (others (draw_all v)) = length (filter notCoreSwitch (v_data v))"
  by (simp_all add: draw_all_def Let_def view_simps need_layout_def)

lemma put_corner_other: "s \<noteq> SNode a \<Longrightarrow> nodes (put_corner s p v) ! a = nodes v ! a"
  by (cases s) (auto simp: put_corner_def upd_node_def nth_list_update_neq)

lemma steps_other_node:
  "SNode a \<notin> set ss \<Longrightarrow> nodes (steps (map (\<lambda>(s, p). put_corner s p) (zip ss ps)) v) ! a = nodes v ! a"
proof (induction ss ps arbitrary: v rule: list_induct2')
  case (4 s ss p ps)
  then show ?case using put_corner_other [of s a p v] by auto
qed auto

lemma steps_row_height:
  "SNode a \<in> set ss \<Longrightarrow> a < length (nodes v) \<Longrightarrow> length ps = length ss \<Longrightarrow> \<forall>p \<in> set ps. snd p = y \<Longrightarrow>
     n_y (nodes (steps (map (\<lambda>(s, p). put_corner s p) (zip ss ps)) v) ! a) = y"
proof (induction ss ps arbitrary: v rule: list_induct2')
  case (4 s ss p ps)
  have l: "a < length (nodes (put_corner s p v))"
    using "4.prems" by (auto simp: put_corner_def upd_node_def split: slot.split)
  show ?case
  proof (cases "SNode a \<in> set ss")
    case True
    then show ?thesis using 4 l by simp
  next
    case False
    then have s: "s = SNode a" using "4.prems" by simp
    have k: "n_y (nodes (put_corner s p v) ! a) = y" using s "4.prems" by (simp add: put_corner_def upd_node_def)
    show ?thesis using k steps_other_node [OF False, of ps "put_corner s p v"] by simp
  qed
qed auto

lemma row_nodes_ok:
  assumes "row_nodes cx y ss width gap v = (None, w)"
  obtains ps where "length ps = length ss" "\<forall>p \<in> set ps. snd p = y"
    "w = steps (map (\<lambda>(s, p). put_corner s p) (zip ss ps)) v"
proof -
  obtain ps where ps: "treeLayoutNodes cx y (map (\<lambda>s. n_width (nodes v ! slot_node s)) ss) width gap = Inr ps"
    "w = steps (map (\<lambda>(s, p). put_corner s p) (zip ss ps)) v"
    using assms by (auto simp: row_nodes_def split: sum.splits)
  then have "length ps = length ss" "\<forall>p \<in> set ps. snd p = y"
    by (auto simp: treeLayoutNodes_def Let_def split: option.splits if_splits)
  with ps(2) that show thesis by blast
qed

lemma moved_length: "moved v w \<Longrightarrow> length (nodes w) = length (nodes v)"
  by (metis moved_def length_map)

lemma place_rows_other:
  "SNode a \<notin> set (concat (map (fst \<circ> snd) rows)) \<Longrightarrow> nodes (snd (place_rows cx rows v)) ! a = nodes v ! a"
proof (induction cx rows v rule: place_rows.induct)
  case (2 cx y ss width rows v)
  obtain e v' where r: "row_nodes cx (Some y) ss width 20 v = (e, v')" by (metis prod.exhaust)
  have "nodes v' ! a = nodes v ! a"
    using r "2.prems" steps_other_node [of a ss] by (auto simp: row_nodes_def split: sum.splits)
  then show ?case using "2.IH" [OF r [symmetric]] "2.prems" r by (cases e) auto
qed simp

lemma place_rows_height:
  "fst (place_rows cx rows v) = None \<Longrightarrow> distinct (concat (map (fst \<circ> snd) rows)) \<Longrightarrow>
     (y, ss, width) \<in> set rows \<Longrightarrow> SNode a \<in> set ss \<Longrightarrow> a < length (nodes v) \<Longrightarrow>
     n_y (nodes (snd (place_rows cx rows v)) ! a) = Some y"
proof (induction cx rows v rule: place_rows.induct)
  case (2 cx y' ss' width' rows v)
  obtain e v' where r: "row_nodes cx (Some y') ss' width' 20 v = (e, v')" by (metis prod.exhaust)
  then have e: "e = None" using "2.prems"(1) by (cases e) auto
  have l: "length (nodes v') = length (nodes v)"
    using moved_length [OF moved_row_nodes [of v cx "Some y'" ss' width' 20]] r by simp
  have p: "place_rows cx ((y', ss', width') # rows) v = place_rows cx rows v'" using r e by simp
  show ?case
  proof (cases "(y, ss, width) \<in> set rows")
    case True
    then show ?thesis using "2.IH" [OF r [symmetric] e] "2.prems" l unfolding p by simp
  next
    case False
    then have s: "ss = ss'" "y = y'" using "2.prems"(3) by auto
    obtain ps where ps: "length ps = length ss'" "\<forall>q \<in> set ps. snd q = Some y'"
      "v' = steps (map (\<lambda>(s, q). put_corner s q) (zip ss' ps)) v"
      using r e by (auto elim: row_nodes_ok)
    have "SNode a \<notin> set (concat (map (fst \<circ> snd) rows))" using "2.prems"(2,4) s by auto
    then have "nodes (snd (place_rows cx rows v')) ! a = nodes v' ! a" by (rule place_rows_other)
    moreover have "n_y (nodes v' ! a) = Some y'"
      unfolding ps(3) using steps_row_height [OF _ "2.prems"(5) ps(1,2)] "2.prems"(4) s by simp
    ultimately show ?thesis unfolding p s by simp
  qed
qed simp

lemma pick_set: "x \<in> set xs \<Longrightarrow> x \<in> set (pick p xs) \<or> x \<in> set (pick (\<lambda>i. \<not> p i) xs)"
  by (metis pick_split set_mset_mset set_mset_union UnE)

lemma switch_rows_place:
  "s \<in> set ss \<Longrightarrow> \<exists>y r w. (y, r, w) \<in> set (switch_rows cs ss) \<and> s \<in> set r \<and> (y = 400 \<or> y = 500)"
  using pick_set [of s ss "\<lambda>i. i mod 2 = 0"] by (auto simp: switch_rows_def)

lemma switch_rows_mset: "mset (concat (map (fst \<circ> snd) (switch_rows cs ss))) = mset ss"
  using pick_split [of "\<lambda>i. i mod 2 = 0" ss] by (auto simp: switch_rows_def)

lemma layout_tree_heights:
  assumes "fst (layout_tree v) = None" "need_layout v" "distinct (phys v @ cores v @ others v)" "a < length (nodes v)"
  shows "SNode a \<in> set (phys v) \<Longrightarrow> n_y (nodes (snd (layout_tree v)) ! a) = Some 50"
    "SNode a \<in> set (cores v) \<Longrightarrow> n_y (nodes (snd (layout_tree v)) ! a) = Some 200"
    "SNode a \<in> set (others v) \<Longrightarrow> n_y (nodes (snd (layout_tree v)) ! a) \<in> {Some 400, Some 500}"
proof -
  let ?rows = "[(50, phys v, Some 256), (200, cores v, Some 256)] @ switch_rows (cores v) (others v)"
  have t: "layout_tree v = place_rows (Some (v_width v / 2)) ?rows v" using assms(2) by (simp only: layout_tree_def) simp
  have "mset (concat (map (fst \<circ> snd) ?rows)) = mset (phys v @ cores v @ others v)"
    by (simp add: switch_rows_mset)
  then have d: "distinct (concat (map (fst \<circ> snd) ?rows))" using assms(3) by (metis distinct_count_atmost_1 set_mset_mset)
  have h: "n_y (nodes (snd (layout_tree v)) ! a) = Some y" if "(y, ss, w) \<in> set ?rows" "SNode a \<in> set ss" for y ss w
    unfolding t by (rule place_rows_height [OF _ d that assms(4)]) (use assms(1) t in simp)
  show "SNode a \<in> set (phys v) \<Longrightarrow> n_y (nodes (snd (layout_tree v)) ! a) = Some 50" by (rule h) auto
  show "SNode a \<in> set (cores v) \<Longrightarrow> n_y (nodes (snd (layout_tree v)) ! a) = Some 200" by (rule h) auto
  assume "SNode a \<in> set (others v)"
  then obtain y r w where "(y, r, w) \<in> set (switch_rows (cores v) (others v))" "SNode a \<in> set r" "y = 400 \<or> y = 500"
    using switch_rows_place by blast
  then show "n_y (nodes (snd (layout_tree v)) ! a) \<in> {Some 400, Some 500}" using h [of y r w] by auto
qed

lemma moved_data: "moved v w \<Longrightarrow> a < length (nodes v) \<Longrightarrow> n_data (nodes w ! a) = n_data (nodes v ! a)"
proof -
  assume m: "moved v w" and a: "a < length (nodes v)"
  have "fixed_part (nodes w ! a) = fixed_part (nodes v ! a)"
    using m a moved_length [OF m] by (metis moved_def nth_map)
  then show ?thesis by (simp add: fixed_part_def)
qed

lemma draw_all_slots:
  assumes "nodes v = []"
  shows "nodes (draw_all v) = map switchToNode (filter isPhysical (v_data v) @ filter isCoreSwitch (v_data v) @ filter notCoreSwitch (v_data v))"
    "distinct (phys (draw_all v) @ cores (draw_all v) @ others (draw_all v))"
    "a < length (nodes (draw_all v)) \<Longrightarrow> isPhysical (n_data (nodes (draw_all v) ! a)) \<and> SNode a \<in> set (phys (draw_all v)) \<or>
       isCoreSwitch (n_data (nodes (draw_all v) ! a)) \<and> SNode a \<in> set (cores (draw_all v)) \<or>
       notCoreSwitch (n_data (nodes (draw_all v) ! a)) \<and> SNode a \<in> set (others (draw_all v))"
proof -
  let ?p = "filter isPhysical (v_data v)" and ?c = "filter isCoreSwitch (v_data v)" and ?o = "filter notCoreSwitch (v_data v)"
  show n: "nodes (draw_all v) = map switchToNode (?p @ ?c @ ?o)"
    using assms by (simp add: draw_all_def Let_def view_simps)
  show "distinct (phys (draw_all v) @ cores (draw_all v) @ others (draw_all v))"
    by (auto simp: draw_all_def Let_def distinct_map inj_on_def)
  have f: "phys (draw_all v) = map SNode [0..<length ?p]" "cores (draw_all v) = map SNode [length ?p..<length ?p + length ?c]"
    "others (draw_all v) = map SNode [length ?p + length ?c..<length ?p + length ?c + length ?o]"
    using assms by (simp_all add: draw_all_def Let_def)
  assume a: "a < length (nodes (draw_all v))"
  have d: "n_data (nodes (draw_all v) ! a) = (?p @ ?c @ ?o) ! a" using a by (simp only: n length_map nth_map switch_fields)
  consider "a < length ?p" | "length ?p \<le> a" "a < length ?p + length ?c"
    | "length ?p + length ?c \<le> a" "a < length ?p + length ?c + length ?o"
    using a by (force simp: n)
  then show "isPhysical (n_data (nodes (draw_all v) ! a)) \<and> SNode a \<in> set (phys (draw_all v)) \<or>
       isCoreSwitch (n_data (nodes (draw_all v) ! a)) \<and> SNode a \<in> set (cores (draw_all v)) \<or>
       notCoreSwitch (n_data (nodes (draw_all v) ! a)) \<and> SNode a \<in> set (others (draw_all v))"
  proof cases
    case 1
    then have "(?p @ ?c @ ?o) ! a = ?p ! a" by (simp add: nth_append)
    then have "(?p @ ?c @ ?o) ! a \<in> set ?p" using 1 by (metis nth_mem)
    then show ?thesis using 1 by (auto simp: d f)
  next
    case 2
    then have "(?p @ ?c @ ?o) ! a = ?c ! (a - length ?p)" "a - length ?p < length ?c" by (auto simp: nth_append)
    then have "(?p @ ?c @ ?o) ! a \<in> set ?c" by (metis nth_mem)
    then show ?thesis using 2 by (auto simp: d f)
  next
    case 3
    then have "(?p @ ?c @ ?o) ! a = ?o ! (a - length ?p - length ?c)" "a - length ?p - length ?c < length ?o"
      by (auto simp: nth_append)
    then have "(?p @ ?c @ ?o) ! a \<in> set ?o" by (metis nth_mem)
    then show ?thesis using 3 by (auto simp: d f)
  qed
qed

section \<open>Flashing ends\<close>

text \<open>The timers that fire, by their place among the pending ones.\<close>

fun ticks :: "nat list \<Rightarrow> view \<Rightarrow> view option" where
  "ticks [] v = Some v"
| "ticks (i # js) v = (if i < length (flashes v) then ticks js (flash_tick i v) else None)"

definition flash_weight :: "view \<Rightarrow> nat" where
  "flash_weight v = sum_list (map (\<lambda>(a, n). Suc n) (flashes v))"

definition quiet :: "view \<Rightarrow> bool" where
  "quiet v \<longleftrightarrow> list_all (\<lambda>n. n_border n = 0) (nodes v)"

text \<open>A node with a border has a pending timer.\<close>

definition flash_inv :: "view \<Rightarrow> bool" where
  "flash_inv v \<longleftrightarrow> (\<forall>a < length (nodes v). n_border (nodes v ! a) \<noteq> 0 \<longrightarrow> a \<in> fst ` set (flashes v))"

lemma nodeFlash_weight: "flash_weight (nodeFlash a n v) = flash_weight v + n"
  by (simp add: flash_weight_def nodeFlash_def upd_node_def)

lemma nodeFlash_inv:
  assumes "\<forall>b < length (nodes v). n_border (nodes v ! b) \<noteq> 0 \<longrightarrow> b = a \<or> b \<in> fst ` set (flashes v)"
  shows "flash_inv (nodeFlash a n v)"
  using assms by (auto simp: flash_inv_def nodeFlash_def upd_node_def nth_update_if split: if_splits)

lemma flash_all_inv: "flash_inv v \<Longrightarrow> flash_inv (flash_all as n v)"
  unfolding flash_all_def
proof (induction as arbitrary: v)
  case (Cons a as)
  have "flash_inv (nodeFlash a n v)" using Cons.prems by (intro nodeFlash_inv) (auto simp: flash_inv_def)
  then show ?case using Cons.IH by simp
qed simp

lemma flash_all_weight: "flash_weight (flash_all as n v) = flash_weight v + n * length as"
  unfolding flash_all_def by (induction as arbitrary: v) (auto simp: nodeFlash_weight)

lemma flash_tick_step:
  assumes "i < length (flashes v)"
  shows "Suc (flash_weight (flash_tick i v)) = flash_weight v" "flash_inv v \<Longrightarrow> flash_inv (flash_tick i v)"
proof -
  obtain a n where p: "flashes v ! i = (a, n)" by (cases "flashes v ! i")
  have s: "flashes v = take i (flashes v) @ (a, n) # drop (Suc i) (flashes v)"
    using assms by (simp add: id_take_nth_drop flip: p)
  have t: "flash_tick i v = nodeFlash a n (v\<lparr>flashes := take i (flashes v) @ drop (Suc i) (flashes v)\<rparr>)"
    using assms p by (simp add: flash_tick_def nth_opt_def)
  have "flash_weight v = sum_list (map (\<lambda>(a, n). Suc n) (take i (flashes v) @ (a, n) # drop (Suc i) (flashes v)))"
    unfolding flash_weight_def by (subst s) (rule refl)
  then show "Suc (flash_weight (flash_tick i v)) = flash_weight v"
    unfolding t nodeFlash_weight by (simp add: flash_weight_def)
  show "flash_inv v \<Longrightarrow> flash_inv (flash_tick i v)"
    unfolding t
  proof (rule nodeFlash_inv)
    assume inv: "flash_inv v"
    have "fst ` set (flashes v) = insert a (fst ` set (take i (flashes v) @ drop (Suc i) (flashes v)))"
      by (subst s) auto
    then show "\<forall>b<length (nodes (v\<lparr>flashes := take i (flashes v) @ drop (Suc i) (flashes v)\<rparr>)).
       n_border (nodes (v\<lparr>flashes := take i (flashes v) @ drop (Suc i) (flashes v)\<rparr>) ! b) \<noteq> 0 \<longrightarrow>
       b = a \<or> b \<in> fst ` set (flashes (v\<lparr>flashes := take i (flashes v) @ drop (Suc i) (flashes v)\<rparr>))"
      using inv by (simp add: flash_inv_def)
  qed
qed

lemma ticks_weight: "ticks js v = Some w \<Longrightarrow> flash_weight w + length js = flash_weight v"
proof (induction js v rule: ticks.induct)
  case (2 i js v)
  then show ?case using flash_tick_step(1) [of i v] by (auto split: if_splits)
qed simp

lemma ticks_inv: "ticks js v = Some w \<Longrightarrow> flash_inv v \<Longrightarrow> flash_inv w"
  by (induction js v rule: ticks.induct) (auto simp: flash_tick_step split: if_splits)

lemma weight_0: "flash_weight v = 0 \<longleftrightarrow> flashes v = []"
  by (cases "flashes v") (auto simp: flash_weight_def)

section \<open>Properties\<close>

text \<open>
  The views stay well formed.  From the initial tree and the initial circles, every sequence of
  double clicks, host answers, polls, flashes and layouts leads to a view in which every address names
  an allocated node, link or container and no element is on the scene twice.
\<close>

theorem views_well_formed:
  assumes "la = layout_tree \<and> ph = row_hosts \<and> v = snd (initTree datas need w h) \<or>
    la = circle_all \<and> ph = ring_hosts \<and> v = snd (initCircle datas need w h)"
    and "(view_step la ph)\<^sup>*\<^sup>* v u"
  shows "scene_wf u"
  using assms tree.steps_wf circle.steps_wf initTree_wf initCircle_wf by metis

text \<open>
  When the tree can be drawn.  For data without null, also among the neighbours, \<open>initTree\<close> stops with an
  exception exactly when a layout is needed, there is no core switch and at most one other switch; then
  no link is drawn and the double click does nothing.
\<close>

theorem initTree_fails:
  assumes "\<not> list_ex nullish datas"
    and "\<And>e. e \<in> set datas \<Longrightarrow> \<not> list_ex nullish (neighbour_items (pget e ''upNode'') @ neighbour_items (pget e ''downNode''))"
  shows "(fst (initTree datas need w h) = Some TypeError) =
     ((js_eq need (JBool True) \<or> js_eq need (JStr ''true'')) \<and> filter isCoreSwitch datas = [] \<and>
      length (filter notCoreSwitch datas) \<le> 1) \<and>
   (fst (initTree datas need w h) = None \<or>
      links (snd (initTree datas need w h)) = [] \<and> \<not> v_ready (snd (initTree datas need w h)))"
proof -
  let ?v = "draw_all (empty_view (\<lambda>i. None) datas need w h)"
  have f: "fst (layout_tree ?v) = (if (js_eq need (JBool True) \<or> js_eq need (JStr ''true'')) \<and>
      filter isCoreSwitch datas = [] \<and> length (filter notCoreSwitch datas) \<le> 1 then Some TypeError else None)"
  proof -
    have "need_layout ?v = (js_eq need (JBool True) \<or> js_eq need (JStr ''true''))"
      by (simp only: view_simps) (simp add: need_layout_def empty_view_def)
    then show ?thesis unfolding layout_tree_fails by (auto simp: view_simps empty_view_def)
  qed
  have m: "links (snd (layout_tree ?v)) = []" "\<not> v_ready (snd (layout_tree ?v))"
    using moved_layout_tree [of ?v] by (simp_all add: moved_def view_simps empty_view_def)
  have l: "link_fault datas u = None" for u using assms(2) by (auto simp: link_fault_def datum_fault_def list_ex_iff)
  show ?thesis
    using f m assms(1) by (cases "layout_tree ?v") (auto simp: initTree_def linked_def l Let_def split: option.split)
qed

text \<open>
  C26: the rows of the tree.  When \<open>initTree\<close> lays out the nodes, every physical node is in the row of
  height 50, every core switch in that of height 200 and every other switch in one of the rows 400 and
  500, and every node on the scene is one of these; the third row of the code, at 600, is never used.
\<close>

theorem initTree_rows:
  assumes "initTree datas need w h = (None, v)" and "js_eq need (JBool True) \<or> js_eq need (JStr ''true'')"
    and "a < length (nodes v)"
  shows "(isPhysical (n_data (nodes v ! a)) \<and> n_y (nodes v ! a) = Some 50) \<or>
    (isCoreSwitch (n_data (nodes v ! a)) \<and> n_y (nodes v ! a) = Some 200) \<or>
    (notCoreSwitch (n_data (nodes v ! a)) \<and> (n_y (nodes v ! a) = Some 400 \<or> n_y (nodes v ! a) = Some 500))"
proof -
  let ?v = "draw_all (empty_view (\<lambda>i. None) datas need w h)"
  obtain u where u: "layout_tree ?v = (None, u)" "v = (linkNodes datas u)\<lparr>v_ready := True\<rparr>"
    using assms(1) by (auto simp: initTree_def Let_def dest: linked_None split: prod.splits option.splits if_splits)
  have nl: "need_layout ?v"
    using assms(2) by (simp only: view_simps) (simp add: need_layout_def empty_view_def)
  have m: "moved ?v u" using moved_layout_tree [of ?v] u by simp
  have n: "nodes v = nodes u" by (simp add: u view_simps)
  have a: "a < length (nodes ?v)" using assms(3) moved_length [OF m] n by simp
  have e: "nodes (empty_view (\<lambda>i. None) datas need w h) = []" by (simp add: empty_view_def)
  note H = layout_tree_heights [OF _ nl draw_all_slots(2) [OF e] a]
  show ?thesis
    using draw_all_slots(3) [OF e a] H u(1) moved_data [OF m a] n by auto
qed

text \<open>
  C15: hosts shown are hidden again.  In a well-formed view, after the hosts of a switch were shown, a
  double click restores exactly the elements that were on the scene, in both layouts, and the switch
  has no hosts.
\<close>

theorem hosts_shown_and_hidden:
  assumes "scene_wf v" and "node_addr v a" and "hosts_of response = Inr hosts" and "hosts \<noteq> []"
    and "ph = row_hosts \<or> ph = ring_hosts"
  shows "childs (collapse a (snd (hosts_answer ph a xy response v))) = childs v \<and>
    n_hosts (nodes (collapse a (snd (hosts_answer ph a xy response v))) ! a) = None"
  using assms(5) tree.expand_collapse [OF assms(1-4)] circle.expand_collapse [OF assms(1-4)] by metis

text \<open>
  Two double clicks before the first answer leave hosts behind.  The second answer replaces what
  the switch remembers of the first: hiding then removes the second set only, and the first set of
  hosts, its container and its links stay on the scene while the switch has no hosts.
\<close>

theorem double_request_orphans:
  assumes "scene_wf v" and "node_addr v a" and "hosts_of r1 = Inr hosts" and "hosts \<noteq> []"
    and "hosts_of r2 = Inr hosts2" and "hosts2 \<noteq> []" and "ph = row_hosts \<or> ph = ring_hosts"
  shows "childs (collapse a (snd (hosts_answer ph a xy r2 (snd (hosts_answer ph a xy r1 v))))) =
    childs v @ map ENode [length (nodes v)..<length (nodes v) + length hosts] @ EBox (length (boxes v)) #
    map ELink [length (links v)..<length (links v) + length hosts]"
  using assms(7) tree.twice_shown [OF assms(1-6)] circle.twice_shown [OF assms(1-6)] by metis

text \<open>
  C28: deleting takes off exactly the named nodes and their links.  In a well-formed view, what remains
  is, in its order, everything but the nodes with one of the ids and the links that end at one of
  them; in particular no link on the scene ends at a deleted node.
\<close>

theorem topo_remove_exact:
  assumes "scene_wf v"
  shows "childs (topo_remove ids v) =
    filter (\<lambda>c. \<not> list_ex (\<lambda>a. list_ex (\<lambda>i. js_eq (JStr (id_of v a)) i) ids \<and> (c = ENode a \<or> ends_at v a c)) (find_nodes v))
      (childs v)"
proof -
  have "distinct (childs v)" using assms by (simp add: scene_wf_def)
  then have "childs (topo_remove ids v) = filter (\<lambda>c. \<not> taken v (removed_nodes ids v) c) (childs v)"
    by (simp add: topo_remove_all remove_all_filter)
  moreover have "taken v (removed_nodes ids v) c \<longleftrightarrow>
    list_ex (\<lambda>a. list_ex (\<lambda>i. js_eq (JStr (id_of v a)) i) ids \<and> (c = ENode a \<or> ends_at v a c)) (find_nodes v)" for c
    unfolding taken_def list_ex_iff [of _ "removed_nodes ids v"] list_ex_iff [of _ "find_nodes v"] removed_nodes_set find_nodes_set
    by auto
  ultimately show ?thesis by simp
qed

text \<open>
  A deleted node does not come back.  The map from ids to nodes keeps the ids of deleted nodes, so
  an answer that adds them again, after any deletions, changes nothing.
\<close>

theorem deleted_node_not_added:
  assumes "list_all (\<lambda>e. nodeMap v (js_str (pget e ''id'')) \<noteq> None) adds"
    and "pget response ''add'' = JArr adds" and "arr_items (pget response ''delete'') = []"
    and "\<not> list_ex nullish adds"
  shows "dynamic_answer la response (topo_remove ids v) = (None, topo_remove ids v)"
proof -
  have "\<not> nullish response" using assms(2) by (auto simp: nullish_def pget.simps)
  moreover
  have "nodeMap (topo_remove ids v) = nodeMap v" by (simp add: topo_remove_all view_simps)
  then have "filter (\<lambda>e. nodeMap (topo_remove ids v) (js_str (pget e ''id'')) = None) adds = []"
    using assms(1) by (auto simp: filter_empty_conv list_all_iff)
  moreover have "topo_remove [] w = w" for w
  proof -
    have "removed_nodes [] w = []" by (simp add: removed_nodes_def concat_eq_Nil_conv)
    then show ?thesis by (simp add: topo_remove_all)
  qed
  ultimately show ?thesis
    using assms(2-4) by (simp add: dynamic_answer_def dynamic_add_def arr_items_def)
qed

text \<open>
  C32: flashing ends.  From a view without borders and timers, flashing some nodes for \<open>n\<close> half steps
  sets timers of which at most \<open>n\<close> per node can fire, in any order; no timer is left exactly when that
  many have fired, and then no node has a border.
\<close>

theorem flashing_ends:
  assumes "quiet v" and "flashes v = []" and "ticks js (flash_all as n v) = Some w"
  shows "length js \<le> n * length as \<and> (flashes w = [] \<longleftrightarrow> length js = n * length as) \<and>
    (flashes w = [] \<longrightarrow> quiet w)"
proof -
  have inv: "flash_inv (flash_all as n v)"
    using assms(1,2) by (intro flash_all_inv) (simp add: flash_inv_def quiet_def list_all_length)
  have "flash_weight v = 0" using assms(2) by (simp add: weight_0)
  then have k: "flash_weight w + length js = n * length as"
    using ticks_weight [OF assms(3)] by (simp add: flash_all_weight)
  have "flashes w = [] \<Longrightarrow> quiet w"
    using ticks_inv [OF assms(3) inv] by (simp add: flash_inv_def quiet_def list_all_length)
  with k weight_0 [of w] show ?thesis by auto
qed

lemma nodeFlash_fields [view_simps]:
  "childs (nodeFlash a n v) = childs v" "links (nodeFlash a n v) = links v"
  by (simp_all add: nodeFlash_def upd_node_def)

lemma flash_all_fields [view_simps]:
  "childs (flash_all as n v) = childs v" "links (flash_all as n v) = links v"
  by (auto simp: flash_all_def view_simps intro!: steps_inv)

text \<open>
  Links to nodes that are gone.  A node added by a poll that names a deleted node as its neighbour
  is linked to it all the same: the link is on the scene, the node at its end is not.
\<close>

theorem link_to_deleted_node:
  assumes "\<not> need_layout v" and "nodeMap v i = Some b" and "node_addr v b" and "ENode b \<notin> set (childs v)"
    and "nodeMap v (js_str (pget e ''id'')) = None"
    and "pget e ''upNode'' = JArr [JStr i]" and "pget e ''downNode'' = JUndef"
    and "linkMap v (id_of v b @ js_str (pget e ''id'')) = None"
    and "\<not> nullish e" and "w = snd (dynamic_add circle_all [e] v)"
  shows "ELink (length (links v)) \<in> set (childs w) \<and> l_a (links w ! length (links v)) = b \<and>
    ENode b \<notin> set (childs w)"
proof -
  let ?u = "push_slot (length (nodes v)) (add_all [switchToNode e] v)"
  have ne: "i \<noteq> js_str (pget e ''id'')" using assms(2,5) by auto
  have nl: "\<not> need_layout ?u" using assms(1) by (simp add: need_layout_def view_simps del: add_all.simps)
  have m: "nodeMap ?u = (nodeMap v)(js_str (pget e ''id'') := Some (length (nodes v)))"
    by (simp add: push_slot_fields addToScene_def Let_def scene_add_def alloc_node_def)
  have ids: "id_of ?u b = id_of v b" "id_of ?u (length (nodes v)) = js_str (pget e ''id'')"
    using assms(3) by (simp_all add: id_of_def view_simps node_addr_def nth_append del: add_all.simps)
  have lm: "linkMap ?u = linkMap v" "links ?u = links v"
    "childs ?u = childs v @ [ENode (length (nodes v))]"
    by (simp_all add: view_simps del: add_all.simps)
  have l: "linkNodes [e] ?u = link_pair b (length (nodes v)) (JStr []) (JStr []) ?u"
    using assms(2,6,7) ne m by (simp add: link_datum_def neighbour_items_def neighbour_def)
  have "link_fault [e] u = None" for u
    using assms(6,7) by (simp add: link_fault_def datum_fault_def neighbour_items_def)
  then have w: "w = flash_all [length (nodes v)] 20 (linkNodes [e] ?u)"
    using assms(5,9,10) nl by (simp add: dynamic_add_def circle_all_def layout_circle_def Let_def)
  show ?thesis
    using assms(3,4,8) ids lm unfolding w l
    by (auto simp: view_simps link_pair_def Let_def new_link_def nth_append node_addr_def)
qed

lemma layoutNodes_names: "v_names (layoutNodes ss ps v) = v_names v"
  using moved_layoutNodes [of v ss ps] by (simp add: moved_def)

text \<open>
  A lone physical node counts twice.  The layout of the circles pushes a copy of a lone physical
  node into the list of physical nodes, where it stays: when a second node is added, it is placed third
  of three on the ring, and one place stays empty.
\<close>

theorem lone_node_counts_twice:
  assumes "need_layout v" and "phys v = [SNode a]" and "v_names v = []" and "node_addr v b" and "a \<noteq> b"
    and "w = layout_circle v" and "w2 = w\<lparr>phys := phys w @ [SNode b]\<rparr>"
  shows "phys w = [SNode a, SPhantom a] \<and> phys (layout_circle w2) = [SNode a, SPhantom a, SNode b] \<and>
    slot_center (layout_circle w2) (SNode b) =
      cl_locations (circle_of [SNode a, SPhantom a, SNode b] (around (Some (v_width v / 2)) (Some (v_height v / 2))) w2) ! 2"
proof -
  have ph: "phys (layoutNodes ss ps u) = phys u" for ss ps u
  proof -
    have "phys (put_center s q x) = phys x" for s q x
      by (simp add: put_center_def upd_node_def split: slot.split)
    then show ?thesis by (auto simp: layoutNodes_def intro!: steps_inv)
  qed
  have w: "w = layoutNodes [SNode a, SPhantom a] (cl_locations (circle_of [SNode a]
      (around (Some (v_width v / 2)) (Some (v_height v / 2))) v)) (v\<lparr>phys := [SNode a, SPhantom a]\<rparr>)"
    using assms(1,2,3) by (simp add: assms(6) layout_circle_def Let_def caller_slots_def layoutNodes_names)
  have pw: "phys w = [SNode a, SPhantom a]" unfolding w by (simp add: ph)
  have m: "moved v w" by (simp add: assms(6))
  have f: "need_layout w2" "phys w2 = [SNode a, SPhantom a, SNode b]" "v_names w2 = []" "v_width w2 = v_width v"
    "v_height w2 = v_height v" "length (nodes w2) = length (nodes v)"
    using assms(1,3,7) m pw moved_length [OF m] by (simp_all add: need_layout_def moved_def)
  let ?ps = "cl_locations (circle_of [SNode a, SPhantom a, SNode b] (around (Some (v_width v / 2)) (Some (v_height v / 2))) w2)"
  have w3: "layout_circle w2 = layoutNodes [SNode a, SPhantom a, SNode b] ?ps w2"
  proof -
    have e: "w2\<lparr>phys := [SNode a, SPhantom a, SNode b]\<rparr> = w2" using f(2) by (cases w2) simp
    show ?thesis using f by (simp add: e layout_circle_def Let_def caller_slots_def layoutNodes_names)
  qed
  have lp: "length ?ps = 3"
  proof -
    have "length (run_angles d q as) = length as" for d q as
      by (induction d q as rule: run_angles.induct) (auto simp: Let_def)
    then show ?thesis
      by (auto simp: circle_of_def getCircleLayout_def around_def no_opt_def Let_def circle_nodes_def)
  qed
  then obtain p q r where ps: "?ps = [p, q, r]" by (auto simp: numeral_3_eq_3 length_Suc_conv)
  have "slot_center (layoutNodes [SNode a, SPhantom a, SNode b] [p, q, r] w2) (SNode b) = r"
    using assms(4) f(6) by (simp add: layoutNodes_def put_center_def slot_center_def upd_node_def node_addr_def)
  then show ?thesis using pw f(2) by (simp add: w3 ph ps)
qed

section \<open>Instances\<close>

definition core_a :: jsval where
  "core_a = JObj [(''id'', JStr ''a''), (''core'', JBool True), (''mininet'', JStr ''1'')]"

definition lone_view :: view where
  "lone_view = snd (initTree [core_a] JUndef 100 100)"

lemma js_true: "js_eq (JBool True) (JBool True)" "\<not> js_eq (JBool True) JNull" "\<not> js_eq (JBool True) (JBool False)"
  "\<not> js_eq (JBool True) (JStr ''false'')" "\<not> js_eq JUndef (JStr ''true'')" "js_eq JUndef JNull" "\<not> js_eq (JStr ''1'') JNull"
  "\<not> js_eq (JStr ''1'') (JStr [])"
  by code_simp+

lemma core_a_object [simp]: "\<not> nullish core_a"
  by (simp add: core_a_def)

lemma core_a: "\<not> isPhysical core_a" "isCoreSwitch core_a" "\<not> notCoreSwitch core_a"
  by (simp_all add: core_a_def isPhysical_def isCoreSwitch_def notCoreSwitch_def pget.simps js_true)

lemma lone_view_fields:
  "scene_wf lone_view" "nodes lone_view = [switchToNode core_a]" "childs lone_view = [ENode 0]"
  "nodeMap lone_view = [''a'' \<mapsto> 0]" "linkMap lone_view = (\<lambda>k. None)" "links lone_view = []"
  "flashes lone_view = []" "\<not> need_layout lone_view"
proof -
  show "scene_wf lone_view" using initTree_wf by (simp add: lone_view_def)
  have n: "\<not> need_layout (draw_all (empty_view (\<lambda>i. None) [core_a] JUndef 100 100))"
    by (simp only: view_simps) (simp add: need_layout_def empty_view_def js_eq_def)
  have p: "pget core_a ''id'' = JStr ''a''" "neighbour_items (pget core_a ''upNode'') = []"
    "neighbour_items (pget core_a ''downNode'') = []" by (simp_all add: core_a_def pget.simps neighbour_items_def)
  have e: "initTree [core_a] JUndef 100 100 =
    (None, (linkNodes [core_a] (draw_all (empty_view (\<lambda>i. None) [core_a] JUndef 100 100)))\<lparr>v_ready := True\<rparr>)"
    using n by (simp add: initTree_def layout_tree_def linked_def link_fault_def datum_fault_def p core_a_object)
  have v: "lone_view = (draw_all (empty_view (\<lambda>i. None) [core_a] JUndef 100 100))\<lparr>v_ready := True\<rparr>"
    unfolding lone_view_def e by (simp add: link_datum_def p Let_def split: option.split)
  show "nodes lone_view = [switchToNode core_a]" "childs lone_view = [ENode 0]"
    "nodeMap lone_view = [''a'' \<mapsto> 0]" "linkMap lone_view = (\<lambda>k. None)" "links lone_view = []"
    "flashes lone_view = []"
    unfolding v by (simp_all add: draw_all_def Let_def empty_view_def core_a addToScene_def scene_add_def alloc_node_def p)
  show "\<not> need_layout lone_view" using n by (simp add: v need_layout_def)
qed

lemma lone_view_data: "v_data lone_view = [core_a]"
proof -
  have e: "v_data (linkNodes es v) = v_data v" for es v
  proof -
    have "links_to v w \<Longrightarrow> v_data w = v_data v" for w
      by (induction rule: links_to.induct) (auto simp: link_pair_def Let_def scene_add_def alloc_link_def)
    then show ?thesis using links_to_linkNodes by blast
  qed
  have "v_data (draw_all (empty_view (\<lambda>i. None) [core_a] JUndef 100 100)) = [core_a]"
    by (simp add: draw_all_def Let_def view_simps empty_view_def del: add_all.simps)
  then have "v_data (snd (layout_tree (draw_all (empty_view (\<lambda>i. None) [core_a] JUndef 100 100)))) = [core_a]"
    using moved_layout_tree by (simp add: moved_def)
  then show ?thesis by (auto simp: lone_view_def initTree_def linked_def Let_def e simp del: linkNodes.simps split: prod.split option.split)
qed

lemma views_well_formed_witness: "scene_wf (snd (initCircle [core_a] (JBool True) 100 100))"
  using views_well_formed [of circle_all ring_hosts "snd (initCircle [core_a] (JBool True) 100 100)" "[core_a]" "JBool True" 100 100]
  by simp

lemma initTree_fails_witness: "fst (initTree [] (JBool True) 100 100) = Some TypeError"
  using initTree_fails [of "[]" "JBool True" 100 100] by (simp add: js_true)

definition host_answer :: jsval where
  "host_answer = JObj [(''data'', JObj [(''nodes'', JArr [JObj [(''id'', JStr ''h'')]])])]"

lemma host_answer: "hosts_of host_answer = Inr [JObj [(''id'', JStr ''h'')]]"
  by (simp add: host_answer_def hosts_of_def pget.simps)

lemma hosts_shown_and_hidden_witness:
  "childs (collapse 0 (snd (hosts_answer ring_hosts 0 (10, 20) host_answer lone_view))) = [ENode 0]"
  using hosts_shown_and_hidden [OF lone_view_fields(1) _ host_answer, of 0 ring_hosts "(10, 20)"]
  by (simp add: lone_view_fields node_addr_def)

lemma double_request_orphans_witness:
  "childs (collapse 0 (snd (hosts_answer row_hosts 0 (10, 20) host_answer
     (snd (hosts_answer row_hosts 0 (10, 20) host_answer lone_view))))) =
   [ENode 0, ENode 1] @ EBox (length (boxes lone_view)) # [ELink 0]"
  using double_request_orphans [OF lone_view_fields(1) _ host_answer _ host_answer, of 0 row_hosts "(10, 20)"]
  by (simp add: lone_view_fields node_addr_def)

lemma topo_remove_exact_witness: "childs (topo_remove [JStr ''a''] lone_view) = []"
  using topo_remove_exact [OF lone_view_fields(1), of "[JStr ''a'']"]
  by (simp add: lone_view_fields find_nodes_def id_of_def core_a_def pget.simps js_eq_def)

lemma deleted_node_not_added_witness:
  "dynamic_answer layout_tree (JObj [(''add'', JArr [core_a])]) (topo_remove [JStr ''a''] lone_view) =
     (None, topo_remove [JStr ''a''] lone_view)"
  using deleted_node_not_added [of lone_view "[core_a]" "JObj [(''add'', JArr [core_a])]" layout_tree "[JStr ''a'']"]
  by (simp add: lone_view_fields core_a_def pget.simps arr_items_def)

lemma flashing_ends_witness: "\<exists>w. ticks [0, 0] (flash_all [0] 2 lone_view) = Some w \<and> quiet w"
proof -
  have "\<exists>w. ticks [0, 0] (flash_all [0] 2 lone_view) = Some w"
    by (simp add: flash_all_def nodeFlash_def flash_tick_def lone_view_fields upd_node_def)
  then obtain w where w: "ticks [0, 0] (flash_all [0] 2 lone_view) = Some w" ..
  have "quiet lone_view" by (simp add: quiet_def lone_view_fields)
  from flashing_ends [OF this lone_view_fields(7) w] w show ?thesis by simp
qed

lemma link_to_deleted_node_witness:
  "ENode 0 \<notin> set (childs (snd (dynamic_add circle_all [JObj [(''id'', JStr ''c''), (''upNode'', JArr [JStr ''a''])]]
     (topo_remove [JStr ''a''] lone_view))))"
proof -
  have r: "topo_remove [JStr ''a''] lone_view = lone_view\<lparr>childs := []\<rparr>"
    by (simp add: topo_remove_def lone_view_fields find_nodes_def id_of_def core_a_def pget.simps js_eq_def scene_remove_def)
  show ?thesis
    using link_to_deleted_node [of "lone_view\<lparr>childs := []\<rparr>" "''a''" 0 "JObj [(''id'', JStr ''c''), (''upNode'', JArr [JStr ''a''])]"]
      lone_view_fields(8)
    unfolding r by (simp add: lone_view_fields node_addr_def pget.simps need_layout_def)
qed

lemma initTree_size: "\<not> list_ex nullish datas \<Longrightarrow> length (nodes (snd (initTree datas need w h))) = length (nodes (draw_all (empty_view (\<lambda>i. None) datas need w h)))"
  using moved_length [OF moved_layout_tree [of "draw_all (empty_view (\<lambda>i. None) datas need w h)"]]
  by (auto simp: initTree_def linked_def Let_def view_simps split: prod.split option.split)

lemma initTree_rows_witness: "n_y (nodes (snd (initTree [core_a] (JBool True) 100 100)) ! 0) \<noteq> None"
proof -
  let ?i = "initTree [core_a] (JBool True) 100 100"
  have p: "neighbour_items (pget core_a ''upNode'') = []" "neighbour_items (pget core_a ''downNode'') = []"
    by (simp_all add: core_a_def pget.simps neighbour_items_def)
  have "fst ?i = None"
    using layout_tree_fails [of "draw_all (empty_view (\<lambda>i. None) [core_a] (JBool True) 100 100)"]
    by (auto simp: initTree_def linked_def link_fault_def datum_fault_def p Let_def view_simps empty_view_def core_a
        split: prod.split option.split)
  then have i: "?i = (None, snd ?i)" by (metis prod.collapse)
  have "length (nodes (snd ?i)) = 1"
    by (simp add: initTree_size draw_all_slots(1) empty_view_def core_a)
  then show ?thesis using initTree_rows [OF i, of 0] by (auto simp: js_true)
qed

lemma lone_node_counts_twice_witness:
  "phys (layout_circle ((draw_all (empty_view (\<lambda>i. None) [JObj [], core_a] (JBool True) 100 100)))) = [SNode 0, SPhantom 0]"
proof -
  let ?v = "draw_all (empty_view (\<lambda>i. None) [JObj [], core_a] (JBool True) 100 100)"
  have p: "isPhysical (JObj [])" "\<not> isCoreSwitch (JObj [])" "\<not> notCoreSwitch (JObj [])"
    by (simp_all add: isPhysical_def isCoreSwitch_def notCoreSwitch_def pget.simps js_true)
  have "need_layout ?v" by (simp only: view_simps) (simp add: need_layout_def empty_view_def js_true)
  moreover have "phys ?v = [SNode 0]" "v_names ?v = []" "node_addr ?v 1"
    by (simp_all add: draw_all_def Let_def empty_view_def p core_a node_addr_def addToScene_def scene_add_def alloc_node_def)
  ultimately show ?thesis using lone_node_counts_twice [of ?v 0 1] by simp
qed

end
