(* ===== verification/Topo_Ops.thy ===== *)
theory Topo_Ops
  imports Topo_View Js_Json
begin

text \<open>
  The object \<open>Topo\<close> of \<open>jtopo/js/open.js\<close>: the two views, which of them is current, and the operations
  that the page calls on them.  The outcome of an operation is the exception that ended it, if any, and
  the state it left; an operation on a view that does not exist is an exception.
\<close>

datatype layout_kind = TreeView | CircleView

record topo =
  t_tree :: "view option"
  t_circle :: "view option"
  t_stage :: "layout_kind option"
  t_events :: "(layout_kind \<times> string \<times> string) list"

type_synonym outcome = "js_error option \<times> topo"

definition no_topo :: topo where
  "no_topo = \<lparr>t_tree = None, t_circle = None, t_stage = None, t_events = []\<rparr>"

fun view_of :: "layout_kind \<Rightarrow> topo \<Rightarrow> view option" where
  "view_of TreeView t = t_tree t"
| "view_of CircleView t = t_circle t"

fun put_view :: "layout_kind \<Rightarrow> view \<Rightarrow> topo \<Rightarrow> topo" where
  "put_view TreeView v t = t\<lparr>t_tree := Some v\<rparr>"
| "put_view CircleView v t = t\<lparr>t_circle := Some v\<rparr>"

text \<open>\<open>this.stage\<close>, and an operation on it.\<close>

definition stage :: "topo \<Rightarrow> view option" where
  "stage t = (case t_stage t of None \<Rightarrow> None | Some k \<Rightarrow> view_of k t)"

definition on_view :: "layout_kind \<Rightarrow> (view \<Rightarrow> view) \<Rightarrow> topo \<Rightarrow> outcome" where
  "on_view k f t = (case view_of k t of None \<Rightarrow> (Some TypeError, t) | Some v \<Rightarrow> (None, put_view k (f v) t))"

definition on_stage :: "(view \<Rightarrow> view) \<Rightarrow> topo \<Rightarrow> outcome" where
  "on_stage f t = (case t_stage t of None \<Rightarrow> (Some TypeError, t) | Some k \<Rightarrow> on_view k f t)"

definition and_then :: "outcome \<Rightarrow> (topo \<Rightarrow> outcome) \<Rightarrow> outcome" where
  "and_then r f = (case r of (Some e, t) \<Rightarrow> (Some e, t) | (None, t) \<Rightarrow> f t)"

definition on_both :: "(view \<Rightarrow> view) \<Rightarrow> topo \<Rightarrow> outcome" where
  "on_both f t = and_then (on_view TreeView f t) (on_view CircleView f)"

section \<open>Set up\<close>

definition topo_initTree :: "jsval list \<Rightarrow> jsval \<Rightarrow> real \<Rightarrow> real \<Rightarrow> topo \<Rightarrow> outcome" where
  "topo_initTree datas need w h t =
     (case initTree datas need w h of
        (e, v) \<Rightarrow> (e, t\<lparr>t_tree := Some v, t_stage := Some TreeView\<rparr>))"

definition topo_initCircle :: "jsval list \<Rightarrow> jsval \<Rightarrow> real \<Rightarrow> real \<Rightarrow> topo \<Rightarrow> outcome" where
  "topo_initCircle datas need w h t =
     (case initCircle datas need w h of (e, v) \<Rightarrow> (e, t\<lparr>t_circle := Some v\<rparr>))"

definition set_frames :: "nat \<Rightarrow> view \<Rightarrow> view" where
  "set_frames n v = v\<lparr>frames := n\<rparr>"

definition setCurrentLayout :: "string \<Rightarrow> topo \<Rightarrow> topo" where
  "setCurrentLayout layout t =
     (let (k, other) = (if layout = ''tree'' then (TreeView, CircleView) else (CircleView, TreeView));
          t1 = t\<lparr>t_stage := (if view_of k t = None then None else Some k)\<rparr>;
          t2 = (case view_of other t1 of None \<Rightarrow> t1 | Some v \<Rightarrow> put_view other (set_frames 0 v) t1)
      in case stage t2 of None \<Rightarrow> t2 | Some v \<Rightarrow> put_view k (set_frames 24 v) t2)"

text \<open>\<open>mousedown\<close>, \<open>mousemove\<close>, \<open>click\<close>, \<open>dbclick\<close>, \<open>mouseover\<close> and \<open>mouseout\<close>: a handler for an event of both scenes.\<close>

definition listen :: "layout_kind \<Rightarrow> string \<Rightarrow> string \<Rightarrow> topo \<Rightarrow> outcome" where
  "listen k ev h t =
     (if view_of k t = None then (Some TypeError, t) else (None, t\<lparr>t_events := t_events t @ [(k, ev, h)]\<rparr>))"

definition topo_on :: "string \<Rightarrow> string \<Rightarrow> topo \<Rightarrow> outcome" where
  "topo_on ev h t = and_then (listen TreeView ev h t) (listen CircleView ev h)"

section \<open>Looking up\<close>

definition getNodeById :: "string \<Rightarrow> topo \<Rightarrow> nat option" where
  "getNodeById i t =
     (let k = (if t_stage t = Some TreeView \<or> t_stage t = None \<and> t_tree t = None then TreeView else CircleView)
      in case view_of k t of None \<Rightarrow> None | Some v \<Rightarrow> nodeMap v i)"

definition getSelectedNode :: "view \<Rightarrow> nat list" where
  "getSelectedNode v = filter (\<lambda>a. n_selected (nodes v ! a)) (find_nodes v)"

definition a_id :: "view \<Rightarrow> nat \<Rightarrow> string" where
  "a_id v l = id_of v (l_a (links v ! l))"

definition z_id :: "view \<Rightarrow> nat \<Rightarrow> string" where
  "z_id v l = id_of v (l_z (links v ! l))"

definition getLink :: "jsval \<Rightarrow> jsval \<Rightarrow> view \<Rightarrow> nat option" where
  "getLink aId zId v =
     find_first (\<lambda>l. js_eq (JStr (a_id v l)) aId \<and> js_eq (JStr (z_id v l)) zId) (find_links v)"

definition selecteNode :: "string \<Rightarrow> topo \<Rightarrow> outcome" where
  "selecteNode i t =
     (case getNodeById i t of
        None \<Rightarrow> (Some TypeError, t)
      | Some a \<Rightarrow> on_view (if t_stage t = Some TreeView then TreeView else CircleView)
                    (upd_node a (\<lambda>n. n\<lparr>n_selected := True\<rparr>)) t)"

section \<open>Links\<close>

text \<open>One pair of a path is made bold; then all pairs.\<close>

definition bold_one :: "nat \<Rightarrow> view \<Rightarrow> view" where
  "bold_one l = upd_link l (\<lambda>k. k\<lparr>l_bak := Some (l_width k), l_alpha := 1, l_width := 6\<rparr>)"

definition path_link :: "jsval \<Rightarrow> jsval \<Rightarrow> view \<Rightarrow> nat option" where
  "path_link a b v = (case getLink a b v of Some l \<Rightarrow> Some l | None \<Rightarrow> getLink b a v)"

fun boldLink :: "jsval list \<Rightarrow> view \<Rightarrow> view" where
  "boldLink (a # b # ids) v =
     boldLink (b # ids) (case path_link a b v of None \<Rightarrow> v | Some l \<Rightarrow> bold_one l v)"
| "boldLink ids v = v"

definition unbold_one :: "nat \<Rightarrow> view \<Rightarrow> view" where
  "unbold_one l = upd_link l (\<lambda>k. case l_bak k of None \<Rightarrow> k
     | Some w \<Rightarrow> if w = 0 then k else k\<lparr>l_width := w, l_bak := None\<rparr>)"

definition cancleBoldAllLink :: "view \<Rightarrow> view" where
  "cancleBoldAllLink v = steps (map unbold_one (find_links v)) v"

definition set_alpha :: "real \<Rightarrow> nat \<Rightarrow> view \<Rightarrow> view" where
  "set_alpha r l = upd_link l (\<lambda>k. k\<lparr>l_alpha := r\<rparr>)"

definition changeColorAllLink :: "view \<Rightarrow> view" where
  "changeColorAllLink v = steps (map (set_alpha 0) (find_links v)) v"

definition fadeAllLinks :: "view \<Rightarrow> view" where
  "fadeAllLinks v = steps (map (set_alpha (3 / 100)) (find_links v)) v"

definition changeLinkColor :: "jsval \<Rightarrow> jsval \<Rightarrow> string \<Rightarrow> view \<Rightarrow> view" where
  "changeLinkColor aId zId color v =
     (case getLink aId zId v of None \<Rightarrow> v
      | Some l \<Rightarrow> upd_link l (\<lambda>k. k\<lparr>l_color := Some color, l_alpha := 100\<rparr>) v)"

definition highlightNodeLinks :: "jsval option \<Rightarrow> view \<Rightarrow> view" where
  "highlightNodeLinks nodeId v =
     (case nodeId of
        None \<Rightarrow> steps (map (set_alpha (4 / 10)) (find_links v)) v
      | Some i \<Rightarrow> steps (map (\<lambda>l. set_alpha (if js_eq (JStr (a_id v l)) i \<or> js_eq (JStr (z_id v l)) i then 1 else 4 / 10) l)
                    (find_links v)) v)"

section \<open>Bandwidth\<close>

text \<open>The first link between two ids, and whether it runs from the second to the first.\<close>

definition monitor_link :: "jsval \<Rightarrow> jsval \<Rightarrow> view \<Rightarrow> (nat \<times> bool) option" where
  "monitor_link aId zId v =
     map_option (\<lambda>l. (l, \<not> (js_eq (JStr (a_id v l)) aId \<and> js_eq (JStr (z_id v l)) zId)))
       (find_first (\<lambda>l. js_eq (JStr (a_id v l)) aId \<and> js_eq (JStr (z_id v l)) zId \<or>
                        js_eq (JStr (z_id v l)) aId \<and> js_eq (JStr (a_id v l)) zId) (find_links v))"

definition band_link :: "topo_link \<Rightarrow> jsval \<Rightarrow> jsval \<Rightarrow> nat \<Rightarrow> topo_link" where
  "band_link k portA portZ i =
     (new_link (l_a k) (l_z k))\<lparr>l_portA := portA, l_portZ := portZ, l_gap := Some 2, l_width := 4, l_alpha := 0,
        l_color := Some ''0,255,0'', l_index := Some i\<rparr>"

definition ensure_up :: "nat \<Rightarrow> view \<Rightarrow> view" where
  "ensure_up l v =
     (let k = links v ! l; u = length (links v)
      in case l_up k of
           Some _ \<Rightarrow> v
         | None \<Rightarrow> scene_add (ELink u) (upd_link l (\<lambda>k. k\<lparr>l_up := Some u\<rparr>)
                     (alloc_link (band_link k (l_portA k) (l_portZ k) 0) v)))"

definition ensure_down :: "nat \<Rightarrow> view \<Rightarrow> view" where
  "ensure_down l v =
     (let k = links v ! l; d = length (links v)
      in case l_down k of
           Some _ \<Rightarrow> v
         | None \<Rightarrow> scene_add (ELink d) (upd_link l (\<lambda>k. k\<lparr>l_down := Some d\<rparr>)
                     (alloc_link (band_link k (l_portZ k) (l_portA k) 2) v)))"

definition light :: "nat option \<Rightarrow> string \<Rightarrow> view \<Rightarrow> view" where
  "light u color v =
     (case u of None \<Rightarrow> v | Some m \<Rightarrow> upd_link m (\<lambda>k. k\<lparr>l_alpha := 4 / 10, l_color := Some color\<rparr>) v)"

definition addUpDownLink :: "jsval \<Rightarrow> jsval \<Rightarrow> string \<Rightarrow> view \<Rightarrow> view" where
  "addUpDownLink aId zId color v =
     (case monitor_link aId zId v of
        None \<Rightarrow> v
      | Some (l, isUP) \<Rightarrow>
          (let v1 = upd_link l (\<lambda>k. k\<lparr>l_index := Some 1\<rparr>) (ensure_down l (ensure_up l v))
           in light (if isUP then l_up (links v1 ! l) else l_down (links v1 ! l)) color v1))"

definition showLinkMonitor :: "jsval \<Rightarrow> jsval \<Rightarrow> string \<Rightarrow> topo \<Rightarrow> outcome" where
  "showLinkMonitor aId zId color = on_both (addUpDownLink aId zId color)"

definition dim :: "nat option \<Rightarrow> view \<Rightarrow> view" where
  "dim u v = (case u of None \<Rightarrow> v | Some m \<Rightarrow> set_alpha 0 m v)"

definition hide_one :: "jsval \<Rightarrow> jsval \<Rightarrow> view \<Rightarrow> view" where
  "hide_one aId zId v =
     (let fwd = (\<lambda>l. js_eq (JStr (a_id v l)) aId \<and> js_eq (JStr (z_id v l)) zId \<and> l_up (links v ! l) \<noteq> None);
          bwd = (\<lambda>l. js_eq (JStr (z_id v l)) aId \<and> js_eq (JStr (a_id v l)) zId \<and> l_down (links v ! l) \<noteq> None)
      in case find_first (\<lambda>l. fwd l \<or> bwd l) (find_links v) of
           None \<Rightarrow> v
         | Some l \<Rightarrow> if fwd l then dim (l_down (links v ! l)) v else dim (l_up (links v ! l)) v)"

definition hideLinkMonitor :: "jsval \<Rightarrow> jsval \<Rightarrow> topo \<Rightarrow> outcome" where
  "hideLinkMonitor aId zId = on_both (hide_one aId zId)"

definition drop_band :: "nat \<Rightarrow> view \<Rightarrow> view" where
  "drop_band l v =
     (let v1 = (case l_up (links v ! l) of None \<Rightarrow> v
                | Some u \<Rightarrow> upd_link l (\<lambda>k. k\<lparr>l_up := None\<rparr>) (scene_remove (ELink u) v));
          v2 = (case l_down (links v1 ! l) of None \<Rightarrow> v1
                | Some d \<Rightarrow> upd_link l (\<lambda>k. k\<lparr>l_down := None\<rparr>) (scene_remove (ELink d) v1))
      in upd_link l (\<lambda>k. k\<lparr>l_index := Some 0\<rparr>) v2)"

definition drop_bands :: "view \<Rightarrow> view" where
  "drop_bands v = steps (map drop_band (find_links v)) v"

definition hideAllLinkMonitor :: "topo \<Rightarrow> outcome" where
  "hideAllLinkMonitor = on_both drop_bands"

section \<open>Nodes\<close>

definition scale_node :: "real \<Rightarrow> nat \<Rightarrow> view \<Rightarrow> view" where
  "scale_node s a = upd_node a (\<lambda>n. n\<lparr>n_x := map_option (\<lambda>x. x * s) (n_x n), n_y := map_option (\<lambda>y. y * s) (n_y n)\<rparr>)"

definition zoom_view :: "real \<Rightarrow> view \<Rightarrow> view" where
  "zoom_view s v = steps (map (scale_node s) (find_nodes v)) v"

definition zoomNodes :: "real \<Rightarrow> topo \<Rightarrow> outcome" where
  "zoomNodes s = on_stage (zoom_view s)"

text \<open>The wheel handler: \<open>wheelDelta\<close> and \<open>detail\<close> are 0 where the browser has no such field.\<close>

definition mousewheel :: "int \<Rightarrow> int \<Rightarrow> topo \<Rightarrow> outcome" where
  "mousewheel wheelDelta detail t =
     and_then (if wheelDelta = 0 then (None, t) else zoomNodes (if wheelDelta > 0 then 11 / 10 else 9 / 10) t)
       (\<lambda>t'. if detail = 0 then (None, t') else zoomNodes (if detail < 0 then 11 / 10 else 9 / 10) t')"

definition centerNode :: "string \<Rightarrow> topo \<Rightarrow> outcome" where
  "centerNode i t =
     (case getNodeById i t of
        None \<Rightarrow> (None, t)
      | Some a \<Rightarrow> on_stage (\<lambda>v. case (n_cx (nodes v ! a), n_cy (nodes v ! a)) of
           (Some x, Some y) \<Rightarrow> v\<lparr>translate := Some (x, y)\<rparr> | _ \<Rightarrow> v\<lparr>translate := None\<rparr>) t)"

text \<open>\<open>highlightNodes\<close> with an array of ids; the first id that names no node ends it with an exception.\<close>

fun flash_ids :: "string list \<Rightarrow> nat \<Rightarrow> topo \<Rightarrow> outcome" where
  "flash_ids [] n t = (None, t)"
| "flash_ids (i # ids) n t =
     (case getNodeById i t of
        None \<Rightarrow> (Some TypeError, t)
      | Some a \<Rightarrow> and_then (on_stage (nodeFlash a n) t) (flash_ids ids n))"

definition highlightNodes :: "string list \<Rightarrow> nat \<Rightarrow> topo \<Rightarrow> outcome" where
  "highlightNodes ids m t = flash_ids ids (2 * (if m = 0 then 6 else m)) t"

section \<open>Saving\<close>

text \<open>
  \<open>serilize\<close>, given how the language prints a coordinate (a double, which the model takes as a real
  number).  A datum without a node on the scene is an exception.
\<close>

definition dquote :: string where
  "dquote = [CHR 0x22]"

definition ser_node :: "(coord \<Rightarrow> string) \<Rightarrow> string \<Rightarrow> topo_node \<Rightarrow> string" where
  "ser_node num i n =
     ''{'' @ dquote @ ''id'' @ dquote @ '':'' @ dquote @ i @ dquote @ '','' @ dquote @ ''x'' @ dquote @ '':'' @ dquote @ num (n_x n) @ dquote @ '','' @
       dquote @ ''y'' @ dquote @ '':'' @ dquote @ num (n_y n) @ dquote @ ''}''"

fun ser_nodes :: "(coord \<Rightarrow> string) \<Rightarrow> (string \<Rightarrow> nat option) \<Rightarrow> view \<Rightarrow> bool \<Rightarrow> jsval list \<Rightarrow> js_error + string" where
  "ser_nodes num look v first [] = Inr []"
| "ser_nodes num look v first (e # es) =
     (let i = js_str (pget e ''id'')
      in case look i of
           None \<Rightarrow> Inl TypeError
         | Some a \<Rightarrow> (case ser_nodes num look v False es of
              Inl err \<Rightarrow> Inl err
            | Inr s \<Rightarrow> Inr ((if first then [] else '','') @ ser_node num i (nodes v ! a) @ s)))"

definition serilize :: "(coord \<Rightarrow> string) \<Rightarrow> topo \<Rightarrow> js_error + string" where
  "serilize num t =
     (case stage t of
        None \<Rightarrow> Inl TypeError
      | Some v \<Rightarrow>
          (case ser_nodes num (\<lambda>i. getNodeById i t) v True (v_data v) of
             Inl e \<Rightarrow> Inl e
           | Inr s \<Rightarrow> Inr (''{'' @ dquote @ ''layout'' @ dquote @ '':'' @ dquote @
                (if t_stage t = Some TreeView then ''tree'' else ''circle'') @ dquote @ '','' @ dquote @ ''nodes'' @ dquote @ '':['' @ s @ '']}'')))"

section \<open>Changes of links\<close>

lemma upd_link_fields [view_simps]:
  "childs (upd_link l f v) = childs v" "nodes (upd_link l f v) = nodes v" "find_links (upd_link l f v) = find_links v"
  "length (links (upd_link l f v)) = length (links v)" "id_of (upd_link l f v) = id_of v"
  by (simp_all add: upd_link_def find_links_def id_of_def fun_eq_iff)

lemma upd_link_nth:
  "m < length (links v) \<Longrightarrow> links (upd_link l f v) ! m = (if m = l then f (links v ! m) else links v ! m)"
  by (simp add: upd_link_def nth_update_if)

lemma steps_upd_nth:
  "distinct ls \<Longrightarrow> m < length (links v) \<Longrightarrow>
     links (steps (map (\<lambda>l. upd_link l (f l)) ls) v) ! m = (if m \<in> set ls then f m (links v ! m) else links v ! m)"
  by (induction ls arbitrary: v) (auto simp: upd_link_nth view_simps)

lemma find_links_distinct: "distinct (childs v) \<Longrightarrow> distinct (find_links v)"
proof -
  have "distinct es \<Longrightarrow> distinct (concat (map (\<lambda>e. case e of ELink l \<Rightarrow> [l] | _ \<Rightarrow> []) es))" for es
    by (induction es) (auto split: elem.splits)
  then show "distinct (childs v) \<Longrightarrow> distinct (find_links v)" by (simp add: find_links_def)
qed

lemma find_links_alloc: "scene_wf v \<Longrightarrow> l \<in> set (find_links v) \<Longrightarrow> l < length (links v)"
  by (auto simp: scene_wf_def list_all_iff allocated_def)

lemma find_first_cong: "(\<And>x. x \<in> set xs \<Longrightarrow> p x = q x) \<Longrightarrow> find_first p xs = find_first q xs"
  by (induction xs) auto

section \<open>Bold paths\<close>

text \<open>The links that a path makes bold, one for each pair of neighbours on it that is linked.\<close>

fun path_links :: "jsval list \<Rightarrow> view \<Rightarrow> nat list" where
  "path_links (a # b # ids) v =
     (case path_link a b v of None \<Rightarrow> [] | Some l \<Rightarrow> [l]) @ path_links (b # ids) v"
| "path_links ids v = []"

lemma bold_ends:
  "l < length (links v) \<Longrightarrow> l_a (links (bold_one m v) ! l) = l_a (links v ! l)"
  "l < length (links v) \<Longrightarrow> l_z (links (bold_one m v) ! l) = l_z (links v ! l)"
  by (simp_all add: bold_one_def upd_link_nth)

lemma bold_wf:
  assumes "scene_wf v"
  shows "scene_wf (bold_one m v)"
proof -
  have s: "length (nodes (bold_one m v)) = length (nodes v)" "length (links (bold_one m v)) = length (links v)"
    "length (boxes (bold_one m v)) = length (boxes v)" by (simp_all add: bold_one_def upd_link_def)
  have "list_all (\<lambda>l. node_addr v (l_a l) \<and> node_addr v (l_z l)) (links (bold_one m v))"
    using assms by (auto simp: list_all_length scene_wf_def s bold_ends)
  then show ?thesis using assms unfolding scene_wf_def same_size [OF s]
    by (auto simp: bold_one_def upd_link_def)
qed

lemma bold_getLink:
  assumes "scene_wf v"
  shows "getLink a z (bold_one m v) = getLink a z v"
  unfolding getLink_def
proof -
  have f: "find_links (bold_one m v) = find_links v" by (simp add: bold_one_def view_simps)
  show "find_first (\<lambda>l. js_eq (JStr (a_id (bold_one m v) l)) a \<and> js_eq (JStr (z_id (bold_one m v) l)) z) (find_links (bold_one m v)) =
    find_first (\<lambda>l. js_eq (JStr (a_id v l)) a \<and> js_eq (JStr (z_id v l)) z) (find_links v)"
    unfolding f
    by (rule find_first_cong)
      (simp add: a_id_def z_id_def bold_ends [OF find_links_alloc [OF assms]], simp add: bold_one_def view_simps)
qed

lemma bold_path_link: "scene_wf v \<Longrightarrow> path_link a b (bold_one m v) = path_link a b v"
  by (simp add: path_link_def bold_getLink cong: option.case_cong)

lemma bold_path_links: "scene_wf v \<Longrightarrow> path_links ids (bold_one m v) = path_links ids v"
  by (induction ids v rule: path_links.induct) (simp_all add: bold_path_link)

lemma boldLink_steps: "scene_wf v \<Longrightarrow> boldLink ids v = steps (map bold_one (path_links ids v)) v"
proof (induction ids v rule: boldLink.induct)
  case (1 a b ids v)
  then show ?case by (auto simp: bold_wf bold_path_links split: option.split)
qed auto

lemma boldLink_wf: "scene_wf v \<Longrightarrow> scene_wf (boldLink ids v)"
  by (simp add: boldLink_steps) (rule wf_steps; auto intro: bold_wf)

lemma boldLink_path_links: "scene_wf v \<Longrightarrow> path_links jds (boldLink ids v) = path_links jds v"
proof (induction ids v rule: boldLink.induct)
  case (1 a b ids v)
  then show ?case by (auto simp: bold_wf bold_path_links split: option.split)
qed auto

lemma boldLinks_steps:
  "scene_wf v \<Longrightarrow> steps (map boldLink pss) v = steps (map bold_one (concat (map (\<lambda>p. path_links p v) pss))) v"
proof (induction pss arbitrary: v)
  case (Cons p pss)
  then show ?case by (simp add: boldLink_wf boldLink_path_links) (simp add: boldLink_steps)
qed simp

lemma path_links_found: "l \<in> set (path_links ids v) \<Longrightarrow> l \<in> set (find_links v)"
proof -
  have "getLink a z v = Some l \<Longrightarrow> l \<in> set (find_links v)" for a z
    by (auto simp: getLink_def dest: find_first_SomeD)
  then show "l \<in> set (path_links ids v) \<Longrightarrow> l \<in> set (find_links v)"
    by (induction ids v rule: path_links.induct) (auto simp: path_link_def split: option.splits)
qed

text \<open>A link after it was made bold some number of times.\<close>

lemma bold_count:
  "l < length (links v) \<Longrightarrow> l_bak (links v ! l) = None \<Longrightarrow>
     (let k = links (steps (map bold_one ls) v) ! l; n = count_list ls l
      in (n = 0 \<longrightarrow> k = links v ! l) \<and> (n = 1 \<longrightarrow> l_bak k = Some (l_width (links v ! l))) \<and> (n > 1 \<longrightarrow> l_bak k = Some 6) \<and>
         (n \<ge> 1 \<longrightarrow> l_width k = 6))"
proof (induction ls rule: rev_induct)
  case (snoc m ls)
  let ?w = "steps (map bold_one ls) v"
  have len: "length (links ?w) = length (links v)"
    by (rule steps_inv) (simp add: bold_one_def view_simps)
  have "links (steps (map bold_one (ls @ [m])) v) ! l =
    (if l = m then (links ?w ! l)\<lparr>l_bak := Some (l_width (links ?w ! l)), l_alpha := 1, l_width := 6\<rparr> else links ?w ! l)"
    using snoc.prems len by (simp add: bold_one_def upd_link_nth)
  then show ?case using snoc by (cases "count_list ls l") (auto simp: Let_def)
qed simp

section \<open>Bandwidth links\<close>

definition bands :: "topo_link \<Rightarrow> elem set" where
  "bands k = (case l_up k of None \<Rightarrow> {} | Some u \<Rightarrow> {ELink u}) \<union> (case l_down k of None \<Rightarrow> {} | Some d \<Rightarrow> {ELink d})"

definition no_bands :: "topo_link \<Rightarrow> bool" where
  "no_bands k \<longleftrightarrow> l_up k = None \<and> l_down k = None"

lemma upd_link_same: "upd_link l f (v\<lparr>childs := c\<rparr>) = (upd_link l f v)\<lparr>childs := c\<rparr>"
  by (simp add: upd_link_def)

lemma drop_band_effect:
  assumes "distinct (childs v)" "l < length (links v)"
  shows "childs (drop_band l v) = filter (\<lambda>c. c \<notin> bands (links v ! l)) (childs v) \<and>
    links (drop_band l v) = (links v)[l := (links v ! l)\<lparr>l_up := None, l_down := None, l_index := Some 0\<rparr>] \<and>
    nodes (drop_band l v) = nodes v"
proof -
  obtain u where u: "l_up (links v ! l) = u" by blast
  obtain d where d: "l_down (links v ! l) = d" by blast
  have e: "(links v ! l)\<lparr>l_up := None\<rparr> = links v ! l" if "u = None" using u that by (cases "links v ! l") simp
  have e': "k\<lparr>l_down := None\<rparr> = k" if "l_down k = None" for k :: topo_link using that by (cases k) simp
  show ?thesis
    using assms u d e e' [of "links v ! l"] e' [of "(links v ! l)\<lparr>l_up := None\<rparr>"]
    by (cases u; cases d)
      (auto simp: drop_band_def Let_def bands_def upd_link_def scene_remove_def del_first_distinct
        intro!: filter_cong arg_cong [of _ _ "list_update (links v) l"])
qed

lemma drop_bands_effect:
  "distinct (childs v) \<Longrightarrow> distinct ls \<Longrightarrow> \<forall>l \<in> set ls. l < length (links v) \<Longrightarrow>
     childs (steps (map drop_band ls) v) = filter (\<lambda>c. \<forall>l \<in> set ls. c \<notin> bands (links v ! l)) (childs v) \<and>
     length (links (steps (map drop_band ls) v)) = length (links v) \<and>
     (\<forall>m < length (links v). links (steps (map drop_band ls) v) ! m =
        (if m \<in> set ls then (links v ! m)\<lparr>l_up := None, l_down := None, l_index := Some 0\<rparr> else links v ! m))"
proof (induction ls arbitrary: v)
  case (Cons l ls)
  let ?w = "drop_band l v"
  have w: "childs ?w = filter (\<lambda>c. c \<notin> bands (links v ! l)) (childs v)"
    "links ?w = (links v)[l := (links v ! l)\<lparr>l_up := None, l_down := None, l_index := Some 0\<rparr>]"
    using drop_band_effect [of v l] Cons.prems by auto
  have d: "distinct (childs ?w)" "\<forall>l \<in> set ls. l < length (links ?w)" using Cons.prems w by auto
  have b: "links ?w ! m = links v ! m" if "m \<in> set ls" for m
  proof -
    have "m \<noteq> l" using that Cons.prems(2) by auto
    then show ?thesis by (simp add: w(2))
  qed
  have "childs (steps (map drop_band ls) ?w) = filter (\<lambda>c. \<forall>m \<in> set ls. c \<notin> bands (links v ! m)) (childs ?w)"
    using Cons.IH [OF d(1) _ d(2)] Cons.prems(2) b by (auto intro!: filter_cong)
  also have "\<dots> = filter (\<lambda>c. \<forall>m \<in> set (l # ls). c \<notin> bands (links v ! m)) (childs v)"
    unfolding w(1) filter_filter by (rule filter_cong) auto
  finally have c: "childs (steps (map drop_band ls) ?w) = filter (\<lambda>c. \<forall>m \<in> set (l # ls). c \<notin> bands (links v ! m)) (childs v)" .
  have i: "length (links (steps (map drop_band ls) ?w)) = length (links v)"
    "\<And>m. m < length (links v) \<Longrightarrow> links (steps (map drop_band ls) ?w) ! m =
        (if m \<in> set ls then (links ?w ! m)\<lparr>l_up := None, l_down := None, l_index := Some 0\<rparr> else links ?w ! m)"
    using Cons.IH [OF d(1) _ d(2)] Cons.prems(2) w(2) by simp_all
  have "links (steps (map drop_band ls) ?w) ! m =
      (if m \<in> set (l # ls) then (links v ! m)\<lparr>l_up := None, l_down := None, l_index := Some 0\<rparr> else links v ! m)"
    if "m < length (links v)" for m
  proof (cases "m = l")
    case True
    then show ?thesis using i(2) [OF that] Cons.prems(2) that by (simp add: w(2))
  next
    case False
    then show ?thesis using i(2) [OF that] by (simp add: w(2))
  qed
  with c i(1) show ?case by simp
qed simp

text \<open>
  What holds between the view \<open>v\<close> before any bandwidth was shown and the view \<open>w\<close> after: the new
  links are at the end of the scene, each is the up or down link of a link of \<open>v\<close> on the scene and has
  its ends.
\<close>

definition band_inv :: "view \<Rightarrow> view \<Rightarrow> bool" where
  "band_inv v w \<longleftrightarrow>
     nodes w = nodes v \<and> length (links v) \<le> length (links w) \<and>
     (\<exists>es. childs w = childs v @ map ELink es \<and> distinct es \<and>
       (\<forall>e \<in> set es. length (links v) \<le> e \<and> e < length (links w) \<and>
         (\<exists>l \<in> set (find_links v). ELink e \<in> bands (links w ! l) \<and>
            l_a (links w ! e) = l_a (links w ! l) \<and> l_z (links w ! e) = l_z (links w ! l))) \<and>
       (\<forall>m < length (links w). bands (links w ! m) \<subseteq> ELink ` set es)) \<and>
     (\<forall>m < length (links w). \<not> no_bands (links w ! m) \<longrightarrow> m \<in> set (find_links v)) \<and>
     (\<forall>m < length (links v). l_a (links w ! m) = l_a (links v ! m) \<and> l_z (links w ! m) = l_z (links v ! m))"

lemma band_inv_refl:
  assumes "\<forall>m < length (links v). no_bands (links v ! m)"
  shows "band_inv v v"
  unfolding band_inv_def
proof (intro conjI)
  show "\<exists>es. childs v = childs v @ map ELink es \<and> distinct es \<and>
       (\<forall>e \<in> set es. length (links v) \<le> e \<and> e < length (links v) \<and>
         (\<exists>l \<in> set (find_links v). ELink e \<in> bands (links v ! l) \<and>
            l_a (links v ! e) = l_a (links v ! l) \<and> l_z (links v ! e) = l_z (links v ! l))) \<and>
       (\<forall>m < length (links v). bands (links v ! m) \<subseteq> ELink ` set es)"
    by (rule exI [of _ "[]"]) (use assms in \<open>simp add: bands_def no_bands_def\<close>)
qed (use assms in auto)

lemma band_inv_upd:
  assumes "band_inv v w" "\<And>k. l_a (f k) = l_a k \<and> l_z (f k) = l_z k \<and> l_up (f k) = l_up k \<and> l_down (f k) = l_down k"
  shows "band_inv v (upd_link l f w)"
proof -
  let ?u = "upd_link l f w"
  have k: "l_a (links ?u ! m) = l_a (links w ! m)" "l_z (links ?u ! m) = l_z (links w ! m)"
    "l_up (links ?u ! m) = l_up (links w ! m)" "l_down (links ?u ! m) = l_down (links w ! m)" for m
  proof -
    have "links ?u ! m = (if m = l then f (links w ! m) else links w ! m) \<or> links ?u ! m = links w ! m"
      by (cases "l < length (links w)") (auto simp: upd_link_def list_update_beyond)
    then show "l_a (links ?u ! m) = l_a (links w ! m)" "l_z (links ?u ! m) = l_z (links w ! m)"
      "l_up (links ?u ! m) = l_up (links w ! m)" "l_down (links ?u ! m) = l_down (links w ! m)"
      using assms(2) by (auto split: if_splits)
  qed
  have b: "bands (links ?u ! m) = bands (links w ! m)" "no_bands (links ?u ! m) = no_bands (links w ! m)" for m
    using k [of m] by (simp_all add: bands_def no_bands_def)
  have s: "nodes ?u = nodes w" "childs ?u = childs w" "length (links ?u) = length (links w)" by (simp_all add: upd_link_def)
  show ?thesis using assms(1) unfolding band_inv_def b k s .
qed

lemma band_invE:
  assumes "band_inv v w"
  obtains es where "childs w = childs v @ map ELink es" "distinct es"
    "\<forall>e \<in> set es. length (links v) \<le> e \<and> e < length (links w) \<and>
         (\<exists>l \<in> set (find_links v). ELink e \<in> bands (links w ! l) \<and>
            l_a (links w ! e) = l_a (links w ! l) \<and> l_z (links w ! e) = l_z (links w ! l))"
    "\<forall>m < length (links w). bands (links w ! m) \<subseteq> ELink ` set es"
  using assms unfolding band_inv_def by blast

lemma band_inv_new:
  assumes inv: "band_inv v w" and wf: "\<forall>x \<in> set (find_links v). x < length (links v)" and l: "l \<in> set (find_links v)"
    and k: "no_bands k" "l_a k = l_a (links w ! l)" "l_z k = l_z (links w ! l)"
    and g: "bands (g (links w ! l)) = insert (ELink (length (links w))) (bands (links w ! l))"
      "l_a (g (links w ! l)) = l_a (links w ! l)" "l_z (g (links w ! l)) = l_z (links w ! l)"
    and u: "nodes u = nodes w" "childs u = childs w @ [ELink (length (links w))]"
      "links u = (links w)[l := g (links w ! l)] @ [k]"
  shows "band_inv v u"
proof -
  have i: "nodes w = nodes v" "length (links v) \<le> length (links w)"
    "\<forall>m < length (links w). \<not> no_bands (links w ! m) \<longrightarrow> m \<in> set (find_links v)"
    "\<forall>m < length (links v). l_a (links w ! m) = l_a (links v ! m) \<and> l_z (links w ! m) = l_z (links v ! m)"
    using inv by (simp_all add: band_inv_def)
  from inv obtain es where es: "childs w = childs v @ map ELink es" "distinct es"
    "\<forall>e \<in> set es. length (links v) \<le> e \<and> e < length (links w) \<and>
         (\<exists>l \<in> set (find_links v). ELink e \<in> bands (links w ! l) \<and>
            l_a (links w ! e) = l_a (links w ! l) \<and> l_z (links w ! e) = l_z (links w ! l))"
    "\<forall>m < length (links w). bands (links w ! m) \<subseteq> ELink ` set es"
    by (rule band_invE)
  let ?n = "length (links w)"
  have len: "length (links u) = Suc ?n" "l < ?n" using u(3) l i wf by auto
  have nth: "links u ! m = (if m = l then g (links w ! l) else if m = ?n then k else links w ! m)" if "m < Suc ?n" for m
    using that len by (auto simp: u(3) nth_append nth_update_if)
  have ends: "l_a (links u ! m) = l_a (links w ! m) \<and> l_z (links u ! m) = l_z (links w ! m)" if "m < ?n" for m
    using that g(2,3) nth [of m] by auto
  have bnd: "bands (links w ! m) \<subseteq> bands (links u ! m)" if "m < ?n" for m using that g(1) nth [of m] by auto
  have new: "length (links v) \<le> e \<and> e < length (links u) \<and>
         (\<exists>l \<in> set (find_links v). ELink e \<in> bands (links u ! l) \<and>
            l_a (links u ! e) = l_a (links u ! l) \<and> l_z (links u ! e) = l_z (links u ! l))" if "e \<in> set (es @ [?n])" for e
  proof (cases "e = ?n")
    case True
    have "ELink e \<in> bands (links u ! l)" using g(1) nth [of l] len True by simp
    moreover have "l_a (links u ! e) = l_a (links u ! l) \<and> l_z (links u ! e) = l_z (links u ! l)"
      using k(2,3) g(2,3) nth [of l] nth [of e] len True by auto
    ultimately show ?thesis using l i(2) len True by auto
  next
    case False
    then have e: "e \<in> set es" using that by simp
    then obtain x where x: "x \<in> set (find_links v)" "ELink e \<in> bands (links w ! x)"
      "l_a (links w ! e) = l_a (links w ! x)" "l_z (links w ! e) = l_z (links w ! x)" using es(3) by blast
    have xn: "x < ?n" using wf x(1) i(2) by auto
    have "e < ?n" "length (links v) \<le> e" using es(3) e by auto
    then show ?thesis using x ends [OF xn] ends [of e] bnd [OF xn] len(1) by (intro conjI bexI [of _ x]) auto
  qed
  show ?thesis
    unfolding band_inv_def
  proof (intro conjI exI [of _ "es @ [?n]"])
    show "childs u = childs v @ map ELink (es @ [?n])" by (simp add: u(2) es(1))
    show "distinct (es @ [?n])" using es(2,3) by auto
    show "\<forall>e\<in>set (es @ [?n]). length (links v) \<le> e \<and> e < length (links u) \<and>
         (\<exists>l \<in> set (find_links v). ELink e \<in> bands (links u ! l) \<and>
            l_a (links u ! e) = l_a (links u ! l) \<and> l_z (links u ! e) = l_z (links u ! l))" using new by blast
    show "\<forall>m<length (links u). bands (links u ! m) \<subseteq> ELink ` set (es @ [?n])"
    proof (intro allI impI)
      fix m assume m: "m < length (links u)"
      have "bands k = {}" using k(1) by (simp add: bands_def no_bands_def)
      then show "bands (links u ! m) \<subseteq> ELink ` set (es @ [?n])"
        using nth [of m] m len es(4) g(1) by (auto simp: less_Suc_eq)
    qed
    show "\<forall>m<length (links u). \<not> no_bands (links u ! m) \<longrightarrow> m \<in> set (find_links v)"
      using nth len i(3) k(1) l by (auto simp: less_Suc_eq)
    show "\<forall>m<length (links v). l_a (links u ! m) = l_a (links v ! m) \<and> l_z (links u ! m) = l_z (links v ! m)"
      using i(2,4) ends by (metis less_le_trans)
  qed (use u(1) i len in auto)
qed

lemma band_inv_add:
  assumes inv: "band_inv v w" and wf: "\<forall>x \<in> set (find_links v). x < length (links v)" and l: "l \<in> set (find_links v)"
  shows "band_inv v (ensure_up l w)" "band_inv v (ensure_down l w)"
proof -
  have ll: "l < length (links w)" using wf l inv by (auto simp: band_inv_def)
  have n: "nodes (scene_add e (upd_link l f (alloc_link k w))) = nodes w"
    "childs (scene_add e (upd_link l f (alloc_link k w))) = childs w @ [e]"
    "links (scene_add e (upd_link l f (alloc_link k w))) = (links w)[l := f (links w ! l)] @ [k]" for e f k
    using ll by (simp_all add: scene_add_def upd_link_def alloc_link_def list_update_append nth_append)
  note new = band_inv_new [OF inv wf l _ _ _ _ _ _ n]
  show "band_inv v (ensure_up l w)"
  proof (cases "l_up (links w ! l)")
    case None
    have "bands ((links w ! l)\<lparr>l_up := Some (length (links w))\<rparr>) = insert (ELink (length (links w))) (bands (links w ! l))"
      using None by (simp add: bands_def)
    then show ?thesis unfolding ensure_up_def Let_def None option.case(1)
      by (intro new) (simp_all add: band_link_def new_link_def no_bands_def)
  qed (simp add: ensure_up_def inv)
  show "band_inv v (ensure_down l w)"
  proof (cases "l_down (links w ! l)")
    case None
    have "bands ((links w ! l)\<lparr>l_down := Some (length (links w))\<rparr>) = insert (ELink (length (links w))) (bands (links w ! l))"
      using None by (auto simp: bands_def)
    then show ?thesis unfolding ensure_down_def Let_def None option.case(1)
      by (intro new) (simp_all add: band_link_def new_link_def no_bands_def)
  qed (simp add: ensure_down_def inv)
qed

lemma find_first_append: "find_first p (xs @ ys) = (case find_first p xs of None \<Rightarrow> find_first p ys | Some x \<Rightarrow> Some x)"
  by (induction xs) auto

lemma find_links_append: "childs w = childs v @ map ELink es \<Longrightarrow> find_links w = find_links v @ es"
proof -
  have "concat (map (\<lambda>e. case e of ELink l \<Rightarrow> [l] | _ \<Rightarrow> []) (map ELink es)) = es" by (induction es) auto
  then show "childs w = childs v @ map ELink es \<Longrightarrow> find_links w = find_links v @ es" by (simp add: find_links_def)
qed

lemma monitor_link_old:
  assumes inv: "band_inv v w" and wf: "\<forall>x \<in> set (find_links v). x < length (links v)"
    and m: "monitor_link a z w = Some (l, up)"
  shows "l \<in> set (find_links v)"
proof -
  from inv obtain es where es: "childs w = childs v @ map ELink es" "distinct es"
    "\<forall>e \<in> set es. length (links v) \<le> e \<and> e < length (links w) \<and>
         (\<exists>l \<in> set (find_links v). ELink e \<in> bands (links w ! l) \<and>
            l_a (links w ! e) = l_a (links w ! l) \<and> l_z (links w ! e) = l_z (links w ! l))"
    "\<forall>m < length (links w). bands (links w ! m) \<subseteq> ELink ` set es"
    by (rule band_invE)
  let ?p = "\<lambda>l. js_eq (JStr (a_id w l)) a \<and> js_eq (JStr (z_id w l)) z \<or> js_eq (JStr (z_id w l)) a \<and> js_eq (JStr (a_id w l)) z"
  have f: "find_first ?p (find_links v @ es) = Some l"
    using m find_links_append [OF es(1)] by (auto simp: monitor_link_def)
  show ?thesis
  proof (cases "find_first ?p (find_links v)")
    case None
    then have "find_first ?p es = Some l" using f by (simp add: find_first_append)
    then have l: "?p l" "l \<in> set es" using find_first_SomeD by fast+
    then obtain x where x: "x \<in> set (find_links v)" "l_a (links w ! l) = l_a (links w ! x)" "l_z (links w ! l) = l_z (links w ! x)"
      using es(3) by blast
    then have "?p x" using l(1) by (simp add: a_id_def z_id_def)
    then show ?thesis using None x(1) find_first_None_iff [of ?p "find_links v"] by blast
  next
    case (Some y)
    then have "y = l" using f by (simp add: find_first_append)
    then show ?thesis using find_first_SomeD [OF Some] by simp
  qed
qed

lemma addUpDownLink_inv:
  assumes inv: "band_inv v w" and wf: "\<forall>x \<in> set (find_links v). x < length (links v)"
  shows "band_inv v (addUpDownLink a z color w)"
proof (cases "monitor_link a z w")
  case (Some p)
  obtain l up where p: "p = (l, up)" by (cases p)
  have l: "l \<in> set (find_links v)" using monitor_link_old [OF inv wf] Some p by simp
  have "band_inv v (upd_link l (\<lambda>k. k\<lparr>l_index := Some 1\<rparr>) (ensure_down l (ensure_up l w)))"
    by (intro band_inv_upd band_inv_add inv wf l) simp
  then show ?thesis
    by (auto simp: addUpDownLink_def Some p Let_def light_def intro!: band_inv_upd split: option.split)
qed (simp add: addUpDownLink_def inv)

lemma addUpDownLinks_inv:
  "band_inv v w \<Longrightarrow> \<forall>x \<in> set (find_links v). x < length (links v) \<Longrightarrow>
     band_inv v (steps (map (\<lambda>(a, z, color). addUpDownLink a z color) calls) w)"
  by (induction calls arbitrary: w) (auto simp: addUpDownLink_inv)

lemma drop_bands_restores:
  assumes inv: "band_inv v w" and wf: "scene_wf v"
  shows "childs (drop_bands w) = childs v \<and> (\<forall>l < length (links v). no_bands (links (drop_bands w) ! l))"
proof -
  have al: "\<forall>x \<in> set (find_links v). x < length (links v)" using find_links_alloc [OF wf] by blast
  from inv obtain es where es: "childs w = childs v @ map ELink es" "distinct es"
    "\<forall>e \<in> set es. length (links v) \<le> e \<and> e < length (links w) \<and>
         (\<exists>l \<in> set (find_links v). ELink e \<in> bands (links w ! l) \<and>
            l_a (links w ! e) = l_a (links w ! l) \<and> l_z (links w ! e) = l_z (links w ! l))"
    "\<forall>m < length (links w). bands (links w ! m) \<subseteq> ELink ` set es"
    by (rule band_invE)
  have i: "length (links v) \<le> length (links w)"
    "\<forall>m < length (links w). \<not> no_bands (links w ! m) \<longrightarrow> m \<in> set (find_links v)"
    using inv by (simp_all add: band_inv_def)
  have old: "ELink e \<notin> set (childs v)" if "e \<in> set es" for e
  proof
    assume "ELink e \<in> set (childs v)"
    then have "e < length (links v)" using al by simp
    then show False using es(3) that by fastforce
  qed
  have d: "distinct (childs w)" using wf es(1,2) old by (auto simp: scene_wf_def distinct_map inj_on_def)
  have fl: "find_links w = find_links v @ es" using find_links_append [OF es(1)] .
  have al': "\<forall>l \<in> set (find_links w). l < length (links w)" using al es(3) i(1) by (auto simp: fl simp del: find_links_set)
  note e = drop_bands_effect [OF d find_links_distinct [OF d] al']
  have keep: "filter (\<lambda>c. \<forall>l \<in> set (find_links w). c \<notin> bands (links w ! l)) (childs v) = childs v"
    using es(4) al' old by (fastforce simp: filter_id_conv simp del: find_links_set)
  have drop: "filter (\<lambda>c. \<forall>l \<in> set (find_links w). c \<notin> bands (links w ! l)) (map ELink es) = []"
    using es(3) by (fastforce simp: filter_empty_conv fl simp del: find_links_set)
  have c: "childs (drop_bands w) = childs v"
    using e by (simp only: drop_bands_def) (simp only: es(1) filter_append keep drop append_Nil2 HOL.simp_thms)
  have "no_bands (links (drop_bands w) ! l)" if "l < length (links v)" for l
  proof (cases "l \<in> set (find_links w)")
    case True
    then show ?thesis using e that i(1) by (simp add: drop_bands_def no_bands_def del: find_links_set)
  next
    case False
    then have "l \<notin> set (find_links v)" by (simp add: fl del: find_links_set)
    moreover have "l < length (links w)" using that i(1) by simp
    ultimately have "no_bands (links w ! l)" using i(2) by blast
    then show ?thesis using e that i(1) False by (simp add: drop_bands_def no_bands_def del: find_links_set)
  qed
  with c show ?thesis by blast
qed

section \<open>Reading a saved topology\<close>

text \<open>Texts that a JSON string literal may hold as they are.\<close>

definition plain :: "string \<Rightarrow> bool" where
  "plain s \<longleftrightarrow> list_all (\<lambda>c. c \<noteq> CHR 0x22 \<and> c \<noteq> CHR 0x5C \<and> \<not> (of_char c :: nat) < 32) s"

lemma json_unquote_plain: "plain s \<Longrightarrow> json_unquote (s @ CHR 0x22 # r) = Some (s, r)"
  by (induction s) (auto simp: plain_def)

lemma json_value_string: "plain s \<Longrightarrow> json_value (Suc n) (CHR 0x22 # s @ CHR 0x22 # r) = Some (JStr s, r)"
  by (simp add: json_unquote_plain)

definition node_json :: "(coord \<Rightarrow> string) \<Rightarrow> string \<Rightarrow> topo_node \<Rightarrow> jsval" where
  "node_json num i n = JObj [(''id'', JStr i), (''x'', JStr (num (n_x n))), (''y'', JStr (num (n_y n)))]"

lemma plain_key: "plain ''id''" "plain ''x''" "plain ''y''" "plain ''layout''" "plain ''nodes''" "plain ''tree''" "plain ''circle''"
  by (simp_all add: plain_def)

lemma json_member_last:
  "plain k \<Longrightarrow> plain s \<Longrightarrow>
     json_members (Suc (Suc n)) acc (CHR 0x22 # k @ CHR 0x22 # CHR '':'' # CHR 0x22 # s @ CHR 0x22 # CHR ''}'' # r) =
       Some (AList.update k (JStr s) acc, r)"
  using json_unquote_plain [of k "CHR '':'' # CHR 0x22 # s @ CHR 0x22 # CHR ''}'' # r"]
  by (simp add: json_value_string del: json_value.simps)

lemma json_member_next:
  "plain k \<Longrightarrow> plain s \<Longrightarrow>
     json_members (Suc (Suc n)) acc (CHR 0x22 # k @ CHR 0x22 # CHR '':'' # CHR 0x22 # s @ CHR 0x22 # CHR '','' # r) =
       json_members (Suc n) (AList.update k (JStr s) acc) r"
  using json_unquote_plain [of k "CHR '':'' # CHR 0x22 # s @ CHR 0x22 # CHR '','' # r"]
  by (simp add: json_value_string del: json_value.simps)

lemma json_value_object:
  "json_value (Suc n) (CHR ''{'' # CHR 0x22 # r) = map_option (\<lambda>(x, r). (JObj x, r)) (json_members n [] (CHR 0x22 # r))"
  by simp

lemma json_value_node:
  assumes "plain i" "plain (num (n_x n))" "plain (num (n_y n))"
  shows "json_value (Suc (Suc (Suc (Suc (Suc m))))) (ser_node num i n @ r) = Some (node_json num i n, r)"
proof -
  have e: "ser_node num i n @ r = CHR ''{'' # CHR 0x22 # ''id'' @ CHR 0x22 # CHR '':'' # CHR 0x22 # i @ CHR 0x22 # CHR '','' #
    CHR 0x22 # ''x'' @ CHR 0x22 # CHR '':'' # CHR 0x22 # num (n_x n) @ CHR 0x22 # CHR '','' #
    CHR 0x22 # ''y'' @ CHR 0x22 # CHR '':'' # CHR 0x22 # num (n_y n) @ CHR 0x22 # CHR ''}'' # r"
    by (simp add: ser_node_def dquote_def)
  show ?thesis
    unfolding e json_value_object json_member_next [OF plain_key(1) assms(1)]
      json_member_next [OF plain_key(2) assms(2)] json_member_last [OF plain_key(3) assms(3)]
    by (simp add: node_json_def)
qed

text \<open>The datum list with the node of each datum.\<close>

definition ser_ok :: "(coord \<Rightarrow> string) \<Rightarrow> (string \<Rightarrow> nat option) \<Rightarrow> view \<Rightarrow> jsval \<Rightarrow> bool" where
  "ser_ok num look v e \<longleftrightarrow> plain (js_str (pget e ''id'')) \<and>
     (case look (js_str (pget e ''id'')) of None \<Rightarrow> False
      | Some a \<Rightarrow> plain (num (n_x (nodes v ! a))) \<and> plain (num (n_y (nodes v ! a))))"

definition datum_json :: "(coord \<Rightarrow> string) \<Rightarrow> (string \<Rightarrow> nat option) \<Rightarrow> view \<Rightarrow> jsval \<Rightarrow> jsval" where
  "datum_json num look v e = node_json num (js_str (pget e ''id'')) (nodes v ! the (look (js_str (pget e ''id''))))"

lemma ser_nodes_parse:
  "es \<noteq> [] \<Longrightarrow> list_all (ser_ok num look v) es \<Longrightarrow>
     \<exists>s. ser_nodes num look v True es = Inr s \<and> ser_nodes num look v False es = Inr (CHR '','' # s) \<and>
       hd s = CHR ''{'' \<and> s \<noteq> [] \<and> length es \<le> length s \<and>
       (\<forall>m r. json_elems (Suc (Suc (Suc (Suc (Suc (length es + m)))))) (s @ CHR '']'' # r) =
          Some (map (datum_json num look v) es, r))"
proof (induction es)
  case (Cons e es)
  let ?i = "js_str (pget e ''id'')"
  obtain a where a: "look ?i = Some a" "plain ?i" "plain (num (n_x (nodes v ! a)))" "plain (num (n_y (nodes v ! a)))"
    using Cons.prems(2) by (auto simp: ser_ok_def split: option.splits)
  let ?s = "ser_node num ?i (nodes v ! a)"
  have n: "json_value (Suc (Suc (Suc (Suc (Suc m))))) (?s @ r) = Some (node_json num ?i (nodes v ! a), r)" for m r
    using a by (intro json_value_node)
  have h: "hd ?s = CHR ''{''" "?s \<noteq> []" by (simp_all add: ser_node_def)
  then have l1: "1 \<le> length ?s" by (cases ?s) auto
  show ?case
  proof (cases "es = []")
    case True
    have "json_elems (Suc (Suc (Suc (Suc (Suc (length [e] + m)))))) (?s @ CHR '']'' # r) =
      Some ([datum_json num look v e], r)" for m r
      using n [of m "CHR '']'' # r"] a by (simp add: datum_json_def del: json_value.simps)
    then show ?thesis using True a h l1 by (simp add: Let_def del: json_elems.simps)
  next
    case False
    then obtain s where s: "ser_nodes num look v False es = Inr (CHR '','' # s)" "length es \<le> length s"
      "\<And>m r. json_elems (Suc (Suc (Suc (Suc (Suc (length es + m)))))) (s @ CHR '']'' # r) =
          Some (map (datum_json num look v) es, r)"
      using Cons by auto
    have "json_elems (Suc (Suc (Suc (Suc (Suc (length (e # es) + m)))))) ((?s @ CHR '','' # s) @ CHR '']'' # r) =
      Some (map (datum_json num look v) (e # es), r)" for m r
      using n [of "length es + m" "CHR '','' # s @ CHR '']'' # r"] s(3) [of m r] a
      by (simp add: datum_json_def del: json_value.simps)
    moreover have "hd (?s @ CHR '','' # s) = CHR ''{''" using h by (cases ?s) auto
    ultimately show ?thesis using s a l1 by (simp add: Let_def del: json_elems.simps)
  qed
qed simp

definition topology_json :: "string \<Rightarrow> jsval list \<Rightarrow> jsval" where
  "topology_json layout ns = JObj [(''layout'', JStr layout), (''nodes'', JArr ns)]"

definition ser_text :: "string \<Rightarrow> string \<Rightarrow> string" where
  "ser_text layout s = ''{'' @ dquote @ ''layout'' @ dquote @ '':'' @ dquote @ layout @ dquote @ '','' @ dquote @ ''nodes'' @ dquote @ '':['' @ s @ '']}''"

lemma json_members_nodes:
  assumes "json_value (Suc (Suc n)) (CHR ''['' # s @ '']}'') = Some (JArr ns, ''}'')"
  shows "json_members (Suc (Suc (Suc n))) acc (CHR 0x22 # ''nodes'' @ CHR 0x22 # CHR '':'' # CHR ''['' # s @ '']}'') =
    Some (AList.update ''nodes'' (JArr ns) acc, [])"
  using json_unquote_plain [OF plain_key(5), of "CHR '':'' # CHR ''['' # s @ '']}''"] assms
  by (simp del: json_value.simps)

lemma topology_parse:
  assumes "plain layout" "json_value (2 * length (ser_text layout s) - 2) (CHR ''['' # s @ '']}'') = Some (JArr ns, ''}'')"
  shows "json_parse (ser_text layout s) = Some (topology_json layout ns)"
proof -
  have e: "ser_text layout s = CHR ''{'' # CHR 0x22 # ''layout'' @ CHR 0x22 # CHR '':'' # CHR 0x22 # layout @ CHR 0x22 # CHR '','' #
    CHR 0x22 # ''nodes'' @ CHR 0x22 # CHR '':'' # CHR ''['' # s @ '']}''"
    by (simp add: ser_text_def dquote_def)
  have "10 \<le> length (ser_text layout s)" by (simp add: ser_text_def)
  then have "2 * length (ser_text layout s) = Suc (Suc (Suc (Suc (2 * length (ser_text layout s) - 4))))" by arith
  then obtain n where n: "2 * length (ser_text layout s) = Suc (Suc (Suc (Suc n)))" ..
  have v: "json_value (Suc (Suc n)) (CHR ''['' # s @ '']}'') = Some (JArr ns, ''}'')" using assms(2) n by simp
  have "json_value (Suc (Suc (Suc (Suc (Suc n))))) (ser_text layout s) = Some (topology_json layout ns, [])"
    unfolding e json_value_object json_member_next [OF plain_key(4) assms(1)] json_members_nodes [OF v]
    by (simp add: topology_json_def)
  then show ?thesis by (simp add: json_parse_def n skip_space_def del: json_value.simps)
qed

section \<open>Properties\<close>

text \<open>
  What removing the emphasis of paths does.  After any paths were made bold on a well-formed view
  without bold links and without links of width 0, \<open>cancleBoldAllLink\<close> leaves no link bold; a link on
  the scene that the paths made bold at most once has its old width again, and one that they made bold
  more often stays six wide.
\<close>

theorem bold_and_cancel:
  assumes "scene_wf v" and "list_all (\<lambda>l. l_bak (links v ! l) = None \<and> l_width (links v ! l) \<noteq> 0) (find_links v)"
    and "l \<in> set (find_links v)" and "w = cancleBoldAllLink (steps (map boldLink paths) v)"
  shows "l_bak (links w ! l) = None \<and>
    l_width (links w ! l) =
      (if count_list (concat (map (\<lambda>p. path_links p v) paths)) l \<le> 1 then l_width (links v ! l) else 6)"
proof -
  let ?ls = "concat (map (\<lambda>p. path_links p v) paths)"
  let ?u = "steps (map bold_one ?ls) v"
  have u: "steps (map boldLink paths) v = ?u" by (rule boldLinks_steps [OF assms(1)])
  have l: "l < length (links v)" using find_links_alloc [OF assms(1,3)] .
  have len: "length (links ?u) = length (links v)" by (rule steps_inv) (simp add: bold_one_def view_simps)
  have ch: "childs ?u = childs v" by (rule steps_inv) (simp add: bold_one_def view_simps)
  then have fl: "find_links ?u = find_links v" by (simp add: find_links_def)
  have d: "distinct (find_links ?u)" using assms(1) find_links_distinct ch by (simp add: scene_wf_def)
  have k: "links w ! l = (case l_bak (links ?u ! l) of None \<Rightarrow> links ?u ! l
     | Some x \<Rightarrow> if x = 0 then links ?u ! l else (links ?u ! l)\<lparr>l_width := x, l_bak := None\<rparr>)"
    using steps_upd_nth [OF d, of l ?u "\<lambda>l k. case l_bak k of None \<Rightarrow> k
       | Some w \<Rightarrow> if w = 0 then k else k\<lparr>l_width := w, l_bak := None\<rparr>"] l len assms(3)
    unfolding assms(4) u by (simp add: cancleBoldAllLink_def unbold_one_def [abs_def] fl del: find_links_set)
  have b: "l_bak (links v ! l) = None" "l_width (links v ! l) \<noteq> 0" using assms(2,3) by (auto simp: list_all_iff)
  show ?thesis
    using bold_count [OF l b(1), of ?ls] b(2) unfolding k
    by (cases "count_list ?ls l" rule: nat.exhaust [case_product nat.exhaust])
      (auto simp: Let_def b(1) split: if_splits option.split)
qed

text \<open>
  Bandwidth shown is hidden without a trace.  From a well-formed view without bandwidth links,
  any calls of \<open>showLinkMonitor\<close>, followed by \<open>hideAllLinkMonitor\<close>, leave the elements on the scene as
  they were, and no link with an up or down link.
\<close>

theorem monitor_round_trip:
  assumes "scene_wf v" and "list_all no_bands (links v)"
    and "w = drop_bands (steps (map (\<lambda>(a, z, color). addUpDownLink a z color) calls) v)"
  shows "childs w = childs v \<and> list_all (\<lambda>l. no_bands (links w ! l)) [0..<length (links v)]"
proof -
  have "band_inv v v" using assms(2) by (intro band_inv_refl) (simp add: list_all_length)
  then have "band_inv v (steps (map (\<lambda>(a, z, color). addUpDownLink a z color) calls) v)"
    using find_links_alloc [OF assms(1)] by (intro addUpDownLinks_inv) auto
  from drop_bands_restores [OF this assms(1)] show ?thesis by (simp add: assms(3) list_all_iff)
qed

lemma scale_node_nodes:
  "nodes (scale_node s b v) = (nodes v)[b := (nodes v ! b)
     \<lparr>n_x := map_option (\<lambda>x. x * s) (n_x (nodes v ! b)), n_y := map_option (\<lambda>y. y * s) (n_y (nodes v ! b))\<rparr>]"
  by (simp add: scale_node_def upd_node_def)

lemma scale_nth:
  "distinct as \<Longrightarrow> a < length (nodes v) \<Longrightarrow> a \<in> set as \<Longrightarrow>
     n_x (nodes (steps (map (scale_node s) as) v) ! a) = map_option (\<lambda>x. x * s) (n_x (nodes v ! a)) \<and>
     length (nodes (steps (map (scale_node s) as) v)) = length (nodes v)"
proof (induction as arbitrary: v)
  case (Cons b as)
  have o: "a \<notin> set as \<Longrightarrow> nodes (steps (map (scale_node s) as) u) ! a = nodes u ! a \<and>
     length (nodes (steps (map (scale_node s) as) u)) = length (nodes u)" for u
    by (induction as arbitrary: u) (auto simp: scale_node_nodes)
  show ?case
  proof (cases "a = b")
    case True
    then show ?thesis using Cons.prems o [of "scale_node s b v"] by (simp add: scale_node_nodes)
  next
    case False
    then show ?thesis using Cons.IH [of "scale_node s b v"] Cons.prems by (simp add: scale_node_nodes)
  qed
qed simp

lemma zoom_childs [simp]: "childs (zoom_view s v) = childs v"
  unfolding zoom_view_def by (rule steps_inv) (auto simp: scale_node_def upd_node_def)

lemma find_nodes_distinct: "distinct (childs v) \<Longrightarrow> distinct (find_nodes v)"
proof -
  have "distinct es \<Longrightarrow> distinct (concat (map (\<lambda>e. case e of ENode l \<Rightarrow> [l] | _ \<Rightarrow> []) es))" for es
    by (induction es) (auto split: elem.splits)
  then show "distinct (childs v) \<Longrightarrow> distinct (find_nodes v)" by (simp add: find_nodes_def)
qed

text \<open>
  Zooming in and out does not come back.  One turn of the wheel in and one out multiply the
  coordinates of every node of the current view by 0.99.
\<close>

theorem zoom_in_and_out:
  assumes "t_stage t = Some k" and "view_of k t = Some v" and "scene_wf v" and "ENode a \<in> set (childs v)"
    and "n_x (nodes v ! a) = Some x" and "mousewheel 120 0 t = (None, t1)" and "mousewheel (-120) 0 t1 = (None, t2)"
    and "view_of k t2 = Some w"
  shows "n_x (nodes w ! a) = Some (99 / 100 * x)"
proof -
  have pv: "view_of k (put_view k u s) = Some u" "t_stage (put_view k u s) = t_stage s" for u s by (cases k; simp)+
  have t1: "t1 = put_view k (zoom_view (11 / 10) v) t"
    using assms(1,2,6) by (simp add: mousewheel_def zoomNodes_def on_stage_def on_view_def and_then_def)
  have w: "w = zoom_view (9 / 10) (zoom_view (11 / 10) v)"
    using assms(1,7,8) t1 pv by (auto simp: mousewheel_def zoomNodes_def on_stage_def on_view_def and_then_def)
  have d: "distinct (find_nodes v)" "a \<in> set (find_nodes v)" "a < length (nodes v)"
    using assms(3,4) find_nodes_distinct by (auto simp: scene_wf_def list_all_iff allocated_def)
  let ?u = "zoom_view (11 / 10) v"
  have f: "find_nodes ?u = find_nodes v" by (simp add: find_nodes_def)
  have u: "n_x (nodes ?u ! a) = Some (x * (11 / 10))" "length (nodes ?u) = length (nodes v)"
    using scale_nth [OF d(1,3,2), of "11 / 10"] assms(5) by (simp_all add: zoom_view_def)
  have "n_x (nodes w ! a) = map_option (\<lambda>x. x * (9 / 10)) (n_x (nodes ?u ! a))"
    using scale_nth [of "find_nodes ?u" a ?u "9 / 10"] d u f unfolding w zoom_view_def [of "9 / 10"] by simp
  then show ?thesis using u by simp
qed

text \<open>
  C34: a saved topology can be read back.  When every datum has a node, and ids and printed coordinates
  need no escape in JSON, \<open>serilize\<close> returns a text that parses to the layout and, in order, the id and
  the coordinates of every datum.
\<close>

theorem serilize_parses:
  assumes "t_stage t = Some k" and "view_of k t = Some v"
    and "list_all (ser_ok num (\<lambda>i. getNodeById i t) v) (v_data v)"
  shows "\<exists>s. serilize num t = Inr s \<and>
    json_parse s = Some (topology_json (case k of TreeView \<Rightarrow> ''tree'' | CircleView \<Rightarrow> ''circle'')
       (map (datum_json num (\<lambda>i. getNodeById i t) v) (v_data v)))"
proof -
  let ?look = "\<lambda>i. getNodeById i t"
  let ?layout = "case k of TreeView \<Rightarrow> ''tree'' | CircleView \<Rightarrow> ''circle''"
  have pl: "plain ?layout" by (simp add: plain_key split: layout_kind.split)
  have ser: "serilize num t = Inr (ser_text ?layout s)" if "ser_nodes num ?look v True (v_data v) = Inr s" for s
    using assms(1,2) that by (simp add: serilize_def stage_def ser_text_def split: layout_kind.split)
  show ?thesis
  proof (cases "v_data v = []")
    case True
    have "json_parse (ser_text ?layout []) = Some (topology_json ?layout [])"
      by (rule topology_parse [OF pl]) (simp add: ser_text_def dquote_def)
    then show ?thesis using ser True by simp
  next
    case False
    obtain s where s: "ser_nodes num ?look v True (v_data v) = Inr s" "hd s = CHR ''{''" "s \<noteq> []"
      "length (v_data v) \<le> length s"
      "\<And>m r. json_elems (Suc (Suc (Suc (Suc (Suc (length (v_data v) + m)))))) (s @ CHR '']'' # r) =
          Some (map (datum_json num ?look v) (v_data v), r)"
      using ser_nodes_parse [OF False assms(3)] by blast
    obtain s' where s': "s = CHR ''{'' # s'" using s(2,3) by (cases s) auto
    let ?n = "2 * length (ser_text ?layout s) - 2"
    have "length (v_data v) + 6 \<le> ?n" using s(4) by (simp add: ser_text_def)
    then have "?n = Suc (Suc (Suc (Suc (Suc (Suc (length (v_data v) + (?n - (length (v_data v) + 6))))))))" by arith
    then obtain m where m: "?n = Suc (Suc (Suc (Suc (Suc (Suc (length (v_data v) + m))))))" ..
    have "json_value ?n (CHR ''['' # s @ '']}'') = Some (JArr (map (datum_json num ?look v) (v_data v)), ''}'')"
    proof -
      have "json_value (Suc (Suc (Suc (Suc (Suc (Suc (length (v_data v) + m))))))) (CHR ''['' # s @ '']}'') =
        Some (JArr (map (datum_json num ?look v) (v_data v)), ''}'')"
        using s(5) [of m "''}''"] unfolding s' by (simp del: json_elems.simps)
      then show ?thesis by (simp only: m)
    qed
    from topology_parse [OF pl this] show ?thesis using ser [OF s(1)] by blast
  qed
qed

section \<open>Instances\<close>

text \<open>Two linked switches.\<close>

definition pair_view :: view where
  "pair_view = linkNodes [JObj [(''id'', JStr ''a''), (''upNode'', JArr [JStr ''b''])]] two_nodes"

lemma pair_view_fields:
  "scene_wf pair_view" "childs pair_view = [ENode 0, ENode 1, ELink 0]" "length (links pair_view) = 1"
  "l_bak (links pair_view ! 0) = None" "l_width (links pair_view ! 0) = 1" "list_all no_bands (links pair_view)"
  "a_id pair_view 0 = ''b''" "z_id pair_view 0 = ''a''" "n_x (nodes pair_view ! 0) = Some 0"
proof -
  have "scene_wf two_nodes" unfolding two_nodes_def by (rule wf_add_all [OF wf_empty_view]) auto
  then show "scene_wf pair_view" unfolding pair_view_def by (rule wf_linkNodes)
  have x: "n_x (switchToNode (JObj [(''id'', JStr ''a'')])) = Some 0"
    by (simp add: switchToNode_def Let_def new_node_def parsed_coord_def pget.simps split: prod.split)
  show "childs pair_view = [ENode 0, ENode 1, ELink 0]" "length (links pair_view) = 1"
    "l_bak (links pair_view ! 0) = None" "l_width (links pair_view ! 0) = 1" "list_all no_bands (links pair_view)"
    "a_id pair_view 0 = ''b''" "z_id pair_view 0 = ''a''" "n_x (nodes pair_view ! 0) = Some 0"
    using x
    by (simp_all add: pair_view_def two_nodes_def empty_view_def addToScene_def Let_def scene_add_def alloc_node_def
        alloc_link_def pget.simps link_datum_def neighbour_items_def neighbour_def link_pair_def new_link_def id_of_def
        no_bands_def a_id_def z_id_def)
qed

lemma pair_links: "find_links pair_view = [0]"
  by (simp add: find_links_def pair_view_fields)

lemma pair_path: "path_link (JStr ''a'') (JStr ''b'') pair_view = Some 0"
  by (simp add: path_link_def getLink_def pair_links pair_view_fields js_eq_def)

lemma bold_and_cancel_witness:
  "l_width (links (cancleBoldAllLink (steps (map boldLink [[JStr ''a'', JStr ''b''], [JStr ''a'', JStr ''b'']]) pair_view)) ! 0) = 6"
  using bold_and_cancel [OF pair_view_fields(1), of 0 _ "[[JStr ''a'', JStr ''b''], [JStr ''a'', JStr ''b'']]"]
  by (simp add: pair_links pair_view_fields pair_path del: boldLink.simps find_links_set)

lemma monitor_round_trip_witness:
  "childs (drop_bands (addUpDownLink (JStr ''a'') (JStr ''b'') ''255,0,0'' pair_view)) = [ENode 0, ENode 1, ELink 0]"
  using monitor_round_trip [OF pair_view_fields(1,6) refl, of "[(JStr ''a'', JStr ''b'', ''255,0,0'')]"]
  by (simp add: pair_view_fields)

definition pair_topo :: topo where
  "pair_topo = no_topo\<lparr>t_tree := Some pair_view, t_stage := Some TreeView\<rparr>"

lemma zoom_in_and_out_witness:
  "n_x (nodes (zoom_view (9 / 10) (zoom_view (11 / 10) pair_view)) ! 0) = Some 0"
  using zoom_in_and_out [of pair_topo TreeView pair_view 0 0
      "pair_topo\<lparr>t_tree := Some (zoom_view (11 / 10) pair_view)\<rparr>"
      "pair_topo\<lparr>t_tree := Some (zoom_view (9 / 10) (zoom_view (11 / 10) pair_view))\<rparr>"
      "zoom_view (9 / 10) (zoom_view (11 / 10) pair_view)"]
  by (simp add: pair_topo_def pair_view_fields mousewheel_def zoomNodes_def on_stage_def on_view_def and_then_def)

lemma serilize_parses_witness:
  "\<exists>s. serilize (\<lambda>c. ''1'') (no_topo\<lparr>t_tree := Some lone_view, t_stage := Some TreeView\<rparr>) = Inr s \<and>
     json_parse s = Some (topology_json ''tree'' [JObj [(''id'', JStr ''a''), (''x'', JStr ''1''), (''y'', JStr ''1'')]])"
proof -
  let ?t = "no_topo\<lparr>t_tree := Some lone_view, t_stage := Some TreeView\<rparr>"
  have l: "getNodeById ''a'' ?t = Some 0" by (simp add: getNodeById_def lone_view_fields)
  have d: "v_data lone_view = [core_a]" by (simp add: lone_view_data)
  have p: "pget core_a ''id'' = JStr ''a''" by (simp add: core_a_def pget.simps)
  have ok: "list_all (ser_ok (\<lambda>c. ''1'') (\<lambda>i. getNodeById i ?t) lone_view) (v_data lone_view)"
    by (simp add: d ser_ok_def p l plain_def del: select_convs update_convs)
  show ?thesis
    using serilize_parses [of ?t TreeView lone_view, OF _ _ ok] l
    by (simp add: d datum_json_def node_json_def p)
qed

end
