(* ===== verification/Markup.thy ===== *)
theory Markup
  imports DCF_Prelude
begin

text \<open>
  Whether a piece of markup is balanced: a scanner with the stack of open elements reads it one
  character at a time.  \<open>input\<close>, \<open>img\<close>, \<open>br\<close> and elements that end with a slash are not opened.
\<close>

named_theorems markup_simps \<open>balanced markup\<close>

datatype mode = Txt | Open string | Close string | Attrs string bool | Quoted string

definition void_elem :: "string \<Rightarrow> bool" where
  "void_elem n \<longleftrightarrow> n = ''input'' \<or> n = ''img'' \<or> n = ''br''"

definition opened :: "string \<Rightarrow> string list \<Rightarrow> string list" where
  "opened n stk = (if void_elem n then stk else n # stk)"

fun scan_char :: "char \<Rightarrow> mode \<times> string list \<Rightarrow> (mode \<times> string list) option" where
  "scan_char c (Txt, stk) = Some (if c = CHR ''<'' then Open [] else Txt, stk)"
| "scan_char c (Open n, stk) =
     (if c = CHR ''>'' then Some (Txt, opened n stk)
      else if c = CHR ''/'' then Some (if n = [] then Close [] else Attrs n True, stk)
      else if c = CHR '' '' then Some (Attrs n False, stk)
      else Some (Open (n @ [c]), stk))"
| "scan_char c (Close n, stk) =
     (if c = CHR ''>'' then (case stk of [] \<Rightarrow> None | m # ms \<Rightarrow> if m = n then Some (Txt, ms) else None)
      else Some (Close (n @ [c]), stk))"
| "scan_char c (Attrs n sl, stk) =
     (if c = CHR 0x22 then Some (Quoted n, stk)
      else if c = CHR ''>'' then Some (Txt, if sl then stk else opened n stk)
      else Some (Attrs n (c = CHR ''/''), stk))"
| "scan_char c (Quoted n, stk) = Some (if c = CHR 0x22 then Attrs n False else Quoted n, stk)"

fun scan :: "string \<Rightarrow> mode \<times> string list \<Rightarrow> (mode \<times> string list) option" where
  "scan [] s = Some s"
| "scan (c # cs) s = (case scan_char c s of None \<Rightarrow> None | Some s' \<Rightarrow> scan cs s')"

lemma scan_append: "scan (xs @ ys) s = (case scan xs s of None \<Rightarrow> None | Some s' \<Rightarrow> scan ys s')"
  by (induction xs arbitrary: s) (auto split: option.split)

text \<open>Markup that closes what it opens, wherever it stands in a text.\<close>

definition balanced :: "string \<Rightarrow> bool" where
  "balanced h \<longleftrightarrow> (\<forall>stk. scan h (Txt, stk) = Some (Txt, stk))"

lemma balancedD: "balanced h \<Longrightarrow> scan h (Txt, stk) = Some (Txt, stk)"
  by (simp add: balanced_def)

lemma balanced_append: "balanced h \<Longrightarrow> balanced k \<Longrightarrow> balanced (h @ k)"
  by (simp add: balanced_def scan_append)

lemma balanced_Nil: "balanced []"
  by (simp add: balanced_def)

lemma balanced_concat: "\<forall>h \<in> set hs. balanced h \<Longrightarrow> balanced (concat hs)"
  by (induction hs) (auto simp: balanced_Nil balanced_append)

lemma scan_char_frame: "scan_char c (m, s) = Some (m', s') \<Longrightarrow> scan_char c (m, s @ t) = Some (m', s' @ t)"
  by (cases "(c, (m, s))" rule: scan_char.cases) (auto simp: opened_def split: if_splits list.splits)

lemma scan_frame: "scan h (m, s) = Some (m', s') \<Longrightarrow> scan h (m, s @ t) = Some (m', s' @ t)"
proof (induction h arbitrary: m s)
  case (Cons c h)
  then obtain n u where n: "scan_char c (m, s) = Some (n, u)" "scan h (n, u) = Some (m', s')"
    by (auto split: option.splits)
  then show ?case using scan_char_frame [OF n(1)] Cons.IH [OF n(2)] by simp
qed simp

lemma balanced_code: "scan h (Txt, []) = Some (Txt, []) \<Longrightarrow> balanced h"
  using scan_frame [of h Txt "[]" Txt "[]"] by (simp add: balanced_def)

text \<open>Texts that can be inserted between tags, and in a quoted attribute.\<close>

definition inert :: "string \<Rightarrow> bool" where
  "inert s \<longleftrightarrow> CHR ''<'' \<notin> set s \<and> CHR 0x22 \<notin> set s"

lemma inert_text: "inert s \<Longrightarrow> scan s (Txt, stk) = Some (Txt, stk)"
  by (induction s) (auto simp: inert_def)

lemma inert_quoted: "inert s \<Longrightarrow> scan s (Quoted n, stk) = Some (Quoted n, stk)"
  by (induction s) (auto simp: inert_def)

lemma inert_balanced: "inert s \<Longrightarrow> balanced s"
  by (simp add: balanced_def inert_text)

lemma inert_append [simp]: "inert (s @ t) \<longleftrightarrow> inert s \<and> inert t"
  by (auto simp: inert_def)

lemma inert_concat: "inert (concat ss) \<longleftrightarrow> list_all inert ss"
  by (induction ss) (auto simp: inert_def)

lemmas scan_rules = scan_append inert_text inert_quoted balancedD opened_def void_elem_def

end
