(* ===== verification/Topo_Html.thy ===== *)
theory Topo_Html
  imports Topo_Ops Markup
begin

text \<open>
  The markup that \<open>jtopo/js/open.js\<close> builds by concatenation, one definition for each expression of the
  source, with the inserted values as arguments.  A text outside ASCII is its UTF-8 bytes.
\<close>

section \<open>Menus and bars\<close>

definition contextmenu_html :: "string" where
  \<open>contextmenu_html =
     ''<ul id="contextmenu" class="modal" style="width:170px;position: absolute;list-style: none;margin: 0;'' @
     ''padding: 0;display: none">'' @ [CHR 0x09] @
     ''<li><a id="tree" style="display: block;padding: 10px;border-bottom: 1px solid #aaa;cursor: pointer;"'' @
     ''>Tree Layout Show</a></li><li><a id="grid" style="display: block;padding: 10px;border-bottom: 1px so'' @
     ''lid #aaa;cursor: pointer;">Circular layout Display</a></li><li><a style="display: block;padding: 10p'' @
     ''x;border-bottom: 1px solid #aaa;cursor: pointer;"><label>Box selection mode&nbsp;<input id="selectMo'' @
     ''deCheck" type="checkbox"  /></label></a></li><li><a style="display: block;padding: 10px;border-botto'' @
     ''m: 1px solid #aaa;cursor: pointer;"><label>Show Details window&nbsp;<input id="detailCheck" type="ch'' @
     ''eckbox"  checked="checked" /></label></a></li><li><a style="display: block;padding: 10px;border-bott'' @
     ''om: 1px solid #aaa;cursor: pointer;"><label>Show Optimal Path&nbsp;<input id="pathCheck" type="check'' @
     ''box" /></label></a></li><li><a id="showVirtualNetBtn" style="display: block;padding: 10px;border-bot'' @
     ''tom: 1px solid #aaa;cursor: pointer;">Virtual Network Display</a></li><li><a id="createVirtualNetBtn'' @
     ''" style="display: block;padding: 10px;border-bottom: 1px solid #aaa;cursor: pointer;">New Virtual Ne'' @
     ''twork</a></li><li><a id="addToVirtualNet" style="display: block;padding: 10px;border-bottom: 1px sol'' @
     ''id #aaa;cursor: pointer;">Add selected node to virtual network</a></li></ul>''\<close>

definition initSearchForm :: "string" where
  \<open>initSearchForm =
     ''<div class="dash"><ul class="nav nav-tabs"> <li class="active"><a id="connection" href="#">search</a'' @
     ''></li></ul> <div class="dashlet row-fluid"> <form class="navbar-form" role="search"> <div class="btn'' @
     ''-group"> <a name="all" class="searchtype btn btn-success">all</a> <a name="exchange" class="searchty'' @
     ''pe btn btn-default">switches</a> <a name="host" class="searchtype btn btn-default">servers</a> <inpu'' @
     ''t type="hidden" id="searchType" value="all"/> </div><a id="searchButton" class="btn btn-primary">sea'' @
     ''rch</a> <div class="form-group"> <input id="searchName" type="text" class="form-control span9" place'' @
     ''holder="nodeId"></div>  <div class="form-group"> <input id="searchMac" type="text" class="form-contr'' @
     ''ol span9" placeholder="MAC address"> </div> <div class="form-group"> <input id="searchIp" type="text'' @
     ''" class="form-control span9" placeholder="IP address"> </div> </form> </div> </div>''\<close>

definition toolbar_html :: "string" where
  \<open>toolbar_html =
     '' <div id="toolbar" style="color: #00A8EC"> &nbsp;<a style="padding:1px;font-family:SimHei" id="rateC'' @
     ''onfig" title="monitoring frequency" class="btn btn-primary"><img style="padding-bottom: 3px;" width='' @
     ''"16" height="16"  src="'' @ prefix @
     ''img/setting.png"/>&nbsp;setting</a> &nbsp;<a style="padding:1px;font-family: SimHei" id="topoSaveBtn'' @
     ''" title="save Topology settings" class="btn btn-primary"><img style="padding-bottom: 3px;"  width="1'' @
     ''6" height="16"  src="'' @ prefix @
     ''img/save.png"/>&nbsp;save</a><input type="hidden" id="rateUsedMonitor" value="0"/>&nbsp;&nbsp;&nbsp;'' @
     ''&nbsp; <a style="padding:1px;width: 50px;font-family: SimHei" id="searchTypeButton" name="all" class'' @
     ''="btn btn-primary" >all</a>&nbsp;&nbsp;<input id="searchName" style="width:150px;" placeholder="Id/M'' @
     ''AC/ip">&nbsp;<a style="padding:1px;font-family: SimHei" id="searchButton" class="btn btn-primary" ti'' @
     ''tle="search"><img style="padding-bottom: 3px;" width="16" height="16"  src="'' @ prefix @
     ''img/nodesearch.png"/>&nbsp;search</a>&nbsp;&nbsp;<img id="rateUsedRadio" class="btn" src="'' @ prefix @
     ''img/traffic-light-off.png" title="Click to open Monitor" /><img id="resizeBtn" class="btn" src="'' @
     prefix @ ''img/max_size.png" width="16" title="'' @
     [CHR 0xE5, CHR 0x85, CHR 0xA8, CHR 0xE5, CHR 0xB1, CHR 0x8F] @
     ''" height="16" style="padding-top:5px;margin-left:5px;"/></div>''\<close>

definition search_types_html :: "string" where
  \<open>search_types_html =
     '' <div id="searchTypeButtonGroup" style="display: none;position: absolute;" class="btn-group"> <a nam'' @
     ''e="all" class="searchtype btn btn-success">all</a> <a name="exchange" class="searchtype btn btn-defa'' @
     ''ult">switches</a> <a name="host" class="searchtype btn btn-default">servers</a> <input type="hidden"'' @
     '' id="searchType" value="all"/> </div>''\<close>

definition getCanvasDivHtml :: "string" where
  \<open>getCanvasDivHtml =
     ''<canvas width="800" height="600" id="canvas_tree" style="background-color: rgb(251, 251, 251);"></ca'' @
     ''nvas><canvas width="800" height="600" id="canvas_circle" style="background-color: rgb(251, 251, 251)'' @
     '';display:none;"></canvas>''\<close>

definition refresh_form :: "string \<Rightarrow> string" where
  \<open>refresh_form interval =
     ''<form id="refreshSettingModal"  class="navbar-form navbar-left" role="search"> <div class="form-grou'' @
     ''p"> <input id="'' @ ''refresh_interval_input'' @
     ''" type="text" class="form-control" placeholder="millisecond" value="'' @ interval @
     ''">  millisecond &nbsp;&nbsp;&nbsp;&nbsp; <button type="submit" class="btn btn-default" onclick="wind'' @
     ''ow.updateInterval(document.getElementById('' @ [CHR 0x27] @ ''refresh_interval_input'' @ [CHR 0x27] @
     '').value);return false;">save setting</button>  </div></form>''\<close>

section \<open>Virtual networks\<close>

definition create_net_form :: "string" where
  \<open>create_net_form =
     ''<form class="navbar-form navbar-left" role="search"><div class="form-group">name: <input id="input_v'' @
     ''irtual_net_name" type="text" class="form-control" placeholder="unique name" ></div>  <div class="for'' @
     ''m-group">display: <input id="input_virtual_net_text" type="text" class="form-control" placeholder="d'' @
     ''isplay name" ></div>  <div class="form-group">description: <input id="input_virtual_net_desc" type="'' @
     ''text" class="form-control" placeholder="description" ></div>  <div class="form-group"><br/><button t'' @
     ''ype="submit" class="btn btn-default" onclick="window.saveVirtualNet();return false;">save</button></'' @
     ''div> </form>''\<close>

definition initVirtualNetPanel :: "string" where
  \<open>initVirtualNetPanel =
     ''<div id="virtualNetBody" class="dash" style="display: none;">  <div class="dashlet row-fluid">  <tab'' @
     ''le class="table table-hover">  <thead> <tr> <th>name</th> <th>operate</th> </tr> </thead> <tbody id='' @
     ''"virtual_body"></tbody></table></div></div>''\<close>

definition net_row :: "string \<Rightarrow> string \<Rightarrow> string" where
  \<open>net_row grp net_text =
     ''<tr  style="cursor: default;" onclick="showVirtualNetAllNode('' @ [CHR 0x27] @ grp @ [CHR 0x27] @
     '')" id="col_'' @ grp @ ''"><td>'' @ net_text @ ''</td><td><a id="'' @ grp @
     ''" onclick="window.loadVirtualNetItems(this.id);" class="btn groupAjust">'' @
     [CHR 0xE8, CHR 0xAF, CHR 0xA6, CHR 0xE6, CHR 0x83, CHR 0x85] @ ''</a></td></tr>''\<close>

definition net_table :: "string \<Rightarrow> string" where
  \<open>net_table body =
     ''<table class="table table-hover"><thead><tr><th>type</th><th>name</th><th>IP</th><th>MAC</th><th>ope'' @
     ''rate</th></tr></thead><tbody>'' @ body @ ''</tbody></table>''\<close>

definition createVirtualItemHtml :: "string \<Rightarrow> string \<Rightarrow> string \<Rightarrow> string \<Rightarrow> string \<Rightarrow> string \<Rightarrow> string" where
  \<open>createVirtualItemHtml grp i typ txt ip mac =
     ''<tr onclick="centerNode('' @ [CHR 0x27] @ i @ [CHR 0x27] @
     '')" style="cursor: default" id="virtual_item_'' @ i @ ''" ><td>'' @ typ @ ''</td><td>'' @ txt @
     ''</td><td>'' @ ip @ ''</td><td>'' @ mac @ ''</td><td><a id="'' @ i @
     ''" onclick="window.delVirtualNetItem('' @ [CHR 0x27] @ grp @ [CHR 0x27] @ '','' @ [CHR 0x27] @ i @
     [CHR 0x27] @ '');" title="delete current node" class="btn">X</a></td></tr>''\<close>

section \<open>Search results\<close>

definition found_title :: "string \<Rightarrow> string" where
  \<open>found_title n =
     ''the number of nodes eligible: <font color="red">'' @ n @ ''</font>''\<close>

definition found_row :: "string \<Rightarrow> string \<Rightarrow> string \<Rightarrow> string" where
  \<open>found_row i typ txt =
     ''<tr onclick="centerNode('' @ [CHR 0x27] @ i @ [CHR 0x27] @
     '')" style="cursor:default;" id="virtual_item_'' @ i @ ''"><td>'' @ typ @ ''</td><td>'' @ i @
     ''</td><td>'' @ txt @ ''</td></tr>''\<close>

definition found_table :: "string \<Rightarrow> string" where
  \<open>found_table body =
     ''<table class="table table-hover"><thead><tr><th>type</th><th>ID</th><th>name</th></tr></thead><tbody>'' @
     body @ ''</tbody></table>''\<close>

section \<open>Windows\<close>

definition createMyTopoPopWin :: "string \<Rightarrow> string \<Rightarrow> string" where
  \<open>createMyTopoPopWin title body =
     ''<div class="modal" id="MyTopoPopWindows" style="position:absolute;left:'' @ ''285'' @ ''px;top:'' @
     ''40'' @
     ''px;width:360px;z-index:99999;display:none">  <div class="modal-header"> <button type="button" class='' @
     ''"close" onclick="document.getElementById('' @ [CHR 0x27] @ ''MyTopoPopWindows'' @ [CHR 0x27] @
     '').style.display='' @ [CHR 0x27] @ ''none'' @ [CHR 0x27] @
     ''" data-dismiss="modal" aria-hidden="true">x</button> <h3>'' @ title @
     ''</h3>  </div>  <div class="modal-body">'' @ body @ '' </div> <div class="modal-footer"></div></div>''\<close>

definition createDetailWin :: "string \<Rightarrow> string \<Rightarrow> string \<Rightarrow> string" where
  \<open>createDetailWin i title content =
     ''<div class="modal" id="'' @ i @ ''" style="position:absolute;width:'' @ ''260'' @
     ''px;z-index:99999;display:none;"> <div class="modal-header"> <h4>'' @ title @
     ''</h4> </div> <div class="modal-body"> <ul id="detail_div_content" style="list-style-type:none;margin'' @
     '':0 0 10px 2px;">'' @ content @ '' </ul> </div> </div>''\<close>

definition path_menu_html :: "string" where
  \<open>path_menu_html =
     ''<div class="modal" id="pathMenu" style="position:absolute;left:290px;top:85px;width:127px;height:44p'' @
     ''x;z-index:99999;display:none"><a class="btn btn-large btn-primary ">'' @
     [CHR 0xE6, CHR 0x9B, CHR 0xB4, CHR 0xE5, CHR 0xA4, CHR 0x9A, CHR 0xE8, CHR 0xB7, CHR 0xAF, CHR 0xE5, CHR 0xBE, CHR 0x84] @
     ''...</a></div>''\<close>

section \<open>Details\<close>

definition neighbour_row :: "string \<Rightarrow> string" where
  \<open>neighbour_row i =
     ''<tr><td colspan="3">'' @ i @ ''</td></tr>''\<close>

definition exchange_table :: "string \<Rightarrow> string \<Rightarrow> string \<Rightarrow> string \<Rightarrow> string" where
  \<open>exchange_table i ip mac nodes_html =
     ''<li><table width="100%" id="rateDetailTable"><tr><td width="60">ID:</td><td colspan="2" align="left">'' @
     i @ ''</td></tr><tr><td>IP:</td><td colspan="2" align="left">'' @ ip @
     ''</td></tr><tr><td>MAC:</td><td colspan="2" align="left">'' @ mac @
     ''</td></tr><tr><td colspan="3"><table class="table table-condensed"><thead><tr><td>transmit rate</td>'' @
     ''<td></td><td></td></tr></thead><tbody>'' @ nodes_html @ ''</tbody></table></td></tr></table></li>''\<close>

definition host_table :: "string \<Rightarrow> string \<Rightarrow> string \<Rightarrow> string \<Rightarrow> string" where
  \<open>host_table i ip mac port =
     ''<li><table width="100%" id="rateDetailTable"><tr><td width="60">ID:</td><td colspan="2" align="left">'' @
     i @ ''</td></tr><tr><td>IP:</td><td colspan="2" align="left">'' @ ip @
     ''</td></tr><tr><td>MAC:</td><td colspan="2" align="left">'' @ mac @ ''</td></tr><tr><td>'' @
     [CHR 0xE7, CHR 0xAE, CHR 0xA1, CHR 0xE7, CHR 0x90, CHR 0x86, CHR 0xE7, CHR 0xAB, CHR 0xAF, CHR 0xE5, CHR 0x8F, CHR 0xA3] @
     '':</td><td colspan="2" align="left">'' @ port @ ''</td></tr></table></li>''\<close>

section \<open>Paths\<close>

definition path_step :: "string \<Rightarrow> string" where
  \<open>path_step i =
     ''&#8595;&nbsp;&nbsp;&nbsp;'' @ i @ ''<br/>''\<close>

definition path_row_head :: "string \<Rightarrow> string \<Rightarrow> string \<Rightarrow> string" where
  \<open>path_row_head i node_link path =
     ''<tr  style="cursor: default;" id="virtual_item_'' @ i @ ''"><td onclick="showOptimalPath('' @ [CHR 0x27] @
     node_link @ [CHR 0x27] @ '');">'' @ path @ ''</td><td><a ''\<close>

definition path_row_hidden :: "string" where
  \<open>path_row_hidden =
     '' style="display: none;" ''\<close>

definition path_row_tail :: "string \<Rightarrow> string \<Rightarrow> string \<Rightarrow> string" where
  \<open>path_row_tail a b node_link =
     ''onclick="window.saveOptimalPath(this,'' @ [CHR 0x27] @ a @ [CHR 0x27] @ '','' @ [CHR 0x27] @ b @
     [CHR 0x27] @ '','' @ [CHR 0x27] @ node_link @ [CHR 0x27] @ '');return false;" class="setPathBtn btn">'' @
     [CHR 0xE8, CHR 0xAE, CHR 0xBE, CHR 0xE4, CHR 0xB8, CHR 0xBA, CHR 0xE6, CHR 0x9C, CHR 0x80, CHR 0xE4, CHR 0xBC, CHR 0x98] @
     ''</a></td></tr>''\<close>

definition path_table :: "string \<Rightarrow> string" where
  \<open>path_table body =
     ''<table class="table table-hover"><thead><tr><th>'' @
     [CHR 0xE8, CHR 0xB7, CHR 0xAF, CHR 0xE5, CHR 0xBE, CHR 0x84] @
     ''</th><th>setting</th></tr></thead><tbody>'' @ body @ ''</tbody></table>''\<close>

section \<open>Bandwidth\<close>

definition rate_head :: "string \<Rightarrow> string \<Rightarrow> string" where
  \<open>rate_head src port_z =
     ''<table  width="100%" id="rateDetailTable"><tr><td width="60">'' @
     [CHR 0xE5, CHR 0xBC, CHR 0x80, CHR 0xE5, CHR 0xA7, CHR 0x8B] @ '':</td><td colspan="2" align="left">'' @
     src @ ''('' @ port_z @ '')</td></tr>''\<close>

definition rate_host_end :: "string \<Rightarrow> string" where
  \<open>rate_host_end dst =
     ''<tr><td>'' @ [CHR 0xE7, CHR 0xBB, CHR 0x93, CHR 0xE6, CHR 0x9D, CHR 0x9F] @
     '':</td><td colspan="2" align="left">'' @ dst @ ''</td></tr>''\<close>

definition rate_switch_end :: "string \<Rightarrow> string \<Rightarrow> string" where
  \<open>rate_switch_end dst port_a =
     ''<tr><td>'' @ [CHR 0xE7, CHR 0xBB, CHR 0x93, CHR 0xE6, CHR 0x9D, CHR 0x9F] @
     '':</td><td colspan="2" align="left">'' @ dst @ ''('' @ port_a @ '')</td></tr>''\<close>

definition rate_body :: "(string \<Rightarrow> string) \<Rightarrow> string" where
  \<open>rate_body fld =
     ''<tr><td colspan="3" style="padding-top: 15px;"><div class="progress progress-striped"><div class="ba'' @
     ''r" style="width: '' @ fld ''usedPercent'' @
     ''%;"></div></div></td></tr><tr><td colspan="3"><div class="progress progress-striped"><div class="bar'' @
     ''" style="width: '' @ fld ''usedPercentRec'' @
     ''%;"></div></div></td></tr><tr><td colspan="3"><table class="table table-condensed"><thead><tr><td></'' @
     ''td><td>transmit</td><td>receive</td></tr></thead><tbody><tr><td>'' @ fld ''usedRateCN'' @ '':</td><td>'' @
     fld ''usedRate'' @ ''</td><td>'' @ fld ''usedRateRec'' @ ''</td></tr><tr><td>'' @ fld ''usedBpsCN'' @
     '':</td><td>'' @ fld ''usedBps'' @ ''</td><td>'' @ fld ''usedBpsRec'' @ ''</td></tr><tr><td>'' @
     fld ''usedStatusCN'' @ '':</td><td>'' @ fld ''usedStatus'' @ ''</td><td>'' @ fld ''usedStatusRec'' @
     ''</td></tr><tr><td colspan="3" ><input onclick="loadFabric();" id="fabric_button" style="float: right'' @
     ''" type="button" class="btn" value="fabric"/></td></tr></tbody></table>''\<close>

definition rate_window :: "string \<Rightarrow> string" where
  \<open>rate_window detail =
     ''<li id="rateDetailLi"><table><tr><td id="rateDetailDiv">'' @ detail @
     ''</td></tr></table></td><td id="fabric_content" valign="top" style="border: 1px solid #ddd;border-wid'' @
     ''th: 0px 0px 0px 1px;display: none;"><div style="height:300px;width:350px;overflow: auto;"><table   c'' @
     ''lass="table table-condensed"><thead><tr><td>'' @
     [CHR 0xE5, CHR 0xAF, CHR 0xB9, CHR 0xE5, CHR 0xBA, CHR 0x94, CHR 0xE8, CHR 0x8A, CHR 0x82, CHR 0xE7, CHR 0x82, CHR 0xB9] @
     ''</td><td>'' @ [CHR 0xE5, CHR 0xB8, CHR 0xA6, CHR 0xE5, CHR 0xAE, CHR 0xBD] @ ''</td><td>'' @
     [CHR 0xE6, CHR 0x93, CHR 0x8D, CHR 0xE4, CHR 0xBD, CHR 0x9C] @
     ''</td></tr></thead><tbody id="fabric_body"></tbody></table></div></td></tr></table></li>''\<close>

definition fabric_row :: "(string \<Rightarrow> string) \<Rightarrow> string" where
  \<open>fabric_row fld =
     ''<tr><td style="width:30px;">src:'' @ fld ''srcId'' @ ''('' @ fld ''srcPort'' @ '')<br>dst:'' @
     fld ''dstId'' @ ''('' @ fld ''dstPort'' @ '')</td><td>'' @ fld ''useRate'' @
     ''</td><td><a href="#" class="btn" onclick="changeFabric('' @ [CHR 0x27] @ fld ''srcId'' @ [CHR 0x27] @
     '','' @ [CHR 0x27] @ fld ''srcPort'' @ [CHR 0x27] @ '','' @ [CHR 0x27] @ fld ''dstId'' @ [CHR 0x27] @
     '','' @ [CHR 0x27] @ fld ''dstPort'' @ [CHR 0x27] @ '');">'' @
     [CHR 0xE8, CHR 0xB0, CHR 0x83, CHR 0xE6, CHR 0x95, CHR 0xB4] @ ''</a></td></tr>''\<close>

section \<open>Composed markup\<close>

definition getToolBarHtml :: string where
  "getToolBarHtml = toolbar_html @ search_types_html"

definition canvas_panel :: string where
  \<open>canvas_panel = ''<div id="canvasPanelDiv" class="dash">'' @ getToolBarHtml @ getCanvasDivHtml @ ''</div>''\<close>

definition path_row :: "string \<Rightarrow> string \<Rightarrow> string \<Rightarrow> string list \<Rightarrow> bool \<Rightarrow> string" where
  "path_row a b i paths optimal =
     (let path = concat (map path_step paths);
          node_link = concat (map (\<lambda>p. p @ '','') paths)
      in path_row_head i node_link path @ (if optimal then path_row_hidden else []) @ path_row_tail a b node_link)"

definition rate_detail :: "string \<Rightarrow> string \<Rightarrow> bool \<Rightarrow> string \<Rightarrow> string \<Rightarrow> (string \<Rightarrow> string) \<Rightarrow> string" where
  "rate_detail src port_z is_host dst port_a fld =
     rate_head src port_z @ (if is_host then rate_host_end dst else rate_switch_end dst port_a) @ rate_body fld"

section \<open>Balanced markup\<close>

lemma net_row_balanced [markup_simps]:
  "inert grp \<Longrightarrow> inert net_text \<Longrightarrow> balanced (net_row grp net_text)"
  unfolding net_row_def scan_append balanced_def
  by (simp add: scan_rules del: append_Cons)

lemma net_table_balanced [markup_simps]:
  "balanced body \<Longrightarrow> balanced (net_table body)"
  unfolding net_table_def scan_append balanced_def
  by (simp add: scan_rules del: append_Cons)

lemma createVirtualItemHtml_balanced [markup_simps]:
  "inert grp \<Longrightarrow> inert i \<Longrightarrow> inert typ \<Longrightarrow> inert txt \<Longrightarrow> inert ip \<Longrightarrow> inert mac \<Longrightarrow> balanced (createVirtualItemHtml grp i typ txt ip mac)"
  unfolding createVirtualItemHtml_def scan_append balanced_def
  by (simp add: scan_rules del: append_Cons)

lemma found_title_balanced [markup_simps]:
  "inert n \<Longrightarrow> balanced (found_title n)"
  unfolding found_title_def scan_append balanced_def
  by (simp add: scan_rules del: append_Cons)

lemma found_row_balanced [markup_simps]:
  "inert i \<Longrightarrow> inert typ \<Longrightarrow> inert txt \<Longrightarrow> balanced (found_row i typ txt)"
  unfolding found_row_def scan_append balanced_def
  by (simp add: scan_rules del: append_Cons)

lemma found_table_balanced [markup_simps]:
  "balanced body \<Longrightarrow> balanced (found_table body)"
  unfolding found_table_def scan_append balanced_def
  by (simp add: scan_rules del: append_Cons)

lemma createMyTopoPopWin_balanced [markup_simps]:
  "balanced title \<Longrightarrow> balanced body \<Longrightarrow> balanced (createMyTopoPopWin title body)"
  unfolding createMyTopoPopWin_def scan_append balanced_def
  by (simp add: scan_rules del: append_Cons)

lemma createDetailWin_balanced [markup_simps]:
  "inert i \<Longrightarrow> balanced title \<Longrightarrow> balanced content \<Longrightarrow> balanced (createDetailWin i title content)"
  unfolding createDetailWin_def scan_append balanced_def
  by (simp add: scan_rules del: append_Cons)

lemma neighbour_row_balanced [markup_simps]:
  "inert i \<Longrightarrow> balanced (neighbour_row i)"
  unfolding neighbour_row_def scan_append balanced_def
  by (simp add: scan_rules del: append_Cons)

lemma exchange_table_balanced [markup_simps]:
  "inert i \<Longrightarrow> inert ip \<Longrightarrow> inert mac \<Longrightarrow> balanced nodes_html \<Longrightarrow> balanced (exchange_table i ip mac nodes_html)"
  unfolding exchange_table_def scan_append balanced_def
  by (simp add: scan_rules del: append_Cons)

lemma host_table_balanced [markup_simps]:
  "inert i \<Longrightarrow> inert ip \<Longrightarrow> inert mac \<Longrightarrow> inert port \<Longrightarrow> balanced (host_table i ip mac port)"
  unfolding host_table_def scan_append balanced_def
  by (simp add: scan_rules del: append_Cons)

lemma path_step_balanced [markup_simps]:
  "inert i \<Longrightarrow> balanced (path_step i)"
  unfolding path_step_def scan_append balanced_def
  by (simp add: scan_rules del: append_Cons)

lemma path_table_balanced [markup_simps]:
  "balanced body \<Longrightarrow> balanced (path_table body)"
  unfolding path_table_def scan_append balanced_def
  by (simp add: scan_rules del: append_Cons)

lemma path_row_balanced [markup_simps]:
  assumes "inert a" "inert b" "inert i" "list_all inert paths"
  shows "balanced (path_row a b i paths optimal)"
proof -
  have p: "balanced (concat (map path_step paths))"
    using assms(4) by (intro balanced_concat) (auto simp: list_all_iff path_step_balanced)
  have l: "inert (concat (map (\<lambda>p. p @ '','') paths))"
    using assms(4) by (auto simp: inert_concat list_all_iff) (simp_all add: inert_def)
  show ?thesis
    unfolding path_row_def Let_def path_row_head_def path_row_hidden_def path_row_tail_def scan_append balanced_def
    by (cases optimal) (simp_all add: scan_rules assms p l del: append_Cons)
qed

lemma rate_detail_open:
  assumes "inert src" "inert port_z" "inert dst" "inert port_a" "\<And>k. inert (fld k)"
  shows "scan (rate_detail src port_z is_host dst port_a fld) (Txt, stk) = Some (Txt, ''td'' # ''tr'' # ''table'' # stk)"
  unfolding rate_detail_def rate_head_def rate_host_end_def rate_switch_end_def rate_body_def scan_append
  by (cases is_host) (simp_all add: scan_rules assms del: append_Cons)

lemma rate_window_balanced:
  assumes "\<And>stk. scan detail (Txt, stk) = Some (Txt, ''td'' # ''tr'' # ''table'' # stk)"
  shows "balanced (rate_window detail)"
  unfolding rate_window_def scan_append balanced_def
  by (simp add: scan_rules assms del: append_Cons)

lemma fabric_row_balanced [markup_simps]:
  "(\<And>k. inert (fld k)) \<Longrightarrow> balanced (fabric_row fld)"
  unfolding fabric_row_def scan_append balanced_def
  by (simp add: scan_rules del: append_Cons)

end
