(* ===== verification/Topo_Ui.thy ===== *)
theory Topo_Ui
  imports Topo_Html Browser Cookies
begin

text \<open>
  The page of the topology (second half of \<open>jtopo/js/open.js\<close>): start, menus, switching and saving the
  layout, search, virtual networks, detail windows, paths, bandwidth and full screen.  The state holds
  the page, the object \<open>Topo\<close>, the variables of the script and the cookies.  A handler ends with an
  exception or normally; what it did before stays done.  The data of a POST is written as its object,
  not in the encoding that the library sends.
\<close>

section \<open>State\<close>

record mouse_event =
  ev_kind :: layout_kind
  ev_target :: "elem option"
  ev_button :: int
  ev_pageX :: int
  ev_pageY :: int
  ev_x :: real
  ev_y :: real

text \<open>
  What a pending request or timer runs.  The timer that shows details has a number, the one that
  \<open>setTimeout\<close> returned for it.
\<close>

datatype ui_cont =
    KData layout_kind
  | KHosts layout_kind nat real real
  | KLayout
  | KPoll
  | KDetail layout_kind nat
  | KRateThread
  | KInterval
  | KUpdateInterval jsval
  | KSaveTopo
  | KAddItems "(string \<times> string \<times> string) list"
  | KSaveNet string string
  | KNets
  | KShowNet
  | KItems string
  | KDelItem string
  | KOptimal
  | KAllPaths string string
  | KSaveOptimal string
  | KRate
  | KFabric
  | KFabricSet
  | KRateUsed

datatype ui_handler =
    HTree | HGrid | HSelectMode | HRateConfig | HTopoSave | HSearchTypes | HHideTypes | HSearchType | HSearch
  | HCreateNet | HShowNets | HAddToNet | HResize | HRadio | HHideMenu | HGroup | HPaths string string

record ui =
  u_page :: "(ui_handler, ui_cont) page"
  u_topo :: topo
  u_body :: "(string \<times> string) list"
  u_checked :: "string \<Rightarrow> bool"
  u_chart :: "real \<times> real"
  u_canvas :: "string \<Rightarrow> real \<times> real"
  u_jar :: jar
  u_now :: int
  u_path :: string
  u_search :: string
  u_data :: "jsval option \<times> jsval option"
  u_ip :: string
  u_port :: jsval
  u_interval :: jsval
  u_last :: "(layout_kind \<times> nat) option"
  u_form :: bool
  u_create :: bool
  u_layout :: string
  u_net :: string
  u_shows :: string
  u_mouse :: "mouse_event option"
  u_detail :: "(layout_kind \<times> elem) option"
  u_rate :: "(layout_kind \<times> nat) option"
  u_full :: bool
  u_calls :: "string list"
  u_mouseTimer :: "layout_kind \<Rightarrow> nat option"
  u_timeouts :: nat

type_synonym act = "ui \<Rightarrow> js_error option \<times> ui"

definition ok :: "(ui \<Rightarrow> ui) \<Rightarrow> act" where
  "ok f u = (None, f u)"

fun run_acts :: "act list \<Rightarrow> act" where
  "run_acts [] u = (None, u)"
| "run_acts (a # as) u = (case a u of (None, u') \<Rightarrow> run_acts as u' | (Some e, u') \<Rightarrow> (Some e, u'))"

definition pg :: "((ui_handler, ui_cont) page \<Rightarrow> (ui_handler, ui_cont) page) \<Rightarrow> act" where
  "pg f = ok (\<lambda>u. u\<lparr>u_page := f (u_page u)\<rparr>)"

definition pgs :: "((ui_handler, ui_cont) page \<Rightarrow> (ui_handler, ui_cont) page) list \<Rightarrow> act" where
  "pgs fs = pg (steps fs)"

definition tp :: "(topo \<Rightarrow> outcome) \<Rightarrow> act" where
  "tp f u = (case f (u_topo u) of (e, t) \<Rightarrow> (e, u\<lparr>u_topo := t\<rparr>))"

definition fails :: "js_error \<Rightarrow> act" where
  "fails e u = (Some e, u)"

definition act_if :: "bool \<Rightarrow> act \<Rightarrow> act" where
  "act_if b a = (if b then a else ok id)"

text \<open>What reads properties of some values, none of which may be null or undefined.\<close>

definition needs :: "jsval list \<Rightarrow> act \<Rightarrow> act" where
  "needs vs a = (if list_ex nullish vs then fails TypeError else a)"

text \<open>Elements appended to the body, by id.\<close>

definition body_append :: "string \<Rightarrow> string \<Rightarrow> act" where
  "body_append i html = ok (\<lambda>u. u\<lparr>u_body := u_body u @ [(i, html)]\<rparr>)"

definition body_remove :: "string \<Rightarrow> act" where
  "body_remove i = ok (\<lambda>u. u\<lparr>u_body := filter (\<lambda>e. fst e \<noteq> i) (u_body u),
     u_page := set_shown (''#'' @ i) False (u_page u)\<rparr>)"

definition in_body :: "string \<Rightarrow> ui \<Rightarrow> bool" where
  "in_body i u \<longleftrightarrow> i \<in> fst ` set (u_body u)"

definition url_params :: "ui \<Rightarrow> string" where
  "url_params u = ''?ip='' @ u_ip u @ ''&port='' @ js_str (u_port u)"

definition form :: "(string \<times> jsval) list \<Rightarrow> string" where
  "form kvs = json_str (JObj kvs)"

definition post :: "string \<Rightarrow> (string \<times> jsval) list \<Rightarrow> ui_cont \<Rightarrow> act" where
  "post url kvs k = pg (send POST url (form kvs) k)"

definition get_url :: "string \<Rightarrow> ui_cont \<Rightarrow> act" where
  "get_url url k = pg (send GET url [] k)"

section \<open>Addresses and tables\<close>

definition base_path :: string where
  "base_path = ''../topology/''"

definition topo_path :: "string \<Rightarrow> string" where
  "topo_path n =
     (if n = ''interval_load'' then base_path @ ''interval_read.json''
      else if n = ''interval_save'' then base_path @ ''interval_save.json''
      else if n = ''detail_exchange'' then base_path @ ''detail_exchange.json''
      else if n = ''detail_rate'' then base_path @ ''detail_rate.json''
      else if n = ''fabric'' then base_path @ ''link_fabric.json''
      else if n = ''fabric_set'' then base_path @ ''link_fabric_set.json''
      else if n = ''detail_host'' then base_path @ ''detail_host.json''
      else if n = ''rate_used'' then base_path @ ''rate_used.json''
      else if n = ''vitural_net'' then ''/controller/web/group/'' @ ''main''
      else if n = ''virtual_net_save'' then ''/controller/web/group/'' @ ''group''
      else if n = ''virtual_net_items'' then ''/controller/web/group/'' @ ''groupDetails''
      else if n = ''virtual_net_item_del'' then base_path @ ''virtual_net_item_del.json''
      else if n = ''virtual_net_item_add'' then ''/controller/web/group/'' @ ''node/add''
      else if n = ''search'' then base_path @ ''search_results.json''
      else if n = ''optimal_path'' then base_path @ ''path_optimal.json''
      else if n = ''optimal_path_all'' then base_path @ ''path_optimal_all.json''
      else if n = ''optimal_path_save'' then base_path @ ''path_optimal_save.json''
      else if n = ''exchange_tree'' then base_path @ ''exchange_tree.json''
      else if n = ''exchange_circle'' then base_path @ ''exchange_circle.json''
      else if n = ''exchange_host'' then base_path @ ''exchange_host.json''
      else if n = ''exchange_topo_save'' then base_path @ ''data/exchange_save.json''
      else if n = ''dynamic_add_delete'' then base_path @ ''data/dynamic_add_delete.json''
      else [])"

definition link_colors :: "string list" where
  "link_colors = [''4,220,9'', ''255,255,0'', ''255,150,150'', ''255,0,0'', ''255,0,0'']"

definition rate_used :: "int list" where
  "rate_used = [0, 1, 2, 3, 4]"

section \<open>Canvas and layout\<close>

definition canvas_size :: "string \<Rightarrow> real \<times> real \<Rightarrow> ui \<Rightarrow> ui" where
  "canvas_size i s u = u\<lparr>u_canvas := (u_canvas u)(i := s)\<rparr>"

definition resizeCanvas :: act where
  "resizeCanvas = ok (\<lambda>u. canvas_size ''canvas_circle'' (fst (u_chart u), snd (u_chart u) - 50)
     (canvas_size ''canvas_tree'' (fst (u_chart u), snd (u_chart u) - 50) u))"

definition saveCurrentLayout :: act where
  "saveCurrentLayout = ok (\<lambda>u. u\<lparr>u_jar := setCookie ''current_vancas'' (u_layout u) (Some 200) (u_path u) (u_now u) (u_jar u)\<rparr>)"

definition getCurrentLayout :: "ui \<Rightarrow> string" where
  "getCurrentLayout u = getCookie_open ''current_vancas'' (document_cookie (u_now u) (u_jar u))"

definition showTreeCanvas :: act where
  "showTreeCanvas = run_acts
     [pgs [add_class ''#tree'' ''active'', remove_class ''#grid'' ''active'',
           set_shown ''#canvas_tree'' True, set_shown ''#canvas_circle'' False],
      tp (\<lambda>t. (None, setCurrentLayout ''tree'' t)),
      ok (\<lambda>u. u\<lparr>u_layout := ''tree''\<rparr>),
      saveCurrentLayout]"

definition showCircleCanvas :: act where
  "showCircleCanvas = run_acts
     [pgs [add_class ''#grid'' ''active'', remove_class ''#tree'' ''active'',
           set_shown ''#canvas_circle'' True, set_shown ''#canvas_tree'' False],
      tp (\<lambda>t. (None, setCurrentLayout ''circle'' t)),
      ok (\<lambda>u. u\<lparr>u_layout := ''circle''\<rparr>),
      saveCurrentLayout]"

section \<open>Menus\<close>

definition initContextMenu :: act where
  "initContextMenu = run_acts [body_append ''contextmenu'' contextmenu_html, pg (on_click ''document'' HHideMenu)]"

definition onHideMenu :: "int \<Rightarrow> act" where
  "onHideMenu button = act_if (button \<noteq> 2) (pg (set_shown ''#contextmenu'' False))"

definition canvas_mouseup :: "mouse_event \<Rightarrow> act" where
  "canvas_mouseup ev = act_if (ev_button ev = 2)
     (pgs [set_css ''#contextmenu'' ''left'' (show_int (ev_pageX ev)), set_css ''#contextmenu'' ''top'' (show_int (ev_pageY ev)),
           set_shown ''#contextmenu'' True])"

definition layoutALL :: act where
  "layoutALL = pgs [set_css ''#right-top'' ''height'' ''100%'', set_css ''#right-bottom'' ''height'' ''0'']"

definition initUI :: act where
  "initUI = run_acts [initContextMenu, body_append ''virtualNetBody'' initVirtualNetPanel]"

definition onSelectMode :: "bool \<Rightarrow> act" where
  "onSelectMode checked = tp (\<lambda>t. on_both (\<lambda>v. v\<lparr>v_mode := if checked then ''select'' else ''normal''\<rparr>) t)"

definition onRateConfig :: act where
  "onRateConfig u =
     run_acts [act_if (\<not> u_form u) (run_acts
        [ok (\<lambda>u. u\<lparr>u_form := True\<rparr>), pg (append_html ''#toolbar'' (refresh_form (js_str (u_interval u))))]),
      pg (set_shown ''#refreshSettingModal'' True)] u"

definition onTopoSave :: "(coord \<Rightarrow> string) \<Rightarrow> act" where
  "onTopoSave num u =
     (case serilize num (u_topo u) of
        Inl e \<Rightarrow> (Some e, u)
      | Inr data \<Rightarrow> post (topo_path ''exchange_topo_save'') [(''layout'', JStr (u_layout u)), (''data'', JStr data)] KSaveTopo u)"

text \<open>The search types: a click on one marks it and copies its label to the button.\<close>

definition type_label :: "string \<Rightarrow> string" where
  "type_label n = (if n = ''exchange'' then ''switches'' else if n = ''host'' then ''servers'' else n)"

definition type_mark :: "string \<Rightarrow> bool \<Rightarrow> (ui_handler, ui_cont) page \<Rightarrow> (ui_handler, ui_cont) page" where
  "type_mark n b = set_css (''.searchtype:'' @ n) ''class'' (if b then ''searchtype btn btn-success'' else ''searchtype btn btn-default'')"

definition onSearchType :: "string \<Rightarrow> act" where
  "onSearchType n = pgs (map (\<lambda>m. type_mark m False) [''all'', ''exchange'', ''host''] @
     [set_val ''#searchType'' (JStr n), type_mark n True, set_html ''#searchTypeButton'' (type_label n)])"

definition initEvent :: act where
  "initEvent = pgs
     [on_click ''#tree'' HTree, on_click ''#grid'' HGrid, on_click ''#selectModeCheck'' HSelectMode,
      on_click ''#rateConfig'' HRateConfig, on_click ''#topoSaveBtn'' HTopoSave, on_click ''#searchTypeButton'' HSearchTypes,
      on_click ''document'' HHideTypes, on_click ''.searchtype'' HSearchType, on_click ''#searchButton'' HSearch,
      on_click ''#createVirtualNetBtn'' HCreateNet, on_click ''#showVirtualNetBtn'' HShowNets,
      on_click ''#addToVirtualNet'' HAddToNet, on_click ''#resizeBtn'' HResize, on_click ''#rateUsedRadio'' HRadio]"

end
