(* ===== verification/Topo_Nets.thy ===== *)
theory Topo_Nets
  imports Topo_Ui
begin

text \<open>
  Virtual networks and the search of \<open>jtopo/js/open.js\<close>.  The lists in the answers are arrays, and addresses in
  the data of a node are strings.
\<close>

definition to_str :: "jsval \<Rightarrow> string \<Rightarrow> string" where
  "to_str v k = js_str (pget v k)"

text \<open>The window that shows lists: the old one is removed, the new one appended, sized and shown.\<close>

definition popup :: "string \<Rightarrow> string \<Rightarrow> int \<Rightarrow> act" where
  "popup title body width = run_acts
     [body_remove ''MyTopoPopWindows'', body_append ''MyTopoPopWindows'' (createMyTopoPopWin title body),
      pgs [set_css ''#MyTopoPopWindows'' ''width'' (show_int width), set_shown ''#MyTopoPopWindows'' True]]"

definition flash_act :: "string list \<Rightarrow> nat \<Rightarrow> act" where
  "flash_act ids n = (if ids = [] then ok id else tp (highlightNodes ids n))"

section \<open>Virtual networks\<close>

definition createVirtualNet :: act where
  "createVirtualNet = run_acts
     [ok (\<lambda>u. if u_create u then u
              else u\<lparr>u_create := True, u_body := u_body u @ [(''one.main.config.id'', create_net_form)]\<rparr>),
      pgs [set_css ''#one.main.config.id'' ''width'' ''300'', set_shown ''#one.main.config.id'' True]]"

definition saveVirtualNet :: act where
  "saveVirtualNet u =
     (let name = vals (u_page u) ''#input_virtual_net_name'';
          net_text = vals (u_page u) ''#input_virtual_net_text'';
          desc = vals (u_page u) ''#input_virtual_net_desc''
      in run_acts
        [pgs [set_val ''#input_virtual_net_name'' (JStr []), set_val ''#input_virtual_net_text'' (JStr []),
              set_val ''#input_virtual_net_desc'' (JStr [])],
         post (topo_path ''virtual_net_save'') [(''name'', JStr name), (''text'', JStr net_text), (''desc'', JStr desc)]
           (KSaveNet name net_text)] u)"

text \<open>The answer: the row that would be shown reads a variable \<open>obj\<close> that does not exist.\<close>

definition onSaveNet :: "jsval \<Rightarrow> act" where
  "onSaveNet dataObj = needs [dataObj] (run_acts
     [pg (js_alert (to_str dataObj ''message'')),
      if js_eq (pget dataObj ''status'') (JStr ''true'') then fails ReferenceError else ok id])"

definition loadVirtualNet :: act where
  "loadVirtualNet = get_url (topo_path ''vitural_net'') KNets"

definition onNets :: "jsval \<Rightarrow> act" where
  "onNets dataObj = needs [dataObj] (run_acts
     (map (\<lambda>obj. needs [obj] (pg (append_html ''#virtual_body'' (net_row (to_str obj ''group'') (to_str obj ''text'')))))
        (arr_items dataObj) @
      [pg (on_click ''.groupAjust'' HGroup)]))"

definition onGroup :: "string \<Rightarrow> act" where
  "onGroup left_width = pgs [set_css ''#virtualGroupDetail'' ''width'' left_width, set_shown ''#virtualGroupDetail'' True]"

definition showVirtualNetAllNode :: "string \<Rightarrow> act" where
  "showVirtualNetAllNode name = get_url (topo_path ''virtual_net_items'' @ ''?group='' @ name) KShowNet"

definition onShowNet :: "jsval \<Rightarrow> act" where
  "onShowNet dataObj =
     (let items = arr_items (pget dataObj ''items'');
          ids = map (\<lambda>e. to_str e ''nodeId'') items
      in if items = [] then fails TypeError
         else needs items (run_acts [tp (centerNode (hd ids)), flash_act ids 6]))"

definition loadVirtualNetItems :: "string \<Rightarrow> act" where
  "loadVirtualNetItems name = get_url (topo_path ''virtual_net_items'' @ ''?group='' @ name) (KItems name)"

definition onItems :: "string \<Rightarrow> jsval \<Rightarrow> act" where
  "onItems name dataObj =
     (let items = arr_items (pget dataObj ''items'');
          row = (\<lambda>e. createVirtualItemHtml (to_str dataObj ''group'') (to_str e ''nodeId'') (to_str e ''type'')
             (to_str e ''text'') (to_str e ''ip'') (to_str e ''mac''))
      in run_acts
        [ok (\<lambda>u. u\<lparr>u_net := name, u_shows := ''vn''\<rparr>),
         needs (pget dataObj ''items'' # items) (ok id),
         popup name (net_table (concat (map row items))) 500,
         flash_act (map (\<lambda>e. to_str e ''nodeId'') items) 6])"

definition centerNode_act :: "string \<Rightarrow> act" where
  "centerNode_act i = run_acts [tp (centerNode i), flash_act [i] 6]"

definition showVirtualNetPanel :: act where
  "showVirtualNetPanel u = popup ''virtualNet list'' (htmls (u_page u) ''#virtualNetBody'') 500 u"

text \<open>The nodes selected in the current view, with what a row shows of them.\<close>

definition selected_items :: "ui \<Rightarrow> (string \<times> string \<times> string) list" where
  "selected_items u = (case stage (u_topo u) of None \<Rightarrow> []
     | Some v \<Rightarrow> map (\<lambda>a. (n_id (nodes v ! a), n_type (nodes v ! a), n_text (nodes v ! a))) (getSelectedNode v))"

definition none_selected :: string where
  "none_selected = ''Currently no node selected, left click to select node''"

definition no_net_shown :: string where
  "no_net_shown = ''No corresponding virtual network selected, please select specific virtual network entry details''"

definition onAddToNet :: act where
  "onAddToNet u =
     (if stage (u_topo u) = None then (Some TypeError, u)
      else let sel = selected_items u
           in if sel = [] then pg (js_alert none_selected) u
              else if \<not> shown (u_page u) ''#MyTopoPopWindows'' then pg (js_alert no_net_shown) u
              else if u_shows u = ''vn'' then
                post (topo_path ''virtual_net_item_add'')
                  [(''group'', JStr (u_net u)), (''nodeId'', JStr (concat (map (\<lambda>(i, t, x). '','' @ i) sel)))] (KAddItems sel) u
              else (None, u))"

text \<open>\<open>ip\<close> and \<open>mac\<close> are read from the node, which has no such properties.\<close>

definition onAdded :: "(string \<times> string \<times> string) list \<Rightarrow> jsval \<Rightarrow> act" where
  "onAdded sel dataObj u =
     needs [dataObj] (act_if (js_eq (pget dataObj ''status'') (JStr ''true''))
       (pgs (map (\<lambda>(i, t, x) p. set_html ''#MyTopoPopWindows tbody''
          (createVirtualItemHtml (u_net u) i t x ''undefined'' ''undefined'' @ htmls p ''#MyTopoPopWindows tbody'') p) sel))) u"

definition delVirtualNetItem :: "string \<Rightarrow> string \<Rightarrow> act" where
  "delVirtualNetItem grp nodeId = post (topo_path ''virtual_net_item_del'') [] (KDelItem nodeId)"

definition onDelItem :: "string \<Rightarrow> jsval \<Rightarrow> act" where
  "onDelItem nodeId dataObj = needs [dataObj] (run_acts
     [pg (js_alert (to_str dataObj ''message'')),
      act_if (js_eq (pget dataObj ''status'') (JStr ''true'')) (body_remove (''virtual_item_'' @ nodeId))])"

section \<open>Search\<close>

text \<open>A field that is present and not empty excludes a node when it does not contain the text.\<close>

definition excludes :: "jsval \<Rightarrow> string \<Rightarrow> bool" where
  "excludes v s \<longleftrightarrow> truthy v \<and> s \<noteq> [] \<and> \<not> has_substr s (js_str v)"

definition type_matches :: "string \<Rightarrow> string \<Rightarrow> bool" where
  "type_matches typ t \<longleftrightarrow> (typ = ''exchange'' \<longrightarrow> t = ''switch'') \<and> (typ = ''host'' \<longrightarrow> t = ''host'')"

definition found :: "string \<Rightarrow> string \<Rightarrow> topo_node \<Rightarrow> bool" where
  "found typ s n \<longleftrightarrow> type_matches typ (n_type n) \<and>
     \<not> (s \<noteq> [] \<and> \<not> has_substr s (n_id n) \<or> excludes (pget (n_data n) ''ip'') s \<or> excludes (pget (n_data n) ''mac'') s)"

definition results :: "string \<Rightarrow> string \<Rightarrow> view \<Rightarrow> nat list" where
  "results typ s v = filter (\<lambda>a. found typ s (nodes v ! a)) (find_nodes v)"

definition doSearch :: act where
  "doSearch u =
     (case stage (u_topo u) of
        None \<Rightarrow> (Some TypeError, u)
      | Some v \<Rightarrow>
          (let s = js_trim (vals (u_page u) ''#searchName'');
               ns = map ((!) (nodes v)) (results (vals (u_page u) ''#searchType'') s v)
           in run_acts
             [ok (\<lambda>u. u\<lparr>u_shows := ''rs''\<rparr>),
              popup (found_title (show_nat (length ns)))
                (found_table (concat (map (\<lambda>n. found_row (n_id n) (n_type n) (n_text n)) ns))) 450] u))"

end
