(* ===== verification/Topo_Rates.thy ===== *)
theory Topo_Rates
  imports Topo_Nets
begin

text \<open>Detail windows, paths, bandwidth and full screen of \<open>jtopo/js/open.js\<close>.\<close>

section \<open>Detail windows\<close>

text \<open>The window is made at the first use; later only its content and title change.\<close>

definition detail_window :: "string \<Rightarrow> string \<Rightarrow> act" where
  "detail_window title content u =
     run_acts
       [if in_body ''detailDiv'' u then ok id else body_append ''detailDiv'' (createDetailWin ''detailDiv'' title content),
        pg (set_html ''#detailDiv ul'' content)] u"

definition detail_at :: "mouse_event \<Rightarrow> (ui_handler, ui_cont) page \<Rightarrow> (ui_handler, ui_cont) page" where
  "detail_at ev p = set_css ''#detailDiv'' ''left'' (show_int (ev_pageX ev + 260 + 25))
     (set_css ''#detailDiv'' ''top'' (show_int (ev_pageY ev + 15)) p)"

text \<open>The ids of \<open>upNode\<close> or \<open>downNode\<close>; a datum without the field ends the handler.\<close>

definition neighbour_ids :: "jsval \<Rightarrow> string list option" where
  "neighbour_ids v = (if nullish v then None else Some (map (\<lambda>x. fst (neighbour x)) (neighbour_items v)))"

definition loadExchangeDetail :: "mouse_event \<Rightarrow> jsval \<Rightarrow> act" where
  "loadExchangeDetail ev dataObj =
     (case (neighbour_ids (pget dataObj ''upNode''), neighbour_ids (pget dataObj ''downNode'')) of
        (Some ups, Some downs) \<Rightarrow>
          (let table = exchange_table (to_str dataObj ''id'') (to_str dataObj ''ip'') (to_str dataObj ''mac'')
                 (concat (map neighbour_row (ups @ downs)))
           in run_acts
             [detail_window ''Exchange Detail'' table,
              pgs [detail_at ev, set_css ''#detailDiv'' ''width'' ''280'', set_html ''#detailDiv h4'' ''switch information'',
                   set_shown ''#detailDiv'' True]])
      | _ \<Rightarrow> fails TypeError)"

definition host_title :: string where
  "host_title = [CHR 0xE6, CHR 0x9C, CHR 0x8D, CHR 0xE5, CHR 0x8A, CHR 0xA1, CHR 0xE5, CHR 0x99, CHR 0xA8,
     CHR 0xE8, CHR 0xAF, CHR 0xA6, CHR 0xE6, CHR 0x83, CHR 0x85]"

definition loadHostDetail :: "mouse_event \<Rightarrow> jsval \<Rightarrow> act" where
  "loadHostDetail ev dataObj = run_acts
     [detail_window host_title
        (host_table (to_str dataObj ''id'') (to_str dataObj ''ip'') (to_str dataObj ''mac'') (to_str dataObj ''port'')),
      pgs [set_html ''#detailDiv h4'' host_title, detail_at ev, set_shown ''#detailDiv'' True]]"

section \<open>The refresh interval\<close>

definition loadInterval :: act where
  "loadInterval u = get_url (topo_path ''interval_load'' @ url_params u) KInterval u"

definition onInterval :: "jsval \<Rightarrow> act" where
  "onInterval data =
     (if nullish data \<or> nullish (pget data ''data'') then fails TypeError
      else ok (\<lambda>u. u\<lparr>u_interval := pget (pget data ''data'') ''interval''\<rparr>))"

definition updateInterval :: "jsval \<Rightarrow> act" where
  "updateInterval interval u = post (topo_path ''interval_save'')
     [(''interval'', interval), (''ip'', JStr (u_ip u)), (''port'', u_port u)] (KUpdateInterval interval) u"

definition onUpdateInterval :: "jsval \<Rightarrow> jsval \<Rightarrow> act" where
  "onUpdateInterval interval dataObj =
     (if js_eq (pget dataObj ''status'') (JNum (Fin 0)) then
        run_acts [pg (js_alert ''success''), ok (\<lambda>u. u\<lparr>u_interval := interval\<rparr>), pg (set_shown ''#refreshSettingModal'' False)]
      else pg (js_alert ''failed''))"

section \<open>Paths\<close>

definition addPathMenu :: act where
  "addPathMenu = run_acts [body_remove ''pathMenu'', body_append ''pathMenu'' path_menu_html]"

definition fade :: act where
  "fade = ok (\<lambda>u. u\<lparr>u_topo := snd (on_stage fadeAllLinks (u_topo u))\<rparr>)"

definition loadOptimalPath :: "string \<Rightarrow> string \<Rightarrow> act" where
  "loadOptimalPath a b u = post (topo_path ''optimal_path'')
     [(''srcId'', JStr a), (''dstId'', JStr b), (''ip'', JStr (u_ip u)), (''port'', u_port u)] KOptimal u"

definition onOptimal :: "jsval \<Rightarrow> act" where
  "onOptimal dataObj = run_acts [fade, needs [dataObj] (tp (on_stage (boldLink (arr_items dataObj))))]"

definition showOptimalPath :: "string \<Rightarrow> act" where
  "showOptimalPath nodeIds = run_acts [fade, tp (on_stage (boldLink (map JStr (split_on CHR '','' nodeIds))))]"

definition showAllPath :: "string \<Rightarrow> string \<Rightarrow> act" where
  "showAllPath a b = post (topo_path ''optimal_path_all'') [(''srcId'', JStr a), (''dstId'', JStr b)] (KAllPaths a b)"

definition all_paths_title :: "string \<Rightarrow> string \<Rightarrow> string" where
  "all_paths_title a b = a @ [CHR 0xE5, CHR 0x88, CHR 0xB0] @ ''<br/>'' @ b"

definition onAllPaths :: "string \<Rightarrow> string \<Rightarrow> jsval \<Rightarrow> act" where
  "onAllPaths a b dataObj = needs (dataObj # map (\<lambda>e. pget e ''path'') (arr_items dataObj))
     (popup (all_paths_title a b)
       (path_table (concat (map (\<lambda>e. path_row a b (to_str e ''nodeId'') (map js_str (arr_items (pget e ''path'')))
          (truthy (pget e ''optimal''))) (arr_items dataObj)))) 400)"

definition saveOptimalPath :: "string \<Rightarrow> string \<Rightarrow> string \<Rightarrow> string \<Rightarrow> act" where
  "saveOptimalPath btn srcId dstId path = post (topo_path ''optimal_path_save'')
     [(''srcId'', JStr srcId), (''dstId'', JStr dstId), (''link'', JStr path)] (KSaveOptimal btn)"

definition onSaveOptimal :: "string \<Rightarrow> jsval \<Rightarrow> act" where
  "onSaveOptimal btn dataObj = needs [dataObj] (run_acts
     [act_if (js_eq (pget dataObj ''status'') (JStr ''true''))
        (pgs [set_shown ''.setPathBtn'' True, set_shown btn False]),
      pg (js_alert (to_str dataObj ''message''))])"

text \<open>A click on a node while paths are shown.\<close>

definition node_id :: "layout_kind \<Rightarrow> nat \<Rightarrow> ui \<Rightarrow> string" where
  "node_id k a u = (case view_of k (u_topo u) of None \<Rightarrow> [] | Some v \<Rightarrow> id_of v a)"

definition extend_path :: "mouse_event \<Rightarrow> nat \<Rightarrow> act" where
  "extend_path ev a u =
     (case u_last u of
        None \<Rightarrow> (None, u\<lparr>u_last := Some (ev_kind ev, a)\<rparr>)
      | Some (k, b) \<Rightarrow>
          if (k, b) = (ev_kind ev, a) then (None, u)
          else let x = node_id k b u; y = node_id (ev_kind ev) a u
               in run_acts
                 [loadOptimalPath x y,
                  pgs [set_css ''#pathMenu'' ''top'' (show_int (ev_pageY ev + 17)),
                       set_css ''#pathMenu'' ''left'' (show_int (ev_pageX ev + 287)),
                       set_shown ''#pathMenu'' True, off_click ''#pathMenu'', on_click ''#pathMenu'' (HPaths x y)]] u)"

definition showPath :: "mouse_event \<Rightarrow> act" where
  "showPath ev = run_acts
     [pg (set_shown ''#pathMenu'' False),
      (case ev_target ev of
         Some (ENode a) \<Rightarrow> (\<lambda>u. act_if (u_checked u ''#pathCheck'') (run_acts [fade, extend_path ev a]) u)
       | _ \<Rightarrow> ok id)]"

definition onPathMenu :: "string \<Rightarrow> string \<Rightarrow> act" where
  "onPathMenu a b = run_acts [showAllPath a b, pg (set_shown ''#pathMenu'' False)]"

section \<open>Bandwidth\<close>

definition loadRateUsedDataThread :: act where
  "loadRateUsedDataThread = pg (set_timer KRateThread)"

text \<open>The ends and ports of the link whose bandwidth is shown.\<close>

definition rate_link :: "ui \<Rightarrow> (topo_link \<times> topo_node \<times> topo_node) option" where
  "rate_link u = (case u_rate u of None \<Rightarrow> None
     | Some (k, l) \<Rightarrow> map_option (\<lambda>v. (links v ! l, nodes v ! l_a (links v ! l), nodes v ! l_z (links v ! l))) (view_of k (u_topo u)))"

definition refreshRateDetail :: act where
  "refreshRateDetail u =
     (case rate_link u of
        None \<Rightarrow> (Some TypeError, u)
      | Some (k, src, dst) \<Rightarrow>
          get_url (topo_path ''detail_rate'' @ url_params u @ ''&srcNodeId='' @ n_id src @ ''&dstNodeId='' @ n_id dst) KRate u)"

definition rate_title :: string where
  "rate_title = [CHR 0xE5, CHR 0xB8, CHR 0xA6, CHR 0xE5, CHR 0xAE, CHR 0xBD, CHR 0xE7, CHR 0x8A, CHR 0xB6,
     CHR 0xE6, CHR 0x80, CHR 0x81]"

text \<open>What is shown of \<open>#rateDetailTable\<close> and \<open>#rateDetailLi\<close> is read off the content of the window.\<close>

definition content_shows :: "string \<Rightarrow> ui \<Rightarrow> bool" where
  "content_shows s u \<longleftrightarrow> in_body ''detailDiv'' u \<and> shown (u_page u) ''#detailDiv'' \<and> has_substr s (htmls (u_page u) ''#detailDiv ul'')"

definition onRate :: "jsval \<Rightarrow> act" where
  "onRate dataObj u =
     (case rate_link u of
        None \<Rightarrow> (Some TypeError, u)
      | Some (k, src, dst) \<Rightarrow>
          (let detail = rate_detail (n_id src) (js_str (l_portZ k)) (n_type dst = ''host'') (n_id dst) (js_str (l_portA k))
                 (to_str dataObj);
               window = rate_window detail
           in run_acts
             [needs [dataObj] (ok id),
              if \<not> in_body ''detailDiv'' u then detail_window rate_title window
              else if content_shows ''rateDetailLi'' u then pg (set_html ''#rateDetailDiv'' detail)
              else pg (set_html ''#detailDiv ul'' window),
              pg (set_html ''#detailDiv h4'' rate_title)] u))"

definition loadRateDetail :: "mouse_event \<Rightarrow> nat \<Rightarrow> act" where
  "loadRateDetail ev l = run_acts
     [ok (\<lambda>u. u\<lparr>u_rate := Some (ev_kind ev, l)\<rparr>),
      (\<lambda>u. if in_body ''detailDiv'' u then (None, u)
           else body_append ''detailDiv'' (createDetailWin ''detailDiv'' host_title []) u),
      pgs [set_html ''#detailDiv h4'' host_title, detail_at ev, set_css ''#detailDiv'' ''width'' ''360'',
           set_shown ''#fabric_content'' False, set_shown ''#detailDiv'' True],
      refreshRateDetail]"

definition loadFabric :: act where
  "loadFabric u =
     (case rate_link u of
        None \<Rightarrow> (Some TypeError, u)
      | Some (k, src, dst) \<Rightarrow>
          get_url (topo_path ''fabric'' @ ''?srcNodeId='' @ n_id src @ ''&dstNodeId='' @ n_id dst) KFabric u)"

definition onFabric :: "jsval \<Rightarrow> act" where
  "onFabric dataObj = needs (dataObj # arr_items dataObj) (pgs
     [set_html ''#fabric_body'' (concat (map (\<lambda>d. fabric_row (to_str d)) (arr_items dataObj))),
      set_css ''#detailDiv'' ''width'' ''660'', set_shown ''#fabric_content'' True])"

definition changeFabric :: "string \<Rightarrow> string \<Rightarrow> string \<Rightarrow> string \<Rightarrow> act" where
  "changeFabric srcId srcPort dstId dstPort =
     get_url (topo_path ''fabric_set'' @ ''?srcId='' @ srcId @ ''&srcPort='' @ srcPort @ ''&dstId='' @ dstId @
       ''&dstPort='' @ dstPort) KFabricSet"

definition onFabricSet :: "jsval \<Rightarrow> act" where
  "onFabricSet dataObj = needs [dataObj] (pgs [js_alert (to_str dataObj ''message''), set_shown ''#detailDiv'' False])"

text \<open>The color of a status: the last entry of the table of statuses equal to it, or the first color.\<close>

fun last_index :: "(int \<Rightarrow> bool) \<Rightarrow> nat \<Rightarrow> int list \<Rightarrow> nat \<Rightarrow> nat" where
  "last_index p j [] i = i"
| "last_index p j (x # xs) i = last_index p (Suc j) xs (if p x then j else i)"

definition status_color :: "int option \<Rightarrow> string" where
  "status_color status = link_colors ! last_index (\<lambda>x. status = Some x) 0 rate_used 0"

definition color_link :: "jsval \<Rightarrow> jsval \<Rightarrow> int option \<Rightarrow> act" where
  "color_link src dst status = run_acts
     [tp (showLinkMonitor src dst (status_color status)),
      tp (on_stage (changeLinkColor src dst (status_color status)))]"

definition refreshLinkColor :: act where
  "refreshLinkColor u = pg (send POST (topo_path ''rate_used'' @ url_params u) [] KRateUsed) u"

definition onRateUsed :: "jsval \<Rightarrow> act" where
  "onRateUsed data = run_acts
     (tp (on_stage changeColorAllLink) #
      (if nullish data then [fails TypeError]
       else map (\<lambda>d. if nullish d then fails TypeError
              else color_link (pget d ''srcNodeId'') (pget d ''dstNodeId'') (parse_int (to_str d ''status''))) (arr_items data)))"

definition loadRateUsed :: act where
  "loadRateUsed = run_acts
     [(\<lambda>u. act_if (content_shows ''rateDetailTable'' u) refreshRateDetail u),
      (\<lambda>u. act_if (js_eq (JStr (vals (u_page u) ''#rateUsedMonitor'')) (JNum (Fin 1))) refreshLinkColor u)]"

definition onRadio :: act where
  "onRadio u =
     (if js_eq (JStr (vals (u_page u) ''#rateUsedMonitor'')) (JNum (Fin 0)) then
        pgs [set_css ''#rateUsedRadio'' ''title'' ''Click to cancel Monitoring'',
             set_css ''#rateUsedRadio'' ''src'' (prefix @ ''img/traffic-light.png''),
             set_val ''#rateUsedMonitor'' (JStr ''1'')] u
      else run_acts
        [pgs [set_css ''#rateUsedRadio'' ''title'' ''Click to open Monitor'',
              set_css ''#rateUsedRadio'' ''src'' (prefix @ ''img/traffic-light-off.png''),
              set_val ''#rateUsedMonitor'' (JStr ''0'')],
         tp hideAllLinkMonitor] u)"

section \<open>Full screen\<close>

text \<open>\<open>has\<close> tells which of the functions of full screen a browser has.\<close>

definition no_fullscreen :: string where
  "no_fullscreen = [CHR 0xE5, CHR 0xBD, CHR 0x93, CHR 0xE5, CHR 0x89, CHR 0x8D, CHR 0xE6, CHR 0xB5, CHR 0x8F, CHR 0xE8,
     CHR 0xA7, CHR 0x88, CHR 0xE5, CHR 0x99, CHR 0xA8, CHR 0xE4, CHR 0xB8, CHR 0x8D, CHR 0xE6, CHR 0x94, CHR 0xAF, CHR 0xE6,
     CHR 0x8C, CHR 0x81, CHR 0xE8, CHR 0xAF, CHR 0xB7, CHR 0xE6, CHR 0x8C, CHR 0x89] @ ''F11'' @
     [CHR 0xE5, CHR 0xAE, CHR 0x8C, CHR 0xE6, CHR 0x88, CHR 0x90, CHR 0xE6, CHR 0xAD, CHR 0xA4, CHR 0xE6, CHR 0x93, CHR 0x8D,
     CHR 0xE4, CHR 0xBD, CHR 0x9C]"

definition call_api :: "(string \<Rightarrow> bool) \<Rightarrow> string \<Rightarrow> act" where
  "call_api has f = (if has f then ok (\<lambda>u. u\<lparr>u_calls := u_calls u @ [f]\<rparr>) else fails TypeError)"

definition fullscreen :: "(string \<Rightarrow> bool) \<Rightarrow> act" where
  "fullscreen has =
     (if has ''webkitRequestFullScreen'' then call_api has ''webkitRequestFullScreen''
      else if has ''mozRequestFullScreen'' then call_api has ''mozRequestFullScreen''
      else if has ''requestFullScreen'' then call_api has ''requestFullscreen''
      else if has ''msRequestFullscreen'' then call_api has ''msRequestFullscreen''
      else pg (js_alert no_fullscreen))"

definition exitFullscreen :: "(string \<Rightarrow> bool) \<Rightarrow> act" where
  "exitFullscreen has =
     (if has ''webkitExitFullscreen'' then call_api has ''webkitExitFullscreen''
      else if has ''mozCancelFullScreen'' then call_api has ''mozCancelFullScreen''
      else if has ''exitFullscreen'' then call_api has ''exitFullscreen''
      else pg (js_alert no_fullscreen))"

definition bars :: "string list" where
  "bars = [''#logobar'', ''#sidebar'', ''#middle-top'', ''#middle-left'', ''#headbar'']"

definition restore_title :: string where
  "restore_title = [CHR 0xE6, CHR 0x81, CHR 0xA2, CHR 0xE5, CHR 0xA4, CHR 0x8D, CHR 0xE5, CHR 0x8E, CHR 0x9F, CHR 0xE7,
     CHR 0x8A, CHR 0xB6]"

definition full_title :: string where
  "full_title = [CHR 0xE7, CHR 0x82, CHR 0xB9, CHR 0xE5, CHR 0x87, CHR 0xBB, CHR 0xE5, CHR 0x85, CHR 0xA8, CHR 0xE5,
     CHR 0xB1, CHR 0x8F]"

definition fullTopoInWin :: "(string \<Rightarrow> bool) \<Rightarrow> act" where
  "fullTopoInWin has u =
     (if \<not> u_full u then run_acts
        [fullscreen has,
         pgs (map (\<lambda>b. set_shown b False) bars @
           [set_css ''#wrapbar'' ''margin-left'' ''0px'', set_css ''#sizediv'' ''width'' ''100%'', set_css ''#sizediv'' ''height'' ''100%'',
            set_css ''#sizediv'' ''top'' ''0'', set_css ''#sizediv'' ''left'' ''0'', set_css ''#middle-right'' ''width'' ''90%'',
            set_css ''#canvas_circle'' ''height'' ''623px'', set_css ''#canvas_circle'' ''width'' ''1122px'',
            set_css ''#canvas-bg'' ''height'' ''700px'', set_css ''#chart'' ''height'' ''650px'']),
         ok (\<lambda>u. u\<lparr>u_full := True\<rparr>),
         pgs [set_css ''#resizeBtn'' ''src'' (prefix @ ''img/rest.png''), set_css ''#resizeBtn'' ''title'' restore_title],
         resizeCanvas] u
      else run_acts
        [exitFullscreen has,
         pgs (set_css ''#right-top'' ''height'' ''600px'' # map (\<lambda>b. set_shown b True) bars @
           [set_css ''#wrapbar'' ''margin-left'' ''185px'', set_css ''#middle-right'' ''width'' ''48.71795%'',
            set_css ''#canvas-bg'' ''height'' ''570px'', set_css ''#chart'' ''height'' ''500px'',
            set_css ''#canvas_circle'' ''height'' ''450px'', set_css ''#canvas_circle'' ''width'' ''494px'']),
         ok (\<lambda>u. u\<lparr>u_full := False\<rparr>),
         pgs [set_css ''#resizeBtn'' ''src'' (prefix @ ''img/max_size.png''), set_css ''#resizeBtn'' ''title'' full_title],
         resizeCanvas] u)"

end
