(* ===== verification/Topo_Page.thy ===== *)
theory Topo_Page
  imports Topo_Rates
begin

text \<open>
  The start of the topology page and the dispatch of its events (\<open>initAll\<close>, \<open>showDetail\<close> and the
  callbacks of \<open>jtopo/js/open.js\<close>): what runs when a request is answered, a timer ends, or the mouse
  moves or clicks.
\<close>

section \<open>Mouse\<close>

text \<open>\<open>showDetail\<close>: details of what the mouse last stopped on, when it is not what is shown already.\<close>

definition hide_details :: act where
  "hide_details = pgs [set_shown ''#rateDetail'' False, set_shown ''#detailDiv'' False]"

definition node_data :: "layout_kind \<Rightarrow> nat \<Rightarrow> ui \<Rightarrow> jsval" where
  "node_data k a u = (case view_of k (u_topo u) of None \<Rightarrow> JUndef | Some v \<Rightarrow> n_data (nodes v ! a))"

definition node_type :: "layout_kind \<Rightarrow> nat \<Rightarrow> ui \<Rightarrow> string" where
  "node_type k a u = (case view_of k (u_topo u) of None \<Rightarrow> [] | Some v \<Rightarrow> n_type (nodes v ! a))"

definition detail_of :: "mouse_event \<Rightarrow> elem \<Rightarrow> act" where
  "detail_of ev e u =
     (case e of
        ENode a \<Rightarrow> (if node_type (ev_kind ev) a u = ''host'' then loadHostDetail ev (node_data (ev_kind ev) a u) u
                    else loadExchangeDetail ev (node_data (ev_kind ev) a u) u)
      | ELink l \<Rightarrow> loadRateDetail ev l u
      | EBox b \<Rightarrow> (None, u))"

definition showDetail :: act where
  "showDetail u =
     (case u_mouse u of
        None \<Rightarrow> (Some TypeError, u)
      | Some ev \<Rightarrow>
          (case ev_target ev of
             None \<Rightarrow> run_acts [hide_details, ok (\<lambda>u. u\<lparr>u_detail := None\<rparr>)] u
           | Some e \<Rightarrow>
               if \<not> u_checked u ''#detailCheck'' then run_acts [hide_details, ok (\<lambda>u. u\<lparr>u_detail := None\<rparr>)] u
               else run_acts
                 [act_if (u_detail u \<noteq> Some (ev_kind ev, e)) (detail_of ev e),
                  ok (\<lambda>u. u\<lparr>u_detail := Some (ev_kind ev, e)\<rparr>)] u))"

text \<open>
  The timer of a scene's last movement, \<open>this.mouseTimer\<close>: \<open>clearTimeout\<close> removes the timer with the
  number kept there, and \<open>setTimeout\<close> gives a new one the next number.
\<close>

fun timer_id :: "ui_cont \<Rightarrow> nat option" where
  "timer_id (KDetail k i) = Some i"
| "timer_id k = None"

definition clear_timer :: "nat \<Rightarrow> (ui_handler, ui_cont) page \<Rightarrow> (ui_handler, ui_cont) page" where
  "clear_timer i p = p\<lparr>timers := filter (\<lambda>x. timer_id x \<noteq> Some i) (timers p)\<rparr>"

definition clear_mouse_timer :: "layout_kind \<Rightarrow> act" where
  "clear_mouse_timer k u =
     (case u_mouseTimer u k of None \<Rightarrow> (None, u) | Some i \<Rightarrow> (None, u\<lparr>u_page := clear_timer i (u_page u)\<rparr>))"

definition set_mouse_timer :: "layout_kind \<Rightarrow> act" where
  "set_mouse_timer k u =
     (let i = u_timeouts u
      in (None, u\<lparr>u_page := set_timer (KDetail k i) (u_page u), u_mouseTimer := (u_mouseTimer u)(k := Some i),
            u_timeouts := Suc i\<rparr>))"

definition onMouseMove :: "mouse_event \<Rightarrow> act" where
  "onMouseMove ev = run_acts
     [clear_mouse_timer (ev_kind ev),
      if ev_target ev = None then run_acts
        [ok (\<lambda>u. u\<lparr>u_mouse := None, u_detail := None\<rparr>), pg (set_shown ''#detailDiv'' False)]
      else run_acts
        [ok (\<lambda>u. u\<lparr>u_mouse := Some ev\<rparr>), set_mouse_timer (ev_kind ev)]]"

definition onMouseDown :: act where
  "onMouseDown = hide_details"

text \<open>A click: bold paths and highlights, the first node of a path, and the path itself.\<close>

definition unbold :: act where
  "unbold = tp (on_stage cancleBoldAllLink)"

definition highlight :: "jsval option \<Rightarrow> act" where
  "highlight i = tp (on_stage (highlightNodeLinks i))"

definition unless_path :: "act \<Rightarrow> act" where
  "unless_path a = (\<lambda>u. act_if (\<not> u_checked u ''#pathCheck'') a u)"

definition start_path :: "mouse_event \<Rightarrow> nat \<Rightarrow> act" where
  "start_path ev a = ok (\<lambda>u. if u_last u = None then u\<lparr>u_last := Some (ev_kind ev, a)\<rparr> else u)"

definition onClick :: "mouse_event \<Rightarrow> act" where
  "onClick ev = run_acts
     [unless_path unbold,
      (case ev_target ev of
         None \<Rightarrow> run_acts
           [ok (\<lambda>u. u\<lparr>u_last := None\<rparr>), pg (set_shown ''#pathMenu'' False), unless_path (highlight None)]
       | Some (ENode a) \<Rightarrow> run_acts
           [unbold, start_path ev a, (\<lambda>u. highlight (Some (JStr (node_id (ev_kind ev) a u))) u), showPath ev]
       | Some _ \<Rightarrow> run_acts [highlight None, showPath ev])]"

text \<open>A double click hides the hosts of a switch, or asks for them.\<close>

definition onDblClick :: "mouse_event \<Rightarrow> act" where
  "onDblClick ev u =
     (case view_of (ev_kind ev) (u_topo u) of
        None \<Rightarrow> (Some TypeError, u)
      | Some v \<Rightarrow>
          if \<not> v_ready v then (None, u) else (case dbclick (ev_target ev) v of
             Inl e \<Rightarrow> (Some e, u)
           | Inr (w, req) \<Rightarrow> run_acts
               [tp (on_view (ev_kind ev) (\<lambda>v. w)),
                (case (req, ev_target ev) of
                   (Some i, Some (ENode a)) \<Rightarrow>
                     get_url (topo_path ''exchange_host'' @ url_params u @ ''&switch_id='' @ js_str i)
                       (KHosts (ev_kind ev) a (ev_x ev) (ev_y ev))
                 | _ \<Rightarrow> ok id)] u))"

definition view_act :: "layout_kind \<Rightarrow> (view \<Rightarrow> js_error option \<times> view) \<Rightarrow> act" where
  "view_act k f u =
     (case view_of k (u_topo u) of
        None \<Rightarrow> (Some TypeError, u)
      | Some v \<Rightarrow> (case f v of (e, w) \<Rightarrow> (e, u\<lparr>u_topo := put_view k w (u_topo u)\<rparr>)))"

fun place_hosts :: "layout_kind \<Rightarrow> nat \<Rightarrow> nat list \<Rightarrow> view \<Rightarrow> view" where
  "place_hosts TreeView = row_hosts"
| "place_hosts CircleView = ring_hosts"

definition onHosts :: "layout_kind \<Rightarrow> nat \<Rightarrow> real \<Rightarrow> real \<Rightarrow> jsval \<Rightarrow> act" where
  "onHosts k a x y response = view_act k (hosts_answer (place_hosts k) a (x, y) response)"

section \<open>Start\<close>

text \<open>
  The two topologies have arrived: \<open>data.nodes\<close> must be an array.  The circles are laid out half a
  second later, and the poll for changes starts.
\<close>

definition init_view :: "(jsval list \<Rightarrow> jsval \<Rightarrow> real \<Rightarrow> real \<Rightarrow> topo \<Rightarrow> outcome) \<Rightarrow> string \<Rightarrow> jsval \<Rightarrow> act" where
  "init_view f canvas response u =
     (case pget response ''nodes'' of
        JArr datas \<Rightarrow> tp (f datas (pget response ''need-layout'') (fst (u_canvas u canvas)) (snd (u_canvas u canvas))) u
      | _ \<Rightarrow> (Some TypeError, u))"

definition onTopoData :: "jsval \<Rightarrow> jsval \<Rightarrow> act" where
  "onTopoData treeData circleData = run_acts
     [init_view topo_initTree ''canvas_tree'' treeData,
      init_view topo_initCircle ''canvas_circle'' circleData,
      pg (set_timer KLayout), pg (set_timer KPoll),
      tp (topo_on ''mousemove'' ''onMouseMove''),
      tp (topo_on ''mousedown'' ''onMouseDown''),
      tp (topo_on ''click'' ''onClick''),
      (\<lambda>u. act_if (getCurrentLayout u = ''circle'') showCircleCanvas u)]"

text \<open>\<open>$.when\<close> runs its callback when both requests have been answered.\<close>

definition onData :: "layout_kind \<Rightarrow> jsval \<Rightarrow> act" where
  "onData k response = run_acts
     [ok (\<lambda>u. u\<lparr>u_data := (case k of TreeView \<Rightarrow> (Some response, snd (u_data u))
                                      | CircleView \<Rightarrow> (fst (u_data u), Some response))\<rparr>),
      (\<lambda>u. case u_data u of (Some t, Some c) \<Rightarrow> onTopoData t c u | _ \<Rightarrow> (None, u))]"

text \<open>
  The controller comes from the address of the page or from the field \<open>#control\<close>, whose value is null
  (\<open>None\<close>) while its list is empty.
\<close>

definition nth_part :: "nat \<Rightarrow> string \<Rightarrow> jsval" where
  "nth_part i s = (case nth_opt (split_on CHR ''|'' s) i of None \<Rightarrow> JUndef | Some w \<Rightarrow> JStr w)"

definition controller_part :: "string \<Rightarrow> nat \<Rightarrow> string option \<Rightarrow> ui \<Rightarrow> js_error + jsval" where
  "controller_part name i control u =
     (case getUrlParam name (u_search u) of
        Some (c # s) \<Rightarrow> Inr (JStr (c # s))
      | _ \<Rightarrow> (case control of None \<Rightarrow> Inl TypeError | Some s \<Rightarrow> Inr (nth_part i s)))"

definition set_ip :: "string option \<Rightarrow> act" where
  "set_ip control u =
     (case controller_part ''ipp'' 0 control u of Inl e \<Rightarrow> (Some e, u) | Inr v \<Rightarrow> (None, u\<lparr>u_ip := js_str v\<rparr>))"

definition set_port :: "string option \<Rightarrow> act" where
  "set_port control u =
     (case controller_part ''portt'' 1 control u of Inl e \<Rightarrow> (Some e, u) | Inr v \<Rightarrow> (None, u\<lparr>u_port := v\<rparr>))"

definition loadTopology :: act where
  "loadTopology u = run_acts
     [get_url (topo_path ''exchange_tree'' @ url_params u) (KData TreeView),
      get_url (topo_path ''exchange_circle'' @ url_params u) (KData CircleView)] u"

definition initAll :: "string option \<Rightarrow> act" where
  "initAll control = run_acts
     [initUI, set_ip control, set_port control, loadTopology, initEvent, resizeCanvas, loadInterval,
      loadRateUsedDataThread]"

definition ready :: act where
  "ready = pg (set_html ''#chart'' canvas_panel)"

section \<open>Dispatch\<close>

text \<open>What the answer to a request runs.\<close>

fun answered :: "ui_cont \<Rightarrow> jsval \<Rightarrow> act" where
  "answered (KData k) r = onData k r"
| "answered (KHosts k a x y) r = onHosts k a x y r"
| "answered KInterval r = onInterval r"
| "answered (KUpdateInterval i) r = onUpdateInterval i r"
| "answered KSaveTopo r = pg (js_alert (to_str r ''message''))"
| "answered (KAddItems sel) r = onAdded sel r"
| "answered (KSaveNet name net_text) r = onSaveNet r"
| "answered KNets r = onNets r"
| "answered KShowNet r = onShowNet r"
| "answered (KItems name) r = onItems name r"
| "answered (KDelItem i) r = onDelItem i r"
| "answered KOptimal r = onOptimal r"
| "answered (KAllPaths a b) r = onAllPaths a b r"
| "answered (KSaveOptimal btn) r = onSaveOptimal btn r"
| "answered KRate r = onRate r"
| "answered KFabric r = onFabric r"
| "answered KFabricSet r = onFabricSet r"
| "answered KRateUsed r = onRateUsed r"
| "answered k r = ok id"

definition deliver :: "nat \<Rightarrow> jsval \<Rightarrow> act" where
  "deliver i r u =
     (case nth_opt (pending (u_page u)) i of
        None \<Rightarrow> (None, u)
      | Some (q, k) \<Rightarrow> run_acts [pg (take_pending i), answered k r] u)"

text \<open>
  What a timer runs.  The poll for changes calls \<open>Topo.loadDynamicDatas\<close>, which returns nothing; the
  exception that follows is caught and the poll starts again.
\<close>

fun timed :: "ui_cont \<Rightarrow> act" where
  "timed (KDetail k i) = showDetail"
| "timed KLayout = tp (on_view CircleView layout_circle)"
| "timed KPoll = pg (set_timer KPoll)"
| "timed KRateThread = run_acts [loadRateUsed, loadRateUsedDataThread]"
| "timed k = ok id"

definition tick :: "nat \<Rightarrow> act" where
  "tick i u =
     (case nth_opt (timers (u_page u)) i of
        None \<Rightarrow> (None, u)
      | Some k \<Rightarrow> run_acts [pg (\<lambda>p. p\<lparr>timers := take i (timers p) @ drop (Suc i) (timers p)\<rparr>), timed k] u)"

text \<open>A click on an element of the page, with what its handlers read from it.\<close>

record press =
  p_on :: string
  p_name :: string
  p_checked :: bool
  p_button :: int
  p_left :: string

fun handle :: "(coord \<Rightarrow> string) \<Rightarrow> (string \<Rightarrow> bool) \<Rightarrow> press \<Rightarrow> ui_handler \<Rightarrow> act" where
  "handle num has c HTree = showTreeCanvas"
| "handle num has c HGrid = showCircleCanvas"
| "handle num has c HSelectMode = onSelectMode (p_checked c)"
| "handle num has c HRateConfig = onRateConfig"
| "handle num has c HTopoSave = onTopoSave num"
| "handle num has c HSearchTypes = pg (set_shown ''#searchTypeButtonGroup'' True)"
| "handle num has c HHideTypes = pg (set_shown ''#searchTypeButtonGroup'' False)"
| "handle num has c HSearchType = onSearchType (p_name c)"
| "handle num has c HSearch = doSearch"
| "handle num has c HCreateNet = createVirtualNet"
| "handle num has c HShowNets = showVirtualNetPanel"
| "handle num has c HAddToNet = onAddToNet"
| "handle num has c HResize = fullTopoInWin has"
| "handle num has c HRadio = onRadio"
| "handle num has c HHideMenu = onHideMenu (p_button c)"
| "handle num has c HGroup = onGroup (p_left c)"
| "handle num has c (HPaths a b) = onPathMenu a b"

text \<open>A handler that returns \<open>false\<close> keeps the click from the document.\<close>

definition stops :: "ui_handler \<Rightarrow> bool" where
  "stops h \<longleftrightarrow> h = HSearchTypes \<or> h = HSearchType"

definition press_on :: "(coord \<Rightarrow> string) \<Rightarrow> (string \<Rightarrow> bool) \<Rightarrow> press \<Rightarrow> act" where
  "press_on num has c u =
     (let hs = handlers (u_page u) (p_on c);
          up = (if p_on c = ''document'' \<or> list_ex stops hs then [] else handlers (u_page u) ''document'')
      in run_acts (map (handle num has c) (hs @ up)) u)"

text \<open>The functions that the markup and the window call by name.\<close>

datatype call =
    CSaveNet
  | CCreateNet
  | CShowNet string
  | CNetItems string
  | CDelItem string string
  | CCenter string
  | CInterval jsval
  | CPath string
  | CSavePath string string string string
  | CFabric
  | CSetFabric string string string string
  | CFull
  | CLayoutAll

fun run_call :: "(string \<Rightarrow> bool) \<Rightarrow> call \<Rightarrow> act" where
  "run_call has CSaveNet = saveVirtualNet"
| "run_call has CCreateNet = createVirtualNet"
| "run_call has (CShowNet n) = showVirtualNetAllNode n"
| "run_call has (CNetItems n) = loadVirtualNetItems n"
| "run_call has (CDelItem g n) = delVirtualNetItem g n"
| "run_call has (CCenter i) = centerNode_act i"
| "run_call has (CInterval v) = updateInterval v"
| "run_call has (CPath ids) = showOptimalPath ids"
| "run_call has (CSavePath b s d p) = saveOptimalPath b s d p"
| "run_call has CFabric = loadFabric"
| "run_call has (CSetFabric a p b q) = changeFabric a p b q"
| "run_call has CFull = fullTopoInWin has"
| "run_call has CLayoutAll = layoutALL"

end
