(* ===== verification/Page_Steps.thy ===== *)
theory Page_Steps
  imports Topo_Page
begin

text \<open>
  What the events of the topology page can change.  \<open>change\<close> lists the kinds of changes of the parts of
  the state that callbacks depend on (the views, the pending requests and the timers); every handler is a
  sequence of such changes, and so is every event.
\<close>

section \<open>Views\<close>

text \<open>A change of a view that leaves it well formed and its nodes allocated.\<close>

definition view_change :: "view \<Rightarrow> view \<Rightarrow> bool" where
  "view_change v w \<longleftrightarrow> (scene_wf v \<longrightarrow> scene_wf w \<and> length (nodes v) \<le> length (nodes w))"

named_theorems changes \<open>operations that change views only in that way\<close>

lemma view_change_refl [changes]: "view_change v v"
  by (simp add: view_change_def)

lemma view_change_trans: "view_change v w \<Longrightarrow> view_change w u \<Longrightarrow> view_change v u"
  by (auto simp: view_change_def)

lemma view_change_steps:
  "(\<And>f w. f \<in> set fs \<Longrightarrow> view_change w (f w)) \<Longrightarrow> view_change v (steps fs v)"
proof (induction fs arbitrary: v)
  case (Cons f fs)
  have "view_change v (f v)" "view_change (f v) (steps fs (f v))" using Cons by auto
  then show ?case using view_change_trans by simp
qed (simp add: changes)

lemma wf_upd_link:
  assumes "scene_wf v" "\<And>k. l_a (f k) = l_a k \<and> l_z (f k) = l_z k"
  shows "scene_wf (upd_link l f v)"
proof -
  have s: "length (nodes (upd_link l f v)) = length (nodes v)" "length (links (upd_link l f v)) = length (links v)"
    "length (boxes (upd_link l f v)) = length (boxes v)" by (simp_all add: upd_link_def)
  have "list_all (\<lambda>l. node_addr v (l_a l) \<and> node_addr v (l_z l)) (links (upd_link l f v))"
    using assms by (auto simp: list_all_length scene_wf_def s upd_link_nth)
  then show ?thesis using assms(1) unfolding scene_wf_def same_size [OF s] by (auto simp: upd_link_def)
qed

lemma change_upd_link [changes]:
  "(\<And>k. l_a (f k) = l_a k \<and> l_z (f k) = l_z k) \<Longrightarrow> view_change v (upd_link l f v)"
  by (auto simp: view_change_def wf_upd_link view_simps)

lemma change_upd_node [changes]:
  "(\<And>n. n_hosts (f n) = n_hosts n) \<Longrightarrow> view_change v (upd_node a f v)"
  by (auto simp: view_change_def upd_node_def intro: wf_upd_node [unfolded upd_node_def])

lemma change_fields [changes]:
  "view_change v (set_frames n v)" "view_change v (v\<lparr>v_mode := m\<rparr>)" "view_change v (v\<lparr>translate := p\<rparr>)"
proof -
  have f: "scene_wf v \<longrightarrow> scene_wf w"
    if "nodes w = nodes v" "links w = links v" "boxes w = boxes v" "childs w = childs v" "nodeMap w = nodeMap v"
      "phys w = phys v" "cores w = cores v" "others w = others v" "flashes w = flashes v" for w
    using that same_size [of w v] by (simp add: scene_wf_def)
  show "view_change v (set_frames n v)" "view_change v (v\<lparr>v_mode := m\<rparr>)" "view_change v (v\<lparr>translate := p\<rparr>)"
    unfolding view_change_def by (auto intro!: f [THEN mp] simp: set_frames_def)
qed

lemma change_scene_remove [changes]: "view_change v (scene_remove e v)"
  by (auto simp: view_change_def wf_scene_remove view_simps)

lemma moved_change: "moved v w \<Longrightarrow> view_change v w"
  using moved_wf moved_length by (simp add: view_change_def)

section \<open>The operations of \<open>Topo\<close>\<close>

lemma change_links [changes]:
  "view_change v (cancleBoldAllLink v)" "view_change v (changeColorAllLink v)" "view_change v (fadeAllLinks v)"
  "view_change v (highlightNodeLinks i v)" "view_change v (changeLinkColor a z color v)" "view_change v (boldLink ids v)"
proof -
  show "view_change v (cancleBoldAllLink v)"
    unfolding cancleBoldAllLink_def
    by (rule view_change_steps) (auto simp: unbold_one_def intro!: changes split: option.split)
  have a: "view_change w (set_alpha r l w)" for w r l by (auto simp: set_alpha_def intro!: changes)
  show "view_change v (changeColorAllLink v)" "view_change v (fadeAllLinks v)" "view_change v (highlightNodeLinks i v)"
    unfolding changeColorAllLink_def fadeAllLinks_def highlightNodeLinks_def
    by (auto intro!: view_change_steps a split: option.split)
  show "view_change v (changeLinkColor a z color v)"
    by (auto simp: changeLinkColor_def intro!: changes split: option.split)
  show "view_change v (boldLink ids v)"
  proof -
    have "length (nodes (steps (map bold_one ls) v)) = length (nodes v)" for ls
      by (rule steps_inv) (simp add: bold_one_def view_simps)
    then show ?thesis using boldLink_wf [of v ids] boldLink_steps [of v ids] by (auto simp: view_change_def)
  qed
qed

lemma change_new_link [changes]:
  assumes "scene_wf v \<Longrightarrow> node_addr v (l_a k) \<and> node_addr v (l_z k)"
  shows "view_change v (scene_add (ELink (length (links v))) (alloc_link k v))"
proof -
  have m: "(alloc_link k v)\<lparr>linkMap := linkMap v\<rparr> = alloc_link k v" by (simp add: alloc_link_def)
  have "scene_wf v \<Longrightarrow> scene_wf (scene_add (ELink (length (links v))) (alloc_link k v))"
    using wf_new_link [of v k "length (links v)" "linkMap v"] assms by (simp add: m)
  then show ?thesis by (simp add: view_change_def scene_add_def alloc_link_def)
qed

lemma change_ensure:
  assumes "l < length (links w)"
  shows "view_change w (ensure_up l w)" "view_change w (ensure_down l w)"
proof -
  let ?k = "links w ! l"
  have e: "scene_wf w \<Longrightarrow> node_addr w (l_a ?k) \<and> node_addr w (l_z ?k)"
    using assms by (auto simp: scene_wf_def list_all_length)
  have n: "scene_add (ELink (length (links w))) (upd_link l f (alloc_link k w)) =
      scene_add (ELink (length (links (upd_link l f w)))) (alloc_link k (upd_link l f w))" for f k
    using assms by (simp add: upd_link_def alloc_link_def list_update_append nth_append)
  have c: "view_change w (scene_add (ELink (length (links w))) (upd_link l f (alloc_link (band_link ?k p q i) w)))"
    if "\<And>k. l_a (f k) = l_a k \<and> l_z (f k) = l_z k" for f p q i
  proof -
    have "node_addr (upd_link l f w) = node_addr w" by (simp add: node_addr_def view_simps fun_eq_iff)
    then have "view_change (upd_link l f w) (scene_add (ELink (length (links (upd_link l f w))))
        (alloc_link (band_link ?k p q i) (upd_link l f w)))"
      if "scene_wf w" using e that by (intro changes) (simp add: band_link_def new_link_def)
    moreover have "view_change w (upd_link l f w)" using that by (intro changes) auto
    ultimately show ?thesis unfolding n using view_change_trans by (auto simp: view_change_def)
  qed
  show "view_change w (ensure_up l w)" "view_change w (ensure_down l w)"
    unfolding ensure_up_def ensure_down_def Let_def by (auto intro!: c changes split: option.split)
qed

lemma change_light: "view_change w (light u color w)"
  by (auto simp: light_def intro!: changes split: option.split)

lemma change_addUpDownLink [changes]: "view_change v (addUpDownLink a z color v)"
proof (cases "monitor_link a z v")
  case (Some p)
  obtain l up where p: "p = (l, up)" by (cases p)
  have len: "length (links v) \<le> length (links (ensure_up l v))"
    by (auto simp: ensure_up_def Let_def view_simps scene_add_def alloc_link_def upd_link_def split: option.split)
  have "view_change v (addUpDownLink a z color v)" if wf: "scene_wf v"
  proof -
    have "l \<in> set (find_links v)" using Some p find_first_SomeD by (fastforce simp: monitor_link_def)
    then have l: "l < length (links v)" by (rule find_links_alloc [OF wf])
    then have l': "l < length (links (ensure_up l v))" using len by simp
    have "view_change v (upd_link l (\<lambda>k. k\<lparr>l_index := Some 1\<rparr>) (ensure_down l (ensure_up l v)))"
      by (rule view_change_trans [OF view_change_trans [OF change_ensure(1) [OF l] change_ensure(2) [OF l']]]) (auto intro!: changes)
    then show ?thesis
      unfolding addUpDownLink_def Some p Let_def option.case prod.case by (rule view_change_trans [OF _ change_light])
  qed
  then show ?thesis by (auto simp: view_change_def)
qed (simp add: addUpDownLink_def changes)

lemma change_drop_band: "view_change w (drop_band l w)"
proof -
  have r: "view_change x (upd_link l f (scene_remove e x))" if "\<And>k. l_a (f k) = l_a k \<and> l_z (f k) = l_z k" for x f e
    using that view_change_trans [OF change_scene_remove change_upd_link] by blast
  let ?v1 = "case l_up (links w ! l) of None \<Rightarrow> w | Some u \<Rightarrow> upd_link l (\<lambda>k. k\<lparr>l_up := None\<rparr>) (scene_remove (ELink u) w)"
  have "view_change w ?v1" by (auto intro!: r changes split: option.split)
  moreover have "view_change x (case l_down (links x ! l) of None \<Rightarrow> x
     | Some d \<Rightarrow> upd_link l (\<lambda>k. k\<lparr>l_down := None\<rparr>) (scene_remove (ELink d) x))" for x
    by (auto intro!: r changes split: option.split)
  ultimately show ?thesis unfolding drop_band_def Let_def
    by (rule view_change_trans [OF view_change_trans]) (auto intro!: changes)
qed

lemma change_bands [changes]: "view_change v (hide_one a z v)" "view_change v (drop_bands v)"
proof -
  show "view_change v (drop_bands v)"
    unfolding drop_bands_def by (rule view_change_steps) (auto intro: change_drop_band)
  show "view_change v (hide_one a z v)"
    by (auto simp: hide_one_def Let_def dim_def set_alpha_def intro!: changes split: option.split)
qed

lemma change_zoom [changes]: "view_change v (zoom_view s v)"
  unfolding zoom_view_def by (rule view_change_steps) (auto simp: scale_node_def intro!: changes)

lemma change_layout [changes]: "view_change v (layout_circle v)"
  by (rule moved_change) simp

lemma change_flash [changes]: "view_change v (flash_tick i v)"
  by (auto simp: view_change_def wf_flash_tick)
    (simp add: flash_tick_def nodeFlash_def upd_node_def split: option.split prod.split)

section \<open>Both views\<close>

definition topo_change :: "topo \<Rightarrow> topo \<Rightarrow> bool" where
  "topo_change t t' \<longleftrightarrow> (\<forall>k. rel_option view_change (view_of k t) (view_of k t'))"

lemma topo_change_same: "t_tree t' = t_tree t \<Longrightarrow> t_circle t' = t_circle t \<Longrightarrow> topo_change t t'"
proof -
  assume "t_tree t' = t_tree t" "t_circle t' = t_circle t"
  then have "view_of k t' = view_of k t" for k by (cases k) simp_all
  moreover have "rel_option view_change v v" for v by (cases v) (simp_all add: view_change_refl)
  ultimately show ?thesis by (simp add: topo_change_def)
qed

lemma topo_change_refl [simp]: "topo_change t t"
  by (rule topo_change_same) simp_all

lemma topo_change_trans: "topo_change t u \<Longrightarrow> topo_change u w \<Longrightarrow> topo_change t w"
proof -
  have "rel_option view_change a b \<Longrightarrow> rel_option view_change b c \<Longrightarrow> rel_option view_change a c" for a b c
    by (cases a; cases b; cases c) (auto intro: view_change_trans)
  then show "topo_change t u \<Longrightarrow> topo_change u w \<Longrightarrow> topo_change t w" unfolding topo_change_def by blast
qed

lemma view_of_put: "view_of k (put_view j w t) = (if k = j then Some w else view_of k t)"
  by (cases k; cases j) simp_all

lemma topo_change_put: "view_of k t = Some v \<Longrightarrow> view_change v w \<Longrightarrow> topo_change t (put_view k w t)"
proof -
  have "rel_option view_change v v" for v by (cases v) (simp_all add: view_change_refl)
  then show "view_of k t = Some v \<Longrightarrow> view_change v w \<Longrightarrow> topo_change t (put_view k w t)"
    by (simp add: topo_change_def view_of_put)
qed

lemma on_view_change: "(\<And>v. view_of k t = Some v \<Longrightarrow> view_change v (f v)) \<Longrightarrow> topo_change t (snd (on_view k f t))"
  by (auto simp: on_view_def intro: topo_change_put split: option.split)

lemma on_stage_change: "(\<And>v. stage t = Some v \<Longrightarrow> view_change v (f v)) \<Longrightarrow> topo_change t (snd (on_stage f t))"
  by (auto simp: on_stage_def stage_def intro!: on_view_change split: option.split)

lemma and_then_change:
  "topo_change t (snd r) \<Longrightarrow> (\<And>t'. topo_change t' (snd (f t'))) \<Longrightarrow> topo_change t (snd (and_then r f))"
  by (auto simp: and_then_def intro: topo_change_trans split: prod.split option.split)

lemma on_both_change: "(\<And>v. view_change v (f v)) \<Longrightarrow> topo_change t (snd (on_both f t))"
  unfolding on_both_def by (intro and_then_change on_view_change)

lemma setCurrentLayout_views:
  "\<exists>n. view_of k (setCurrentLayout layout t) = map_option (set_frames n) (view_of k t) \<or>
     view_of k (setCurrentLayout layout t) = view_of k t"
  by (cases k; cases "t_tree t"; cases "t_circle t") (auto simp: setCurrentLayout_def stage_def)

lemma setCurrentLayout_change: "topo_change t (setCurrentLayout layout t)"
proof -
  have "rel_option view_change v (map_option (set_frames n) v)" "rel_option view_change v v" for v n
    by (cases v; simp add: changes)+
  then show ?thesis unfolding topo_change_def using setCurrentLayout_views by metis
qed

lemma topo_on_change: "topo_change t (snd (topo_on ev h t))"
  unfolding topo_on_def by (intro and_then_change) (auto simp: listen_def intro: topo_change_same)

lemma centerNode_change: "topo_change t (snd (centerNode i t))"
  by (auto simp: centerNode_def intro!: on_stage_change changes split: option.split)

text \<open>A node found by its id is one of the current view.\<close>

lemma getNodeById_stage: "getNodeById i t = Some a \<Longrightarrow> stage t = Some v \<Longrightarrow> nodeMap v i = Some a"
proof -
  assume a: "getNodeById i t = Some a" "stage t = Some v"
  from a(2) obtain k where "t_stage t = Some k" "view_of k t = Some v" by (auto simp: stage_def split: option.splits)
  with a(1) show "nodeMap v i = Some a" by (cases k) (auto simp: getNodeById_def)
qed

lemma flash_ids_change: "topo_change t (snd (flash_ids ids n t))"
proof (induction ids arbitrary: t)
  case (Cons i ids)
  have "view_change v (nodeFlash a n v)" if "getNodeById i t = Some a" "stage t = Some v" for a v
  proof -
    have "nodeMap v i = Some a" using that by (rule getNodeById_stage)
    then have "scene_wf v \<Longrightarrow> node_addr v a" by (simp add: scene_wf_def)
    moreover have "length (nodes (nodeFlash a n v)) = length (nodes v)" by (simp add: nodeFlash_def upd_node_def)
    ultimately show ?thesis by (auto simp: view_change_def wf_nodeFlash)
  qed
  then show ?case by (auto intro!: and_then_change on_stage_change Cons.IH split: option.split)
qed simp

lemma highlightNodes_change: "topo_change t (snd (highlightNodes ids n t))"
  by (simp add: highlightNodes_def flash_ids_change)

lemma mousewheel_change: "topo_change t (snd (mousewheel d e t))"
  unfolding mousewheel_def zoomNodes_def by (auto intro!: and_then_change on_stage_change changes)

lemma monitor_change:
  "topo_change t (snd (showLinkMonitor a z color t))" "topo_change t (snd (hideAllLinkMonitor t))"
  unfolding showLinkMonitor_def hideAllLinkMonitor_def by (auto intro!: on_both_change changes)

lemmas topo_changes = on_view_change on_stage_change on_both_change topo_on_change centerNode_change highlightNodes_change
  mousewheel_change monitor_change

section \<open>Changes of the page\<close>

text \<open>The numbers of the timers that the mouse has set.\<close>

type_synonym timer_ids = "(layout_kind \<Rightarrow> nat option) \<times> nat"

abbreviation clock :: "ui \<Rightarrow> timer_ids" where
  "clock u \<equiv> (u_mouseTimer u, u_timeouts u)"

definition core :: "ui \<Rightarrow> topo \<times> (jsval option \<times> jsval option) \<times> (request \<times> ui_cont) list \<times> ui_cont list \<times> timer_ids" where
  "core u = (u_topo u, u_data u, pending (u_page u), timers (u_page u), clock u)"

text \<open>The timers left when the one kept in \<open>o\<close> is cleared.\<close>

definition cleared_timers :: "nat option \<Rightarrow> ui_cont list \<Rightarrow> ui_cont list" where
  "cleared_timers o' ts = (case o' of None \<Rightarrow> ts | Some i \<Rightarrow> filter (\<lambda>x. timer_id x \<noteq> Some i) ts)"

fun data_of :: "layout_kind \<Rightarrow> jsval option \<times> jsval option \<Rightarrow> jsval option" where
  "data_of TreeView d = fst d"
| "data_of CircleView d = snd d"

definition without :: "nat \<Rightarrow> 'a list \<Rightarrow> 'a list" where
  "without i xs = take i xs @ drop (Suc i) xs"

fun simple_request :: "ui_cont \<Rightarrow> bool" where
  "simple_request (KData k) = False"
| "simple_request (KHosts k a x y) = False"
| "simple_request k = True"

fun simple_timer :: "ui_cont \<Rightarrow> bool" where
  "simple_timer (KDetail k i) = False"
| "simple_timer KRateThread = False"
| "simple_timer k = True"

text \<open>\<open>armed\<close> tells whether the bandwidth thread may be set up again.\<close>

inductive change :: "bool \<Rightarrow> ui \<Rightarrow> ui \<Rightarrow> bool" for armed where
  quiet: "core u' = core u \<Longrightarrow> change armed u u'"
| redraw: "topo_change (u_topo u) t \<Longrightarrow> core u' = (t, u_data u, pending (u_page u), timers (u_page u), clock u) \<Longrightarrow> change armed u u'"
| request: "simple_request k \<Longrightarrow> core u' = (u_topo u, u_data u, pending (u_page u) @ [(q, k)], timers (u_page u), clock u) \<Longrightarrow>
    change armed u u'"
| ask_hosts: "view_of k (u_topo u) = Some v \<Longrightarrow> (scene_wf v \<Longrightarrow> node_addr v a) \<Longrightarrow>
    core u' = (u_topo u, u_data u, pending (u_page u) @ [(q, KHosts k a x y)], timers (u_page u), clock u) \<Longrightarrow> change armed u u'"
| taken: "core u' = (u_topo u, u_data u, without i (pending (u_page u)), timers (u_page u), clock u) \<Longrightarrow> change armed u u'"
| arrive: "nth_opt (pending (u_page u)) i = Some (q, KData k) \<Longrightarrow>
    core u' = (u_topo u, d, without i (pending (u_page u)), timers (u_page u), clock u) \<Longrightarrow>
    data_of k d = Some r \<Longrightarrow> (\<And>j. j \<noteq> k \<Longrightarrow> data_of j d = data_of j (u_data u)) \<Longrightarrow> change armed u u'"
| create: "view_of k (u_topo u) = None \<Longrightarrow> (\<And>j. data_of j (u_data u) \<noteq> None) \<Longrightarrow> scene_wf v \<Longrightarrow>
    view_of k t = Some v \<Longrightarrow> (\<And>j. j \<noteq> k \<Longrightarrow> view_of j t = view_of j (u_topo u)) \<Longrightarrow>
    core u' = (t, u_data u, pending (u_page u), timers (u_page u), clock u) \<Longrightarrow> change armed u u'"
| timed_out: "core u' = (u_topo u, u_data u, pending (u_page u), without i (timers (u_page u)), clock u) \<Longrightarrow> change armed u u'"
| cleared: "core u' = (u_topo u, u_data u, pending (u_page u), cleared_timers (u_mouseTimer u k) (timers (u_page u)), clock u) \<Longrightarrow>
    change armed u u'"
| mouse_timer: "n = u_timeouts u \<Longrightarrow> core u' = (u_topo u, u_data u, pending (u_page u),
      cleared_timers (u_mouseTimer u k) (timers (u_page u)) @ [KDetail k n], (u_mouseTimer u)(k := Some n), Suc n) \<Longrightarrow>
    change armed u u'"
| timer: "simple_timer k \<Longrightarrow> core u' = (u_topo u, u_data u, pending (u_page u), timers (u_page u) @ [k], clock u) \<Longrightarrow> change armed u u'"
| thread: "armed \<Longrightarrow> core u' = (u_topo u, u_data u, pending (u_page u), timers (u_page u) @ [KRateThread], clock u) \<Longrightarrow> change armed u u'"

text \<open>A handler that makes such changes only.\<close>

definition benign :: "bool \<Rightarrow> act \<Rightarrow> ui \<Rightarrow> bool" where
  "benign armed a u \<longleftrightarrow> (change armed)\<^sup>*\<^sup>* u (snd (a u))"

named_theorems benign_rules \<open>handlers that make benign changes only\<close>

lemma benign_one: "change armed u (snd (a u)) \<Longrightarrow> benign armed a u"
  by (simp add: benign_def)

lemma benign_run [benign_rules]: "(\<And>a v. a \<in> set as \<Longrightarrow> benign armed a v) \<Longrightarrow> benign armed (run_acts as) u"
proof (induction as arbitrary: u)
  case (Cons a as w)
  obtain e u' where a: "a w = (e, u')" by (cases "a w")
  have "(change armed)\<^sup>*\<^sup>* w u'" using Cons.prems [of a w] a by (simp add: benign_def)
  moreover have "(change armed)\<^sup>*\<^sup>* u' (snd (run_acts as u'))" using Cons by (simp add: benign_def)
  ultimately show ?case using a by (auto simp: benign_def split: option.split)
qed (simp add: benign_def)

lemma benign_run_Cons:
  assumes "benign armed a u" "\<And>u'. a u = (None, u') \<Longrightarrow> benign armed (run_acts as) u'"
  shows "benign armed (run_acts (a # as)) u"
  using assms by (auto simp: benign_def split: option.split prod.split intro: rtranclp_trans)

lemma benign_ok [benign_rules]: "core (f u) = core u \<Longrightarrow> benign armed (ok f) u"
  by (rule benign_one, rule quiet) (simp add: ok_def)

lemma benign_id [benign_rules]: "benign armed (ok id) u" "benign armed (Pair e) u" "benign armed (fails x) u"
  by (auto intro!: benign_one quiet simp: ok_def fails_def)

lemma benign_if [benign_rules]: "(b \<Longrightarrow> benign armed a u) \<Longrightarrow> benign armed (act_if b a) u"
  by (simp add: act_if_def benign_rules)

lemma benign_needs [benign_rules]: "(\<not> list_ex nullish vs \<Longrightarrow> benign armed a u) \<Longrightarrow> benign armed (needs vs a) u"
  by (simp add: needs_def benign_rules)

definition silent :: "((ui_handler, ui_cont) page \<Rightarrow> (ui_handler, ui_cont) page) \<Rightarrow> bool" where
  "silent f \<longleftrightarrow> (\<forall>p. pending (f p) = pending p \<and> timers (f p) = timers p)"

lemma silent_calls [benign_rules, simp]:
  "silent (set_html s x)" "silent (append_html s x)" "silent (set_val s v)" "silent (set_css s k x)" "silent (set_shown s b)"
  "silent (off_click s)" "silent (on_click s h)" "silent (js_alert x)" "silent (set_class s c b)" "silent (set_disabled s b)"
  by (simp_all add: silent_def page_defs)

lemma silent_steps: "\<forall>f \<in> set fs. silent f \<Longrightarrow> silent (steps fs)"
proof -
  have "\<forall>f \<in> set fs. silent f \<Longrightarrow> pending (steps fs p) = pending p \<and> timers (steps fs p) = timers p" for p
    by (induction fs arbitrary: p) (auto simp: silent_def)
  then show "\<forall>f \<in> set fs. silent f \<Longrightarrow> silent (steps fs)" by (simp add: silent_def)
qed

lemma benign_pg [benign_rules]: "silent f \<Longrightarrow> benign armed (pg f) u"
  by (auto simp: pg_def silent_def core_def intro: benign_ok)

lemma benign_pgs [benign_rules]: "\<forall>f \<in> set fs. silent f \<Longrightarrow> benign armed (pgs fs) u"
  by (simp add: pgs_def benign_pg silent_steps)

lemma benign_tp: "topo_change (u_topo u) (snd (f (u_topo u))) \<Longrightarrow> benign armed (tp f) u"
  by (rule benign_one, rule redraw) (auto simp: tp_def core_def split: prod.split)

lemma benign_request [benign_rules]:
  "simple_request k \<Longrightarrow> benign armed (get_url url k) u" "simple_request k \<Longrightarrow> benign armed (post url kvs k) u"
  "simple_request k \<Longrightarrow> benign armed (pg (send m url b k)) u"
  by (rule benign_one, erule request, simp add: get_url_def post_def pg_def ok_def core_def page_defs)+

lemma benign_timer [benign_rules]: "simple_timer k \<Longrightarrow> benign armed (pg (set_timer k)) u"
  by (rule benign_one, erule timer) (simp add: pg_def ok_def core_def page_defs)

lemma benign_body [benign_rules]: "benign armed (body_append i h) u" "benign armed (body_remove i) u"
  by (auto simp: body_append_def body_remove_def core_def page_defs intro!: benign_ok)

lemma benign_popup [benign_rules]: "benign armed (popup h b w) u"
  by (auto simp: popup_def intro!: benign_rules)

lemma benign_flash [benign_rules]: "benign armed (flash_act ids n) u" "benign armed (tp (centerNode i)) u"
  by (auto simp: flash_act_def intro!: benign_rules benign_tp topo_changes)

section \<open>Handlers\<close>

lemma benign_cases [benign_rules]:
  "(\<And>x. r = Inl x \<Longrightarrow> benign armed (f x) u) \<Longrightarrow> (\<And>y. r = Inr y \<Longrightarrow> benign armed (g y) u) \<Longrightarrow>
     benign armed (case r of Inl x \<Rightarrow> f x | Inr y \<Rightarrow> g y) u"
  by (cases r) simp_all

text \<open>A handler that depends on the state, where it is run.\<close>

lemma benign_eq: "a u = b u \<Longrightarrow> benign armed b u \<Longrightarrow> benign armed a u"
  by (simp add: benign_def)

lemma benign_acts: "a u = run_acts as u \<Longrightarrow> benign armed (run_acts as) u \<Longrightarrow> benign armed a u"
  by (simp add: benign_def)

lemma benign_windows [benign_rules]:
  "benign armed (detail_window h c) u" "benign armed hide_details u"
proof -
  show "benign armed (detail_window h c) u" by (rule benign_acts [OF detail_window_def]) (auto intro!: benign_rules)
  show "benign armed hide_details u" by (auto simp: hide_details_def intro!: benign_rules)
qed

lemma silent_detail [simp]: "silent (detail_at ev)"
  by (simp add: silent_def detail_at_def page_defs)

lemma benign_layout [benign_rules]:
  "benign armed showTreeCanvas u" "benign armed showCircleCanvas u" "benign armed resizeCanvas u" "benign armed saveCurrentLayout u"
  by (auto simp: showTreeCanvas_def showCircleCanvas_def resizeCanvas_def saveCurrentLayout_def canvas_size_def core_def
      intro!: benign_rules benign_tp setCurrentLayout_change)

lemma benign_links [benign_rules]:
  "benign armed (tp (on_stage (boldLink ids))) u" "benign armed fade u" "benign armed unbold u" "benign armed (highlight i) u"
  "benign armed (color_link a z s) u"
proof -
  show "benign armed fade u"
    unfolding fade_def ok_def [abs_def]
    by (rule benign_one, rule redraw [where t = "snd (on_stage fadeAllLinks (u_topo u))"])
      (auto simp: ok_def core_def intro!: topo_changes changes)
qed (auto simp: unbold_def highlight_def color_link_def intro!: benign_rules benign_tp topo_changes changes)

lemma benign_nets [benign_rules]:
  "benign armed createVirtualNet u" "benign armed saveVirtualNet u" "benign armed (onSaveNet r) u" "benign armed (onNets r) u"
  "benign armed (onGroup s) u" "benign armed (showVirtualNetAllNode n) u" "benign armed (onShowNet r) u"
  "benign armed (loadVirtualNetItems n) u" "benign armed (onItems n r) u" "benign armed (centerNode_act i) u"
  "benign armed showVirtualNetPanel u" "benign armed onAddToNet u" "benign armed (onAdded sel r) u"
  "benign armed (delVirtualNetItem g i) u" "benign armed (onDelItem i r) u" "benign armed doSearch u"
proof -
  show "benign armed createVirtualNet u"
    by (auto simp: createVirtualNet_def core_def intro!: benign_rules)
  show "benign armed saveVirtualNet u"
    by (rule benign_acts [OF saveVirtualNet_def [unfolded Let_def]]) (auto intro!: benign_rules)
  show "benign armed (onSaveNet r) u" "benign armed (onNets r) u" "benign armed (onGroup s) u"
    "benign armed (showVirtualNetAllNode n) u" "benign armed (onShowNet r) u" "benign armed (loadVirtualNetItems n) u"
    "benign armed (onItems n r) u" "benign armed (centerNode_act i) u" "benign armed (delVirtualNetItem g i) u"
    "benign armed (onDelItem i r) u"
    by (auto simp: onSaveNet_def onNets_def onGroup_def showVirtualNetAllNode_def onShowNet_def loadVirtualNetItems_def
        onItems_def centerNode_act_def delVirtualNetItem_def onDelItem_def Let_def core_def intro!: benign_rules)
  show "benign armed showVirtualNetPanel u"
    by (rule benign_eq [OF showVirtualNetPanel_def]) (auto intro!: benign_rules)
  have al: "benign armed (pg (js_alert s)) u" for s by (auto intro!: benign_rules)
  show "benign armed onAddToNet u"
    using al benign_request(2) [of "KAddItems (selected_items u)" armed] benign_id(2) [of armed None u]
    by (auto simp: benign_def onAddToNet_def Let_def)
  have "silent (\<lambda>p. set_html s (f p) p)" for s f by (simp add: silent_def page_defs)
  then show "benign armed (onAdded sel r) u"
    by (intro benign_eq [OF onAdded_def]) (auto intro!: benign_rules)
  show "benign armed doSearch u"
  proof (cases "stage (u_topo u)")
    case None
    then show ?thesis by (simp add: doSearch_def benign_def)
  next
    case (Some v)
    show ?thesis
      by (rule benign_acts, unfold doSearch_def Some Let_def option.case, rule refl) (auto simp: core_def intro!: benign_rules)
  qed
qed

lemma benign_rates [benign_rules]:
  "benign armed (loadExchangeDetail ev d) u" "benign armed (loadHostDetail ev d) u" "benign armed loadInterval u"
  "benign armed (onInterval r) u" "benign armed (updateInterval v) u" "benign armed (onUpdateInterval v r) u"
  "benign armed (loadOptimalPath a b) u" "benign armed (onOptimal r) u" "benign armed (showOptimalPath ids) u"
  "benign armed (showAllPath a b) u" "benign armed (onAllPaths a b r) u" "benign armed (saveOptimalPath btn s c p) u"
  "benign armed (onSaveOptimal btn r) u" "benign armed (onPathMenu a b) u" "benign armed refreshRateDetail u"
  "benign armed (onRate r) u" "benign armed loadFabric u" "benign armed (onFabric r) u"
  "benign armed (changeFabric a p b q) u" "benign armed (onFabricSet r) u" "benign armed refreshLinkColor u"
proof -
  show "benign armed (loadExchangeDetail ev d) u" "benign armed (loadHostDetail ev d) u"
    by (auto simp: loadExchangeDetail_def loadHostDetail_def Let_def intro!: benign_rules split: option.split)
  show i: "benign armed loadInterval u" by (rule benign_eq [OF loadInterval_def]) (auto intro!: benign_rules)
  show "benign armed (onInterval r) u" "benign armed (onUpdateInterval v r) u"
    by (auto simp: onInterval_def onUpdateInterval_def core_def intro!: benign_rules)
  show "benign armed (updateInterval v) u" by (rule benign_eq [OF updateInterval_def]) (auto intro!: benign_rules)
  show "benign armed (loadOptimalPath a b) u" by (rule benign_eq [OF loadOptimalPath_def]) (auto intro!: benign_rules)
  show p: "benign armed (showAllPath a b) u" for u by (auto simp: showAllPath_def intro!: benign_rules)
  show "benign armed (onOptimal r) u" "benign armed (showOptimalPath ids) u" "benign armed (onAllPaths a b r) u"
    "benign armed (saveOptimalPath btn s c p) u" "benign armed (onSaveOptimal btn r) u" "benign armed (onPathMenu a b) u"
    by (auto simp: onOptimal_def showOptimalPath_def onAllPaths_def saveOptimalPath_def onSaveOptimal_def onPathMenu_def
        intro!: benign_rules p)
  show "benign armed refreshRateDetail u"
    by (cases "rate_link u") (auto simp: refreshRateDetail_def [abs_def] benign_def intro!: benign_rules [unfolded benign_def])
  show "benign armed (onRate r) u"
  proof (cases "rate_link u")
    case None
    then show ?thesis by (simp add: onRate_def [abs_def] benign_def)
  next
    case (Some p)
    obtain k src dst where p: "p = (k, src, dst)" by (cases p)
    show ?thesis
      by (rule benign_acts, unfold onRate_def Some p Let_def option.case prod.case, rule refl) (auto intro!: benign_rules)
  qed
  show "benign armed loadFabric u"
    by (cases "rate_link u") (auto simp: loadFabric_def [abs_def] benign_def intro!: benign_rules [unfolded benign_def])
  show "benign armed (onFabric r) u" "benign armed (changeFabric a p b q) u" "benign armed (onFabricSet r) u"
    by (auto simp: onFabric_def changeFabric_def onFabricSet_def intro!: benign_rules)
  show "benign armed refreshLinkColor u"
    by (rule benign_eq [OF refreshLinkColor_def]) (auto intro!: benign_rules)
qed

lemma benign_stage [benign_rules]:
  "benign armed (onRateUsed r) u" "benign armed loadRateUsed u" "benign armed onRadio u" "benign armed (onSelectMode b) u"
  "benign armed onRateConfig u" "benign armed (onTopoSave num) u" "benign armed (onSearchType n) u" "benign armed (onHideMenu i) u"
  "benign armed layoutALL u" "benign armed (canvas_mouseup ev) u"
proof -
  show "benign armed (onRateUsed r) u"
    by (auto simp: onRateUsed_def intro!: benign_rules benign_tp topo_changes changes)
  have c: "benign armed (\<lambda>u. act_if (b u) a u) u" if "benign armed a u" for b a u
    using that by (cases "b u") (simp_all add: benign_def act_if_def ok_def)
  show "benign armed loadRateUsed u"
    by (auto simp: loadRateUsed_def intro!: benign_rules c)
  show "benign armed onRadio u"
  proof (cases "js_eq (JStr (vals (u_page u) ''#rateUsedMonitor'')) (JNum (Fin 0))")
    case True
    then show ?thesis by (intro benign_eq [of onRadio, OF _ benign_pgs]) (auto simp: onRadio_def)
  next
    case False
    show ?thesis
      by (rule benign_acts, unfold onRadio_def if_not_P [OF False], rule refl)
        (auto intro!: benign_rules benign_tp topo_changes)
  qed
  show "benign armed (onSelectMode b) u"
    by (auto simp: onSelectMode_def intro!: benign_tp topo_changes changes)
  show "benign armed onRateConfig u"
    by (rule benign_acts [OF onRateConfig_def]) (auto simp: core_def page_defs pg_def intro!: benign_rules)
  show "benign armed (onTopoSave num) u"
    by (cases "serilize num (u_topo u)") (auto simp: onTopoSave_def [abs_def] benign_def intro!: benign_rules [unfolded benign_def])
  show "benign armed (onSearchType n) u" "benign armed (onHideMenu i) u" "benign armed layoutALL u" "benign armed (canvas_mouseup ev) u"
    by (auto simp: onSearchType_def type_mark_def onHideMenu_def layoutALL_def canvas_mouseup_def intro!: benign_rules)
qed

lemma benign_full [benign_rules]: "benign armed (fullTopoInWin has) u"
proof -
  have f: "benign armed (fullscreen has) u" "benign armed (exitFullscreen has) u" for u
    by (auto simp: fullscreen_def exitFullscreen_def call_api_def core_def intro!: benign_rules)
  show ?thesis
  proof (cases "u_full u")
    case True
    show ?thesis
      by (rule benign_acts, unfold fullTopoInWin_def, simp only: True not_True_eq_False if_False)
        (auto simp: core_def bars_def intro!: benign_rules f)
  next
    case False
    show ?thesis
      by (rule benign_acts, unfold fullTopoInWin_def, simp only: False not_False_eq_True if_True)
        (auto simp: core_def bars_def intro!: benign_rules f)
  qed
qed

text \<open>The mouse.\<close>

lemma benign_when [benign_rules]: "benign armed a u \<Longrightarrow> benign armed (\<lambda>u. act_if (b u) a u) u"
  by (cases "b u") (simp_all add: benign_def act_if_def ok_def)

lemma extend_path_other:
  "u_last u = Some (j, b) \<Longrightarrow> (j, b) \<noteq> (ev_kind ev, a) \<Longrightarrow>
     extend_path ev a u = run_acts
       [loadOptimalPath (node_id j b u) (node_id (ev_kind ev) a u),
        pgs [set_css ''#pathMenu'' ''top'' (show_int (ev_pageY ev + 17)),
             set_css ''#pathMenu'' ''left'' (show_int (ev_pageX ev + 287)),
             set_shown ''#pathMenu'' True, off_click ''#pathMenu'',
             on_click ''#pathMenu'' (HPaths (node_id j b u) (node_id (ev_kind ev) a u))]] u"
  by (simp only: extend_path_def option.case prod.case if_False Let_def)

lemma benign_path [benign_rules]: "benign armed (extend_path ev a) u" "benign armed (showPath ev) u"
proof -
  have "core (u\<lparr>u_last := l\<rparr>) = core u" for u l by (simp add: core_def)
  then have set: "(change armed)\<^sup>*\<^sup>* u (u\<lparr>u_last := l\<rparr>)" for u l by (blast intro: quiet)
  show e: "benign armed (extend_path ev a) u" for u a
  proof (cases "\<exists>j b. u_last u = Some (j, b) \<and> (j, b) \<noteq> (ev_kind ev, a)")
    case True
    then obtain j b where l: "u_last u = Some (j, b)" "(j, b) \<noteq> (ev_kind ev, a)" by blast
    show ?thesis by (rule benign_acts, rule extend_path_other [OF l]) (auto intro!: benign_rules)
  next
    case False
    then show ?thesis using set by (cases "u_last u") (auto simp: extend_path_def benign_def)
  qed
  show "benign armed (showPath ev) u"
    unfolding showPath_def by (auto intro!: benign_rules e split: option.split elem.split)
qed

lemma benign_mouse [benign_rules]:
  "benign armed (onMouseMove ev) u" "benign armed onMouseDown u" "benign armed (onClick ev) u"
proof -
  show "benign armed (onMouseMove ev) u"
  proof (cases "ev_target ev")
    case None
    have "change armed u (snd (onMouseMove ev u))"
      by (rule cleared [where k = "ev_kind ev"])
        (simp add: onMouseMove_def None clear_mouse_timer_def pg_def ok_def core_def page_defs clear_timer_def
          cleared_timers_def split: option.split)
    then show ?thesis by (simp add: benign_def)
  next
    case (Some e)
    have "change armed u (snd (onMouseMove ev u))"
      by (rule mouse_timer [OF refl, where k = "ev_kind ev"])
        (simp add: onMouseMove_def Some clear_mouse_timer_def set_mouse_timer_def ok_def core_def page_defs clear_timer_def
          cleared_timers_def Let_def split: option.split)
    then show ?thesis by (simp add: benign_def)
  qed
  show "benign armed onMouseDown u" by (simp add: onMouseDown_def benign_rules)
  have "benign armed (\<lambda>u. highlight (Some (JStr (f u))) u) u" for f u
    by (rule benign_eq [where b = "highlight (Some (JStr (f u)))"]) (auto intro: benign_rules)
  then show "benign armed (onClick ev) u"
    by (auto simp: onClick_def unless_path_def start_path_def core_def intro!: benign_rules split: option.split elem.split)
qed

lemma benign_details [benign_rules]: "benign armed (detail_of ev e) u" "benign armed showDetail u"
proof -
  have r: "benign armed (loadRateDetail ev l) u" for ev l u
  proof -
    have "benign armed (\<lambda>u. if in_body i u then (None, u) else body_append i h u) u" for i h u
      using benign_body(1) [of armed i h u] by (cases "in_body i u") (simp_all add: benign_def)
    then show ?thesis by (auto simp: loadRateDetail_def core_def intro!: benign_rules)
  qed
  show d: "benign armed (detail_of ev e) u" for ev e u
    using r by (cases e) (auto simp: detail_of_def benign_def intro!: benign_rules [unfolded benign_def])
  show "benign armed showDetail u"
  proof (cases "u_mouse u")
    case None
    then show ?thesis by (simp add: showDetail_def benign_def)
  next
    case (Some ev)
    have c: "core (u\<lparr>u_detail := x\<rparr>) = core u" for u x by (simp add: core_def)
    show ?thesis
    proof (cases "ev_target ev = None \<or> \<not> u_checked u ''#detailCheck''")
      case True
      then have "showDetail u = run_acts [hide_details, ok (\<lambda>u. u\<lparr>u_detail := None\<rparr>)] u"
        by (auto simp only: showDetail_def Some option.case if_True not_False_eq_True split: option.split)
      then show ?thesis by (rule benign_acts) (auto simp: c intro!: benign_rules)
    next
      case False
      then obtain e where e: "ev_target ev = Some e" "u_checked u ''#detailCheck''" by (cases "ev_target ev") auto
      have "showDetail u = run_acts [act_if (u_detail u \<noteq> Some (ev_kind ev, e)) (detail_of ev e),
          ok (\<lambda>u. u\<lparr>u_detail := Some (ev_kind ev, e)\<rparr>)] u"
        by (simp only: showDetail_def Some e option.case not_True_eq_False if_False)
      then show ?thesis by (rule benign_acts) (auto simp: c intro!: benign_rules d)
    qed
  qed
qed

lemma benign_handle: "benign armed (handle num has c h) u" "benign armed (run_call has f) u"
  by (cases h; simp add: benign_rules) (cases f; simp add: benign_rules)

lemma benign_press: "benign armed (press_on num has c) u"
proof -
  have "\<exists>hs. press_on num has c u = run_acts (map (handle num has c) hs) u"
    unfolding press_on_def Let_def by (rule exI, rule refl)
  then obtain hs where "press_on num has c u = run_acts (map (handle num has c) hs) u" ..
  then show ?thesis by (rule benign_acts) (auto intro!: benign_rules benign_handle)
qed

lemma change_hosts: "node_addr v a \<Longrightarrow> view_change v (snd (hosts_answer (place_hosts k) a xy r v))"
proof -
  assume a: "node_addr v a"
  have "length (nodes v) \<le> length (nodes (snd (hosts_answer (place_hosts k) a xy r v)))"
  proof -
    have "moved w (place_hosts k a hs w)" for hs w by (cases k) simp_all
    from moved_length [OF this] show ?thesis
      by (auto simp: hosts_answer_def show_hosts_def Let_def upd_node_def view_simps scene_add_def split: sum.split)
  qed
  then show ?thesis using a tree.hosts_wf circle.hosts_wf by (cases k) (auto simp: view_change_def)
qed

lemma benign_hosts:
  assumes "view_of k (u_topo u) = Some v" "node_addr v a"
  shows "benign armed (onHosts k a x y r) u"
proof (rule benign_one, rule redraw)
  let ?w = "snd (hosts_answer (place_hosts k) a (x, y) r v)"
  show "topo_change (u_topo u) (put_view k ?w (u_topo u))" by (rule topo_change_put [OF assms(1) change_hosts [OF assms(2)]])
  show "core (snd (onHosts k a x y r u)) = (put_view k ?w (u_topo u), u_data u, pending (u_page u), timers (u_page u), clock u)"
    using assms(1) by (simp add: onHosts_def view_act_def core_def split: prod.split)
qed

lemma benign_dbl:
  assumes "\<And>e v. ev_target ev = Some e \<Longrightarrow> view_of (ev_kind ev) (u_topo u) = Some v \<Longrightarrow> e \<in> set (childs v)"
  shows "benign armed (onDblClick ev) u"
proof (cases "view_of (ev_kind ev) (u_topo u)")
  case None
  then show ?thesis by (simp add: onDblClick_def benign_def)
next
  case (Some v)
  show ?thesis
  proof (cases "v_ready v \<and> (\<exists>w req. dbclick (ev_target ev) v = Inr (w, req))")
    case False
    then show ?thesis using Some by (auto simp: onDblClick_def benign_def split: sum.split prod.split)
  next
    case True
    then obtain w req where d: "v_ready v" "dbclick (ev_target ev) v = Inr (w, req)" by blast
    let ?t = "tp (on_view (ev_kind ev) (\<lambda>v. w))"
    let ?ask = "case (req, ev_target ev) of
         (Some i, Some (ENode a)) \<Rightarrow> get_url (topo_path ''exchange_host'' @ url_params u @ ''&switch_id='' @ js_str i)
            (KHosts (ev_kind ev) a (ev_x ev) (ev_y ev))
       | _ \<Rightarrow> ok id"
    have eq: "onDblClick ev u = run_acts [?t, ?ask] u"
      by (simp only: onDblClick_def Some option.case d sum.case prod.case not_True_eq_False if_False)
    have "view_change v w"
    proof -
      have "length (nodes w) = length (nodes v)"
        using d(2) by (auto simp: dbclick_def Let_def collapse_def upd_node_def view_simps remove_all_fields
            split: option.splits elem.splits if_splits)
      then show ?thesis using wf_dbclick [OF _ d(2)] by (simp add: view_change_def)
    qed
    then have t: "benign armed ?t u" using Some by (intro benign_tp on_view_change) auto
    have "benign armed (run_acts [?ask]) u'" if "?t u = (None, u')" for u'
    proof (cases "\<exists>i a. req = Some i \<and> ev_target ev = Some (ENode a)")
      case True
      then obtain i a where i: "req = Some i" "ev_target ev = Some (ENode a)" by blast
      then have w: "w = v" using d(2) by (auto simp: dbclick_def Let_def split: if_splits)
      have "ENode a \<in> set (childs v)" using assms i(2) Some by blast
      then have a: "scene_wf v \<Longrightarrow> node_addr v a" by (auto simp: scene_wf_def list_all_iff allocated_def node_addr_def)
      have "view_of (ev_kind ev) (u_topo u') = Some v"
        using that Some w by (auto simp: tp_def on_view_def view_of_put)
      from ask_hosts [OF this a] show ?thesis
        by (intro benign_one) (simp add: i get_url_def pg_def ok_def core_def page_defs)
    next
      case False
      then have "?ask = ok id" by (auto split: option.split elem.split)
      then show ?thesis by (auto intro!: benign_rules)
    qed
    then show ?thesis using benign_run_Cons [OF t] eq by (simp add: benign_def)
  qed
qed

section \<open>The start\<close>

text \<open>
  What holds of the page from its start: views are well formed, a request for hosts names a node of its
  view, each topology is asked for once, and there is no view before both have arrived.
\<close>

definition page_inv :: "ui \<Rightarrow> bool" where
  "page_inv u \<longleftrightarrow>
     (\<forall>k v. view_of k (u_topo u) = Some v \<longrightarrow> scene_wf v) \<and>
     (\<forall>q k a x y. (q, KHosts k a x y) \<in> set (pending (u_page u)) \<longrightarrow>
        (\<exists>v. view_of k (u_topo u) = Some v \<and> node_addr v a)) \<and>
     (\<forall>k. length (filter (\<lambda>p. snd p = KData k) (pending (u_page u))) \<le> (if data_of k (u_data u) = None then 1 else 0)) \<and>
     (\<forall>k. view_of k (u_topo u) \<noteq> None \<longrightarrow> fst (u_data u) \<noteq> None \<and> snd (u_data u) \<noteq> None)"

lemma run_acts_first:
  "run_acts (pg f # as) u = run_acts as (u\<lparr>u_page := f (u_page u)\<rparr>)" "run_acts (ok g # as) u = run_acts as (g u)"
  by (simp_all add: pg_def ok_def)

lemma run_acts_last: "run_acts [a] u = a u"
  by (cases "a u") (simp split: option.split)

lemma benign_step: "(change armed)\<^sup>*\<^sup>* u u' \<Longrightarrow> benign armed a u' \<Longrightarrow> (change armed)\<^sup>*\<^sup>* u (snd (a u'))"
  by (simp add: benign_def)

lemma benign_init_view:
  assumes "view_of k (u_topo u) = None" "\<And>j. data_of j (u_data u) \<noteq> None"
    and f: "\<And>datas need w h t. \<exists>v. scene_wf v \<and> view_of k (snd (f datas need w h t)) = Some v"
      "\<And>datas need w h t j. j \<noteq> k \<Longrightarrow> view_of j (snd (f datas need w h t)) = view_of j t"
  shows "benign armed (init_view f canvas r) u"
proof (cases "\<exists>datas. pget r ''nodes'' = JArr datas")
  case True
  then obtain datas where d: "pget r ''nodes'' = JArr datas" by blast
  let ?x = "f datas (pget r ''need-layout'') (fst (u_canvas u canvas)) (snd (u_canvas u canvas)) (u_topo u)"
  have e: "snd (init_view f canvas r u) = u\<lparr>u_topo := snd ?x\<rparr>"
    using d by (simp add: init_view_def tp_def split: prod.split)
  obtain v where v: "scene_wf v" "view_of k (snd ?x) = Some v" using f(1) by blast
  have "change armed u (u\<lparr>u_topo := snd ?x\<rparr>)"
    by (rule create [OF assms(1,2) v f(2)]) (simp_all add: core_def)
  then show ?thesis by (simp add: benign_def e)
next
  case False
  then show ?thesis by (auto simp: init_view_def benign_def split: jsval.split)
qed

lemma init_views:
  "\<exists>v. scene_wf v \<and> view_of TreeView (snd (topo_initTree datas need w h t)) = Some v"
  "\<exists>v. scene_wf v \<and> view_of CircleView (snd (topo_initCircle datas need w h t)) = Some v"
  "j \<noteq> TreeView \<Longrightarrow> view_of j (snd (topo_initTree datas need w h t)) = view_of j t"
  "j \<noteq> CircleView \<Longrightarrow> view_of j (snd (topo_initCircle datas need w h t)) = view_of j t"
  using initTree_wf [of datas need w h] initCircle_wf [of datas need w h]
  by (cases j; auto simp: topo_initTree_def topo_initCircle_def split: prod.splits)+

lemma benign_topo_data:
  assumes "\<And>k. view_of k (u_topo u) = None" "\<And>j. data_of j (u_data u) \<noteq> None"
  shows "benign armed (onTopoData t c) u"
  unfolding onTopoData_def
proof (rule benign_run_Cons)
  show "benign armed (init_view topo_initTree ''canvas_tree'' t) u"
    by (rule benign_init_view [where k = TreeView]) (use assms init_views in auto)
  fix u' assume "init_view topo_initTree ''canvas_tree'' t u = (None, u')"
  then have "view_of CircleView (u_topo u') = None" "u_data u' = u_data u"
    using assms(1) [of CircleView] init_views(3) [of CircleView]
    by (auto simp: init_view_def tp_def split: jsval.splits prod.splits) (metis layout_kind.distinct(1) snd_conv)
  then have "benign armed (init_view topo_initCircle ''canvas_circle'' c) u'"
    by (intro benign_init_view [where k = CircleView]) (use assms(2) init_views in auto)
  then show "benign armed (run_acts [init_view topo_initCircle ''canvas_circle'' c, pg (set_timer KLayout),
      pg (set_timer KPoll), tp (topo_on ''mousemove'' ''onMouseMove''), tp (topo_on ''mousedown'' ''onMouseDown''),
      tp (topo_on ''click'' ''onClick''), (\<lambda>u. act_if (getCurrentLayout u = ''circle'') showCircleCanvas u)]) u'"
    by (rule benign_run_Cons) (auto intro!: benign_rules benign_tp topo_changes)
qed

section \<open>Answers and timers\<close>

lemma benign_answered: "simple_request k \<Longrightarrow> benign armed (answered k r) u"
  by (cases k) (auto intro!: benign_rules)

lemma benign_timed: "k \<noteq> KRateThread \<or> armed \<Longrightarrow> benign armed (timed k) u"
proof -
  have t: "benign True loadRateUsedDataThread u" for u
    by (auto simp: loadRateUsedDataThread_def pg_def ok_def core_def page_defs intro!: benign_one thread)
  show "k \<noteq> KRateThread \<or> armed \<Longrightarrow> benign armed (timed k) u"
    by (cases k) (auto intro!: benign_rules benign_tp topo_changes changes t)
qed

text \<open>While an answer about the topology is awaited nothing is drawn.\<close>

lemma awaited_data:
  assumes "page_inv u" "(q, KData j) \<in> set (pending (u_page u))"
  shows "view_of k (u_topo u) = None"
proof -
  have "0 < length (filter (\<lambda>p. snd p = KData j) (pending (u_page u)))"
    using assms(2) by (force simp: filter_empty_conv)
  moreover have "length (filter (\<lambda>p. snd p = KData j) (pending (u_page u))) \<le> (if data_of j (u_data u) = None then 1 else 0)"
    using assms(1) unfolding page_inv_def by blast
  ultimately have "data_of j (u_data u) = None" by (auto split: if_splits)
  moreover have "view_of k (u_topo u) \<noteq> None \<longrightarrow> fst (u_data u) \<noteq> None \<and> snd (u_data u) \<noteq> None"
    using assms(1) unfolding page_inv_def by blast
  ultimately show ?thesis by (cases j) auto
qed

lemma deliver_data:
  assumes "page_inv u" "nth_opt (pending (u_page u)) i = Some (q, KData j)" "(q, KData j) \<in> set (pending (u_page u))"
    and deliver: "deliver i r u = answered (KData j) r (u\<lparr>u_page := take_pending i (u_page u)\<rparr>)"
  shows "(change armed)\<^sup>*\<^sup>* u (snd (deliver i r u))"
proof -
  let ?u = "u\<lparr>u_page := take_pending i (u_page u)\<rparr>"
  let ?d = "case j of TreeView \<Rightarrow> (Some r, snd (u_data u)) | CircleView \<Rightarrow> (fst (u_data u), Some r)"
  let ?w = "?u\<lparr>u_data := ?d\<rparr>"
  have dj: "data_of j ?d = Some r" "\<And>m. m \<noteq> j \<Longrightarrow> data_of m ?d = data_of m (u_data u)"
    by (cases j; simp) (case_tac m; cases j; simp)
  have "change armed u ?w"
    by (rule arrive [OF _ _ dj]) (use assms(2) in \<open>simp_all add: core_def page_defs without_def\<close>)
  then have w: "(change armed)\<^sup>*\<^sup>* u ?w" by simp
  have e: "deliver i r u = (case ?d of (Some t, Some c) \<Rightarrow> onTopoData t c ?w | _ \<Rightarrow> (None, ?w))"
    unfolding deliver answered.simps onData_def run_acts_first run_acts_last by (auto split: layout_kind.split option.split)
  show ?thesis
  proof (cases "\<exists>t c. ?d = (Some t, Some c)")
    case True
    then obtain t c where tc: "?d = (Some t, Some c)" by blast
    have "data_of k ?d \<noteq> None" for k unfolding tc by (cases k) simp_all
    then have "benign armed (onTopoData t c) ?w"
      by (intro benign_topo_data) (simp_all add: awaited_data [OF assms(1,3)])
    then show ?thesis using benign_step [OF w] e tc by simp
  next
    case False
    then have "deliver i r u = (None, ?w)" using e by (auto split: prod.split option.split)
    then show ?thesis using w by simp
  qed
qed

lemma deliver_changes:
  assumes "page_inv u"
  shows "(change armed)\<^sup>*\<^sup>* u (snd (deliver i r u))"
proof (cases "nth_opt (pending (u_page u)) i")
  case None
  then show ?thesis by (simp add: deliver_def)
next
  case (Some p)
  obtain q k where p: "p = (q, k)" by (cases p)
  let ?u = "u\<lparr>u_page := take_pending i (u_page u)\<rparr>"
  have d: "deliver i r u = answered k r ?u"
    unfolding deliver_def Some p option.case prod.case run_acts_first run_acts_last ..
  have t: "change armed u ?u" by (rule taken [of _ _ i]) (simp add: core_def page_defs without_def)
  have mem: "(q, k) \<in> set (pending (u_page u))" using Some p by (auto simp: nth_opt_def split: if_splits) (metis nth_mem)
  show ?thesis
  proof (cases "simple_request k")
    case True
    then show ?thesis using benign_step [OF r_into_rtranclp [of "change armed", OF t] benign_answered] d by simp
  next
    case False
    then consider (hosts) j a x y where "k = KHosts j a x y" | (data) j where "k = KData j" by (cases k) auto
    then show ?thesis
    proof cases
      case hosts
      then obtain v where v: "view_of j (u_topo u) = Some v" "node_addr v a"
        using mem assms unfolding page_inv_def by blast
      then have "benign armed (onHosts j a x y r) ?u" by (intro benign_hosts) auto
      then show ?thesis using benign_step [OF r_into_rtranclp [of "change armed", OF t]] d hosts by simp
    next
      case data
      then show ?thesis using deliver_data [OF assms _ _ d [unfolded data]] Some p mem by simp
    qed
  qed
qed

lemma tick_changes:
  assumes "nth_opt (timers (u_page u)) i \<noteq> Some KRateThread \<or> armed"
  shows "(change armed)\<^sup>*\<^sup>* u (snd (tick i u))"
proof (cases "nth_opt (timers (u_page u)) i")
  case None
  then show ?thesis by (simp add: tick_def)
next
  case (Some k)
  let ?u = "u\<lparr>u_page := (u_page u)\<lparr>timers := take i (timers (u_page u)) @ drop (Suc i) (timers (u_page u))\<rparr>\<rparr>"
  have d: "tick i u = timed k ?u"
    unfolding tick_def Some option.case run_acts_first run_acts_last ..
  have "change armed u ?u" by (rule timed_out [of _ _ i]) (simp add: core_def without_def)
  then show ?thesis
    using benign_step [OF r_into_rtranclp [of "change armed"] benign_timed] assms Some d by auto
qed

section \<open>Events\<close>

text \<open>
  What can happen to the page: an answer, a timer, the mouse over one of the scenes, a click on the page,
  a call from the markup, a change of the size of the window, and input of the user or the passing of time.
  The library reports as the target of the mouse an element of the scene.
\<close>

definition on_scene :: "mouse_event \<Rightarrow> ui \<Rightarrow> bool" where
  "on_scene ev u \<longleftrightarrow> (case (ev_target ev, view_of (ev_kind ev) (u_topo u)) of
     (Some e, Some v) \<Rightarrow> e \<in> set (childs v) | _ \<Rightarrow> True)"

inductive page_step :: "(coord \<Rightarrow> string) \<Rightarrow> (string \<Rightarrow> bool) \<Rightarrow> ui \<Rightarrow> ui \<Rightarrow> bool" for num has where
  answer: "page_step num has u (snd (deliver i r u))"
| timer: "page_step num has u (snd (tick i u))"
| flash: "page_step num has u (snd (tp (on_view k (flash_tick j)) u))"
| mouse_move: "page_step num has u (snd (onMouseMove ev u))"
| mouse_down: "page_step num has u (snd (onMouseDown u))"
| mouse_click: "page_step num has u (snd (onClick ev u))"
| mouse_dbl: "on_scene ev u \<Longrightarrow> page_step num has u (snd (onDblClick ev u))"
| mouse_up: "page_step num has u (snd (canvas_mouseup ev u))"
| wheel: "page_step num has u (snd (tp (mousewheel d e) u))"
| press: "page_step num has u (snd (press_on num has c u))"
| called: "page_step num has u (snd (run_call has f u))"
| resize: "page_step num has u (snd (resizeCanvas (u\<lparr>u_chart := s\<rparr>)))"
| input: "page_step num has u (u\<lparr>u_page := (u_page u)\<lparr>vals := x\<rparr>, u_checked := y, u_now := z\<rparr>)"

inductive_cases page_stepE: "page_step num has u w"

lemma page_step_changes:
  assumes "page_step num has u w" "page_inv u" "armed \<or> KRateThread \<notin> set (timers (u_page u))"
  shows "(change armed)\<^sup>*\<^sup>* u w"
  using assms(1)
proof cases
  case (timer i)
  have "nth_opt (timers (u_page u)) i \<noteq> Some KRateThread \<or> armed"
    using assms(3) by (auto simp: nth_opt_def split: if_splits) (metis nth_mem)
  then show ?thesis using tick_changes timer by simp
next
  case (flash k j)
  have "benign armed (tp (on_view k (flash_tick j))) u" by (intro benign_tp topo_changes changes)
  then show ?thesis using flash by (simp add: benign_def)
next
  case (mouse_dbl ev)
  have "benign armed (onDblClick ev) u" by (rule benign_dbl) (use mouse_dbl in \<open>auto simp: on_scene_def\<close>)
  then show ?thesis using mouse_dbl by (simp add: benign_def)
next
  case (wheel d e)
  have "benign armed (tp (mousewheel d e)) u" by (intro benign_tp topo_changes)
  then show ?thesis using wheel by (simp add: benign_def)
next
  case (resize s)
  have "change armed u (u\<lparr>u_chart := s\<rparr>)" by (rule quiet) (simp add: core_def)
  then show ?thesis using benign_step [OF r_into_rtranclp [of "change armed"] benign_layout(3)] resize by blast
next
  case (input x y z)
  have "change armed u w" by (rule quiet) (simp add: core_def input)
  then show ?thesis by simp
qed (use deliver_changes [OF assms(2)] benign_mouse benign_press benign_handle benign_stage(10) in \<open>auto simp: benign_def\<close>)

section \<open>What the events keep\<close>

lemma without_sub: "set (without i xs) \<subseteq> set xs" "length (filter p (without i xs)) \<le> length (filter p xs)"
proof -
  show "set (without i xs) \<subseteq> set xs" by (auto simp: without_def dest: in_set_takeD in_set_dropD)
  have "xs = take i xs @ take (Suc 0) (drop i xs) @ drop (Suc i) xs"
    by (metis append_take_drop_id drop_drop plus_1_eq_Suc One_nat_def add.commute)
  then have "length (filter p xs) = length (filter p (take i xs @ take (Suc 0) (drop i xs) @ drop (Suc i) xs))" by simp
  then show "length (filter p (without i xs)) \<le> length (filter p xs)" by (simp add: without_def)
qed

lemma without_less: "nth_opt xs i = Some x \<Longrightarrow> p x \<Longrightarrow> length (filter p (without i xs)) < length (filter p xs)"
proof -
  assume a: "nth_opt xs i = Some x" "p x"
  then have "i < length xs" "xs ! i = x" by (auto simp: nth_opt_def split: if_splits)
  then have "xs = take i xs @ x # drop (Suc i) xs" using id_take_nth_drop by blast
  then have "length (filter p xs) = length (filter p (take i xs @ x # drop (Suc i) xs))" by simp
  then show ?thesis using a(2) by (simp add: without_def)
qed

lemma topo_change_keeps:
  assumes "topo_change t t'" "\<forall>k v. view_of k t = Some v \<longrightarrow> scene_wf v"
  shows "view_of k t' = Some v \<Longrightarrow> scene_wf v"
    "view_of k t = Some v \<Longrightarrow> node_addr v a \<Longrightarrow> \<exists>w. view_of k t' = Some w \<and> node_addr w a"
    "view_of k t' = None \<longleftrightarrow> view_of k t = None"
proof -
  have r: "rel_option view_change (view_of k t) (view_of k t')" for k using assms(1) by (simp add: topo_change_def)
  show "view_of k t' = Some v \<Longrightarrow> scene_wf v"
    using r [of k] assms(2) by (auto simp: view_change_def option_rel_Some2)
  show "view_of k t = Some v \<Longrightarrow> node_addr v a \<Longrightarrow> \<exists>w. view_of k t' = Some w \<and> node_addr w a"
    using r [of k] assms(2) by (auto simp: view_change_def option_rel_Some1 node_addr_def intro: less_le_trans)
  show "view_of k t' = None \<longleftrightarrow> view_of k t = None"
    using r [of k] by (cases "view_of k t"; cases "view_of k t'") auto
qed

definition data_count :: "layout_kind \<Rightarrow> (request \<times> ui_cont) list \<Rightarrow> nat" where
  "data_count k ps = length (filter (\<lambda>p. snd p = KData k) ps)"

text \<open>The parts of the invariant: views, requests for hosts, requests for the topology, and when there are views.\<close>

definition views_ok :: "topo \<Rightarrow> bool" where
  "views_ok t \<longleftrightarrow> (\<forall>k v. view_of k t = Some v \<longrightarrow> scene_wf v)"

definition asked_of :: "topo \<Rightarrow> ui_cont \<Rightarrow> bool" where
  "asked_of t k \<longleftrightarrow> (\<forall>m a x y. k = KHosts m a x y \<longrightarrow> (\<exists>v. view_of m t = Some v \<and> node_addr v a))"

definition counts_ok :: "jsval option \<times> jsval option \<Rightarrow> (request \<times> ui_cont) list \<Rightarrow> bool" where
  "counts_ok d ps \<longleftrightarrow> (\<forall>k. data_count k ps \<le> (if data_of k d = None then 1 else 0))"

definition drawn_ok :: "topo \<Rightarrow> jsval option \<times> jsval option \<Rightarrow> bool" where
  "drawn_ok t d \<longleftrightarrow> (\<forall>k. view_of k t \<noteq> None \<longrightarrow> fst d \<noteq> None \<and> snd d \<noteq> None)"

lemma asked_all: "(\<forall>p \<in> set ps. asked_of t (snd p)) \<longleftrightarrow>
    (\<forall>q k a x y. (q, KHosts k a x y) \<in> set ps \<longrightarrow> (\<exists>v. view_of k t = Some v \<and> node_addr v a))"
proof -
  have "(\<forall>p \<in> set ps. asked_of t (snd p)) \<longleftrightarrow> (\<forall>q k. (q, k) \<in> set ps \<longrightarrow> asked_of t k)" by auto
  then show ?thesis unfolding asked_of_def by blast
qed

lemma page_inv_core: "page_inv u \<longleftrightarrow> (case core u of (t, d, ps, ts, ids) \<Rightarrow>
     views_ok t \<and> (\<forall>p \<in> set ps. asked_of t (snd p)) \<and> counts_ok d ps \<and> drawn_ok t d)"
  by (simp add: page_inv_def core_def data_count_def views_ok_def asked_all counts_ok_def drawn_ok_def)

lemmas page_inv_parts = views_ok_def asked_all counts_ok_def data_count_def drawn_ok_def

lemma inv_redraw:
  assumes "topo_change t t'" "views_ok t"
  shows "views_ok t'" "asked_of t k \<Longrightarrow> asked_of t' k" "drawn_ok t d \<Longrightarrow> drawn_ok t' d"
  using topo_change_keeps [OF assms(1) assms(2) [unfolded views_ok_def]]
  by (auto simp: views_ok_def asked_of_def drawn_ok_def)

lemma asked_simple: "simple_request k \<Longrightarrow> asked_of t k"
  by (auto simp: asked_of_def)

lemma counts_append: "(\<And>j. k \<noteq> KData j) \<Longrightarrow> counts_ok d (ps @ [(q, k)]) = counts_ok d ps"
  by (simp add: counts_ok_def data_count_def)

lemma counts_without: "counts_ok d ps \<Longrightarrow> counts_ok d (without j ps)"
  unfolding counts_ok_def data_count_def using without_sub(2) le_trans by blast

lemma counts_arrive:
  assumes "counts_ok d ps" "nth_opt ps i = Some (q, KData k)" "data_of k d' = Some r"
    and same: "\<And>j. j \<noteq> k \<Longrightarrow> data_of j d' = data_of j d"
  shows "counts_ok d' (without i ps)"
  unfolding counts_ok_def
proof
  fix m
  have "data_count k (without i ps) < data_count k ps"
    using without_less [OF assms(2), of "\<lambda>p. snd p = KData k"] by (simp add: data_count_def)
  moreover have le: "data_count j ps \<le> (if data_of j d = None then 1 else 0)" for j using assms(1) by (simp add: counts_ok_def)
  moreover from this [of k] have "data_count k ps \<le> 1" by (simp split: if_splits)
  ultimately have k: "data_count k (without i ps) = 0" by simp
  have "data_count m (without i ps) \<le> data_count m ps" by (simp add: data_count_def without_sub)
  from le_trans [OF this le] show "data_count m (without i ps) \<le> (if data_of m d' = None then 1 else 0)"
    using same [of m] k by (cases "m = k") simp_all
qed

lemma drawn_arrive:
  assumes "drawn_ok t d" "data_of k d' = Some r" "\<And>j. j \<noteq> k \<Longrightarrow> data_of j d' = data_of j d"
  shows "drawn_ok t d'"
proof -
  have "data_of j d \<noteq> None \<Longrightarrow> data_of j d' \<noteq> None" for j using assms(2,3) by (cases "j = k") simp_all
  from this [of TreeView] this [of CircleView] show ?thesis using assms(1) by (auto simp: drawn_ok_def)
qed

lemma inv_create:
  assumes "view_of k t = None" "scene_wf v" "view_of k t' = Some v" "\<And>j. j \<noteq> k \<Longrightarrow> view_of j t' = view_of j t"
  shows "views_ok t \<Longrightarrow> views_ok t'" "asked_of t c \<Longrightarrow> asked_of t' c"
proof -
  have w: "view_of m t' = (if m = k then Some v else view_of m t)" for m using assms(3,4) by simp
  then show "views_ok t \<Longrightarrow> views_ok t'" using assms(2) by (simp add: views_ok_def)
  show "asked_of t c \<Longrightarrow> asked_of t' c" using w assms(1) unfolding asked_of_def by (metis option.distinct(1))
qed

lemma change_keeps_inv:
  assumes "change armed u w" "page_inv u"
  shows "page_inv w"
proof -
  have i: "views_ok (u_topo u)" "\<forall>p \<in> set (pending (u_page u)). asked_of (u_topo u) (snd p)"
    "counts_ok (u_data u) (pending (u_page u))" "drawn_ok (u_topo u) (u_data u)"
    using assms(2) unfolding page_inv_core core_def prod.case by blast+
  have sub: "\<forall>p \<in> set (without j (pending (u_page u))). asked_of (u_topo u) (snd p)" for j
    by (rule ballI, rule bspec [OF i(2)], erule subsetD [OF without_sub(1)])
  from assms(1) show ?thesis
  proof cases
    case quiet
    then show ?thesis using assms(2) by (simp add: page_inv_core)
  next
    case (redraw t)
    show ?thesis using inv_redraw [OF redraw(1) i(1)] i(2-4) unfolding page_inv_core redraw(2) prod.case by blast
  next
    case (request k q)
    have "k \<noteq> KData j" for j using request(1) by auto
    from counts_append [OF this] show ?thesis
      using asked_simple [OF request(1)] i unfolding page_inv_core request(2) prod.case by auto
  next
    case (ask_hosts k v a q x y)
    have "asked_of (u_topo u) (KHosts k a x y)"
      using ask_hosts(1,2) i(1) by (auto simp: asked_of_def views_ok_def)
    then show ?thesis using i unfolding page_inv_core ask_hosts(3) prod.case by (auto simp: counts_append)
  next
    case (taken j)
    show ?thesis using i sub [of j] counts_without unfolding page_inv_core taken prod.case by blast
  next
    case (arrive j q k d r)
    show ?thesis
      using i(1) sub [of j] counts_arrive [OF i(3) arrive(1,3,4)] drawn_arrive [OF i(4) arrive(3,4)]
      unfolding page_inv_core arrive(2) prod.case by blast
  next
    case (create k v t)
    have "data_of TreeView (u_data u) \<noteq> None" "data_of CircleView (u_data u) \<noteq> None" using create(2) by blast+
    then have "drawn_ok t (u_data u)" by (simp add: drawn_ok_def)
    then show ?thesis using i(1-3) inv_create [OF create(1,3-5)] unfolding page_inv_core create(6) prod.case by blast
  qed (use i in \<open>simp_all add: page_inv_core\<close>)
qed

lemma changes_keep_inv: "(change armed)\<^sup>*\<^sup>* u w \<Longrightarrow> page_inv u \<Longrightarrow> page_inv w"
  by (induction rule: rtranclp_induct) (auto intro: change_keeps_inv)

lemma page_steps_inv: "(page_step num has)\<^sup>*\<^sup>* u w \<Longrightarrow> page_inv u \<Longrightarrow> page_inv w"
  by (induction rule: rtranclp_induct) (auto intro: changes_keep_inv [of True] page_step_changes)

end
