(* ===== verification/Topo_Session.thy ===== *)
theory Topo_Session
  imports Page_Steps
begin

text \<open>
  Sessions of the topology page: what holds after the start and any sequence of events, and what the
  user gets from the parts of the page together.
\<close>

section \<open>Every session\<close>

text \<open>A page whose script has run but not started.\<close>

definition fresh :: "ui \<Rightarrow> bool" where
  "fresh u \<longleftrightarrow> core u = (no_topo, (None, None), [], [], (\<lambda>k. None), 0)"

lemma run_acts_inv:
  assumes "P (snd (a u))" "\<And>u'. a u = (None, u') \<Longrightarrow> P u' \<Longrightarrow> P (snd (run_acts as u'))"
  shows "P (snd (run_acts (a # as) u))"
  using assms by (auto split: option.split prod.split)

lemma rtranclp_keeps: "R\<^sup>*\<^sup>* u w \<Longrightarrow> P u \<Longrightarrow> (\<And>u w. R u w \<Longrightarrow> P u \<Longrightarrow> P w) \<Longrightarrow> P w"
  by (induction rule: rtranclp_induct) auto

lemma fresh_inv: "fresh u \<Longrightarrow> page_inv u"
proof -
  assume "fresh u"
  moreover have "view_of k no_topo = None" for k by (cases k) (simp_all add: no_topo_def)
  ultimately show "page_inv u" by (simp add: fresh_def page_inv_core page_inv_parts)
qed

lemma fresh_start: "fresh u \<Longrightarrow> fresh (snd (initUI u))" "fresh u \<Longrightarrow> fresh (snd (set_ip control u))"
  "fresh u \<Longrightarrow> fresh (snd (set_port control u))"
  by (auto simp: fresh_def core_def initUI_def initContextMenu_def body_append_def ok_def pg_def page_defs set_ip_def set_port_def
      split: sum.split)

lemma loadTopology_inv:
  assumes "fresh u"
  shows "page_inv (snd (loadTopology u))" "timers (u_page (snd (loadTopology u))) = []"
proof -
  have v: "view_of k no_topo = None" for k by (cases k) (simp_all add: no_topo_def)
  have c: "core (snd (loadTopology u)) = (no_topo, (None, None),
      [(\<lparr>req_method = GET, req_url = topo_path ''exchange_tree'' @ url_params u, req_body = []\<rparr>, KData TreeView),
       (\<lparr>req_method = GET, req_url = topo_path ''exchange_circle'' @ url_params u, req_body = []\<rparr>, KData CircleView)], [], (\<lambda>k. None), 0)"
    using assms by (simp add: fresh_def core_def loadTopology_def get_url_def pg_def ok_def page_defs)
  have "data_of k (None, None) = None" for k by (cases k) simp_all
  then show "page_inv (snd (loadTopology u))"
    unfolding page_inv_core c by (simp add: v page_inv_parts)
  show "timers (u_page (snd (loadTopology u))) = []" using c by (simp add: core_def)
qed

text \<open>What the changes keep and what holds before them holds after the start.\<close>

lemma initAll_inv:
  assumes "fresh u" and fresh: "\<And>u. fresh u \<Longrightarrow> P u" and topo: "\<And>u. fresh u \<Longrightarrow> P (snd (loadTopology u))"
    and keeps: "\<And>u w. change True u w \<Longrightarrow> P u \<Longrightarrow> P w"
  shows "P (snd (initAll control u))"
proof -
  have ch: "P w" if "(change True)\<^sup>*\<^sup>* u w" "P u" for u w
    using that keeps by (rule rtranclp_keeps)
  have thread: "benign True loadRateUsedDataThread u" for u using benign_timed [of KRateThread True]
    by (auto simp: loadRateUsedDataThread_def pg_def ok_def core_def page_defs intro!: benign_one thread)
  have rest: "P (snd (run_acts [initEvent, resizeCanvas, loadInterval, loadRateUsedDataThread] u))" if "P u" for u
  proof -
    have "benign True (run_acts [initEvent, resizeCanvas, loadInterval, loadRateUsedDataThread]) u"
      by (auto simp: initEvent_def intro!: benign_rules thread)
    then show ?thesis using ch that by (simp add: benign_def)
  qed
  have Pf: "P (snd (run_acts (a # as) u))"
    if "fresh u" "\<And>u. fresh u \<Longrightarrow> fresh (snd (a u))" "\<And>u. fresh u \<Longrightarrow> P (snd (run_acts as u))" for a as u
  proof (cases "a u")
    case (Pair e u')
    then have "fresh u'" using that(2) [OF that(1)] by simp
    then show ?thesis using Pair that(3) fresh by (cases e) simp_all
  qed
  have four: "P (snd (run_acts (loadTopology # [initEvent, resizeCanvas, loadInterval, loadRateUsedDataThread]) u))"
    if "fresh u" for u
    using topo [OF that] rest by (cases "loadTopology u"; cases "fst (loadTopology u)") auto
  show ?thesis
    unfolding initAll_def by (intro Pf assms(1) fresh_start four)
qed

lemma session_inv:
  "fresh u \<Longrightarrow> (page_step num has)\<^sup>*\<^sup>* (snd (initAll control u)) w \<Longrightarrow> page_inv w"
  using page_steps_inv initAll_inv [of u page_inv] fresh_inv loadTopology_inv change_keeps_inv by metis

text \<open>
  C1: whatever happens to the page, in every state that a sequence of events reaches from the start both
  views are well formed and a pending request for hosts names a node of its view.
\<close>

theorem sessions_well_formed:
  assumes "fresh u" and "(page_step num has)\<^sup>*\<^sup>* (snd (initAll control u)) w"
  shows "(view_of k (u_topo w) = Some v \<longrightarrow> scene_wf v) \<and>
     ((q, KHosts k a x y) \<in> set (pending (u_page w)) \<longrightarrow> (\<exists>v. view_of k (u_topo w) = Some v \<and> node_addr v a))"
  using session_inv [OF assms] unfolding page_inv_def by blast

text \<open>The timers that wait to show details of a scene.\<close>

fun details_of :: "layout_kind \<Rightarrow> ui_cont \<Rightarrow> bool" where
  "details_of k (KDetail j i) = (j = k)"
| "details_of k _ = False"

definition kept_timer :: "ui \<Rightarrow> bool" where
  "kept_timer u \<longleftrightarrow> (\<forall>k. filter (details_of k) (timers (u_page u)) = [] \<or>
     (\<exists>i. u_mouseTimer u k = Some i \<and> filter (details_of k) (timers (u_page u)) = [KDetail k i]))"

lemma kept_sub:
  assumes "kept_timer u" "u_mouseTimer w = u_mouseTimer u"
    and "\<And>p. length (filter p (timers (u_page w))) \<le> length (filter p (timers (u_page u)))"
    and "set (timers (u_page w)) \<subseteq> set (timers (u_page u))"
  shows "kept_timer w"
  unfolding kept_timer_def
proof
  fix k
  consider "filter (details_of k) (timers (u_page u)) = []"
    | i where "u_mouseTimer u k = Some i" "filter (details_of k) (timers (u_page u)) = [KDetail k i]"
    using assms(1) unfolding kept_timer_def by blast
  then show "filter (details_of k) (timers (u_page w)) = [] \<or>
     (\<exists>i. u_mouseTimer w k = Some i \<and> filter (details_of k) (timers (u_page w)) = [KDetail k i])"
  proof cases
    case 1
    then show ?thesis using assms(3) [of "details_of k"] by simp
  next
    case (2 i)
    then have l: "length (filter (details_of k) (timers (u_page w))) \<le> 1" using assms(3) [of "details_of k"] by simp
    have "x = KDetail k i" if "x \<in> set (filter (details_of k) (timers (u_page w)))" for x
    proof -
      have "x \<in> set (filter (details_of k) (timers (u_page u)))" using that assms(4) by auto
      then show ?thesis unfolding 2(2) by simp
    qed
    then show ?thesis using l 2(1) assms(2) by (cases "filter (details_of k) (timers (u_page w))") auto
  qed
qed

lemma cleared_sub:
  "set (cleared_timers x ts) \<subseteq> set ts" "length (filter p (cleared_timers x ts)) \<le> length (filter p ts)"
proof -
  show "set (cleared_timers x ts) \<subseteq> set ts" by (auto simp: cleared_timers_def split: option.split)
  have "filter p (filter q ts) = filter q (filter p ts)" for q by (simp add: conj_commute)
  then show "length (filter p (cleared_timers x ts)) \<le> length (filter p ts)"
    by (auto simp: cleared_timers_def simp del: filter_filter split: option.split)
qed

lemma cleared_details:
  assumes "kept_timer u"
  shows "filter (details_of k) (cleared_timers (u_mouseTimer u k) (timers (u_page u))) = []"
proof -
  have swap: "filter p (filter q ts) = filter q (filter p ts)" for p q and ts :: "ui_cont list" by (simp add: conj_commute)
  consider "filter (details_of k) (timers (u_page u)) = []"
    | i where "u_mouseTimer u k = Some i" "filter (details_of k) (timers (u_page u)) = [KDetail k i]"
    using assms unfolding kept_timer_def by blast
  then show ?thesis
  proof cases
    case 1
    then show ?thesis using cleared_sub(2) [of "details_of k"] by (metis le_zero_eq length_0_conv list.size(3))
  next
    case (2 i)
    then show ?thesis
      by (simp add: cleared_timers_def swap [of "details_of k"] del: filter_filter)
  qed
qed

lemma change_kept_timer:
  assumes "change armed u w" "kept_timer u"
  shows "kept_timer w"
  using assms(1)
proof cases
  case (timed_out i)
  then have t: "timers (u_page w) = without i (timers (u_page u))" "u_mouseTimer w = u_mouseTimer u" by (simp_all add: core_def)
  show ?thesis by (rule kept_sub [OF assms(2) t(2)]) (simp_all add: t without_sub)
next
  case (cleared k)
  then have t: "timers (u_page w) = cleared_timers (u_mouseTimer u k) (timers (u_page u))" "u_mouseTimer w = u_mouseTimer u"
    by (simp_all add: core_def)
  show ?thesis by (rule kept_sub [OF assms(2) t(2)]) (simp_all add: t cleared_sub)
next
  case (mouse_timer n k)
  let ?ts = "cleared_timers (u_mouseTimer u k) (timers (u_page u))"
  have t: "timers (u_page w) = ?ts @ [KDetail k n]" "u_mouseTimer w = (u_mouseTimer u)(k := Some n)"
    using mouse_timer(2) by (simp_all add: core_def)
  have "kept_timer (u\<lparr>u_page := (u_page u)\<lparr>timers := ?ts\<rparr>\<rparr>)"
    by (rule kept_sub [OF assms(2)]) (simp_all add: cleared_sub)
  then show ?thesis
    using cleared_details [OF assms(2), of k] by (auto simp: kept_timer_def t)
next
  case (timer k)
  then have "timers (u_page w) = timers (u_page u) @ [k]" "u_mouseTimer w = u_mouseTimer u" by (simp_all add: core_def)
  moreover have "\<not> details_of j k" for j using timer(1) by (cases k) auto
  ultimately show ?thesis using assms(2) by (simp add: kept_timer_def)
qed (use assms(2) in \<open>auto simp: kept_timer_def core_def\<close>)

lemma session_kept_timer:
  assumes "fresh u" and "(page_step num has)\<^sup>*\<^sup>* (snd (initAll control u)) w"
  shows "kept_timer w"
proof -
  let ?P = "\<lambda>u. page_inv u \<and> kept_timer u"
  have keeps: "change True u w \<Longrightarrow> ?P u \<Longrightarrow> ?P w" for u w using change_keeps_inv change_kept_timer by blast
  have ch: "page_step num has u w \<Longrightarrow> ?P u \<Longrightarrow> ?P w" for u w
  proof -
    assume "page_step num has u w" and p: "?P u"
    then have "(change True)\<^sup>*\<^sup>* u w" by (blast intro: page_step_changes)
    from this p keeps show "?P w" by (rule rtranclp_keeps)
  qed
  have "?P (snd (initAll control u))"
    by (rule initAll_inv [OF assms(1) _ _ keeps])
      (auto simp: fresh_inv loadTopology_inv kept_timer_def, simp add: fresh_def core_def)
  with assms(2) have "?P w" using ch by (rule rtranclp_keeps)
  then show ?thesis by blast
qed

text \<open>
  C19: the details of what the mouse stopped on are asked for once.  In every reachable state at most one
  timer of each scene waits to show details, and it is the one whose number the scene has kept; the next
  movement over the scene clears it, and leaves exactly the new timer if the mouse is over an element and
  none if it is over the background.
\<close>

theorem one_detail_timer:
  assumes "fresh u" and "(page_step num has)\<^sup>*\<^sup>* (snd (initAll control u)) w"
  shows "length (filter (details_of k) (timers (u_page w))) \<le> 1 \<and>
    (KDetail k i \<in> set (timers (u_page w)) \<longrightarrow> u_mouseTimer w k = Some i) \<and>
    filter (details_of (ev_kind ev)) (timers (u_page (snd (onMouseMove ev w)))) =
      (if ev_target ev = None then [] else [KDetail (ev_kind ev) (u_timeouts w)])"
proof -
  have K: "kept_timer w" by (rule session_kept_timer [OF assms])
  then have k: "filter (details_of k) (timers (u_page w)) = [] \<or>
     (\<exists>i. u_mouseTimer w k = Some i \<and> filter (details_of k) (timers (u_page w)) = [KDetail k i])"
    unfolding kept_timer_def by blast
  have "KDetail k i \<in> set (filter (details_of k) (timers (u_page w)))" if "KDetail k i \<in> set (timers (u_page w))"
    using that by simp
  then have "length (filter (details_of k) (timers (u_page w))) \<le> 1 \<and>
    (KDetail k i \<in> set (timers (u_page w)) \<longrightarrow> u_mouseTimer w k = Some i)"
    using k by (auto simp del: set_filter)
  moreover have "timers (u_page (snd (onMouseMove ev w))) = cleared_timers (u_mouseTimer w (ev_kind ev)) (timers (u_page w)) @
      (if ev_target ev = None then [] else [KDetail (ev_kind ev) (u_timeouts w)])"
    by (simp add: onMouseMove_def clear_mouse_timer_def set_mouse_timer_def pg_def ok_def page_defs clear_timer_def
        cleared_timers_def Let_def split: option.split)
  ultimately show ?thesis using cleared_details [OF K] by simp
qed

section \<open>Instances\<close>

definition new_page :: ui where
  "new_page = \<lparr>u_page = blank_page, u_topo = no_topo, u_body = [], u_checked = (\<lambda>s. s = ''#detailCheck''), u_chart = (800, 600),
     u_canvas = (\<lambda>i. (300, 150)), u_jar = [], u_now = 0, u_path = ''/chart'', u_search = [], u_data = (None, None), u_ip = [],
     u_port = JStr [], u_interval = JUndef, u_last = None, u_form = False, u_create = False, u_layout = ''tree'', u_net = [],
     u_shows = [], u_mouse = None, u_detail = None, u_rate = None, u_full = False, u_calls = [],
     u_mouseTimer = (\<lambda>k. None), u_timeouts = 0\<rparr>"

lemma fresh_new_page: "fresh new_page"
  by (simp add: fresh_def core_def new_page_def blank_page_def)

definition over :: "nat \<Rightarrow> mouse_event" where
  "over a = \<lparr>ev_kind = TreeView, ev_target = Some (ENode a), ev_button = 0, ev_pageX = 400, ev_pageY = 300, ev_x = 100, ev_y = 200\<rparr>"

lemma sessions_well_formed_witness:
  "pred_option scene_wf (view_of TreeView (u_topo (snd (deliver 0 (JObj []) (snd (initAll (Some ''10.0.0.1|6633'') new_page))))))"
proof -
  let ?u = "snd (initAll (Some ''10.0.0.1|6633'') new_page)"
  have "(page_step (\<lambda>c. []) (\<lambda>f. False))\<^sup>*\<^sup>* ?u (snd (deliver 0 (JObj []) ?u))"
    by (rule r_into_rtranclp) (rule page_step.answer)
  from sessions_well_formed [OF fresh_new_page this] have "view_of TreeView (u_topo (snd (deliver 0 (JObj []) ?u))) = Some v \<longrightarrow> scene_wf v"
    for v by blast
  then show ?thesis by (cases "view_of TreeView (u_topo (snd (deliver 0 (JObj []) ?u)))") auto
qed

lemma one_detail_timer_witness:
  "let u = snd (onMouseMove (over 0) (snd (initAll (Some ''10.0.0.1|6633'') new_page)))
   in length (filter (details_of TreeView) (timers (u_page u))) \<le> 1 \<and>
     filter (details_of TreeView) (timers (u_page (snd (onMouseMove (over 1) u)))) = [KDetail TreeView (u_timeouts u)]"
proof -
  let ?u = "snd (initAll (Some ''10.0.0.1|6633'') new_page)"
  have "page_step (\<lambda>c. []) (\<lambda>f. False) ?u (snd (onMouseMove (over 0) ?u))" by (rule page_step.mouse_move)
  then have "(page_step (\<lambda>c. []) (\<lambda>f. False))\<^sup>*\<^sup>* ?u (snd (onMouseMove (over 0) ?u))" by simp
  from one_detail_timer [OF fresh_new_page this, of TreeView 0 "over 1"] show ?thesis by (simp add: over_def Let_def)
qed

section \<open>Details and the bandwidth thread\<close>

lemma exchange_table_shows: "has_substr ''rateDetailTable'' (exchange_table i ip mac rows)"
proof -
  have "exchange_table i ip mac rows = ''<li><table width='' @ [CHR 0x22] @ ''100%'' @ [CHR 0x22] @ '' id='' @ [CHR 0x22] @
      ''rateDetailTable'' @ drop 43 (exchange_table i ip mac rows)"
    by (simp add: exchange_table_def)
  then show ?thesis unfolding has_substr_iff by (metis append.assoc)
qed

text \<open>The details of a switch that has both lists of neighbours.\<close>

definition switch_table :: "jsval \<Rightarrow> string" where
  "switch_table d = exchange_table (to_str d ''id'') (to_str d ''ip'') (to_str d ''mac'')
     (concat (map (\<lambda>x. neighbour_row (fst (neighbour x))) (neighbour_items (pget d ''upNode'') @ neighbour_items (pget d ''downNode''))))"

lemma switch_details:
  assumes "\<not> nullish (pget d ''upNode'')" "\<not> nullish (pget d ''downNode'')"
  shows "\<exists>w. loadExchangeDetail ev d u = (None, w) \<and> in_body ''detailDiv'' w \<and> shown (u_page w) ''#detailDiv'' \<and>
     htmls (u_page w) ''#detailDiv ul'' = switch_table d \<and> timers (u_page w) = timers (u_page u) \<and>
     u_topo w = u_topo u \<and> u_rate w = u_rate u"
proof -
  have ids: "neighbour_ids (pget d ''upNode'') = Some (map (\<lambda>x. fst (neighbour x)) (neighbour_items (pget d ''upNode'')))"
    "neighbour_ids (pget d ''downNode'') = Some (map (\<lambda>x. fst (neighbour x)) (neighbour_items (pget d ''downNode'')))"
    using assms by (simp_all add: neighbour_ids_def)
  show ?thesis
    by (cases "in_body ''detailDiv'' u")
      (auto simp: loadExchangeDetail_def ids Let_def detail_window_def pgs_def pg_def ok_def body_append_def detail_at_def
        in_body_def switch_table_def page_simps page_defs o_def)
qed

lemma thread_stays_away:
  assumes "page_step num has u w" "page_inv u" "KRateThread \<notin> set (timers (u_page u))"
  shows "KRateThread \<notin> set (timers (u_page w))"
proof -
  have "(change False)\<^sup>*\<^sup>* u w" using page_step_changes [OF assms(1,2), of False] assms(3) by simp
  then show ?thesis using assms(3)
  proof (rule rtranclp_keeps)
    fix u w assume ch: "change False u w" and none: "KRateThread \<notin> set (timers (u_page u))"
    have cl: "KRateThread \<notin> set (cleared_timers x (timers (u_page u)))" for x using none cleared_sub(1) by blast
    from ch show "KRateThread \<notin> set (timers (u_page w))"
    proof cases
      case (timed_out i)
      then have "timers (u_page w) = without i (timers (u_page u))" by (simp add: core_def)
      then show ?thesis using none without_sub(1) by fastforce
    qed (use none cl in \<open>auto simp: core_def\<close>)
  qed
qed

lemma count_list_without:
  "i < length xs \<Longrightarrow> count_list xs (xs ! i) = Suc (count_list (without i xs) (xs ! i))"
  unfolding without_def
  by (subst (1) id_take_nth_drop) (simp_all only: count_list_append count_list.simps, simp)

text \<open>
  C13: the details of a switch stop the bandwidth monitor.  When the mouse stops on a switch that has both
  lists of neighbours, the window lists all of them; but while it is open and no link has been visited,
  the next round of the bandwidth thread ends with an exception before it sets its timer again, and no
  later event starts the thread again.
\<close>

theorem switch_details_stop_monitor:
  assumes "page_inv u" and mouse: "u_mouse u = Some ev" "ev_target ev = Some (ENode a)" "u_checked u ''#detailCheck''"
      "u_detail u \<noteq> Some (ev_kind ev, ENode a)" "node_type (ev_kind ev) a u \<noteq> ''host''"
    and data: "\<not> nullish (pget (node_data (ev_kind ev) a u) ''upNode'')" "\<not> nullish (pget (node_data (ev_kind ev) a u) ''downNode'')"
    and no_link: "u_rate u = None"
    and thread: "nth_opt (timers (u_page u)) i = Some KRateThread" "count_list (timers (u_page u)) KRateThread = 1"
  shows "fst (showDetail u) = None \<and>
     htmls (u_page (snd (showDetail u))) ''#detailDiv ul'' = switch_table (node_data (ev_kind ev) a u) \<and>
     fst (tick i (snd (showDetail u))) = Some TypeError \<and>
     ((page_step num has)\<^sup>*\<^sup>* (snd (tick i (snd (showDetail u)))) w \<longrightarrow> KRateThread \<notin> set (timers (u_page w)))"
proof -
  let ?d = "node_data (ev_kind ev) a u"
  obtain v where v: "loadExchangeDetail ev ?d u = (None, v)" "in_body ''detailDiv'' v" "shown (u_page v) ''#detailDiv''"
      "htmls (u_page v) ''#detailDiv ul'' = switch_table ?d" "timers (u_page v) = timers (u_page u)" "u_rate v = u_rate u"
    using switch_details [OF data, of ev u] by blast
  let ?w = "v\<lparr>u_detail := Some (ev_kind ev, ENode a)\<rparr>"
  have sd: "showDetail u = (None, ?w)"
    using mouse v(1) by (simp add: showDetail_def act_if_def detail_of_def ok_def)
  let ?x = "?w\<lparr>u_page := (u_page ?w)\<lparr>timers := without i (timers (u_page ?w))\<rparr>\<rparr>"
  have vis: "content_shows ''rateDetailTable'' ?x"
    using v exchange_table_shows by (simp add: content_shows_def in_body_def switch_table_def)
  have "refreshRateDetail ?x = (Some TypeError, ?x)" using v(6) no_link by (simp add: refreshRateDetail_def rate_link_def)
  then have "loadRateUsed ?x = (Some TypeError, ?x)" using vis by (simp add: loadRateUsed_def act_if_def)
  then have t: "timed KRateThread ?x = (Some TypeError, ?x)" by simp
  have tick: "tick i ?w = (Some TypeError, ?x)"
    using thread(1) v(5) t unfolding tick_def by (simp add: run_acts_first run_acts_last without_def del: timed.simps run_acts.simps)
  have i: "i < length (timers (u_page u))" "timers (u_page u) ! i = KRateThread"
    using thread(1) by (auto simp: nth_opt_def split: if_splits)
  have "count_list (without i (timers (u_page u))) KRateThread = 0"
    using count_list_without [OF i(1)] i(2) thread(2) by simp
  then have gone: "KRateThread \<notin> set (timers (u_page ?x))" using v(5) by (simp add: count_list_0_iff)
  have inv: "page_inv ?x"
  proof -
    have "(change True)\<^sup>*\<^sup>* u ?w" using benign_details(2) [of True u] sd by (simp add: benign_def)
    moreover have "change True ?w ?x" by (rule timed_out [of _ _ i]) (simp add: core_def)
    ultimately show ?thesis using changes_keep_inv [OF _ assms(1)] by (meson rtranclp.rtrancl_into_rtrancl)
  qed
  have "KRateThread \<notin> set (timers (u_page w))" if "(page_step num has)\<^sup>*\<^sup>* ?x w"
  proof -
    have "page_inv w \<and> KRateThread \<notin> set (timers (u_page w))"
      using that conjI [OF inv gone]
      by (rule rtranclp_keeps) (meson thread_stays_away page_steps_inv r_into_rtranclp)
    then show ?thesis by blast
  qed
  then show ?thesis using sd tick v(4) by simp
qed

definition switch_c :: jsval where
  "switch_c = JObj [(''id'', JStr ''c''), (''upNode'', JArr [JStr ''a'']), (''downNode'', JArr [])]"

definition hover_page :: ui where
  "hover_page = new_page\<lparr>u_topo := no_topo\<lparr>t_tree := Some (add_all [switchToNode switch_c] (empty_view (\<lambda>i. None) [] JUndef 300 150)),
       t_stage := Some TreeView\<rparr>,
     u_data := (Some JNull, Some JNull), u_mouse := Some (over 0), u_page := set_timer KRateThread blank_page\<rparr>"

lemma hover_page_facts:
  "page_inv hover_page" "node_type TreeView 0 hover_page = ''switch''" "node_data TreeView 0 hover_page = switch_c"
proof -
  let ?v = "add_all [switchToNode switch_c] (empty_view (\<lambda>i. None) [] JUndef 300 150)"
  have wf: "scene_wf ?v" by (rule wf_add_all [OF wf_empty_view]) auto
  have "view_of k (u_topo hover_page) = Some v \<Longrightarrow> v = ?v" for k v
    by (cases k) (simp_all add: hover_page_def no_topo_def)
  then show "page_inv hover_page" using wf by (auto simp: page_inv_def hover_page_def blank_page_def page_defs)
  show "node_data TreeView 0 hover_page = switch_c" "node_type TreeView 0 hover_page = ''switch''"
    by (simp_all add: node_data_def node_type_def hover_page_def no_topo_def empty_view_def addToScene_def Let_def scene_add_def
        alloc_node_def)
qed

lemma switch_details_stop_monitor_witness:
  "fst (tick 0 (snd (showDetail hover_page))) = Some TypeError"
  using switch_details_stop_monitor [OF hover_page_facts(1), of "over 0" 0 0]
  by (simp add: over_def hover_page_facts) (simp add: hover_page_def new_page_def over_def switch_c_def page_defs blank_page_def pget.simps)

section \<open>Monitoring the bandwidth\<close>

text \<open>A handler that ends without exception and keeps \<open>Q\<close>.\<close>

definition keeps :: "(ui \<Rightarrow> bool) \<Rightarrow> act \<Rightarrow> bool" where
  "keeps Q a \<longleftrightarrow> (\<forall>u. Q u \<longrightarrow> fst (a u) = None \<and> Q (snd (a u)))"

lemma keeps_run: "\<forall>a \<in> set as. keeps Q a \<Longrightarrow> keeps Q (run_acts as)"
proof (induction as)
  case (Cons a as)
  show ?case unfolding keeps_def
  proof (intro allI impI)
    fix u assume "Q u"
    then have a: "fst (a u) = None" "Q (snd (a u))" using Cons.prems by (auto simp: keeps_def)
    moreover have "keeps Q (run_acts as)" using Cons by simp
    ultimately show "fst (run_acts (a # as) u) = None \<and> Q (snd (run_acts (a # as) u))"
      by (cases "a u") (auto simp: keeps_def)
  qed
qed (simp add: keeps_def)

lemma run_acts_append: "run_acts as u = (None, w) \<Longrightarrow> run_acts (as @ bs) u = run_acts bs w"
  by (induction as arbitrary: u) (auto split: prod.splits option.splits)

lemma run_acts_step: "fst (a u) = None \<Longrightarrow> run_acts (a # as) u = run_acts as (snd (a u))"
  by (cases "a u") simp

text \<open>
  Of the links of \<open>v\<close>, a view \<open>w\<close> that monitors has changed the brightness, which is now \<open>A\<close>, the colour, unless
  \<open>b\<close>, and the up and down links.
\<close>

definition plain_link :: "topo_link \<Rightarrow> topo_link" where
  "plain_link k = k\<lparr>l_up := None, l_down := None, l_index := None, l_color := None\<rparr>"

lemma plain_link_simps [simp]:
  "plain_link (k\<lparr>l_up := x\<rparr>) = plain_link k" "plain_link (k\<lparr>l_down := x\<rparr>) = plain_link k"
  "plain_link (k\<lparr>l_index := y\<rparr>) = plain_link k" "plain_link (k\<lparr>l_color := z\<rparr>) = plain_link k"
  "plain_link (k\<lparr>l_color := z, l_alpha := r\<rparr>) = (plain_link k)\<lparr>l_alpha := r\<rparr>"
  "plain_link (k\<lparr>l_alpha := r\<rparr>) = (plain_link k)\<lparr>l_alpha := r\<rparr>"
  by (simp_all add: plain_link_def)

definition link_kept :: "view \<Rightarrow> view \<Rightarrow> (nat \<Rightarrow> real) \<Rightarrow> bool \<Rightarrow> bool" where
  "link_kept v w A b \<longleftrightarrow> (\<forall>m < length (links v).
     plain_link (links w ! m) = (plain_link (links v ! m))\<lparr>l_alpha := A m\<rparr> \<and>
     (b \<longrightarrow> l_color (links w ! m) = l_color (links v ! m)))"

lemma kept_same:
  assumes "link_kept v w A b"
    and "\<And>m. m < length (links v) \<Longrightarrow> plain_link (links w' ! m) = plain_link (links w ! m) \<and> l_color (links w' ! m) = l_color (links w ! m)"
  shows "link_kept v w' A b"
  using assms by (simp add: link_kept_def)

lemma band_le: "band_inv v w \<Longrightarrow> length (links v) \<le> length (links w)"
  by (simp add: band_inv_def)

lemma kept_refl: "link_kept v v (\<lambda>m. l_alpha (links v ! m)) True"
  by (simp add: link_kept_def plain_link_def)

lemma kept_ensure:
  assumes "link_kept v w A b" "length (links v) \<le> length (links w)"
  shows "link_kept v (ensure_up l w) A b" "link_kept v (ensure_down l w) A b"
    "link_kept v (upd_link l (\<lambda>k. k\<lparr>l_index := i\<rparr>) w) A b"
  by (rule kept_same [OF assms(1)];
      use assms(2) in \<open>auto simp: ensure_up_def ensure_down_def Let_def scene_add_def upd_link_def alloc_link_def
        list_update_append nth_append nth_update_if split: option.split\<close>)+

lemma kept_monitor:
  assumes inv: "band_inv v w" and wf: "\<forall>x \<in> set (find_links v). x < length (links v)" and kept: "link_kept v w A b"
  shows "link_kept v (addUpDownLink a z color w) A b"
proof (cases "monitor_link a z w")
  case (Some p)
  obtain l up where p: "p = (l, up)" by (cases p)
  let ?w = "upd_link l (\<lambda>k. k\<lparr>l_index := Some 1\<rparr>) (ensure_down l (ensure_up l w))"
  have l: "l \<in> set (find_links v)" using monitor_link_old [OF inv wf] Some p by simp
  have i1: "band_inv v (ensure_up l w)" "band_inv v (ensure_down l (ensure_up l w))"
    by (intro band_inv_add inv wf l)+
  have i: "band_inv v ?w" by (intro band_inv_upd i1) simp
  have k: "link_kept v ?w A b"
    by (intro kept_ensure band_le [OF inv] band_le [OF i1(1)] band_le [OF i1(2)] kept)
  from i obtain es where es: "\<forall>e \<in> set es. length (links v) \<le> e \<and> e < length (links ?w) \<and>
         (\<exists>l \<in> set (find_links v). ELink e \<in> bands (links ?w ! l) \<and>
            l_a (links ?w ! e) = l_a (links ?w ! l) \<and> l_z (links ?w ! e) = l_z (links ?w ! l))"
    "\<forall>m < length (links ?w). bands (links ?w ! m) \<subseteq> ELink ` set es"
    by (rule band_invE)
  have "l < length (links ?w)" using l wf band_le [OF i] by auto
  then have new: "length (links v) \<le> m" if "ELink m \<in> bands (links ?w ! l)" for m using es that by blast
  have "link_kept v (light x color ?w) A b"
    if x: "x = (if up then l_up (links ?w ! l) else l_down (links ?w ! l))" for x
  proof (cases x)
    case (Some m)
    then have "ELink m \<in> bands (links ?w ! l)" using x by (auto simp: bands_def split: if_splits)
    then have "length (links v) \<le> m" by (rule new)
    then show ?thesis using Some by (intro kept_same [OF k]) (auto simp: light_def upd_link_def)
  next
    case None
    then show ?thesis using k by (simp add: light_def)
  qed
  from this [OF refl] show ?thesis by (simp add: addUpDownLink_def Some p Let_def del: One_nat_def)
qed (simp add: addUpDownLink_def kept)

lemma getLink_monitored:
  assumes inv: "band_inv v w"  and wf: "\<forall>x \<in> set (find_links v). x < length (links v)"
  shows "getLink a z w = getLink a z v"
proof -
  from inv obtain es where es: "childs w = childs v @ map ELink es" "distinct es"
    "\<forall>e \<in> set es. length (links v) \<le> e \<and> e < length (links w) \<and>
         (\<exists>l \<in> set (find_links v). ELink e \<in> bands (links w ! l) \<and>
            l_a (links w ! e) = l_a (links w ! l) \<and> l_z (links w ! e) = l_z (links w ! l))"
    "\<forall>m < length (links w). bands (links w ! m) \<subseteq> ELink ` set es"
    by (rule band_invE)
  let ?p = "\<lambda>w l. js_eq (JStr (a_id w l)) a \<and> js_eq (JStr (z_id w l)) z"
  have old: "?p w l = ?p v l" if "l \<in> set (find_links v)" for l
    using that wf inv by (simp add: band_inv_def a_id_def z_id_def id_of_def)
  have fold: "find_first (?p w) ls = find_first (?p v) ls" if "set ls \<subseteq> set (find_links v)" for ls
    using that old by (induction ls) auto
  have "find_first (?p w) es = None" if none: "find_first (?p w) (find_links v) = None"
  proof (rule ccontr)
    assume "find_first (?p w) es \<noteq> None"
    then obtain e where "find_first (?p w) es = Some e" by blast
    then have e: "e \<in> set es" "?p w e" using find_first_SomeD by fast+
    then obtain l where "l \<in> set (find_links v)" "l_a (links w ! e) = l_a (links w ! l)" "l_z (links w ! e) = l_z (links w ! l)"
      using es(3) by blast
    then have "l \<in> set (find_links v)" "?p w l" using e(2) by (simp_all add: a_id_def z_id_def)
    then show False using none find_first_None_iff [of "?p w" "find_links v"] by blast
  qed
  then show ?thesis
    using find_links_append [OF es(1)] fold [of "find_links v"]
    by (auto simp: getLink_def find_first_append split: option.split)
qed

definition paint :: "view \<Rightarrow> jsval \<Rightarrow> (nat \<Rightarrow> real) \<Rightarrow> nat \<Rightarrow> real" where
  "paint v d A = (case getLink (pget d ''srcNodeId'') (pget d ''dstNodeId'') v of None \<Rightarrow> A | Some l \<Rightarrow> A(l := 100))"

definition darken :: "view \<Rightarrow> (nat \<Rightarrow> real) \<Rightarrow> nat \<Rightarrow> real" where
  "darken v A l = (if l \<in> set (find_links v) then 0 else A l)"

lemma kept_color:
  assumes "band_inv v w" "\<forall>x \<in> set (find_links v). x < length (links v)" "link_kept v w A False"
  shows "link_kept v (changeLinkColor (pget d ''srcNodeId'') (pget d ''dstNodeId'') color w) (paint v d A) False"
proof (cases "getLink (pget d ''srcNodeId'') (pget d ''dstNodeId'') v")
  case None
  then show ?thesis using assms getLink_monitored [OF assms(1,2)] by (simp add: changeLinkColor_def paint_def)
next
  case (Some l)
  then show ?thesis
    using assms(3) band_le [OF assms(1)] getLink_monitored [OF assms(1,2)]
    by (auto simp: changeLinkColor_def paint_def link_kept_def upd_link_def nth_list_update)
qed

lemma set_alphas:
  "m < length (links w) \<Longrightarrow> links (steps (map (set_alpha r) ls) w) ! m =
     (if m \<in> set ls then (links w ! m)\<lparr>l_alpha := r\<rparr> else links w ! m)"
proof (induction ls arbitrary: w)
  case (Cons a ls)
  then show ?case
    using Cons.IH [of "set_alpha r a w"] by (cases "a = m") (auto simp: set_alpha_def upd_link_def)
qed simp

lemma kept_dark:
  assumes inv: "band_inv v w" and wf: "\<forall>x \<in> set (find_links v). x < length (links v)" and kept: "link_kept v w A b"
  shows "link_kept v (changeColorAllLink w) (darken v A) b"
proof -
  from inv obtain es where es: "childs w = childs v @ map ELink es" "\<forall>e \<in> set es. length (links v) \<le> e"
    by (rule band_invE) auto
  have "m \<in> set (find_links w) \<longleftrightarrow> m \<in> set (find_links v)" if "m < length (links v)" for m
    using es(2) that by (auto simp: find_links_append [OF es(1)] simp del: find_links_set)
  then show ?thesis
    using kept band_le [OF inv] by (auto simp: changeColorAllLink_def link_kept_def set_alphas darken_def simp del: find_links_set)
qed

text \<open>The views of \<open>t\<close> are those of \<open>s\<close> with bandwidth links; in the current one, \<open>k\<close>, the links have the brightness \<open>A\<close>.\<close>

definition monitored :: "layout_kind \<Rightarrow> (nat \<Rightarrow> real) \<Rightarrow> topo \<Rightarrow> topo \<Rightarrow> bool" where
  "monitored k A s t \<longleftrightarrow> t_stage t = t_stage s \<and> (\<forall>j v. view_of j s = Some v \<longrightarrow>
     (\<exists>w. view_of j t = Some w \<and> band_inv v w \<and>
        link_kept v w (if j = k then A else (\<lambda>m. l_alpha (links v ! m))) (j \<noteq> k)))"

lemma band_inv_alpha: "band_inv v w \<Longrightarrow> band_inv v (changeColorAllLink w)"
proof -
  have "band_inv v w \<Longrightarrow> band_inv v (steps (map (set_alpha r) ls) w)" for r ls
    by (induction ls arbitrary: w) (simp_all add: set_alpha_def band_inv_upd)
  then show "band_inv v w \<Longrightarrow> band_inv v (changeColorAllLink w)" by (simp add: changeColorAllLink_def)
qed

lemma band_inv_color: "band_inv v w \<Longrightarrow> band_inv v (changeLinkColor a z color w)"
  by (auto simp: changeLinkColor_def intro!: band_inv_upd split: option.split)

lemma on_view_some: "view_of k t = Some w \<Longrightarrow> on_view k f t = (None, put_view k (f w) t)"
  by (simp add: on_view_def)

lemma monitored_stage:
  assumes "monitored k A s t" "t_stage s = Some k" "view_of k s = Some v"
    and "\<And>w. band_inv v w \<Longrightarrow> link_kept v w A False \<Longrightarrow> band_inv v (f w) \<and> link_kept v (f w) B False"
  shows "fst (on_stage f t) = None \<and> monitored k B s (snd (on_stage f t))"
proof -
  obtain w where w: "view_of k t = Some w" "band_inv v w" "link_kept v w A False"
    using assms(1,3) unfolding monitored_def by fastforce
  have "on_stage f t = (None, put_view k (f w) t)"
    using assms(1,2) w(1) by (simp add: on_stage_def monitored_def on_view_some)
  moreover have "monitored k B s (put_view k (f w) t)"
    unfolding monitored_def
  proof (intro conjI allI impI)
    show "t_stage (put_view k (f w) t) = t_stage s" using assms(1) by (cases k) (simp_all add: monitored_def)
    fix j x assume j: "view_of j s = Some x"
    show "\<exists>y. view_of j (put_view k (f w) t) = Some y \<and> band_inv x y \<and>
        link_kept x y (if j = k then B else (\<lambda>m. l_alpha (links x ! m))) (j \<noteq> k)"
    proof (cases "j = k")
      case True
      then show ?thesis using assms(4) [OF w(2,3)] assms(3) j by (simp add: view_of_put)
    next
      case False
      then show ?thesis using assms(1) j unfolding monitored_def by (fastforce simp: view_of_put)
    qed
  qed
  ultimately show ?thesis by simp
qed

lemma monitored_both:
  assumes "monitored k A s t" "\<And>j. \<exists>v. view_of j s = Some v \<and> (\<forall>x \<in> set (find_links v). x < length (links v))"
  shows "fst (on_both (addUpDownLink a z color) t) = None \<and> monitored k A s (snd (on_both (addUpDownLink a z color) t))"
proof -
  have one: "fst (on_view j (addUpDownLink a z color) t) = None \<and> monitored k A s (snd (on_view j (addUpDownLink a z color) t))"
    if m: "monitored k A s t" for j t
  proof -
    obtain v where v: "view_of j s = Some v" "\<forall>x \<in> set (find_links v). x < length (links v)" using assms(2) by blast
    then obtain w where w: "view_of j t = Some w" "band_inv v w"
      "link_kept v w (if j = k then A else (\<lambda>m. l_alpha (links v ! m))) (j \<noteq> k)"
      using m unfolding monitored_def by blast
    have "t_stage (put_view j x t) = t_stage t" for x by (cases j) simp_all
    then show ?thesis
      using m v(1) addUpDownLink_inv [OF w(2) v(2)] kept_monitor [OF w(2) v(2) w(3)]
      unfolding on_view_some [OF w(1)] monitored_def by (auto simp: view_of_put)
  qed
  show ?thesis
    using one [OF assms(1), of TreeView] one [of "snd (on_view TreeView (addUpDownLink a z color) t)" CircleView]
    by (auto simp: on_both_def and_then_def split: prod.splits)
qed

text \<open>Both views are there, with links that have no up and down links.\<close>

definition bare_views :: "topo \<Rightarrow> bool" where
  "bare_views s \<longleftrightarrow> (\<forall>j. \<exists>v. view_of j s = Some v \<and> scene_wf v \<and> list_all no_bands (links v))"

text \<open>An answer that lists objects.\<close>

definition rates_ok :: "jsval \<Rightarrow> bool" where
  "rates_ok r \<longleftrightarrow> \<not> nullish r \<and> \<not> list_ex nullish (arr_items r)"

definition after_answer :: "view \<Rightarrow> jsval \<Rightarrow> (nat \<Rightarrow> real) \<Rightarrow> nat \<Rightarrow> real" where
  "after_answer v r A = fold (paint v) (arr_items r) (darken v A)"

lemma paint_fold: "fold (paint v) ds A l =
    (if \<exists>d \<in> set ds. getLink (pget d ''srcNodeId'') (pget d ''dstNodeId'') v = Some l then 100 else A l)"
  by (induction ds arbitrary: A) (auto simp: paint_def split: option.split)

lemma rate_answers_monitored:
  assumes "t_stage (u_topo u) = Some k" and "bare_views (u_topo u)" and "list_all rates_ok rs" and v: "view_of k (u_topo u) = Some v"
  obtains w where "run_acts (map onRateUsed rs) u = (None, w)" "u_page w = u_page u"
    "monitored k (fold (after_answer v) rs (\<lambda>m. l_alpha (links v ! m))) (u_topo u) (u_topo w)"
proof -
  let ?s = "u_topo u"
  let ?Q = "\<lambda>A w. u_page w = u_page u \<and> monitored k A ?s (u_topo w)"
  note bare = assms(2) [unfolded bare_views_def, rule_format]
  have wf: "\<forall>x \<in> set (find_links v). x < length (links v)" if "view_of i ?s = Some v" for i v
    using bare [of i] that find_links_alloc by force
  have both: "\<exists>v. view_of i ?s = Some v \<and> (\<forall>x \<in> set (find_links v). x < length (links v))" for i
    using bare [of i] wf by blast
  have tp: "fst (tp f w) = None \<and> ?Q B (snd (tp f w))" if "?Q A w" "\<And>t. monitored k A ?s t \<Longrightarrow> fst (f t) = None \<and> monitored k B ?s (snd (f t))"
    for f w A B using that by (auto simp: tp_def split: prod.split) (metis fst_conv snd_conv)+
  have color: "fst (color_link (pget d ''srcNodeId'') (pget d ''dstNodeId'') st w) = None \<and>
      ?Q (paint v d A) (snd (color_link (pget d ''srcNodeId'') (pget d ''dstNodeId'') st w))" if q: "?Q A w" for d st w A
  proof -
    let ?a = "pget d ''srcNodeId''" and ?z = "pget d ''dstNodeId''" and ?c = "status_color st"
    have 1: "fst (tp (showLinkMonitor ?a ?z ?c) w) = None \<and> ?Q A (snd (tp (showLinkMonitor ?a ?z ?c) w))"
      unfolding showLinkMonitor_def by (rule tp [OF q]) (rule monitored_both, assumption, rule both)
    have "fst (on_stage (changeLinkColor ?a ?z ?c) t) = None \<and> monitored k (paint v d A) ?s (snd (on_stage (changeLinkColor ?a ?z ?c) t))"
      if m: "monitored k A ?s t" for t
      by (rule monitored_stage [OF m assms(1) v]) (intro conjI band_inv_color kept_color wf [OF v], assumption+)
    then have "fst (tp (on_stage (changeLinkColor ?a ?z ?c)) x) = None \<and> ?Q (paint v d A) (snd (tp (on_stage (changeLinkColor ?a ?z ?c)) x))"
      if "?Q A x" for x using that by (intro tp) auto
    from this [of "snd (tp (showLinkMonitor ?a ?z ?c) w)"] 1 show ?thesis
      by (simp only: color_link_def run_acts_step run_acts_last)
  qed
  have colors: "fst (run_acts (map (\<lambda>d. color_link (pget d ''srcNodeId'') (pget d ''dstNodeId'') (f d)) ds) w) = None \<and>
      ?Q (fold (paint v) ds A) (snd (run_acts (map (\<lambda>d. color_link (pget d ''srcNodeId'') (pget d ''dstNodeId'') (f d)) ds) w))"
    if "?Q A w" for f ds w A
    using that
  proof (induction ds arbitrary: w A)
    case (Cons d ds)
    note c = color [OF Cons.prems, of d "f d"]
    show ?case using c Cons.IH [OF conjunct2 [OF c]] by (simp add: run_acts_step del: run_acts.simps(2))
  qed simp
  have answer: "fst (onRateUsed r w) = None \<and> ?Q (after_answer v r A) (snd (onRateUsed r w))" if q: "?Q A w" and r: "rates_ok r" for r w A
  proof -
    have m: "map (\<lambda>d. if nullish d then fails TypeError
              else color_link (pget d ''srcNodeId'') (pget d ''dstNodeId'') (parse_int (to_str d ''status''))) (arr_items r) =
        map (\<lambda>d. color_link (pget d ''srcNodeId'') (pget d ''dstNodeId'') (parse_int (to_str d ''status''))) (arr_items r)"
      using r by (auto simp: rates_ok_def list_ex_iff)
    have e: "onRateUsed r = run_acts (tp (on_stage changeColorAllLink) #
        map (\<lambda>d. color_link (pget d ''srcNodeId'') (pget d ''dstNodeId'') (parse_int (to_str d ''status''))) (arr_items r))"
      using r unfolding onRateUsed_def m by (simp add: rates_ok_def)
    have "fst (on_stage changeColorAllLink t) = None \<and> monitored k (darken v A) ?s (snd (on_stage changeColorAllLink t))"
      if t: "monitored k A ?s t" for t
      by (rule monitored_stage [OF t assms(1) v]) (intro conjI band_inv_alpha kept_dark wf [OF v], assumption+)
    then have "fst (tp (on_stage changeColorAllLink) w) = None \<and> ?Q (darken v A) (snd (tp (on_stage changeColorAllLink) w))"
      using q by (intro tp) auto
    note d = this
    show ?thesis
      using d colors [OF conjunct2 [OF d]] unfolding e after_answer_def
      by (simp add: run_acts_step del: run_acts.simps(2))
  qed
  have all: "fst (run_acts (map onRateUsed rs) w) = None \<and> ?Q (fold (after_answer v) rs A) (snd (run_acts (map onRateUsed rs) w))"
    if "?Q A w" "list_all rates_ok rs" for rs w A
    using that
  proof (induction rs arbitrary: w A)
    case (Cons r rs)
    then have r: "rates_ok r" "list_all rates_ok rs" by simp_all
    note a = answer [OF Cons.prems(1) r(1)]
    show ?case using a Cons.IH [OF conjunct2 [OF a] r(2)] by (simp add: run_acts_step del: run_acts.simps(2))
  qed simp
  have "?Q (\<lambda>m. l_alpha (links v ! m)) u"
  proof -
    have "band_inv x x" if "view_of i ?s = Some x" for i x
      using bare [of i] that by (intro band_inv_refl) (auto simp: list_all_length)
    moreover have "link_kept x x (\<lambda>m. l_alpha (links x ! m)) b" for x b
      using kept_refl [of x] by (simp add: link_kept_def)
    ultimately show ?thesis using v by (auto simp: monitored_def)
  qed
  from all [OF this assms(3)] show thesis using that by (metis prod.collapse)
qed

lemma onRadio_closes:
  assumes "vals (u_page w) ''#rateUsedMonitor'' = ''1''"
    and v: "t_tree (u_topo w) = Some w1" "t_circle (u_topo w) = Some w2"
  obtains w' where "onRadio w = (None, w')" "vals (u_page w') ''#rateUsedMonitor'' = ''0''"
    "t_tree (u_topo w') = Some (drop_bands w1)" "t_circle (u_topo w') = Some (drop_bands w2)"
proof -
  have "show_nat 1 = ''1''" by code_simp
  then have "to_number ''1'' = Fin 1" using to_number_show_nat [of 1] by simp
  then have on: "\<not> js_eq (JStr (vals (u_page w) ''#rateUsedMonitor'')) (JNum (Fin 0))"
    unfolding assms(1) by (simp add: js_eq_def num_eq_def)
  let ?p = "steps [set_css ''#rateUsedRadio'' ''title'' ''Click to open Monitor'',
              set_css ''#rateUsedRadio'' ''src'' (prefix @ ''img/traffic-light-off.png''),
              set_val ''#rateUsedMonitor'' (JStr ''0'')] (u_page w)"
  let ?w = "w\<lparr>u_page := ?p, u_topo := (u_topo w)\<lparr>t_tree := Some (drop_bands w1), t_circle := Some (drop_bands w2)\<rparr>\<rparr>"
  have "onRadio w = (None, ?w)"
    unfolding onRadio_def if_not_P [OF on]
    by (simp add: pgs_def pg_def ok_def tp_def hideAllLinkMonitor_def on_both_def on_view_def and_then_def v)
  moreover have "vals (u_page ?w) ''#rateUsedMonitor'' = ''0''" by (simp add: page_simps val_text_def)
  ultimately show thesis by (rule that) simp_all
qed

text \<open>
  What a view has kept when its bandwidth links are gone: everything but the brightness and colour of its
  links, and the place of a link among the parallel ones.
\<close>

lemma kept_record:
  assumes "plain_link k = (plain_link k0)\<lparr>l_alpha := r\<rparr>" "no_bands k" "no_bands k0"
  shows "k\<lparr>l_alpha := l_alpha k0, l_color := l_color k0, l_index := l_index k0\<rparr> = k0 \<and> l_alpha k = r"
proof -
  have "l_alpha (plain_link k) = l_alpha k" by (simp add: plain_link_def)
  then show ?thesis
    using assms by (cases k; cases k0) (auto simp: plain_link_def no_bands_def)
qed

lemma drop_bands_plain:
  assumes inv: "band_inv v w" and wf: "scene_wf v" and m: "m < length (links v)"
  shows "plain_link (links (drop_bands w) ! m) = plain_link (links w ! m) \<and> l_color (links (drop_bands w) ! m) = l_color (links w ! m)"
proof -
  have al: "\<forall>x \<in> set (find_links v). x < length (links v)" using find_links_alloc [OF wf] by blast
  from inv obtain es where es: "childs w = childs v @ map ELink es" "distinct es"
    "\<forall>e \<in> set es. length (links v) \<le> e \<and> e < length (links w)" by (rule band_invE) auto
  have "ELink e \<notin> set (childs v)" if "e \<in> set es" for e using al es(3) that by fastforce
  then have d: "distinct (childs w)" using wf es(1,2) by (auto simp: scene_wf_def distinct_map inj_on_def)
  have "\<forall>l \<in> set (find_links w). l < length (links w)"
    using al es(3) band_le [OF inv] by (auto simp: find_links_append [OF es(1)] simp del: find_links_set)
  from drop_bands_effect [OF d find_links_distinct [OF d] this] m band_le [OF inv] show ?thesis
    by (auto simp: drop_bands_def simp del: find_links_set)
qed

lemma drop_bands_nodes: "nodes (drop_bands w) = nodes w"
  unfolding drop_bands_def
  by (rule steps_inv) (auto simp: drop_band_def Let_def upd_link_def view_simps split: option.split)

text \<open>
  C3: monitoring restores the elements of the scenes, but not the look of the links.  From two well-formed
  views without bandwidth links, any answers to the requests for the bandwidth (lists of objects), followed
  by a click that ends the monitoring, raise no exception, and each scene has exactly the elements it had,
  its nodes as they were and its links without up and down links and unchanged up to brightness, colour and
  place.  On the scene that is not current the brightness and colour are the old ones too.  On the current
  one every link is left as the last answer painted it: links that it names have the brightness 100, all
  others 0, which is invisible.
\<close>

theorem monitoring_session:
  assumes "t_stage (u_topo u) = Some k" and "\<And>j. \<exists>v. view_of j (u_topo u) = Some v \<and> scene_wf v \<and> list_all no_bands (links v)"
    and "vals (u_page u) ''#rateUsedMonitor'' = ''1''" and "view_of j (u_topo u) = Some v"
    and "list_all rates_ok rs" and "l < length (links v)"
  shows "\<exists>w v'. run_acts (map onRateUsed rs @ [onRadio]) u = (None, w) \<and> vals (u_page w) ''#rateUsedMonitor'' = ''0'' \<and>
     view_of j (u_topo w) = Some v' \<and> childs v' = childs v \<and> nodes v' = nodes v \<and>
     (links v' ! l)\<lparr>l_alpha := l_alpha (links v ! l), l_color := l_color (links v ! l), l_index := l_index (links v ! l)\<rparr> =
       links v ! l \<and>
     (j \<noteq> k \<longrightarrow> l_alpha (links v' ! l) = l_alpha (links v ! l) \<and> l_color (links v' ! l) = l_color (links v ! l)) \<and>
     (j = k \<and> rs \<noteq> [] \<and> ELink l \<in> set (childs v) \<longrightarrow> l_alpha (links v' ! l) =
       (if \<exists>d \<in> set (arr_items (last rs)). getLink (pget d ''srcNodeId'') (pget d ''dstNodeId'') v = Some l then 100 else 0))"
proof -
  have bare: "bare_views (u_topo u)" using assms(2) by (auto simp: bare_views_def)
  obtain vk where vk: "view_of k (u_topo u) = Some vk" using assms(2) by blast
  let ?A = "fold (after_answer vk) rs (\<lambda>m. l_alpha (links vk ! m))"
  obtain w where w: "run_acts (map onRateUsed rs) u = (None, w)" "u_page w = u_page u" "monitored k ?A (u_topo u) (u_topo w)"
    using rate_answers_monitored [OF assms(1) bare assms(5) vk] by blast
  have mon: "view_of i (u_topo u) = Some v \<Longrightarrow> \<exists>x. view_of i (u_topo w) = Some x \<and> band_inv v x \<and>
      link_kept v x (if i = k then ?A else (\<lambda>m. l_alpha (links v ! m))) (i \<noteq> k)" for i v
    using w(3) unfolding monitored_def by blast
  obtain w1 w2 where v12: "t_tree (u_topo w) = Some w1" "t_circle (u_topo w) = Some w2"
    using assms(2) [of TreeView] assms(2) [of CircleView] mon [of TreeView] mon [of CircleView] by auto
  obtain w' where w': "onRadio w = (None, w')" "vals (u_page w') ''#rateUsedMonitor'' = ''0''"
      "t_tree (u_topo w') = Some (drop_bands w1)" "t_circle (u_topo w') = Some (drop_bands w2)"
    using onRadio_closes [OF _ v12] w(2) assms(3) by metis
  obtain x where x: "view_of j (u_topo w) = Some x" "band_inv v x"
    "link_kept v x (if j = k then ?A else (\<lambda>m. l_alpha (links v ! m))) (j \<noteq> k)"
    using mon [OF assms(4)] by blast
  have v': "view_of j (u_topo w') = Some (drop_bands x)" using x(1) v12 w'(3,4) by (cases j) simp_all
  have wf: "scene_wf v" "no_bands (links v ! l)" using assms(2) [of j] assms(4,6) by (auto simp: list_all_length)
  note r = drop_bands_restores [OF x(2) wf(1)] and p = drop_bands_plain [OF x(2) wf(1) assms(6)]
  have k: "plain_link (links (drop_bands x) ! l) =
      (plain_link (links v ! l))\<lparr>l_alpha := (if j = k then ?A else (\<lambda>m. l_alpha (links v ! m))) l\<rparr>"
    "j \<noteq> k \<Longrightarrow> l_color (links (drop_bands x) ! l) = l_color (links v ! l)"
    using x(3) p assms(6) by (auto simp: link_kept_def)
  note kr = kept_record [OF k(1) _ wf(2)]
  have nb: "no_bands (links (drop_bands x) ! l)" using r assms(6) by blast
  have A: "?A l = (if \<exists>d \<in> set (arr_items (last rs)). getLink (pget d ''srcNodeId'') (pget d ''dstNodeId'') vk = Some l then 100 else 0)"
    if "rs \<noteq> []" "l \<in> set (find_links vk)"
    using that by (cases rs rule: rev_cases) (simp_all add: after_answer_def paint_fold darken_def del: find_links_set)
  have n: "nodes (drop_bands x) = nodes v" using x(2) by (simp add: drop_bands_nodes band_inv_def)
  have "run_acts (map onRateUsed rs @ [onRadio]) u = (None, w')"
    by (simp only: run_acts_append [OF w(1)] run_acts_last w'(1))
  moreover have "j = k \<Longrightarrow> vk = v" using vk assms(4) by simp
  ultimately show ?thesis using w'(2) v' r n kr [OF nb] k(2) A by auto
qed

definition pair_page :: ui where
  "pair_page = new_page\<lparr>u_topo := no_topo\<lparr>t_tree := Some pair_view, t_circle := Some pair_view, t_stage := Some TreeView\<rparr>,
     u_page := set_val ''#rateUsedMonitor'' (JStr ''1'') blank_page\<rparr>"

lemma monitoring_session_witness:
  "\<exists>w v'. run_acts (map onRateUsed [JArr [JObj [(''srcNodeId'', JStr ''a''), (''dstNodeId'', JStr ''c''), (''status'', JStr ''3'')]]] @
     [onRadio]) pair_page = (None, w) \<and> view_of TreeView (u_topo w) = Some v' \<and> childs v' = [ENode 0, ENode 1, ELink 0] \<and>
     l_alpha (links v' ! 0) = 0"
proof -
  let ?r = "JArr [JObj [(''srcNodeId'', JStr ''a''), (''dstNodeId'', JStr ''c''), (''status'', JStr ''3'')]]"
  have two: "\<exists>v. view_of j (u_topo pair_page) = Some v \<and> scene_wf v \<and> list_all no_bands (links v)" for j
    using pair_view_fields by (cases j) (simp_all add: pair_page_def)
  have "getLink (JStr ''a'') (JStr ''c'') pair_view = None"
    by (simp add: getLink_def pair_links pair_view_fields js_eq_def)
  then show ?thesis
    using monitoring_session [OF _ two, of TreeView TreeView pair_view "[?r]" 0]
    by (simp add: pair_page_def page_simps val_text_def pair_view_fields rates_ok_def arr_items_def pget.simps
        del: run_acts.simps list.map) blast
qed

section \<open>The layout is remembered\<close>

text \<open>
  The layout chosen last is the one the page starts with.  After a switch to either layout, any page
  with the same address that reads the cookies within two hundred days finds that layout, provided that
  no other cookie's text contains the name of this cookie followed by an equals sign.
\<close>

theorem layout_remembered:
  assumes "distinct (map slot (u_jar u))"
    and "\<forall>d \<in> set (u_jar u). slot d \<noteq> (''current_vancas'', u_path u) \<longrightarrow> \<not> shadows ''current_vancas'' d"
    and "(switch, layout) \<in> {(showTreeCanvas, ''tree''), (showCircleCanvas, ''circle'')}"
    and "u_jar w = u_jar (snd (switch u))" and "u_now w < u_now u + 200 * 86400000 - 1000"
  shows "fst (switch u) = None \<and> getCurrentLayout w = layout"
proof -
  have run: "fst (switch u) = None \<and> u_jar (snd (switch u)) =
      setCookie ''current_vancas'' layout (Some 200) (u_path u) (u_now u) (u_jar u)"
    using assms(3)
    by (auto simp: showTreeCanvas_def showCircleCanvas_def saveCurrentLayout_def pgs_def pg_def ok_def tp_def)
  have "names_cleanly ''current_vancas''" by code_simp
  from setCookie_fetch [OF this assms(1,2,5)] show ?thesis using run by (simp add: getCurrentLayout_def assms(4))
qed

lemma layout_remembered_witness:
  "getCurrentLayout (new_page\<lparr>u_jar := u_jar (snd (showCircleCanvas new_page)), u_now := 86400000\<rparr>) = ''circle''"
  using layout_remembered [of new_page showCircleCanvas "''circle''"
      "new_page\<lparr>u_jar := u_jar (snd (showCircleCanvas new_page)), u_now := 86400000\<rparr>"]
  by (simp add: new_page_def)

section \<open>Search\<close>

lemma inert_digits: "inert (show_nat n)"
proof -
  have "\<not> is_digit (CHR ''<'')" "\<not> is_digit (CHR 0x22)" by (simp_all add: is_digit_def)
  then show ?thesis using show_nat_digits by (auto simp: inert_def)
qed

text \<open>
  C33: a search finds nodes by their id only.  For a text that is not empty, the one result window lists,
  with their number, the nodes of the current scene of the type asked for (all, switches or hosts) whose
  id contains the text, except those whose data have an ip or a mac that does not contain it.  So an ip or
  mac address that is not also part of the id finds nothing, although the field invites to enter
  \<open>Id/MAC/ip\<close>.  The window is well-formed markup when ids, types and labels contain no tag or quote.
\<close>

theorem search_lists_ids:
  assumes "stage (u_topo u) = Some v" and "js_trim (vals (u_page u) ''#searchName'') = s" and "s \<noteq> []"
    and "vals (u_page u) ''#searchType'' = typ"
  shows "\<exists>w as html. doSearch u = (None, w) \<and>
     filter (\<lambda>e. fst e = ''MyTopoPopWindows'') (u_body w) = [(''MyTopoPopWindows'', html)] \<and>
     html = createMyTopoPopWin (found_title (show_nat (length as)))
       (found_table (concat (map (\<lambda>a. found_row (n_id (nodes v ! a)) (n_type (nodes v ! a)) (n_text (nodes v ! a))) as))) \<and>
     as = filter (\<lambda>a. (typ = ''exchange'' \<longrightarrow> n_type (nodes v ! a) = ''switch'') \<and>
         (typ = ''host'' \<longrightarrow> n_type (nodes v ! a) = ''host'') \<and> has_substr s (n_id (nodes v ! a)) \<and>
         (truthy (pget (n_data (nodes v ! a)) ''ip'') \<longrightarrow> has_substr s (to_str (n_data (nodes v ! a)) ''ip'')) \<and>
         (truthy (pget (n_data (nodes v ! a)) ''mac'') \<longrightarrow> has_substr s (to_str (n_data (nodes v ! a)) ''mac'')))
       (find_nodes v) \<and>
     (list_all (\<lambda>a. inert (n_id (nodes v ! a)) \<and> inert (n_type (nodes v ! a)) \<and> inert (n_text (nodes v ! a))) as \<longrightarrow> balanced html)"
proof -
  define as where "as = results typ s v"
  let ?rows = "concat (map (\<lambda>a. found_row (n_id (nodes v ! a)) (n_type (nodes v ! a)) (n_text (nodes v ! a))) as)"
  let ?html = "createMyTopoPopWin (found_title (show_nat (length as))) (found_table ?rows)"
  obtain w where w: "doSearch u = (None, w)"
    "u_body w = filter (\<lambda>e. fst e \<noteq> ''MyTopoPopWindows'') (u_body u) @ [(''MyTopoPopWindows'', ?html)]"
    using assms
    by (simp add: doSearch_def Let_def popup_def body_remove_def body_append_def pgs_def pg_def ok_def as_def o_def)
  have "as = filter (\<lambda>a. (typ = ''exchange'' \<longrightarrow> n_type (nodes v ! a) = ''switch'') \<and>
         (typ = ''host'' \<longrightarrow> n_type (nodes v ! a) = ''host'') \<and> has_substr s (n_id (nodes v ! a)) \<and>
         (truthy (pget (n_data (nodes v ! a)) ''ip'') \<longrightarrow> has_substr s (to_str (n_data (nodes v ! a)) ''ip'')) \<and>
         (truthy (pget (n_data (nodes v ! a)) ''mac'') \<longrightarrow> has_substr s (to_str (n_data (nodes v ! a)) ''mac'')))
       (find_nodes v)"
    unfolding as_def results_def
    by (rule filter_cong) (use assms(3) in \<open>auto simp: found_def type_matches_def excludes_def to_str_def\<close>)
  moreover have "balanced ?html"
    if "list_all (\<lambda>a. inert (n_id (nodes v ! a)) \<and> inert (n_type (nodes v ! a)) \<and> inert (n_text (nodes v ! a))) as"
    using that by (intro createMyTopoPopWin_balanced found_title_balanced found_table_balanced inert_digits balanced_concat)
      (auto simp: list_all_iff found_row_balanced)
  moreover have "filter (\<lambda>e. fst e = ''MyTopoPopWindows'') (u_body w) = [(''MyTopoPopWindows'', ?html)]"
    by (simp add: w(2) filter_filter)
  ultimately show ?thesis using w(1) by blast
qed

definition search_page :: ui where
  "search_page = new_page\<lparr>u_topo := no_topo\<lparr>t_tree := Some lone_view, t_stage := Some TreeView\<rparr>,
     u_page := set_val ''#searchName'' (JStr ''a'') (set_val ''#searchType'' (JStr ''exchange'') blank_page)\<rparr>"

lemma search_lists_ids_witness:
  "\<exists>w. doSearch search_page = (None, w) \<and> filter (\<lambda>e. fst e = ''MyTopoPopWindows'') (u_body w) =
     [(''MyTopoPopWindows'', createMyTopoPopWin (found_title ''1'') (found_table (found_row ''a'' ''switch'' ''undefined'')))]"
proof -
  have p: "stage (u_topo search_page) = Some lone_view" "js_trim (vals (u_page search_page) ''#searchName'') = ''a''"
    "vals (u_page search_page) ''#searchType'' = ''exchange''"
    by (simp_all add: search_page_def stage_def page_simps val_text_def) code_simp+
  have n: "n_id (nodes lone_view ! 0) = ''a''" "n_type (nodes lone_view ! 0) = ''switch''" "n_text (nodes lone_view ! 0) = ''undefined''"
    "n_data (nodes lone_view ! 0) = core_a" "find_nodes lone_view = [0]"
    by (simp_all add: lone_view_fields find_nodes_def switchToNode_def core_a Let_def new_node_def core_a_def pget.simps)
  have a: "has_substr ''a'' ''a''" "\<not> truthy (pget core_a ''ip'')" "\<not> truthy (pget core_a ''mac'')"
    "show_nat (Suc 0) = ''1''"
    by (simp_all add: core_a_def pget.simps) code_simp+
  show ?thesis using search_lists_ids [OF p(1,2) _ p(3)] by (simp add: n a) blast
qed

section \<open>Paths\<close>

definition optimal_request :: "string \<Rightarrow> string \<Rightarrow> ui \<Rightarrow> request \<times> ui_cont" where
  "optimal_request a b u = (\<lparr>req_method = POST, req_url = topo_path ''optimal_path'', req_body = form
     [(''srcId'', JStr a), (''dstId'', JStr b), (''ip'', JStr (u_ip u)), (''port'', u_port u)]\<rparr>, KOptimal)"

text \<open>What a click leaves alone: the nodes, the controller, the check boxes.\<close>

definition same_nodes :: "ui \<Rightarrow> ui \<Rightarrow> bool" where
  "same_nodes u w \<longleftrightarrow> t_stage (u_topo w) = t_stage (u_topo u) \<and>
     (\<forall>k. map_option nodes (view_of k (u_topo w)) = map_option nodes (view_of k (u_topo u))) \<and>
     u_checked w = u_checked u \<and> u_ip w = u_ip u \<and> u_port w = u_port u"

lemma same_nodes_trans: "same_nodes u v \<Longrightarrow> same_nodes v w \<Longrightarrow> same_nodes u w"
  by (simp add: same_nodes_def)

lemma same_nodes_id: "same_nodes u w \<Longrightarrow> node_id k a w = node_id k a u"
proof -
  assume "same_nodes u w"
  then have "map_option nodes (view_of k (u_topo w)) = map_option nodes (view_of k (u_topo u))" by (simp add: same_nodes_def)
  then show ?thesis
    by (cases "view_of k (u_topo u)"; cases "view_of k (u_topo w)") (auto simp: node_id_def id_of_def)
qed

lemma steps_nodes: "(\<And>f v. f \<in> set fs \<Longrightarrow> nodes (f v) = nodes v) \<Longrightarrow> nodes (steps fs v) = nodes v"
  by (rule steps_inv) blast

lemma link_ops_nodes:
  "nodes (cancleBoldAllLink v) = nodes v" "nodes (highlightNodeLinks i v) = nodes v" "nodes (fadeAllLinks v) = nodes v"
proof -
  show "nodes (cancleBoldAllLink v) = nodes v"
    unfolding cancleBoldAllLink_def by (rule steps_nodes) (auto simp: unbold_one_def view_simps)
  show "nodes (highlightNodeLinks i v) = nodes v" "nodes (fadeAllLinks v) = nodes v"
    unfolding highlightNodeLinks_def fadeAllLinks_def
    by (auto intro!: steps_nodes simp: set_alpha_def view_simps split: option.split)
qed

lemma link_act:
  assumes "\<And>v. nodes (f v) = nodes v" "stage (u_topo u) \<noteq> None"
  shows "\<exists>w. tp (on_stage f) u = (None, w) \<and> same_nodes u w \<and> stage (u_topo w) \<noteq> None \<and> u_last w = u_last u \<and> u_page w = u_page u"
proof -
  obtain k v where k: "t_stage (u_topo u) = Some k" "view_of k (u_topo u) = Some v"
    using assms(2) by (auto simp: stage_def split: option.splits)
  have "t_stage (put_view k x t) = t_stage t" for x t by (cases k) simp_all
  then show ?thesis using k assms(1)
    by (auto simp: tp_def on_stage_def on_view_def same_nodes_def view_of_put stage_def)
qed

lemma click_on_node:
  assumes "ev_target ev = Some (ENode a)" "u_checked u ''#pathCheck''" "stage (u_topo u) \<noteq> None"
  shows "\<exists>w. onClick ev u = (None, w) \<and> same_nodes u w \<and> stage (u_topo w) \<noteq> None \<and>
     u_last w = Some (case u_last u of None \<Rightarrow> (ev_kind ev, a) | Some p \<Rightarrow> p) \<and>
     pending (u_page w) = pending (u_page u) @ (case u_last u of None \<Rightarrow> [] | Some (k, b) \<Rightarrow>
       if (k, b) = (ev_kind ev, a) then [] else [optimal_request (node_id k b u) (node_id (ev_kind ev) a u) u])"
proof -
  have skip: "unless_path unbold u = (None, u)" using assms(2) by (simp add: unless_path_def act_if_def ok_def)
  obtain u1 where u1: "unbold u = (None, u1)" "same_nodes u u1" "stage (u_topo u1) \<noteq> None" "u_last u1 = u_last u" "u_page u1 = u_page u"
    using link_act [of cancleBoldAllLink u] link_ops_nodes(1) assms(3) unfolding unbold_def by blast
  define u2 where "u2 = snd (start_path ev a u1)"
  have u2: "start_path ev a u1 = (None, u2)" "same_nodes u u2" "stage (u_topo u2) \<noteq> None" "u_page u2 = u_page u"
    "u_last u2 = Some (case u_last u of None \<Rightarrow> (ev_kind ev, a) | Some p \<Rightarrow> p)"
    using u1 by (auto simp: u2_def start_path_def ok_def same_nodes_def split: option.split)
  define i where "i = Some (JStr (node_id (ev_kind ev) a u2))"
  obtain u3 where u3: "highlight i u2 = (None, u3)" "same_nodes u2 u3" "stage (u_topo u3) \<noteq> None" "u_last u3 = u_last u2" "u_page u3 = u_page u2"
    using link_act [of "highlightNodeLinks i" u2] link_ops_nodes(2) u2(3) unfolding highlight_def by blast
  let ?u4 = "u3\<lparr>u_page := set_shown ''#pathMenu'' False (u_page u3)\<rparr>"
  have checked: "u_checked ?u4 ''#pathCheck''" using u3(2) u2(2) assms(2) by (simp add: same_nodes_def)
  obtain u5 where u5: "tp (on_stage fadeAllLinks) ?u4 = (None, u5)" "same_nodes ?u4 u5" "stage (u_topo u5) \<noteq> None"
      "u_last u5 = u_last ?u4" "u_page u5 = u_page ?u4"
    using link_act [of fadeAllLinks ?u4] link_ops_nodes(3) u3(3) by auto
  have "fade ?u4 = (None, u5)" using u5(1) by (auto simp: fade_def ok_def tp_def split: prod.splits)
  then have path: "showPath ev u3 = extend_path ev a u5"
    using checked assms(1) unfolding showPath_def
    by (simp add: run_acts_first run_acts_last act_if_def del: run_acts.simps)
      (cases "extend_path ev a u5", auto split: option.split)
  have s: "same_nodes u u5" using same_nodes_trans [OF u2(2)] u3(2) u5(2) by (auto simp: same_nodes_def)
  have click: "onClick ev u = extend_path ev a u5"
    using skip u1(1) u2(1) u3(1) path assms(1) unfolding onClick_def i_def by (cases "extend_path ev a u5") (simp split: option.split)
  have last: "u_last u5 = Some (case u_last u of None \<Rightarrow> (ev_kind ev, a) | Some p \<Rightarrow> p)" using u5(4) u3(4) u2(5) by simp
  have pend: "pending (u_page u5) = pending (u_page u)" using u5(5) u3(5) u2(4) by (simp add: page_simps)
  show ?thesis
  proof (cases "\<exists>k b. u_last u = Some (k, b) \<and> (k, b) \<noteq> (ev_kind ev, a)")
    case False
    then have "u_last u5 = Some (ev_kind ev, a)" using last by (cases "u_last u") auto
    then have "onClick ev u = (None, u5)" unfolding click by (simp add: extend_path_def)
    then show ?thesis using False s u5(3) last pend by (cases "u_last u") auto
  next
    case True
    then obtain k b where l: "u_last u = Some (k, b)" "(k, b) \<noteq> (ev_kind ev, a)" by blast
    then have "u_last u5 = Some (k, b)" using last by simp
    note e = extend_path_other [of u5 k b ev a, OF this l(2)]
    have ids: "node_id m x u5 = node_id m x u" for m x using same_nodes_id [OF s] .
    have r: "optimal_request x y u5 = optimal_request x y u" for x y using s by (simp add: optimal_request_def same_nodes_def)
    show ?thesis
      unfolding click e using s u5(3) last l pend r [unfolded optimal_request_def]
      by (auto simp: loadOptimalPath_def post_def pgs_def pg_def ok_def page_simps same_nodes_def ids optimal_request_def)
  qed
qed

text \<open>
  C14: paths lead from the node clicked first.  While the choice of paths is on, three clicks on nodes of
  the scene, the first of them after a click on the background, ask for the best path from the first
  node to the second and from the first to the third, never from the second to the third.
\<close>

theorem paths_from_first_node:
  assumes "u_last u = None" and "u_checked u ''#pathCheck''" and "stage (u_topo u) \<noteq> None"
    and "ev_target e1 = Some (ENode a)" and "ev_target e2 = Some (ENode b)" and "ev_target e3 = Some (ENode c)"
    and "(ev_kind e2, b) \<noteq> (ev_kind e1, a)" and "(ev_kind e3, c) \<noteq> (ev_kind e1, a)"
  shows "\<exists>w. run_acts [onClick e1, onClick e2, onClick e3] u = (None, w) \<and> u_last w = Some (ev_kind e1, a) \<and>
     pending (u_page w) = pending (u_page u) @
       [optimal_request (node_id (ev_kind e1) a u) (node_id (ev_kind e2) b u) u,
        optimal_request (node_id (ev_kind e1) a u) (node_id (ev_kind e3) c u) u]"
proof -
  obtain w1 where w1: "onClick e1 u = (None, w1)" "same_nodes u w1" "stage (u_topo w1) \<noteq> None" "u_last w1 = Some (ev_kind e1, a)"
    "pending (u_page w1) = pending (u_page u)"
    using click_on_node [OF assms(4,2,3)] assms(1) by auto
  have c1: "u_checked w1 ''#pathCheck''" using w1(2) assms(2) by (simp add: same_nodes_def)
  obtain w2 where w2: "onClick e2 w1 = (None, w2)" "same_nodes w1 w2" "stage (u_topo w2) \<noteq> None" "u_last w2 = Some (ev_kind e1, a)"
    "pending (u_page w2) = pending (u_page w1) @ [optimal_request (node_id (ev_kind e1) a w1) (node_id (ev_kind e2) b w1) w1]"
    using click_on_node [OF assms(5) c1 w1(3)] w1(4) assms(7) [symmetric] by auto
  have c2: "u_checked w2 ''#pathCheck''" using w2(2) c1 by (simp add: same_nodes_def)
  obtain w3 where w3: "onClick e3 w2 = (None, w3)" "u_last w3 = Some (ev_kind e1, a)"
    "pending (u_page w3) = pending (u_page w2) @ [optimal_request (node_id (ev_kind e1) a w2) (node_id (ev_kind e3) c w2) w2]"
    using click_on_node [OF assms(6) c2 w2(3)] w2(4) assms(8) [symmetric] by auto
  have ids: "node_id k x w1 = node_id k x u" "node_id k x w2 = node_id k x u" for k x
    using same_nodes_id [OF w1(2)] same_nodes_id [OF w2(2)] by simp_all
  have r: "optimal_request x y w1 = optimal_request x y u" "optimal_request x y w2 = optimal_request x y u" for x y
    using w1(2) w2(2) by (simp_all add: optimal_request_def same_nodes_def)
  show ?thesis using w1(1,5) w2(1,5) w3 by (simp add: ids r)
qed

definition path_page :: ui where
  "path_page = new_page\<lparr>u_topo := no_topo\<lparr>t_tree := Some pair_view, t_stage := Some TreeView\<rparr>,
     u_checked := (\<lambda>s. s = ''#pathCheck'')\<rparr>"

lemma paths_from_first_node_witness:
  "\<exists>w. run_acts [onClick (over 0), onClick (over 1), onClick (over 1)] path_page = (None, w) \<and> length (pending (u_page w)) = 2"
proof -
  have "\<exists>w. run_acts [onClick (over 0), onClick (over 1), onClick (over 1)] path_page = (None, w) \<and>
     u_last w = Some (ev_kind (over 0), 0) \<and> pending (u_page w) = pending (u_page path_page) @
       [optimal_request (node_id (ev_kind (over 0)) 0 path_page) (node_id (ev_kind (over 1)) 1 path_page) path_page,
        optimal_request (node_id (ev_kind (over 0)) 0 path_page) (node_id (ev_kind (over 1)) 1 path_page) path_page]"
    by (rule paths_from_first_node) (simp_all add: path_page_def new_page_def stage_def over_def)
  then show ?thesis by (auto simp: path_page_def new_page_def blank_page_def simp del: run_acts.simps)
qed

end
