(* ===== verification/Topo_Full.thy ===== *)
theory Topo_Full
  imports Topo_Session
begin

text \<open>
  The button for the full view of the topology (\<open>fullTopoInWin\<close>): what the page looks like after any number of presses,
  by browsers that can or cannot show a page in full.
\<close>

section \<open>The two looks\<close>








section \<open>One press\<close>

lemma css_others [simp]: "css (set_shown s b p) = css p" "css (js_alert t p) = css p"
  by (simp_all add: page_defs)















section \<open>Any number of presses\<close>







end
