(* ===== verification/Topo_Random.thy ===== *)
theory Topo_Random
  imports DCF_Prelude
begin

text \<open>
  \<open>randomDatas\<close> of \<open>jtopo/js/open.js\<close>: sample data of a network, drawn from \<open>Math.random\<close>.  The random numbers
  are a parameter, a sequence of which the state keeps the position of the next one.  The loops that draw
  again until two numbers differ may not end, so the functions return an option: \<open>None\<close> is a run that does
  not return.  The text that is printed at the end is the result.
\<close>

section \<open>Drawing\<close>

type_synonym random = "nat \<Rightarrow> real"

text \<open>\<open>Math.floor(Math.random() * p)\<close>, and the loop that draws until the result is not \<open>upId\<close>.\<close>

definition draw :: "random \<Rightarrow> nat \<Rightarrow> nat \<Rightarrow> nat" where
  "draw rnd p k = nat \<lfloor>rnd k * real p\<rfloor>"

partial_function (option) draw_other :: "(nat \<Rightarrow> 'a) \<Rightarrow> 'a \<Rightarrow> nat \<Rightarrow> ('a \<times> nat) option" where
  "draw_other pick upId k =
     (let downId = pick k in
      if downId = upId then draw_other pick upId (Suc k) else Some (downId, Suc k))"

section \<open>The text of a switch\<close>

definition core_id :: "nat \<Rightarrow> nat \<Rightarrow> string" where
  "core_id i j = ''core-'' @ show_nat i @ ''-'' @ show_nat j"

definition sw_id :: "nat \<Rightarrow> string" where
  "sw_id n = ''sw-'' @ show_nat n"

definition id_list :: "string list \<Rightarrow> string" where
  "id_list ids = (case ids of [] \<Rightarrow> ''[]'' | x # _ \<Rightarrow> ''[\"'' @ x @ ''\"]'')"

definition switch_text :: "string \<Rightarrow> string \<Rightarrow> string list \<Rightarrow> string list \<Rightarrow> nat \<Rightarrow> string" where
  "switch_text sid core up down i =
     CHR 0x0A # ''{\"id\": \"'' @ sid @ ''\", \"name\": \"'' @ sid @ ''\", \"core\":\"'' @ core @ ''\", \"upNode\":'' @ id_list up @
     '', \"downNode\":'' @ id_list down @ '', \"mininet\":\"'' @ show_nat i @ ''\"},''"

section \<open>The loops\<close>

type_synonym gen_state = "string \<times> nat \<times> nat"

text \<open>The state is the text so far, the counter of the switches and the position in the random numbers.\<close>

function random_switches :: "random \<Rightarrow> nat \<Rightarrow> nat \<Rightarrow> gen_state \<Rightarrow> gen_state option" where
  "random_switches rnd i m (rs, swCounter, k) =
     (if real m < 75 / 4 then
        let sid = sw_id swCounter; upId = core_id i (draw rnd 4 k) in
        case draw_other (\<lambda>n. core_id i (draw rnd 4 n)) upId (Suc k) of
          None \<Rightarrow> None
        | Some (downId, k') \<Rightarrow>
            random_switches rnd i (Suc m)
              (rs @ switch_text sid ''false'' [upId] [downId] i, Suc swCounter, k')
      else Some (rs, swCounter, k))"
  by pat_completeness auto

termination
  by (relation "measure (\<lambda>(rnd, i, m, st). 75 - m)") auto

function random_cores :: "random \<Rightarrow> nat \<Rightarrow> nat \<Rightarrow> nat \<Rightarrow> gen_state \<Rightarrow> gen_state option" where
  "random_cores rnd i pIndex j (rs, swCounter, k) =
     (if j < 4 then
        let upId = draw rnd 4 k in
        case draw_other (draw rnd 4) upId (Suc k) of
          None \<Rightarrow> None
        | Some (downId, k') \<Rightarrow>
            let str = (if pIndex = j
                       then switch_text (core_id i j) ''true'' [show_nat upId] [show_nat downId] i
                       else switch_text (core_id i j) ''true'' [] [] i) in
            case random_switches rnd i 0 (rs @ str, swCounter, k') of
              None \<Rightarrow> None
            | Some st \<Rightarrow> random_cores rnd i pIndex (Suc j) st
      else Some (rs, swCounter, k))"
  by pat_completeness auto

termination
  by (relation "measure (\<lambda>(rnd, i, p, j, st). 4 - j)") auto

function random_nets :: "random \<Rightarrow> nat \<Rightarrow> gen_state \<Rightarrow> gen_state option" where
  "random_nets rnd i (rs, swCounter, k) =
     (if i < 5 then
        case random_cores rnd i (draw rnd 4 k) 0 (rs, swCounter, Suc k) of
          None \<Rightarrow> None
        | Some st \<Rightarrow> random_nets rnd (Suc i) st
      else Some (rs, swCounter, k))"
  by pat_completeness auto

termination
  by (relation "measure (\<lambda>(rnd, i, st). 5 - i)") auto

definition randomDatas :: "random \<Rightarrow> string option" where
  "randomDatas rnd = map_option fst (random_nets rnd 0 ('''', 0, 0))"

declare random_switches.simps [simp del] random_cores.simps [simp del] random_nets.simps [simp del]

section \<open>Drawing ends\<close>

text \<open>The random numbers are in the unit interval, and no number is drawn for ever.\<close>

definition unit_random :: "random \<Rightarrow> bool" where
  "unit_random rnd \<longleftrightarrow> (\<forall>k. 0 \<le> rnd k \<and> rnd k < 1)"

definition varied :: "random \<Rightarrow> bool" where
  "varied rnd \<longleftrightarrow> (\<forall>n a. \<exists>k \<ge> n. draw rnd 4 k \<noteq> a)"

lemma draw_less: "unit_random rnd \<Longrightarrow> draw rnd 4 k < 4"
  unfolding unit_random_def draw_def by (auto simp: floor_less_iff nat_less_iff dest: spec [of _ k])

lemma draw_other_returns:
  assumes "k \<le> n" "pick n \<noteq> u"
  shows "\<exists>m k'. draw_other pick u k = Some (pick m, k') \<and> pick m \<noteq> u"
  using assms
proof (induction rule: inc_induct)
  case base
  then show ?case by (subst draw_other.simps) (auto simp: Let_def)
next
  case (step n)
  then show ?case by (subst draw_other.simps) (auto simp: Let_def)
qed

lemma draw_other_finds:
  "draw_other pick u k = Some r \<Longrightarrow> fst r \<noteq> u \<and> (\<exists>n. fst r = pick n)"
  by (rule draw_other.raw_induct [where P = "\<lambda>pick u k r. fst r \<noteq> u \<and> (\<exists>n. fst r = pick n)"])
    (auto simp: Let_def split: if_splits)

section \<open>The switches of the sample\<close>

text \<open>What the text says, switch by switch.\<close>

record sample_switch =
  ss_id :: string
  ss_core :: bool
  ss_up :: "string list"
  ss_down :: "string list"
  ss_net :: nat

definition sample_text :: "sample_switch list \<Rightarrow> string" where
  "sample_text ss = concat (map (\<lambda>s. switch_text (ss_id s)
     (if ss_core s then ''true'' else ''false'') (ss_up s) (ss_down s) (ss_net s)) ss)"

definition block_ids :: "nat \<Rightarrow> nat \<Rightarrow> (string \<times> bool) list" where
  "block_ids i j = (core_id i j, True) #
     map (\<lambda>x. (sw_id x, False)) [76 * i + 19 * j..<76 * i + 19 * j + 19]"

definition sample_ids :: "nat \<Rightarrow> (string \<times> bool) list" where
  "sample_ids i = concat (map (block_ids i) [0..<4])"

text \<open>Links of a switch: a switch that is not core has two different core switches of its network, and a
  core switch two different machines or none.\<close>

definition two_of :: "(nat \<Rightarrow> string) \<Rightarrow> sample_switch \<Rightarrow> bool" where
  "two_of name s \<longleftrightarrow>
     (\<exists>a < 4. \<exists>b < 4. a \<noteq> b \<and> ss_up s = [name a] \<and> ss_down s = [name b])"

definition sample_links :: "sample_switch \<Rightarrow> bool" where
  "sample_links s \<longleftrightarrow>
     (if ss_core s then two_of show_nat s \<or> ss_up s = [] \<and> ss_down s = []
      else two_of (core_id (ss_net s)) s)"

definition attached :: "sample_switch \<Rightarrow> bool" where
  "attached s \<longleftrightarrow> ss_core s \<and> ss_up s \<noteq> []"

lemma sample_text_append [simp]: "sample_text (xs @ ys) = sample_text xs @ sample_text ys"
  by (simp add: sample_text_def)

lemma sample_text_Nil [simp]: "sample_text [] = []"
  by (simp add: sample_text_def)

lemma draw_other_core:
  assumes "unit_random rnd" "varied rnd" "inj_on f {..<4}" "a < 4"
  obtains b k' where "draw_other (\<lambda>n. f (draw rnd 4 n)) (f a) k = Some (f b, k')" "b < 4" "b \<noteq> a"
proof -
  obtain n where "n \<ge> k" "draw rnd 4 n \<noteq> a" using assms(2) by (auto simp: varied_def)
  moreover have "f (draw rnd 4 n) \<noteq> f a"
    using calculation assms(3,4) draw_less [OF assms(1)] by (auto dest: inj_onD)
  ultimately obtain m k' where "draw_other (\<lambda>n. f (draw rnd 4 n)) (f a) k = Some (f (draw rnd 4 m), k')"
    "f (draw rnd 4 m) \<noteq> f a"
    using draw_other_returns [of k n "\<lambda>n. f (draw rnd 4 n)" "f a"] by blast
  then show thesis using that draw_less [OF assms(1)] by metis
qed

lemma core_id_inj: "inj_on (core_id i) A"
  by (auto simp: inj_on_def core_id_def dest: show_nat_inj)

lemma random_switches_step:
  assumes "unit_random rnd" "varied rnd" "m < 19"
  obtains s k' where
    "random_switches rnd i m (rs, c, k) =
       random_switches rnd i (Suc m) (rs @ sample_text [s], Suc c, k')"
    "ss_id s = sw_id c" "\<not> ss_core s" "ss_net s = i" "sample_links s"
proof -
  have m: "real m < 75 / 4" using assms(3) by linarith
  obtain b k' where d: "draw_other (\<lambda>n. core_id i (draw rnd 4 n)) (core_id i (draw rnd 4 k)) (Suc k)
     = Some (core_id i b, k')" "b < 4" "b \<noteq> draw rnd 4 k"
    using draw_other_core [OF assms(1,2) core_id_inj draw_less [OF assms(1)]] by blast
  define s where "s = \<lparr>ss_id = sw_id c, ss_core = False, ss_up = [core_id i (draw rnd 4 k)],
     ss_down = [core_id i b], ss_net = i\<rparr>"
  show thesis
  proof
    show "random_switches rnd i m (rs, c, k) =
       random_switches rnd i (Suc m) (rs @ sample_text [s], Suc c, k')"
      using d(1) m by (subst random_switches.simps) (simp add: Let_def s_def sample_text_def)
    show "sample_links s"
      using d draw_less [OF assms(1), of k] by (auto simp: s_def sample_links_def two_of_def)
  qed (simp_all add: s_def)
qed

lemma random_switches_end: "random_switches rnd i 19 st = Some st"
  by (cases st) (simp add: random_switches.simps)

lemma random_switches_rows:
  assumes "unit_random rnd" "varied rnd" "m \<le> 19"
  shows "\<exists>ss k'. random_switches rnd i m (rs, c, k) = Some (rs @ sample_text ss, c + (19 - m), k') \<and>
     map (\<lambda>s. (ss_id s, ss_core s)) ss = map (\<lambda>x. (sw_id x, False)) [c..<c + (19 - m)] \<and>
     (\<forall>s \<in> set ss. ss_net s = i \<and> sample_links s)"
  using assms(3)
proof (induction "19 - m" arbitrary: m rs c k)
  case 0
  then have "m = 19" by simp
  then show ?case by (auto simp: random_switches_end intro!: exI [of _ "[]"])
next
  case (Suc x)
  then have m: "m < 19" "x = 19 - Suc m" by simp_all
  obtain s k' where s: "random_switches rnd i m (rs, c, k) =
       random_switches rnd i (Suc m) (rs @ sample_text [s], Suc c, k')"
    "ss_id s = sw_id c" "\<not> ss_core s" "ss_net s = i" "sample_links s"
    using random_switches_step [OF assms(1,2) m(1)] by blast
  have e: "c + (19 - m) = Suc c + (19 - Suc m)" using m(1) by simp
  obtain ss k'' where r: "random_switches rnd i (Suc m) (rs @ sample_text [s], Suc c, k')
       = Some ((rs @ sample_text [s]) @ sample_text ss, c + (19 - m), k'')"
     "map (\<lambda>s. (ss_id s, ss_core s)) ss = map (\<lambda>x. (sw_id x, False)) [Suc c..<c + (19 - m)]"
     "\<forall>s \<in> set ss. ss_net s = i \<and> sample_links s"
    using Suc(1) [of "Suc m" "rs @ sample_text [s]" "Suc c" k'] m unfolding e by auto
  have "[c..<c + (19 - m)] = c # [Suc c..<c + (19 - m)]"
    using m(1) by (simp add: upt_conv_Cons)
  then show ?case
    using s r sample_text_append [of "[s]" ss] by (intro exI [of _ "s # ss"] exI [of _ k'']) simp
qed

lemma random_cores_step:
  assumes "unit_random rnd" "varied rnd" "j < 4"
  obtains ss k' where
    "random_cores rnd i p j (rs, 76 * i + 19 * j, k) =
       random_cores rnd i p (Suc j) (rs @ sample_text ss, 76 * i + 19 * Suc j, k')"
    "map (\<lambda>s. (ss_id s, ss_core s)) ss = block_ids i j"
    "\<forall>s \<in> set ss. ss_net s = i \<and> sample_links s"
    "length (filter attached ss) = (if p = j then 1 else 0)"
proof -
  obtain b k' where d: "draw_other (draw rnd 4) (draw rnd 4 k) (Suc k) = Some (b, k')"
    "b < 4" "b \<noteq> draw rnd 4 k"
    using draw_other_core [OF assms(1,2), of "\<lambda>n. n" "draw rnd 4 k" "Suc k"] draw_less [OF assms(1), of k]
    by auto
  define s where "s = \<lparr>ss_id = core_id i j, ss_core = True,
     ss_up = (if p = j then [show_nat (draw rnd 4 k)] else []),
     ss_down = (if p = j then [show_nat b] else []), ss_net = i\<rparr>"
  obtain ss k'' where r: "random_switches rnd i 0 (rs @ sample_text [s], 76 * i + 19 * j, k')
       = Some ((rs @ sample_text [s]) @ sample_text ss, 76 * i + 19 * j + 19, k'')"
     "map (\<lambda>s. (ss_id s, ss_core s)) ss
       = map (\<lambda>x. (sw_id x, False)) [76 * i + 19 * j..<76 * i + 19 * j + 19]"
     "\<forall>s \<in> set ss. ss_net s = i \<and> sample_links s"
    using random_switches_rows [OF assms(1,2), of 0 i "rs @ sample_text [s]" "76 * i + 19 * j" k'] by auto
  have "\<not> attached t" if "t \<in> set ss" for t
    using arg_cong [OF r(2), of set] that by (auto simp: attached_def)
  then have f: "filter attached ss = []" by simp
  show thesis
  proof
    show "random_cores rnd i p j (rs, 76 * i + 19 * j, k) =
       random_cores rnd i p (Suc j) (rs @ sample_text (s # ss), 76 * i + 19 * Suc j, k'')"
      using d(1) r(1) assms(3) sample_text_append [of "[s]" ss]
      by (cases "p = j"; subst random_cores.simps) (simp_all add: Let_def s_def sample_text_def algebra_simps)
    have "sample_links s"
      using d draw_less [OF assms(1), of k] by (auto simp: s_def sample_links_def two_of_def)
    then show "\<forall>t \<in> set (s # ss). ss_net t = i \<and> sample_links t"
      using r(3) by (simp add: s_def)
  qed (use r(2) f in \<open>simp_all add: s_def block_ids_def attached_def\<close>)
qed

lemma random_cores_end: "random_cores rnd i p 4 st = Some st"
  by (cases st) (simp add: random_cores.simps)

lemma random_cores_rows:
  assumes "unit_random rnd" "varied rnd" "j \<le> 4"
  shows "\<exists>ss k'. random_cores rnd i p j (rs, 76 * i + 19 * j, k)
       = Some (rs @ sample_text ss, 76 * Suc i, k') \<and>
     map (\<lambda>s. (ss_id s, ss_core s)) ss = concat (map (block_ids i) [j..<4]) \<and>
     (\<forall>s \<in> set ss. ss_net s = i \<and> sample_links s) \<and>
     length (filter attached ss) = (if j \<le> p \<and> p < 4 then 1 else 0)"
  using assms(3)
proof (induction "4 - j" arbitrary: j rs k)
  case 0
  then have "j = 4" by simp
  then show ?case by (auto simp: random_cores_end intro!: exI [of _ "[]"])
next
  case (Suc x)
  then have j: "j < 4" "x = 4 - Suc j" by simp_all
  obtain ss k' where s: "random_cores rnd i p j (rs, 76 * i + 19 * j, k) =
       random_cores rnd i p (Suc j) (rs @ sample_text ss, 76 * i + 19 * Suc j, k')"
    "map (\<lambda>s. (ss_id s, ss_core s)) ss = block_ids i j"
    "\<forall>s \<in> set ss. ss_net s = i \<and> sample_links s"
    "length (filter attached ss) = (if p = j then 1 else 0)"
    using random_cores_step [OF assms(1,2) j(1)] by blast
  obtain tt k'' where r: "random_cores rnd i p (Suc j) (rs @ sample_text ss, 76 * i + 19 * Suc j, k')
       = Some ((rs @ sample_text ss) @ sample_text tt, 76 * Suc i, k'')"
    "map (\<lambda>s. (ss_id s, ss_core s)) tt = concat (map (block_ids i) [Suc j..<4])"
    "\<forall>s \<in> set tt. ss_net s = i \<and> sample_links s"
    "length (filter attached tt) = (if Suc j \<le> p \<and> p < 4 then 1 else 0)"
    using Suc(1) [OF j(2), of "rs @ sample_text ss" k'] j by auto
  have "[j..<4] = j # [Suc j..<4]" using j(1) by (simp add: upt_conv_Cons)
  then show ?case
    using s r j(1) by (intro exI [of _ "ss @ tt"] exI [of _ k'']) (auto simp: not_le)
qed

lemma random_nets_step:
  assumes "unit_random rnd" "varied rnd" "i < 5"
  obtains ss k' where
    "random_nets rnd i (rs, 76 * i, k) = random_nets rnd (Suc i) (rs @ sample_text ss, 76 * Suc i, k')"
    "map (\<lambda>s. (ss_id s, ss_core s)) ss = sample_ids i"
    "\<forall>s \<in> set ss. ss_net s = i \<and> sample_links s"
    "length (filter attached ss) = 1"
proof -
  have "76 * i + 19 * 0 = 76 * i" by simp
  then obtain ss k' where r: "random_cores rnd i (draw rnd 4 k) 0 (rs, 76 * i, Suc k)
       = Some (rs @ sample_text ss, 76 * Suc i, k')"
    "map (\<lambda>s. (ss_id s, ss_core s)) ss = sample_ids i"
    "\<forall>s \<in> set ss. ss_net s = i \<and> sample_links s"
    "length (filter attached ss) = 1"
    using random_cores_rows [OF assms(1,2), of 0 i "draw rnd 4 k" rs "Suc k"] draw_less [OF assms(1), of k]
    by (fastforce simp: sample_ids_def)
  moreover have "random_nets rnd i (rs, 76 * i, k) = random_nets rnd (Suc i) (rs @ sample_text ss, 76 * Suc i, k')"
    using r(1) assms(3) by (subst random_nets.simps) simp
  ultimately show thesis using that by blast
qed

lemma random_nets_end: "random_nets rnd 5 st = Some st"
  by (cases st) (simp add: random_nets.simps)

lemma random_nets_rows:
  assumes "unit_random rnd" "varied rnd" "i \<le> 5"
  shows "\<exists>ss k'. random_nets rnd i (rs, 76 * i, k) = Some (rs @ sample_text ss, 380, k') \<and>
     map (\<lambda>s. (ss_net s, ss_id s, ss_core s)) ss = concat (map (\<lambda>n. map (Pair n) (sample_ids n)) [i..<5]) \<and>
     (\<forall>s \<in> set ss. i \<le> ss_net s \<and> sample_links s) \<and>
     (\<forall>n \<in> {i..<5}. length (filter (\<lambda>s. attached s \<and> ss_net s = n) ss) = 1)"
  using assms(3)
proof (induction "5 - i" arbitrary: i rs k)
  case 0
  then have "i = 5" by simp
  then show ?case by (auto simp: random_nets_end intro!: exI [of _ "[]"])
next
  case (Suc x)
  then have i: "i < 5" "x = 5 - Suc i" by simp_all
  obtain ss k' where s: "random_nets rnd i (rs, 76 * i, k) =
       random_nets rnd (Suc i) (rs @ sample_text ss, 76 * Suc i, k')"
    "map (\<lambda>s. (ss_id s, ss_core s)) ss = sample_ids i"
    "\<forall>s \<in> set ss. ss_net s = i \<and> sample_links s"
    "length (filter attached ss) = 1"
    using random_nets_step [OF assms(1,2) i(1)] by blast
  obtain tt k'' where r: "random_nets rnd (Suc i) (rs @ sample_text ss, 76 * Suc i, k')
       = Some ((rs @ sample_text ss) @ sample_text tt, 380, k'')"
    "map (\<lambda>s. (ss_net s, ss_id s, ss_core s)) tt = concat (map (\<lambda>n. map (Pair n) (sample_ids n)) [Suc i..<5])"
    "\<forall>s \<in> set tt. Suc i \<le> ss_net s \<and> sample_links s"
    "\<forall>n \<in> {Suc i..<5}. length (filter (\<lambda>s. attached s \<and> ss_net s = n) tt) = 1"
    using Suc(1) [OF i(2), of "rs @ sample_text ss" k'] i by auto
  have m: "map (\<lambda>s. (ss_net s, ss_id s, ss_core s)) ss = map (Pair i) (sample_ids i)"
    using s(3) by (simp flip: s(2))
  have own: "filter (\<lambda>s. attached s \<and> ss_net s = i) ss = filter attached ss"
    "n \<noteq> i \<Longrightarrow> filter (\<lambda>s. attached s \<and> ss_net s = n) ss = []"
    "filter (\<lambda>s. attached s \<and> ss_net s = i) tt = []" for n
    using s(3) r(3) by (auto intro!: filter_cong filter_False)
  have "length (filter (\<lambda>s. attached s \<and> ss_net s = n) (ss @ tt)) = 1" if "n \<in> {i..<5}" for n
    using that own s(4) r(4) by (cases "n = i") auto
  moreover have "[i..<5] = i # [Suc i..<5]" using i(1) by (simp add: upt_conv_Cons)
  ultimately show ?case
    using s r m by (intro exI [of _ "ss @ tt"] exI [of _ k'']) (auto dest: Suc_leD)
qed

section \<open>The sample\<close>

text \<open>The loops of the script need random numbers that vary: with a constant one they never end.\<close>

lemma randomDatas_constant: "randomDatas (\<lambda>_. c) = None"
proof -
  have "draw_other (draw (\<lambda>_. c) 4) (draw (\<lambda>_. c) 4 k) (Suc k) = None" for k
    using draw_other_finds [of "draw (\<lambda>_. c) 4" "draw (\<lambda>_. c) 4 k" "Suc k"]
    by (cases "draw_other (draw (\<lambda>_. c) 4) (draw (\<lambda>_. c) 4 k) (Suc k)") (auto simp: draw_def)
  then have "random_cores (\<lambda>_. c) 0 p 0 (rs, n, k) = None" for p rs n k
    by (subst random_cores.simps) (simp add: Let_def)
  then show ?thesis
    by (simp add: randomDatas_def random_nets.simps)
qed

text \<open>With random numbers that vary, \<open>randomDatas\<close> returns, and its text lists five networks of four
  core switches, each followed by 19 others (76 in a network): a switch that is not core is linked to two
  different core switches of its network, and exactly one core switch of a network is linked to machines.\<close>

theorem randomDatas_sample:
  assumes "unit_random rnd" "varied rnd"
  shows "\<exists>ss. randomDatas rnd = Some (sample_text ss) \<and>
     map (\<lambda>s. (ss_net s, ss_id s, ss_core s)) ss = concat (map (\<lambda>n. map (Pair n) (sample_ids n)) [0..<5]) \<and>
     (\<forall>s \<in> set ss. sample_links s) \<and>
     (\<forall>n < 5. length (filter (\<lambda>s. attached s \<and> ss_net s = n) ss) = 1)"
proof -
  obtain ss k' where "random_nets rnd 0 ('''', 0, 0) = Some (sample_text ss, 380, k')"
    "map (\<lambda>s. (ss_net s, ss_id s, ss_core s)) ss = concat (map (\<lambda>n. map (Pair n) (sample_ids n)) [0..<5])"
    "\<forall>s \<in> set ss. sample_links s"
    "\<forall>n \<in> {0..<5}. length (filter (\<lambda>s. attached s \<and> ss_net s = n) ss) = 1"
    using random_nets_rows [OF assms, of 0 "''''" 0] by auto
  then show ?thesis by (auto simp: randomDatas_def intro!: exI [of _ ss])
qed

lemma randomDatas_sample_witness:
  "\<exists>ss. randomDatas (\<lambda>k. if even k then 0 else 1 / 2) = Some (sample_text ss) \<and>
     length (filter (\<lambda>s. attached s \<and> ss_net s = 3) ss) = 1"
proof -
  have "varied (\<lambda>k. if even k then 0 else 1 / 2)"
    unfolding varied_def
  proof (intro allI)
    fix n a
    show "\<exists>k \<ge> n. draw (\<lambda>k. if even k then 0 else 1 / 2) 4 k \<noteq> a"
      by (cases "a = 0") (auto simp: draw_def intro: exI [of _ "2 * n + 1"] exI [of _ "2 * n"])
  qed
  moreover have "unit_random (\<lambda>k. if even k then 0 else 1 / 2)"
    by (simp add: unit_random_def)
  ultimately show ?thesis
    using randomDatas_sample by fastforce
qed

end
