(* ===== verification/Paging.thy ===== *)
theory Paging
  imports Js_Value Js_Number
begin

text \<open>
  \<open>js/tables-dynamic.js\<close>: the page buttons of the data tables, and how a table is made.  The state of a
  table that the library DataTables keeps is what the script reads of it: the first row shown, the
  number of rows of a page (\<open>-1\<close> when all are shown; never 0), the number of rows and that of the rows that pass
  the filter.  Row numbers stay far below the range in which a division of doubles is inexact.
\<close>

section \<open>Paging information\<close>

record table_state =
  d_start :: int
  d_length :: int
  d_end :: int
  d_total :: int
  d_shown :: int

record paging =
  iStart :: int
  iEnd :: int
  iLength :: int
  iTotal :: int
  iFilteredTotal :: int
  iPage :: int
  iTotalPages :: int

definition ceil_div :: "int \<Rightarrow> int \<Rightarrow> int" where
  "ceil_div a b = - ((- a) div b)"

definition fnPagingInfo :: "table_state \<Rightarrow> paging" where
  "fnPagingInfo s =
     \<lparr>iStart = d_start s, iEnd = d_end s, iLength = d_length s, iTotal = d_total s, iFilteredTotal = d_shown s,
      iPage = (if d_length s = -1 then 0 else ceil_div (d_start s) (d_length s)),
      iTotalPages = (if d_length s = -1 then 0 else ceil_div (d_shown s) (d_length s))\<rparr>"

section \<open>Page buttons\<close>

record button =
  b_text :: string
  b_active :: bool
  b_disabled :: bool

definition pager_init :: "string \<Rightarrow> string \<Rightarrow> button list" where
  "pager_init sPrevious sNext =
     [\<lparr>b_text = sPrevious, b_active = False, b_disabled = True\<rparr>,
      \<lparr>b_text = sNext, b_active = False, b_disabled = True\<rparr>]"

text \<open>The first and the last page that have a button.\<close>

definition page_window :: "paging \<Rightarrow> int \<times> int" where
  "page_window p =
     (let iListLength = 5; iHalf = iListLength div 2
      in if iTotalPages p < iListLength then (1, iTotalPages p)
         else if iPage p \<le> iHalf then (1, iListLength)
         else if iPage p \<ge> iTotalPages p - iHalf then (iTotalPages p - iListLength + 1, iTotalPages p)
         else (iPage p - iHalf + 1, iPage p - iHalf + 1 + iListLength - 1))"

definition page_button :: "paging \<Rightarrow> int \<Rightarrow> button" where
  "page_button p j = \<lparr>b_text = show_int j, b_active = (j = iPage p + 1), b_disabled = False\<rparr>"

text \<open>The middle buttons are removed and the new ones put before the last button.\<close>

definition remove_middle :: "button list \<Rightarrow> button list" where
  "remove_middle ls = (case ls of [] \<Rightarrow> [] | l # rest \<Rightarrow> l # (if rest = [] then [] else [last rest]))"

definition insert_before_last :: "button list \<Rightarrow> button list \<Rightarrow> button list" where
  "insert_before_last bs ls = butlast ls @ bs @ [last ls]"

definition set_first :: "bool \<Rightarrow> button list \<Rightarrow> button list" where
  "set_first b ls = (case ls of [] \<Rightarrow> [] | l # rest \<Rightarrow> l\<lparr>b_disabled := b\<rparr> # rest)"

definition set_last :: "bool \<Rightarrow> button list \<Rightarrow> button list" where
  "set_last b ls = (if ls = [] then [] else butlast ls @ [(last ls)\<lparr>b_disabled := b\<rparr>])"

definition pager_update :: "paging \<Rightarrow> button list \<Rightarrow> button list" where
  "pager_update p ls =
     (case page_window p of (first, end) \<Rightarrow>
        set_last (iPage p = iTotalPages p - 1 \<or> iTotalPages p = 0)
          (set_first (iPage p = 0)
            (insert_before_last (map (page_button p) [first..end]) (remove_middle ls))))"

definition fnUpdate :: "table_state \<Rightarrow> button list list \<Rightarrow> button list list" where
  "fnUpdate s an = map (pager_update (fnPagingInfo s)) an"

text \<open>A click on a page button, which carries the paging of the update that made it.\<close>

definition page_click :: "paging \<Rightarrow> button \<Rightarrow> table_state \<Rightarrow> table_state option" where
  "page_click p b s = map_option (\<lambda>n. s\<lparr>d_start := (n - 1) * iLength p\<rparr>) (parse_int (b_text b))"

text \<open>A click on the first or last button: \<open>change\<close> is \<open>_fnPageChange\<close> of the library, \<open>draw\<close> its redrawing.\<close>

definition step_click :: "(string \<Rightarrow> 't \<Rightarrow> bool \<times> 't) \<Rightarrow> ('t \<Rightarrow> 't) \<Rightarrow> string \<Rightarrow> 't \<Rightarrow> 't" where
  "step_click change draw action t = (case change action t of (moved, t') \<Rightarrow> if moved then draw t' else t')"

section \<open>Tables\<close>

record data_table =
  t_dom :: string
  t_language :: "(string \<times> string) list"
  t_paginate :: "(string \<times> string) list"
  t_columns :: "jsval list"
  t_rows :: jsval

definition unsortableColumns :: "bool list \<Rightarrow> jsval list" where
  "unsortableColumns heads = map (\<lambda>no_sort. if no_sort then JObj [(''bSortable'', JBool False)] else JNull) heads"

definition table_dom :: string where
  "table_dom = ''<'' @ [CHR 0x27] @ ''row-fluid table-top-control'' @ [CHR 0x27] @ ''<'' @ [CHR 0x27] @
     ''span6 hidden-phone per-page-selector'' @ [CHR 0x27] @ ''l><'' @ [CHR 0x27] @ ''span6'' @ [CHR 0x27] @ ''f>r>t<'' @
     [CHR 0x27] @ ''row-fluid table-bottom-control'' @ [CHR 0x27] @ ''<'' @ [CHR 0x27] @ ''span6'' @ [CHR 0x27] @ ''i><'' @
     [CHR 0x27] @ ''span6'' @ [CHR 0x27] @ ''p>>''"

definition language :: "string \<Rightarrow> (string \<times> string) list" where
  "language sInfo =
     [(''sProcessing'', ''Loading...''),
      (''sLengthMenu'', ''Each page display _MENU_ records''),
      (''sEmptyTable'', ''No data available in table''),
      (''sZeroRecords'', ''Sorry, there is no data releated'' @ [CHR 0xEF, CHR 0xBC, CHR 0x81]),
      (''sInfo'', sInfo),
      (''sInfoFiltered'', ''There are total _MAX_ records in data table''),
      (''sSearch'', ''search'')]"

definition paginate_labels :: "(string \<times> string) list" where
  "paginate_labels = [(''sFirst'', ''First''), (''sPrevious'', ''Prev''), (''sNext'', ''Next''), (''sLast'', ''Last'')]"

text \<open>
  A call of the library \<open>dataTable\<close> or of its \<open>fnDestroy\<close> is an entry of the log; the variable holds the
  table made last.
\<close>

datatype table_call = Make string data_table | Destroy data_table

record tables =
  oTables :: "data_table option"
  oTables1 :: "data_table option"
  t_log :: "table_call list"

definition destroy :: "data_table option \<Rightarrow> table_call list" where
  "destroy t = (case t of None \<Rightarrow> [] | Some d \<Rightarrow> [Destroy d])"

definition table_of :: "string \<Rightarrow> bool list \<Rightarrow> jsval \<Rightarrow> data_table" where
  "table_of sInfo heads data = \<lparr>t_dom = table_dom, t_language = language sInfo, t_paginate = paginate_labels,
     t_columns = unsortableColumns heads, t_rows = data\<rparr>"

definition showTable :: "bool list \<Rightarrow> jsval \<Rightarrow> tables \<Rightarrow> tables" where
  "showTable heads data t =
     (let d = table_of (''Current page display records from _START_ to _END_'' @ [CHR 0xEF, CHR 0xBC, CHR 0x8C] @
            ''total _MAX_ records'') heads data
      in t\<lparr>oTables := Some d, t_log := t_log t @ destroy (oTables t) @ [Make ''#datatable-table'' d]\<rparr>)"

definition showTables :: "bool list \<Rightarrow> jsval \<Rightarrow> jsval \<Rightarrow> tables \<Rightarrow> tables" where
  "showTables heads data rows t =
     (let d = table_of (''Current page display records from _START_ to _END_, total'' @ js_str rows @ ''records'') heads data
      in t\<lparr>oTables1 := Some d, t_log := t_log t @ destroy (oTables1 t) @ [Make ''#datatable-table1'' d]\<rparr>)"

section \<open>What the buttons show\<close>

text \<open>A table on a page: the first row shown is the first of a page, and a row of the table unless it is empty.\<close>

definition on_page :: "table_state \<Rightarrow> bool" where
  "on_page s \<longleftrightarrow> 0 < d_length s \<and> d_length s dvd d_start s \<and> 0 \<le> d_start s \<and> 0 \<le> d_shown s \<and>
     (d_start s < d_shown s \<or> d_start s = 0)"

definition pager_ok :: "string \<Rightarrow> string \<Rightarrow> button list \<Rightarrow> bool" where
  "pager_ok prev next ls \<longleftrightarrow> 2 \<le> length ls \<and> b_text (hd ls) = prev \<and> b_text (last ls) = next \<and>
     \<not> b_active (hd ls) \<and> \<not> b_active (last ls)"

lemma pager_init_ok: "pager_ok prev next (pager_init prev next)"
  by (simp add: pager_ok_def pager_init_def)

lemma ceil_div_mult: "0 < n \<Longrightarrow> ceil_div (k * n) n = k"
  using nonzero_mult_div_cancel_right [of n "- k"] by (simp add: ceil_div_def)

lemma ceil_div_bounds:
  assumes "0 < n" shows "(ceil_div a n - 1) * n < a \<and> a \<le> ceil_div a n * n"
proof -
  define q where "q = (- a) div n"
  have "- a = q * n + (- a) mod n" by (simp add: q_def)
  moreover have "0 \<le> (- a) mod n" "(- a) mod n < n" using assms by simp_all
  ultimately have "- q * n - n < a" "a \<le> - q * n" by (simp_all add: algebra_simps)
  then show ?thesis unfolding ceil_div_def q_def by (simp add: algebra_simps)
qed

text \<open>The current page exists, unless the table is empty.\<close>

lemma page_bounds:
  assumes "on_page s"
  defines "p \<equiv> fnPagingInfo s"
  shows "d_start s = iPage p * iLength p" "0 \<le> iPage p" "0 \<le> iTotalPages p"
    "iPage p < iTotalPages p \<or> iPage p = 0 \<and> iTotalPages p = 0" "iTotalPages p = 0 \<longleftrightarrow> d_shown s = 0"
proof -
  let ?n = "d_length s"
  have n: "0 < ?n" using assms by (simp add: on_page_def)
  obtain k where k: "d_start s = k * ?n" using assms by (auto simp: on_page_def elim!: dvdE)
  have p: "iPage p = k" "iTotalPages p = ceil_div (d_shown s) ?n" "iLength p = ?n"
    using n k by (simp_all add: p_def fnPagingInfo_def ceil_div_mult)
  have b: "(iTotalPages p - 1) * ?n < d_shown s" "d_shown s \<le> iTotalPages p * ?n"
    using ceil_div_bounds [OF n, of "d_shown s"] p by simp_all
  have k0: "0 \<le> k" using assms(1) k n by (auto simp: on_page_def zero_le_mult_iff)
  have s0: "0 \<le> d_shown s" using assms(1) by (simp add: on_page_def)
  have t0: "0 \<le> iTotalPages p" using b(2) s0 n by (smt (verit) mult_neg_pos)
  show "d_start s = iPage p * iLength p" "0 \<le> iPage p" "0 \<le> iTotalPages p" using k p k0 t0 by simp_all
  show z: "iTotalPages p = 0 \<longleftrightarrow> d_shown s = 0"
  proof
    show "iTotalPages p = 0 \<Longrightarrow> d_shown s = 0" using b(2) s0 by simp
    show "d_shown s = 0 \<Longrightarrow> iTotalPages p = 0" using p by (simp add: ceil_div_def)
  qed
  show "iPage p < iTotalPages p \<or> iPage p = 0 \<and> iTotalPages p = 0"
  proof (cases "d_shown s = 0")
    case True
    then have "k * ?n \<le> 0" using assms(1) k by (auto simp: on_page_def)
    then have "k = 0" using k0 n by (smt (verit) mult_pos_pos)
    then show ?thesis using True z p by simp
  next
    case False
    then have "k * ?n < d_shown s" using assms(1) k s0 by (auto simp: on_page_def)
    then have "k * ?n < iTotalPages p * ?n" using b by simp
    then show ?thesis using n p by simp
  qed
qed

lemma last_page:
  assumes "on_page s"
  defines "p \<equiv> fnPagingInfo s"
  shows "(iPage p = iTotalPages p - 1 \<or> iTotalPages p = 0) \<longleftrightarrow> d_shown s \<le> d_start s + d_length s"
proof -
  let ?n = "d_length s"
  note pb = page_bounds [OF assms(1), folded p_def]
  have n: "0 < ?n" "iLength p = ?n" using assms by (simp_all add: on_page_def fnPagingInfo_def)
  have t: "(iTotalPages p - 1) * ?n < d_shown s" "d_shown s \<le> iTotalPages p * ?n"
    using ceil_div_bounds [OF n(1), of "d_shown s"] n by (simp_all add: p_def fnPagingInfo_def)
  have s: "d_start s + ?n = (iPage p + 1) * ?n" using pb(1) n by (simp add: algebra_simps)
  show ?thesis
  proof
    assume "iPage p = iTotalPages p - 1 \<or> iTotalPages p = 0"
    then show "d_shown s \<le> d_start s + ?n" using t s pb(5) n pb(2) by (auto simp: zero_le_mult_iff)
  next
    assume "d_shown s \<le> d_start s + ?n"
    then have "(iTotalPages p - 1) * ?n < (iPage p + 1) * ?n" using t s by simp
    then have "iTotalPages p - 1 < iPage p + 1" using n by simp
    then show "iPage p = iTotalPages p - 1 \<or> iTotalPages p = 0" using pb(4) by auto
  qed
qed

lemma window_bounds:
  assumes "0 \<le> iPage p" "0 \<le> iTotalPages p" "iPage p < iTotalPages p \<or> iPage p = 0 \<and> iTotalPages p = 0"
    and w: "page_window p = (a, b)"
  shows "1 \<le> a" "b \<le> iTotalPages p" "b - a + 1 = min 5 (iTotalPages p)"
    "0 < iTotalPages p \<longrightarrow> a \<le> iPage p + 1 \<and> iPage p + 1 \<le> b"
  using assms by (auto simp: page_window_def Let_def split: if_splits)

lemma pager_update_shape:
  assumes "2 \<le> length ls" and w: "page_window p = (a, b)"
  shows "pager_update p ls =
     (hd ls)\<lparr>b_disabled := (iPage p = 0)\<rparr> # map (page_button p) [a..b] @
     [(last ls)\<lparr>b_disabled := (iPage p = iTotalPages p - 1 \<or> iTotalPages p = 0)\<rparr>]"
proof (cases ls)
  case Nil
  then show ?thesis using assms by simp
next
  case (Cons l rest)
  then have "rest \<noteq> []" using assms by auto
  then show ?thesis using Cons w
    by (simp add: pager_update_def remove_middle_def insert_before_last_def set_first_def set_last_def)
qed

lemma only_active: "a \<le> iPage p + 1 \<Longrightarrow> iPage p + 1 \<le> b \<Longrightarrow>
   filter b_active (map (page_button p) [a..b]) = [page_button p (iPage p + 1)]"
proof -
  have one: "distinct xs \<Longrightarrow> x \<in> set xs \<Longrightarrow> filter (\<lambda>j. j = x) xs = [x]" for x :: int and xs
    by (induction xs) (auto simp: filter_empty_conv)
  assume "a \<le> iPage p + 1" "iPage p + 1 \<le> b"
  then have "filter (\<lambda>j. j = iPage p + 1) [a..b] = [iPage p + 1]" using one [of "[a..b]" "iPage p + 1"] by simp
  then show ?thesis by (simp add: filter_map o_def page_button_def)
qed

text \<open>
  C35: whatever the pager showed before, an update leaves the two outer buttons and, between them, the
  buttons of consecutive existing pages, five of them or all when there are fewer; exactly the current
  page is marked, and the outer buttons are off exactly on the first and the last page.
\<close>

theorem pager_shows_window:
  assumes "on_page s" and "pager_ok prev next ls"
  defines "p \<equiv> fnPagingInfo s"
  shows "\<exists>a b. page_window p = (a, b) \<and> 1 \<le> a \<and> b \<le> iTotalPages p \<and> b - a + 1 = min 5 (iTotalPages p) \<and>
     pager_ok prev next (pager_update p ls) \<and>
     map b_text (pager_update p ls) = prev # map show_int [a..b] @ [next] \<and>
     filter b_active (pager_update p ls) = (if d_shown s = 0 then [] else [page_button p (iPage p + 1)]) \<and>
     (b_disabled (hd (pager_update p ls)) \<longleftrightarrow> d_start s = 0) \<and>
     (b_disabled (last (pager_update p ls)) \<longleftrightarrow> d_shown s \<le> d_start s + d_length s)"
proof -
  obtain a b where w: "page_window p = (a, b)" by fastforce
  note pb = page_bounds [OF assms(1), folded p_def]
  note wb = window_bounds [OF pb(2,3,4) w]
  have ls: "2 \<le> length ls" "b_text (hd ls) = prev" "b_text (last ls) = next" "\<not> b_active (hd ls)" "\<not> b_active (last ls)"
    using assms(2) by (simp_all add: pager_ok_def)
  note shape = pager_update_shape [OF ls(1) w]
  have texts: "map b_text (pager_update p ls) = prev # map show_int [a..b] @ [next]"
    using ls by (simp add: shape page_button_def)
  have act: "filter b_active (pager_update p ls) = (if d_shown s = 0 then [] else [page_button p (iPage p + 1)])"
  proof (cases "d_shown s = 0")
    case True
    then have "iTotalPages p = 0" using pb(5) by simp
    then have "b < a" using wb(3) by simp
    then show ?thesis using True ls by (simp add: shape)
  next
    case False
    then have "0 < iTotalPages p" using pb(3,5) by simp
    then have "a \<le> iPage p + 1" "iPage p + 1 \<le> b" using wb(4) by simp_all
    from only_active [OF this] show ?thesis using False ls by (simp add: shape)
  qed
  have n: "0 < iLength p" "iLength p = d_length s" using assms(1) by (simp_all add: on_page_def p_def fnPagingInfo_def)
  have first: "iPage p = 0 \<longleftrightarrow> d_start s = 0" using pb(1) n by simp
  have lst: "(iPage p = iTotalPages p - 1 \<or> iTotalPages p = 0) \<longleftrightarrow> d_shown s \<le> d_start s + d_length s"
    using last_page [OF assms(1)] by (simp add: p_def)
  show ?thesis
    by (intro exI [of _ a] exI [of _ b]) (use w wb texts act first lst ls shape in \<open>simp add: pager_ok_def\<close>)
qed

text \<open>
  A click on the button of a page shows that page: the table is again on a page, the current page is
  the one on the button, and the next update marks its button.
\<close>

theorem page_click_shows_page:
  assumes "on_page s" and w: "page_window (fnPagingInfo s) = (a, b)" and "a \<le> j" "j \<le> b"
  shows "\<exists>s'. page_click (fnPagingInfo s) (page_button (fnPagingInfo s) j) s = Some s' \<and> on_page s' \<and>
     iPage (fnPagingInfo s') = j - 1 \<and> iTotalPages (fnPagingInfo s') = iTotalPages (fnPagingInfo s) \<and>
     b_active (page_button (fnPagingInfo s') j)"
proof -
  let ?p = "fnPagingInfo s" and ?n = "d_length s"
  let ?s = "s\<lparr>d_start := (j - 1) * ?n\<rparr>"
  note pb = page_bounds [OF assms(1)]
  note wb = window_bounds [OF pb(2,3,4) w]
  have n: "0 < ?n" "iLength ?p = ?n" using assms(1) by (simp_all add: on_page_def fnPagingInfo_def)
  have j: "1 \<le> j" "j \<le> iTotalPages ?p" using wb assms by simp_all
  have t: "iTotalPages ?p = ceil_div (d_shown s) ?n" using n by (simp add: fnPagingInfo_def)
  have "(j - 1) * ?n \<le> (iTotalPages ?p - 1) * ?n" using j n by (intro mult_right_mono) simp_all
  also have "\<dots> < d_shown s" using ceil_div_bounds [OF n(1), of "d_shown s"] t by simp
  finally have "on_page ?s" using assms(1) j by (auto simp: on_page_def)
  moreover have "parse_int (show_int j) = Some j" using j parse_int_show_nat [of "nat j"] by (simp add: show_int_def)
  then have "page_click ?p (page_button ?p j) s = Some ?s" using n by (simp add: page_click_def page_button_def)
  ultimately show ?thesis using n by (simp add: fnPagingInfo_def page_button_def ceil_div_mult)
qed

definition sample_table :: table_state where
  "sample_table = \<lparr>d_start = 60, d_length = 10, d_end = 70, d_total = 95, d_shown = 95\<rparr>"

lemma sample_table_page: "on_page sample_table" "page_window (fnPagingInfo sample_table) = (5, 9)"
  by (simp_all add: sample_table_def on_page_def fnPagingInfo_def ceil_div_def page_window_def)

lemma page_click_shows_page_witness:
  "\<exists>s'. page_click (fnPagingInfo sample_table) (page_button (fnPagingInfo sample_table) 8) sample_table = Some s' \<and>
     iPage (fnPagingInfo s') = 7"
  using page_click_shows_page [OF sample_table_page, of 8] by auto

lemma pager_shows_window_witness:
  "map b_text (pager_update (fnPagingInfo sample_table) (pager_init ''Prev'' ''Next'')) =
     ''Prev'' # map show_int [5..9] @ [''Next'']"
  using pager_shows_window [OF sample_table_page(1) pager_init_ok, of "''Prev''" "''Next''"] sample_table_page(2) by auto

end
