(* ===== verification/Web_Session.thy ===== *)
theory Web_Session
  imports Cookies
begin

text \<open>
  The session of a user of the management pages: the form of \<open>login.html\<close>, the script in the head of every page
  that sends a visitor without a user's cookie back to it and renews the cookie otherwise, and \<open>logout\<close>.
  Time is in milliseconds.  A step is something the user does; it includes the heads of the pages it leads to.
\<close>

section \<open>Pages and their heads\<close>

datatype place = Login_page | Inside string

record session =
  s_now :: int
  s_jar :: jar
  s_place :: place
  s_alerts :: "string list"

definition user_of :: "session \<Rightarrow> string option" where
  "user_of s = getCookie ''user'' (document_cookie (s_now s) (s_jar s))"

text \<open>\<open>if (user)\<close>\<close>

definition has_user :: "session \<Rightarrow> bool" where
  "has_user s \<longleftrightarrow> user_of s \<noteq> None \<and> user_of s \<noteq> Some []"

definition renew :: "session \<Rightarrow> session" where
  "renew s = s\<lparr>s_jar := addCookie ''user'' (the (user_of s)) (s_now s) (s_jar s)\<rparr>"

text \<open>The head of a page; a visitor sent to \<open>login.html\<close> has no cookie there either and stays.\<close>

definition page_head :: "string \<Rightarrow> session \<Rightarrow> session" where
  "page_head p s = (if has_user s then (renew s)\<lparr>s_place := Inside p\<rparr> else s\<lparr>s_place := Login_page\<rparr>)"

definition cluster_page :: string where
  "cluster_page = ''cluster_config/cluster_config.html''"

definition login_head :: "session \<Rightarrow> session" where
  "login_head s = (if has_user s then page_head cluster_page (renew s) else s\<lparr>s_place := Login_page\<rparr>)"

definition login_refused :: string where
  "login_refused = ''username and password can't be empty'' @ [CHR 0xEF, CHR 0xBC, CHR 0x81]"

definition login :: "string \<Rightarrow> string \<Rightarrow> session \<Rightarrow> session" where
  "login username password s =
     (if username = ''admin'' \<and> password = ''1234'' then
        page_head cluster_page (s\<lparr>s_jar := addCookie ''user'' username (s_now s) (s_jar s)\<rparr>)
      else if username = [] \<or> password = [] then s\<lparr>s_alerts := s_alerts s @ [login_refused]\<rparr>
      else s\<lparr>s_alerts := s_alerts s @ [login_refused]\<rparr>)"

definition press_logout :: "session \<Rightarrow> session" where
  "press_logout s = login_head (s\<lparr>s_jar := fst (logout (s_now s) (s_jar s))\<rparr>)"

section \<open>What a user does\<close>

datatype user_event =
    Wait nat
  | Open string
  | Open_login
  | Press_login string string
  | Press_logout

fun happen :: "user_event \<Rightarrow> session \<Rightarrow> session" where
  "happen (Wait d) s = s\<lparr>s_now := s_now s + int d\<rparr>"
| "happen (Open p) s = page_head p s"
| "happen Open_login s = login_head s"
| "happen (Press_login u p) s = (if s_place s = Login_page then login u p s else s)"
| "happen Press_logout s = (if s_place s = Login_page then s else press_logout s)"

section \<open>The abstract session\<close>

text \<open>A timer: until when the user is known, if at all.\<close>

record timer =
  t_now :: int
  t_until :: "int option"
  t_place :: place

definition running :: "timer \<Rightarrow> bool" where
  "running t \<longleftrightarrow> (case t_until t of None \<Rightarrow> False | Some e \<Rightarrow> t_now t < e)"

definition session_end :: "int \<Rightarrow> int" where
  "session_end now = gmt (now + 30 * 60 * 1000)"

definition restart :: "string \<Rightarrow> timer \<Rightarrow> timer" where
  "restart p t = t\<lparr>t_until := Some (session_end (t_now t)), t_place := Inside p\<rparr>"

fun tick_timer :: "user_event \<Rightarrow> timer \<Rightarrow> timer" where
  "tick_timer (Wait d) t = t\<lparr>t_now := t_now t + int d\<rparr>"
| "tick_timer (Open p) t = (if running t then restart p t else t\<lparr>t_place := Login_page\<rparr>)"
| "tick_timer Open_login t = (if running t then restart cluster_page t else t\<lparr>t_place := Login_page\<rparr>)"
| "tick_timer (Press_login u p) t =
     (if t_place t = Login_page \<and> u = ''admin'' \<and> p = ''1234'' then restart cluster_page t else t)"
| "tick_timer Press_logout t = (if t_place t = Login_page then t else t\<lparr>t_until := None, t_place := Login_page\<rparr>)"

section \<open>A store whose values expire\<close>

text \<open>The exact contract of the cookies of \<open>addCookie\<close>, and what a client sees of one value over time.\<close>

locale expiring_store = session_store put fetch del ok lifetime
  for put :: "string \<Rightarrow> string \<Rightarrow> int \<Rightarrow> 'j \<Rightarrow> 'j"
    and fetch :: "string \<Rightarrow> int \<Rightarrow> 'j \<Rightarrow> string option"
    and del :: "string \<Rightarrow> int \<Rightarrow> 'j \<Rightarrow> 'j"
    and ok :: "string \<Rightarrow> 'j \<Rightarrow> bool"
    and lifetime :: int +
  fixes expiry :: "int \<Rightarrow> int"
  assumes fetch_put_exact: "ok n j \<Longrightarrow> fetch n t (put n v now j) = (if t < expiry now then Some v else None)"

definition seen_as :: "(int \<Rightarrow> 'j \<Rightarrow> string option) \<Rightarrow> string \<Rightarrow> int option \<Rightarrow> int \<Rightarrow> 'j \<Rightarrow> bool" where
  "seen_as fetch v e now j \<longleftrightarrow>
     (\<forall>t \<ge> now. fetch t j = (if (case e of None \<Rightarrow> False | Some x \<Rightarrow> t < x) then Some v else None))"

context expiring_store
begin

lemma seen_put: "ok n j \<Longrightarrow> seen_as (fetch n) v (Some (expiry now)) now (put n v now j) \<and> ok n (put n v now j)"
  by (simp add: seen_as_def fetch_put_exact ok_put)

lemma seen_del: "ok n j \<Longrightarrow> seen_as (fetch n) v None now (del n now j) \<and> ok n (del n now j)"
  by (simp add: seen_as_def fetch_del ok_del)

lemma seen_later: "seen_as (fetch n) v e now j \<Longrightarrow> now \<le> t \<Longrightarrow> seen_as (fetch n) v e t j"
  by (simp add: seen_as_def)

lemma seen_now:
  "seen_as (fetch n) v e now j \<Longrightarrow> fetch n now j = (if (case e of None \<Rightarrow> False | Some x \<Rightarrow> now < x) then Some v else None)"
  by (simp add: seen_as_def)

end

interpretation page_cookies: expiring_store addCookie "\<lambda>n t j. getCookie n (document_cookie t j)"
  delCookie cookie_ok 1799000 session_end
proof
  fix n t v now and j :: jar
  assume j: "cookie_ok n j"
  let ?c = "\<lparr>c_name = n, c_value = js_escape v, c_path = ''/'', c_expires = Some (session_end now)\<rparr>"
  have a: "addCookie n v now j = jar_put ?c j" by (simp add: addCookie_def session_end_def)
  show "getCookie n (document_cookie t (addCookie n v now j)) = (if t < session_end now then Some v else None)"
  proof (cases "t < session_end now")
    case True
    then have "live t ?c" by (simp add: live_def)
    then show ?thesis
      unfolding a using fetch_after_put [OF j, of ?c t] js_escape_no_delim(1) True by (simp add: slot_def)
  next
    case False
    then have "\<not> live t ?c" by (simp add: live_def)
    then show ?thesis
      unfolding a using fetch_after_dead [OF j, of ?c t] False by (simp add: slot_def)
  qed
qed

section \<open>Simulation\<close>

definition simulates :: "session \<Rightarrow> timer \<Rightarrow> bool" where
  "simulates s t \<longleftrightarrow> s_now s = t_now t \<and> s_place s = t_place t \<and> cookie_ok ''user'' (s_jar s) \<and>
     seen_as (\<lambda>n j. getCookie ''user'' (document_cookie n j)) ''admin'' (t_until t) (s_now s) (s_jar s)"

lemma simulates_user:
  assumes "simulates s t"
  shows "user_of s = (if running t then Some ''admin'' else None)" "has_user s \<longleftrightarrow> running t"
proof -
  show "user_of s = (if running t then Some ''admin'' else None)"
    using assms page_cookies.seen_now unfolding simulates_def user_of_def running_def by (cases "t_until t") fastforce+
  then show "has_user s \<longleftrightarrow> running t" by (simp add: has_user_def)
qed

text \<open>Storing the user's name starts the timer anew, wherever the user goes.\<close>

lemma simulates_add:
  assumes "simulates s t"
  shows "simulates (s\<lparr>s_jar := addCookie ''user'' ''admin'' (s_now s) (s_jar s), s_place := p\<rparr>)
    (t\<lparr>t_until := Some (session_end (t_now t)), t_place := p\<rparr>)"
  using assms page_cookies.seen_put [of "''user''" "s_jar s" "''admin''" "s_now s"] by (simp add: simulates_def)

lemma simulates_head:
  assumes "simulates s t"
  shows "simulates (page_head p s) (tick_timer (Open p) t)"
proof (cases "running t")
  case True
  then show ?thesis
    using simulates_add [OF assms, of "Inside p"] simulates_user [OF assms]
    by (simp add: page_head_def renew_def restart_def)
next
  case False
  then show ?thesis using assms simulates_user(2) [OF assms] by (auto simp: page_head_def simulates_def)
qed

lemma running_restart [simp]: "running (restart p t)"
  using gmt_bounds(2) [of "t_now t + 30 * 60 * 1000"] by (simp add: running_def restart_def session_end_def)

lemma restart_restart [simp]: "restart q (restart p t) = restart q t"
  by (simp add: restart_def)

lemma simulates_stored:
  assumes "simulates s t"
  shows "simulates (page_head p (s\<lparr>s_jar := addCookie ''user'' ''admin'' (s_now s) (s_jar s)\<rparr>)) (restart p t)"
proof -
  have "s\<lparr>s_jar := addCookie ''user'' ''admin'' (s_now s) (s_jar s)\<rparr> =
      s\<lparr>s_jar := addCookie ''user'' ''admin'' (s_now s) (s_jar s), s_place := s_place s\<rparr>" by simp
  then show ?thesis
    using simulates_head [OF simulates_add [OF assms, of "s_place s"], of p]
      running_restart [of p t] by (simp add: restart_def running_def)
qed

lemma simulates_login_head:
  assumes "simulates s t"
  shows "simulates (login_head s) (tick_timer Open_login t)"
proof (cases "running t")
  case True
  then show ?thesis
    using simulates_stored [OF assms, of cluster_page] simulates_user [OF assms]
    by (simp add: login_head_def renew_def)
next
  case False
  then show ?thesis using assms simulates_user(2) [OF assms] by (auto simp: login_head_def simulates_def)
qed

lemma simulates_step:
  assumes "simulates s t"
  shows "simulates (happen e s) (tick_timer e t)"
proof (cases e)
  case (Wait d)
  then show ?thesis
    using assms page_cookies.seen_later [of "''user''" "''admin''" "t_until t" "s_now s" "s_jar s" "s_now s + int d"]
    by (auto simp: simulates_def)
next
  case (Open p)
  then show ?thesis using simulates_head [OF assms] by simp
next
  case Open_login
  then show ?thesis using simulates_login_head [OF assms] by simp
next
  case (Press_login u p)
  have "s_place s = t_place t" using assms by (simp add: simulates_def)
  then show ?thesis
    using simulates_stored [OF assms, of cluster_page] assms Press_login by (auto simp: login_def simulates_def)
next
  case Press_logout
  let ?s = "s\<lparr>s_jar := fst (logout (s_now s) (s_jar s))\<rparr>"
  have "simulates ?s (t\<lparr>t_until := None\<rparr>)"
    using assms page_cookies.seen_del [of "''user''" "s_jar s" "''admin''" "s_now s"]
    by (simp add: simulates_def logout_def)
  from simulates_login_head [OF this] show ?thesis
    using assms Press_logout by (auto simp: press_logout_def simulates_def running_def)
qed

definition run_session :: "user_event list \<Rightarrow> session \<Rightarrow> session" where
  "run_session es s = fold happen es s"

definition new_session :: "int \<Rightarrow> jar \<Rightarrow> session" where
  "new_session now j = \<lparr>s_now = now, s_jar = j, s_place = Login_page, s_alerts = []\<rparr>"

definition new_timer :: "int \<Rightarrow> timer" where
  "new_timer now = \<lparr>t_now = now, t_until = None, t_place = Login_page\<rparr>"

lemma simulates_new:
  assumes "cookie_ok ''user'' j" "getCookie ''user'' (document_cookie now j) = None"
  shows "simulates (new_session now j) (new_timer now)"
  using assms fetch_none_later by (auto simp: simulates_def new_session_def new_timer_def seen_as_def)

lemma simulates_fold: "simulates s t \<Longrightarrow> simulates (fold happen es s) (fold tick_timer es t)"
  by (induction es arbitrary: s t) (simp_all add: simulates_step)

text \<open>
  C11: the session kept in the text of the cookies is a timer.  For a browser without a user's cookie, and no other
  cookie that hides one, any sequence of logins, page visits, logouts and waits leads to the same page as
  the timer that a login starts, every page visited in time restarts, and a logout stops.
\<close>

theorem session_is_timer:
  assumes "cookie_ok ''user'' j" "getCookie ''user'' (document_cookie now j) = None"
  shows "s_place (run_session es (new_session now j)) = t_place (fold tick_timer es (new_timer now))"
  using simulates_fold [OF simulates_new [OF assms]] unfolding run_session_def simulates_def by blast

lemma session_is_timer_witness:
  "s_place (run_session [Press_login ''admin'' ''1234'', Wait 1000, Press_logout, Open ''chart/chart.html'']
     (new_session 0 [])) = Login_page"
  using session_is_timer [of "[]" 0 "[Press_login ''admin'' ''1234'', Wait 1000, Press_logout, Open ''chart/chart.html'']"]
  by (simp add: cookie_ok_def names_cleanly_def getCookie_def document_cookie_def new_timer_def restart_def running_def)

section \<open>Who is inside\<close>

text \<open>The time since the last page was opened or the login, if it never reached half an hour.\<close>

fun idle :: "nat \<Rightarrow> user_event list \<Rightarrow> nat option" where
  "idle d [] = (if d < 1800000 then Some d else None)"
| "idle d (Wait k # es) = idle (d + k) es"
| "idle d (Open p # es) = (if d < 1800000 then idle 0 es else None)"
| "idle d (Open_login # es) = (if d < 1800000 then idle 0 es else None)"
| "idle d (Press_login u p # es) = idle d es"
| "idle d (Press_logout # es) = None"

lemma running_within:
  "running t \<Longrightarrow> t_until t = Some (session_end since) \<Longrightarrow> t_now t - since < 1800000"
  using gmt_bounds(1) [of "since + 30 * 60 * 1000"] by (simp add: running_def session_end_def)

lemma idle_append: "idle d es = Some x \<Longrightarrow> idle d (es @ fs) = idle x fs"
  by (induction d es rule: idle.induct) (auto split: if_splits)

text \<open>The events so far contain the login, and the timer ends half an hour after the last page opened.\<close>

definition logged_in :: "user_event list \<Rightarrow> timer \<Rightarrow> bool" where
  "logged_in es t \<longleftrightarrow> t_place t \<noteq> Login_page \<and>
     (\<exists>pre mid d. es = pre @ Press_login ''admin'' ''1234'' # mid \<and> idle 0 mid = Some d \<and>
        t_until t = Some (session_end (t_now t - int d)))"

lemma timer_now_idle:
  "running (fold tick_timer es (new_timer now)) \<Longrightarrow> logged_in es (fold tick_timer es (new_timer now))"
proof (induction es rule: rev_induct)
  case Nil
  then show ?case by (simp add: running_def new_timer_def)
next
  case (snoc e es)
  let ?t = "fold tick_timer es (new_timer now)"
  let ?t' = "fold tick_timer (es @ [e]) (new_timer now)"
  have login: "logged_in (es @ [e]) ?t'" if "t_place ?t = Login_page" "e = Press_login ''admin'' ''1234''"
    using that unfolding logged_in_def by (intro conjI exI [of _ es] exI [of _ "[]"] exI [of _ 0]) (simp_all add: restart_def)
  show ?case
  proof (cases "running ?t")
    case True
    then obtain pre mid d where IH: "t_place ?t \<noteq> Login_page"
      "es = pre @ Press_login ''admin'' ''1234'' # mid" "idle 0 mid = Some d" "t_until ?t = Some (session_end (t_now ?t - int d))"
      using snoc.IH unfolding logged_in_def by blast
    have next_idle: "logged_in (es @ [e]) ?t'"
      if "idle d [e] = Some x" "t_until (tick_timer e ?t) = Some (session_end (t_now (tick_timer e ?t) - int x))"
        "t_place (tick_timer e ?t) \<noteq> Login_page" for x
      using that IH(2) idle_append [OF IH(3), of "[e]"] unfolding logged_in_def
      by (intro conjI exI [of _ pre] exI [of _ "mid @ [e]"] exI [of _ x]) simp_all
    show ?thesis
    proof (cases e)
      case (Wait k)
      have "d + k < 1800000"
        using running_within [of "tick_timer e ?t" "t_now ?t - int d"] snoc.prems IH(4) Wait by simp
      then show ?thesis using IH(1,4) Wait by (intro next_idle [of "d + k"]) simp_all
    next
      case (Open p)
      have "d < 1800000" using running_within [OF True IH(4)] by simp
      then show ?thesis using True Open by (intro next_idle [of 0]) (simp_all add: restart_def)
    next
      case Open_login
      have "d < 1800000" using running_within [OF True IH(4)] by simp
      then show ?thesis using True Open_login by (intro next_idle [of 0]) (simp_all add: restart_def)
    next
      case (Press_login u p)
      have "d < 1800000" using running_within [OF True IH(4)] by simp
      then show ?thesis using IH(1,4) Press_login by (intro next_idle [of d]) simp_all
    next
      case Press_logout
      then show ?thesis using snoc.prems IH(1) by (simp add: running_def)
    qed
  next
    case False
    then show ?thesis
      using snoc.prems login by (cases e) (auto simp: running_def split: option.splits if_splits)
  qed
qed

text \<open>
  C30: who is inside has logged in.  A page opens only after a login with the right name and password since which there
  was no logout and never half an hour without a page being opened.
\<close>

theorem page_needs_login:
  assumes "cookie_ok ''user'' j" "getCookie ''user'' (document_cookie now j) = None"
    and "s_place (run_session (es @ [Open p]) (new_session now j)) = Inside p"
  shows "\<exists>pre mid. es = pre @ Press_login ''admin'' ''1234'' # mid \<and> idle 0 mid \<noteq> None"
proof -
  have "simulates (fold happen es (new_session now j)) (fold tick_timer es (new_timer now))"
    by (rule simulates_fold [OF simulates_new [OF assms(1,2)]])
  then have "running (fold tick_timer es (new_timer now))"
    using assms(3) simulates_user(2) by (auto simp: run_session_def page_head_def split: if_splits)
  then show ?thesis using timer_now_idle [of es now] unfolding logged_in_def by blast
qed

lemma page_needs_login_witness:
  "\<exists>pre mid. [Press_login ''admin'' ''1234'', Wait 1000] = pre @ Press_login ''admin'' ''1234'' # mid \<and> idle 0 mid \<noteq> None"
proof (rule page_needs_login)
  show c: "cookie_ok ''user'' []" "getCookie ''user'' (document_cookie 0 []) = None"
    by (simp_all add: cookie_ok_def names_cleanly_def getCookie_def document_cookie_def)
  have "simulates (run_session ([Press_login ''admin'' ''1234'', Wait 1000] @ [Open ''chart/chart.html'']) (new_session 0 []))
      (fold tick_timer ([Press_login ''admin'' ''1234'', Wait 1000] @ [Open ''chart/chart.html'']) (new_timer 0))"
    unfolding run_session_def by (rule simulates_fold [OF simulates_new [OF c]])
  then show "s_place (run_session ([Press_login ''admin'' ''1234'', Wait 1000] @ [Open ''chart/chart.html'']) (new_session 0 []))
      = Inside ''chart/chart.html''"
    by (simp add: simulates_def new_timer_def restart_def running_def session_end_def gmt_def)
qed

end
