(* ===== verification/Web_Page.thy ===== *)
theory Web_Page
  imports Browser Paging Topo_Data
begin

text \<open>
  What the management pages (\<open>*_config.html\<close> and others) share: the state of a page with its selection
  lists and its data table, statements that may raise an exception, requests to the server and the
  conditions on its answers.  \<open>'k\<close> is the type of the callbacks of a page.  A request that fails
  runs no callback.  An answer is an object.
\<close>

section \<open>State\<close>

record 'k web =
  w_page :: "(unit, 'k) page"
  w_options :: "string \<Rightarrow> string list"
  w_selected :: "string \<Rightarrow> string option"
  w_tables :: tables
  w_location :: "string option"

text \<open>A statement changes the state and may raise an exception.\<close>

type_synonym 's stmt = "'s \<Rightarrow> js_error option \<times> 's"

type_synonym 'k web_act = "'k web stmt"

fun acts :: "'s stmt list \<Rightarrow> 's stmt" where
  "acts [] w = (None, w)"
| "acts (a # as) w = (case a w of (None, w') \<Rightarrow> acts as w' | (Some e, w') \<Rightarrow> (Some e, w'))"

definition does :: "('s \<Rightarrow> 's) \<Rightarrow> 's stmt" where
  "does f w = (None, f w)"

definition raises :: "js_error \<Rightarrow> 's stmt" where
  "raises e w = (Some e, w)"

definition at_page :: "((unit, 'k) page \<Rightarrow> (unit, 'k) page) \<Rightarrow> 'k web_act" where
  "at_page f = does (\<lambda>w. w\<lparr>w_page := f (w_page w)\<rparr>)"

definition act_when :: "bool \<Rightarrow> 's stmt \<Rightarrow> 's stmt" where
  "act_when b a = (if b then a else does id)"

lemma acts_simps [simp]:
  "does f s = (None, f s)" "raises e s = (Some e, s)" "act_when True a = a" "act_when False a s = (None, s)"
  by (simp_all add: does_def raises_def act_when_def)

lemma at_page_simp [simp]: "at_page g w = (None, w\<lparr>w_page := g (w_page w)\<rparr>)"
  by (simp add: at_page_def)

lemma acts_last [simp]: "acts [a] w = a w"
  by (auto split: prod.splits option.splits)

lemma acts_more [simp]:
  "acts (a # b # as) w = (case a w of (None, w') \<Rightarrow> acts (b # as) w' | (Some e, w') \<Rightarrow> (Some e, w'))"
  by (rule acts.simps(2))

declare acts.simps(2) [simp del]

lemma acts_append: "acts (as @ bs) w = (case acts as w of (None, w') \<Rightarrow> acts bs w' | (Some e, w') \<Rightarrow> (Some e, w'))"
  by (induction as arbitrary: w) (auto simp: acts.simps(2) simp del: acts_last acts_more split: prod.splits option.splits)

text \<open>Statements that can not fail, one for each element of a list.\<close>

lemma acts_does: "acts (map (\<lambda>x. does (f x)) xs) w = (None, fold f xs w)"
  by (induction xs arbitrary: w) (simp_all add: acts.simps(2) del: acts_last acts_more)

section \<open>Texts\<close>

text \<open>Texts in quotes inside markup, and the messages of the pages (added, deleted, changed, cleared, or that it failed).\<close>

definition sq :: "string \<Rightarrow> string" where
  "sq s = CHR 0x27 # s @ [CHR 0x27]"

definition dq :: "string \<Rightarrow> string" where
  "dq s = CHR 0x22 # s @ [CHR 0x22]"

definition add_done :: string where
  "add_done =
    [CHR 0xE6, CHR 0xB7, CHR 0xBB, CHR 0xE5, CHR 0x8A, CHR 0xA0, CHR 0xE6, CHR 0x88,
     CHR 0x90, CHR 0xE5, CHR 0x8A, CHR 0x9F, CHR 0xEF, CHR 0xBC, CHR 0x81]"

definition add_failed :: string where
  "add_failed =
    [CHR 0xE6, CHR 0xB7, CHR 0xBB, CHR 0xE5, CHR 0x8A, CHR 0xA0, CHR 0xE5, CHR 0xA4,
     CHR 0xB1, CHR 0xE8, CHR 0xB4, CHR 0xA5, CHR 0xEF, CHR 0xBC, CHR 0x81]"

definition del_done :: string where
  "del_done =
    [CHR 0xE5, CHR 0x88, CHR 0xA0, CHR 0xE9, CHR 0x99, CHR 0xA4, CHR 0xE6, CHR 0x88,
     CHR 0x90, CHR 0xE5, CHR 0x8A, CHR 0x9F, CHR 0xEF, CHR 0xBC, CHR 0x81]"

definition del_failed :: string where
  "del_failed =
    [CHR 0xE5, CHR 0x88, CHR 0xA0, CHR 0xE9, CHR 0x99, CHR 0xA4, CHR 0xE5, CHR 0xA4,
     CHR 0xB1, CHR 0xE8, CHR 0xB4, CHR 0xA5, CHR 0xEF, CHR 0xBC, CHR 0x81]"

definition edit_done :: string where
  "edit_done =
    [CHR 0xE4, CHR 0xBF, CHR 0xAE, CHR 0xE6, CHR 0x94, CHR 0xB9, CHR 0xE6, CHR 0x88,
     CHR 0x90, CHR 0xE5, CHR 0x8A, CHR 0x9F, CHR 0xEF, CHR 0xBC, CHR 0x81]"

definition edit_failed :: string where
  "edit_failed =
    [CHR 0xE4, CHR 0xBF, CHR 0xAE, CHR 0xE6, CHR 0x94, CHR 0xB9, CHR 0xE5, CHR 0xA4,
     CHR 0xB1, CHR 0xE8, CHR 0xB4, CHR 0xA5, CHR 0xEF, CHR 0xBC, CHR 0x81]"

definition clear_done :: string where
  "clear_done =
    [CHR 0xE6, CHR 0xB8, CHR 0x85, CHR 0xE7, CHR 0xA9, CHR 0xBA, CHR 0xE5, CHR 0xAE,
     CHR 0x8C, CHR 0xE6, CHR 0x88, CHR 0x90, CHR 0xEF, CHR 0xBC, CHR 0x81]"

definition w_view :: string where
  "w_view =
    [CHR 0xE6, CHR 0x9F, CHR 0xA5, CHR 0xE7, CHR 0x9C, CHR 0x8B]"

definition w_delete :: string where
  "w_delete =
    [CHR 0xE5, CHR 0x88, CHR 0xA0, CHR 0xE9, CHR 0x99, CHR 0xA4]"

definition w_edit :: string where
  "w_edit =
    [CHR 0xE7, CHR 0xBC, CHR 0x96, CHR 0xE8, CHR 0xBE, CHR 0x91]"

definition wide_colon :: string where
  "wide_colon =
    [CHR 0xEF, CHR 0xBC, CHR 0x9A]"

text \<open>\<open><button type='button' class='btn CLASS btn-small' onclick='CALL'>LABEL</button>\<close>\<close>

definition row_button :: "string \<Rightarrow> string \<Rightarrow> string \<Rightarrow> string" where
  "row_button cls call label =
     ''<button type='' @ sq ''button'' @ '' class='' @ sq (''btn '' @ cls @ '' btn-small'') @ '' onclick='' @ call @ ''>'' @
     label @ ''</button>''"

section \<open>Selection lists\<close>

text \<open>
  A list shows one of its options: the first when none is selected and one is added.  What it shows after a value
  is set that none of its options has depends on the browser, and is a parameter.  The library clears the
  mark of every option; the HTML standard has a list with no marked option show its first one (\<open>first_option\<close>), and the
  theorem that depends on it has this as a hypothesis; older browsers show nothing.
\<close>

definition add_option :: "string \<Rightarrow> string \<Rightarrow> 'k web \<Rightarrow> 'k web" where
  "add_option s v w =
     (let os = w_options w s @ [v]
      in w\<lparr>w_options := (w_options w)(s := os),
           w_selected := (w_selected w)(s := Some (case w_selected w s of None \<Rightarrow> hd os | Some x \<Rightarrow> x))\<rparr>)"

definition clear_options :: "string \<Rightarrow> 'k web \<Rightarrow> 'k web" where
  "clear_options s w = w\<lparr>w_options := (w_options w)(s := []), w_selected := (w_selected w)(s := None)\<rparr>"

definition select_option :: "(string list \<Rightarrow> string option) \<Rightarrow> string \<Rightarrow> string \<Rightarrow> 'k web \<Rightarrow> 'k web" where
  "select_option no_match s v w = w\<lparr>w_selected := (w_selected w)(s :=
     if v \<in> set (w_options w s) then Some v else no_match (w_options w s))\<rparr>"

definition first_option :: "string list \<Rightarrow> string option" where
  "first_option os = (case os of [] \<Rightarrow> None | v # _ \<Rightarrow> Some v)"

text \<open>\<open>.val()\<close> of a list is null when it shows nothing.\<close>

definition list_val :: "string \<Rightarrow> 'k web \<Rightarrow> jsval" where
  "list_val s w = (case w_selected w s of None \<Rightarrow> JNull | Some v \<Rightarrow> JStr v)"

text \<open>\<open>$(s).val().split("|")[0]\<close> and \<open>[1]\<close>, which most pages send with their requests.\<close>

definition bar_parts :: "string \<Rightarrow> jsval \<times> jsval" where
  "bar_parts t = (let ps = JArr (map JStr (split_on CHR ''|'' t)) in (elem_at ps 0, elem_at ps 1))"

definition with_parts :: "string \<Rightarrow> (jsval \<Rightarrow> jsval \<Rightarrow> 'k web_act) \<Rightarrow> 'k web_act" where
  "with_parts s body w = (case w_selected w s of None \<Rightarrow> (Some TypeError, w)
     | Some t \<Rightarrow> body (fst (bar_parts t)) (snd (bar_parts t)) w)"

lemma bar_parts_pair:
  "CHR ''|'' \<notin> set a \<Longrightarrow> CHR ''|'' \<notin> set b \<Longrightarrow> bar_parts (a @ CHR ''|'' # b) = (JStr a, JStr b)"
  by (simp add: bar_parts_def split_on_append_sep split_on_no_sep)

lemma options_fold:
  "w_options (fold (\<lambda>d. add_option s (f d)) xs w) s = w_options w s @ map f xs"
  "w_page (fold (\<lambda>d. add_option s (f d)) xs w) = w_page w"
  by (induction xs arbitrary: w) (simp_all add: add_option_def Let_def)

text \<open>The query of an address, \<open>location.search\<close>.\<close>

definition location_search :: "string \<Rightarrow> string" where
  "location_search url = takeWhile (\<lambda>c. c \<noteq> CHR ''#'') (dropWhile (\<lambda>c. c \<noteq> CHR ''?'') url)"

section \<open>Requests and answers\<close>

text \<open>
  The fields of a form are sent as texts, null and undefined as the empty one.  The texts are written as an object here,
  and not with the escapes of an address.
\<close>

definition post_form :: "(string \<times> jsval) list \<Rightarrow> string" where
  "post_form kvs = json_str (JObj (map (\<lambda>(k, v). (k, JStr (val_text v))) kvs))"

definition web_post :: "string \<Rightarrow> (string \<times> jsval) list \<Rightarrow> 'k \<Rightarrow> 'k web_act" where
  "web_post url kvs k = at_page (send POST url (post_form kvs) k)"

text \<open>\<open>data.status=="0"||data.status==0\<close>\<close>

definition status_ok :: "jsval \<Rightarrow> bool" where
  "status_ok d \<longleftrightarrow> js_eq (pget d ''status'') (JStr ''0'') \<or> js_eq (pget d ''status'') (JNum (Fin 0))"

text \<open>What a handler does with an answer that reports success; a body that is null has no \<open>status\<close> to read.\<close>

definition when_ok :: "jsval \<Rightarrow> 's stmt \<Rightarrow> 's stmt" where
  "when_ok data a = (if nullish data then raises TypeError else act_when (status_ok data) a)"

lemma status_ok_not_null: "status_ok data \<Longrightarrow> \<not> nullish data"
  by (auto simp: status_ok_def nullish_def js_eq_def pget.simps)

lemma when_ok_simps [simp]:
  "status_ok data \<Longrightarrow> when_ok data a = a"
  "\<not> status_ok data \<Longrightarrow> when_ok data a s = (if nullish data then Some TypeError else None, s)"
  by (auto simp: when_ok_def dest: status_ok_not_null)

lemma when_ok_cases:
  "when_ok data a s = (if status_ok data then a s else (if nullish data then Some TypeError else None, s))"
  by simp

text \<open>The values that \<open>for (var i in data) \<dots> data[i]\<close> runs through.\<close>

definition each_value :: "jsval \<Rightarrow> jsval list" where
  "each_value d = map snd (own_props d)"

text \<open>\<open>data[i].k\<close>: reading a property of null raises an exception.\<close>

definition item_act :: "(jsval \<Rightarrow> 's stmt) \<Rightarrow> jsval \<Rightarrow> 's stmt" where
  "item_act f d = (if nullish d then raises TypeError else f d)"

lemma acts_items:
  "\<not> list_ex nullish ds \<Longrightarrow> acts (map (item_act (\<lambda>d. does (f d))) ds) w = (None, fold f ds w)"
proof -
  assume "\<not> list_ex nullish ds"
  then have "map (item_act (\<lambda>d. does (f d))) ds = map (\<lambda>d. does (f d)) ds"
    by (auto simp: item_act_def list_ex_iff)
  then show ?thesis using acts_does [of f ds w] by (simp only:)
qed

definition say :: "string \<Rightarrow> 'k web_act" where
  "say t = at_page (js_alert t)"

definition show_rows :: "bool list \<Rightarrow> jsval list \<Rightarrow> 'k web_act" where
  "show_rows heads rows = does (\<lambda>w. w\<lparr>w_tables := showTable heads (JArr rows) (w_tables w)\<rparr>)"

definition shown_rows :: "'k web \<Rightarrow> jsval option" where
  "shown_rows w = map_option t_rows (oTables (w_tables w))"

lemma shown_rows_show: "show_rows heads rows w = (None, w') \<Longrightarrow> shown_rows w' = Some (JArr rows)"
  by (auto simp: show_rows_def shown_rows_def showTable_def table_of_def Let_def)

text \<open>The rows of a table, each made of an item whose properties are read.\<close>

definition item_rows :: "bool list \<Rightarrow> (jsval \<Rightarrow> jsval) \<Rightarrow> jsval list \<Rightarrow> 'k web_act" where
  "item_rows heads row items =
     (if list_ex nullish items then raises TypeError else show_rows heads (map row items))"

text \<open>\<open>JSON.stringify(v)\<close> in a concatenation.\<close>

definition stringify :: "jsval \<Rightarrow> string" where
  "stringify v = (if v = JUndef then ''undefined'' else json_str v)"

text \<open>\<open>for (var i in content) if (content[i] == "") delete content[i]\<close>\<close>

definition drop_empty :: "(string \<times> jsval) list \<Rightarrow> (string \<times> jsval) list" where
  "drop_empty kvs = filter (\<lambda>kv. \<not> js_eq (snd kv) (JStr [])) kvs"

section \<open>Relations between the states of a statement\<close>

text \<open>
  What holds between the states before and after each statement of a block holds between those of the block, when the
  relation is reflexive and transitive: what a block leaves alone, what it may add, and what it preserves.
\<close>

definition stepwise :: "('s \<Rightarrow> 's \<Rightarrow> bool) \<Rightarrow> 's stmt \<Rightarrow> bool" where
  "stepwise R a \<longleftrightarrow> (\<forall>s. R s (snd (a s)))"

lemma stepwise_if: "(b \<Longrightarrow> stepwise R a) \<Longrightarrow> (\<not> b \<Longrightarrow> stepwise R c) \<Longrightarrow> stepwise R (if b then a else c)"
  by simp

lemma stepwise_does: "(\<And>s. R s (f s)) \<Longrightarrow> stepwise R (does f)"
  by (simp add: stepwise_def)

lemma stepwise_page: "(\<And>s. R s (s\<lparr>w_page := f (w_page s)\<rparr>)) \<Longrightarrow> stepwise R (at_page f)"
  by (simp add: stepwise_def)

locale stmt_rel =
  fixes R :: "'s \<Rightarrow> 's \<Rightarrow> bool"
  assumes R_refl: "R s s"
    and R_trans: "R s t \<Longrightarrow> R t u \<Longrightarrow> R s u"
begin

lemma acts_rel: "(\<And>a. a \<in> set as \<Longrightarrow> stepwise R a) \<Longrightarrow> stepwise R (acts as)"
proof (induction as)
  case (Cons a as)
  then have a: "R s (snd (a s))" "R s (snd (acts as s))" for s by (simp_all add: stepwise_def)
  have "R s (snd (acts (a # as) s))" for s
  proof (cases "a s")
    case (Pair e t)
    then show ?thesis using a(1) [of s] R_trans [OF _ a(2) [of t], of s]
      by (cases e) (simp_all add: acts.simps(2) del: acts_last acts_more)
  qed
  then show ?case by (simp add: stepwise_def)
qed (simp add: stepwise_def R_refl)

lemma when_rel: "(b \<Longrightarrow> stepwise R a) \<Longrightarrow> stepwise R (act_when b a)"
  by (cases b) (simp_all add: stepwise_def R_refl)

lemma raises_rel: "stepwise R (raises e)"
  by (simp add: stepwise_def R_refl)

lemma ok_rel: "(status_ok data \<Longrightarrow> stepwise R a) \<Longrightarrow> stepwise R (when_ok data a)"
  by (cases "status_ok data") (simp_all add: stepwise_def R_refl)

lemma item_rel: "(\<not> nullish d \<Longrightarrow> stepwise R (f d)) \<Longrightarrow> stepwise R (item_act f d)"
  by (simp add: item_act_def raises_rel)

lemmas stmt_rules = acts_rel when_rel ok_rel raises_rel item_rel stepwise_if

end

locale web_rel = stmt_rel R for R :: "'k web \<Rightarrow> 'k web \<Rightarrow> bool"
begin

lemma parts_rel: "(\<And>x y. stepwise R (f x y)) \<Longrightarrow> stepwise R (with_parts s f)"
  by (auto simp: stepwise_def with_parts_def R_refl split: option.splits)

lemmas web_rules = stmt_rules parts_rel stepwise_page

end

section \<open>Steps of the pages with a table\<close>

text \<open>The pages for tables of switches consist of the same steps, each with its requests and elements.\<close>

definition controller_text :: "jsval \<Rightarrow> string" where
  "controller_text d = js_str (pget d ''ip'') @ ''|'' @ js_str (pget d ''port'')"

definition add_to_lists :: "string list \<Rightarrow> string \<Rightarrow> 'k web \<Rightarrow> 'k web" where
  "add_to_lists doms v = fold (\<lambda>s. add_option s v) doms"

definition list_controls :: "string list \<Rightarrow> jsval \<Rightarrow> 'k web_act" where
  "list_controls doms data = when_ok data
     (acts (map (item_act (\<lambda>d. does (add_to_lists doms (controller_text d)))) (each_value (pget data ''data''))))"

definition list_switches :: "string \<Rightarrow> jsval \<Rightarrow> 'k web_act" where
  "list_switches s data = when_ok data (acts
     (does (clear_options s) #
      map (item_act (\<lambda>d. does (add_option s (js_str (pget d ''dpid''))))) (each_value (pget data ''data''))))"

text \<open>The handler of a list of controllers that may show nothing: it asks for the switches or clears their list.\<close>

definition choose_control :: "string \<Rightarrow> string \<Rightarrow> 'k \<Rightarrow> 'k web_act" where
  "choose_control s switches k w =
     (case w_selected w s of
        Some info \<Rightarrow>
          (if info \<noteq> [] then
             web_post ''../switchinfo'' [(''ip'', fst (bar_parts info)), (''port'', snd (bar_parts info))] k w
           else (None, clear_options switches w))
      | None \<Rightarrow> (None, clear_options switches w))"

text \<open>The dialog that clears the table of a switch.\<close>

definition clear_table :: "string \<Rightarrow> 'k \<Rightarrow> 'k web_act" where
  "clear_table url k w =
     (case (w_selected w ''#myModal3 #controlip'', w_selected w ''#myModal3 #switchid'') of
        (Some info, Some switchID) \<Rightarrow>
          act_when (info \<noteq> [] \<and> switchID \<noteq> []) (web_post url
            [(''ip'', fst (bar_parts info)), (''port'', snd (bar_parts info)), (''switchid'', JStr switchID)] k) w
      | _ \<Rightarrow> (None, w))"

text \<open>The deletion of an item, after the question was answered with yes.\<close>

definition delete_item :: "string \<Rightarrow> (jsval \<Rightarrow> (string \<times> jsval) list) \<Rightarrow> 'k \<Rightarrow> bool \<Rightarrow> jsval \<Rightarrow> 'k web_act" where
  "delete_item url form k flag obj = act_when flag (if nullish obj then raises TypeError else web_post url (form obj) k)"

text \<open>The answer to a change: a message, and what follows when it was granted.\<close>

definition answer_change :: "string \<Rightarrow> string \<Rightarrow> 'k web_act list \<Rightarrow> jsval \<Rightarrow> 'k web_act" where
  "answer_change done_text fail_text next_acts data = when_ok data
     (if truthy (pget data ''data'') then acts (say done_text # next_acts) else say fail_text)"

definition hide :: "string \<Rightarrow> 'k web_act" where
  "hide m = at_page (set_shown m False)"

text \<open>A property of an item in the dialog of details.\<close>

definition detail_text :: "string \<Rightarrow> jsval \<Rightarrow> string" where
  "detail_text i v =
     ''<div class='' @ sq ''span4'' @ '' style='' @ sq ''margin-left:0px;padding: 5px;width: 240px;'' @ ''>'' @
     ''<p>'' @ i @ wide_colon @ ''<strong style='' @ sq ''color:#555'' @ ''>'' @ js_str v @ ''</strong></p>'' @ ''</div>''"

section \<open>Arrival of answers\<close>

text \<open>The arrival of the answer to the \<open>i\<close>-th pending request.\<close>

definition arrives :: "('k \<Rightarrow> jsval \<Rightarrow> 'k web_act) \<Rightarrow> nat \<Rightarrow> answer \<Rightarrow> 'k web \<Rightarrow> 'k web" where
  "arrives callback i a w =
     (case nth_opt (pending (w_page w)) i of
        None \<Rightarrow> w
      | Some (r, k) \<Rightarrow>
          (let w' = w\<lparr>w_page := take_pending i (w_page w)\<rparr>
           in case a of Success d \<Rightarrow> snd (callback k d w') | Failure m \<Rightarrow> w'))"

definition blank_web :: "'k web" where
  "blank_web = \<lparr>w_page = blank_page, w_options = (\<lambda>s. []), w_selected = (\<lambda>s. None),
     w_tables = \<lparr>oTables = None, oTables1 = None, t_log = []\<rparr>, w_location = None\<rparr>"

end
