(* ===== verification/Managed_List.thy ===== *)
theory Managed_List
  imports Web_Page
begin

text \<open>
  The contract between a management page and its list: the answer to a change (an addition, a deletion) either
  grants it, and then the page asks for the list again with the controller chosen, or refuses it, and then it
  sends nothing.  From it follows what any number of changes does, in whatever order they are answered.
\<close>

definition reload_request :: "string \<Rightarrow> string \<Rightarrow> request" where
  "reload_request url t = \<lparr>req_method = POST, req_url = url,
     req_body = post_form [(''ip'', fst (bar_parts t)), (''port'', snd (bar_parts t))]\<rparr>"

definition answer_all :: "('k \<Rightarrow> jsval \<Rightarrow> 'k web_act) \<Rightarrow> (nat \<times> answer) list \<Rightarrow> 'k web \<Rightarrow> 'k web" where
  "answer_all callback as w = fold (\<lambda>(i, a). arrives callback i a) as w"

text \<open>Each of the requests is answered once; the answers name them by their position among those that are left.\<close>

fun answers_each :: "(request \<times> 'k) list \<Rightarrow> (nat \<times> answer) list \<Rightarrow> bool" where
  "answers_each qs [] \<longleftrightarrow> qs = []"
| "answers_each qs ((i, a) # as) \<longleftrightarrow> i < length qs \<and> answers_each (take i qs @ drop (Suc i) qs) as"

definition grants :: "('k \<Rightarrow> jsval \<Rightarrow> bool) \<Rightarrow> 'k \<Rightarrow> answer \<Rightarrow> bool" where
  "grants granted k a = (case a of Success d \<Rightarrow> granted k d | Failure m \<Rightarrow> False)"

fun count_granted :: "('k \<Rightarrow> jsval \<Rightarrow> bool) \<Rightarrow> (request \<times> 'k) list \<Rightarrow> (nat \<times> answer) list \<Rightarrow> nat" where
  "count_granted granted qs [] = 0"
| "count_granted granted qs ((i, a) # as) =
     (if grants granted (snd (qs ! i)) a then 1 else 0) + count_granted granted (take i qs @ drop (Suc i) qs) as"

locale managed_list =
  fixes callback :: "'k \<Rightarrow> jsval \<Rightarrow> 'k web_act"
    and change :: "'k \<Rightarrow> bool"
    and granted :: "'k \<Rightarrow> jsval \<Rightarrow> bool"
    and url :: string
    and reload :: "string \<Rightarrow> 'k"
  assumes granted_reloads: "change k \<Longrightarrow> granted k d \<Longrightarrow> w_selected w ''#control'' = Some t \<Longrightarrow>
      pending (w_page (snd (callback k d w))) = pending (w_page w) @ [(reload_request url t, reload t)]"
    and refused_quiet: "change k \<Longrightarrow> \<not> granted k d \<Longrightarrow> pending (w_page (snd (callback k d w))) = pending (w_page w)"
    and choice_kept: "change k \<Longrightarrow> w_selected (snd (callback k d w)) ''#control'' = w_selected w ''#control''"
begin

lemma arrives_change:
  assumes "i < length qs" "change (snd (qs ! i))" "pending (w_page w) = qs @ ps" "w_selected w ''#control'' = Some t"
  shows "pending (w_page (arrives callback i a w)) = (take i qs @ drop (Suc i) qs) @ ps @
      (if grants granted (snd (qs ! i)) a then [(reload_request url t, reload t)] else [])"
    and "w_selected (arrives callback i a w) ''#control'' = Some t"
proof -
  obtain r k where q: "qs ! i = (r, k)" by (cases "qs ! i")
  have n: "nth_opt (pending (w_page w)) i = Some (r, k)"
    using assms(1,3) q by (simp add: nth_opt_def nth_append)
  have t: "pending (take_pending i (w_page w)) = (take i qs @ drop (Suc i) qs) @ ps"
    using assms(1,3) by (simp add: pending_simps)
  show "pending (w_page (arrives callback i a w)) = (take i qs @ drop (Suc i) qs) @ ps @
      (if grants granted (snd (qs ! i)) a then [(reload_request url t, reload t)] else [])"
    using assms(2,4) q n t granted_reloads [of k _ "w\<lparr>w_page := take_pending i (w_page w)\<rparr>"]
      refused_quiet [of k _ "w\<lparr>w_page := take_pending i (w_page w)\<rparr>"]
    by (auto simp: arrives_def grants_def Let_def split: answer.splits)
  show "w_selected (arrives callback i a w) ''#control'' = Some t"
    using assms(2,4) q n choice_kept [of k] by (auto simp: arrives_def Let_def split: answer.splits)
qed

lemma each_grant_reloads:
  assumes "answers_each qs as" "\<forall>q \<in> set qs. change (snd q)" "pending (w_page w) = qs @ ps"
    and "w_selected w ''#control'' = Some t"
  shows "pending (w_page (answer_all callback as w)) =
    ps @ replicate (count_granted granted qs as) (reload_request url t, reload t)"
  using assms
proof (induction qs as arbitrary: w ps rule: answers_each.induct)
  case (1 qs)
  then show ?case by (simp add: answer_all_def)
next
  case (2 qs i a as)
  let ?new = "if grants granted (snd (qs ! i)) a then [(reload_request url t, reload t)] else []"
  have i: "i < length qs" "change (snd (qs ! i))" using 2(2,3) by simp_all
  note s = arrives_change [OF i 2(4,5), of a]
  have "\<forall>q \<in> set (take i qs @ drop (Suc i) qs). change (snd q)"
    using 2(3) by (auto dest: in_set_takeD in_set_dropD)
  then have "pending (w_page (answer_all callback as (arrives callback i a w))) = (ps @ ?new) @
      replicate (count_granted granted (take i qs @ drop (Suc i) qs) as) (reload_request url t, reload t)"
    using 2(1) [of "arrives callback i a w" "ps @ ?new"] 2(2) s by simp
  then show ?case by (simp add: answer_all_def)
qed

end

end
