(* ===== verification/Json_Round.thy ===== *)
theory Json_Round
  imports Js_Json
begin

text \<open>
  \<open>JSON.parse\<close> inverts \<open>JSON.stringify\<close> on values whose numbers are integers and whose objects have distinct
  keys and no undefined members.  The parser is followed from the left: a printed value is read to its last
  character, whatever follows it, with fuel twice the length of its text.
\<close>

section \<open>Strings\<close>

lemma hex_val_digit: "d < 16 \<Longrightarrow> hex_val (hex_digit d) = Some d"
  by (auto simp: hex_val_def hex_digit_def Let_def)

lemma json_unquote_hex:
  assumes "n < 32"
  shows "json_unquote (CHR 0x5C # CHR ''u'' # CHR ''0'' # CHR ''0'' # hex_digit (n div 16) # hex_digit (n mod 16) # r) =
    map_option (\<lambda>(u, t). (char_of n # u, t)) (json_unquote r)"
proof -
  have "hex_val CHR ''0'' = Some 0" by (simp add: hex_val_def)
  moreover have "n div 16 < 16" "n mod 16 < 16" using assms by auto
  ultimately show ?thesis using assms by (simp add: hex_val_digit utf8_of_code_def)
qed

lemma json_unquote_char:
  "json_unquote (json_char c @ r) = map_option (\<lambda>(u, t). (c # u, t)) (json_unquote r)"
proof (cases "c \<in> {CHR 0x22, CHR 0x5C, CHR 0x08, CHR 0x09, CHR 0x0A, CHR 0x0C, CHR 0x0D}")
  case True
  then show ?thesis by (elim insertE emptyE) (simp_all add: json_char_def simple_escape_def)
next
  case False
  then show ?thesis
    using json_unquote_hex [of "of_char c" r] by (auto simp: json_char_def simp del: json_unquote.simps) simp
qed

lemma json_unquote_quote: "json_unquote (concat (map json_char s) @ CHR 0x22 # r) = Some (s, r)"
  by (induction s) (simp_all add: json_unquote_char del: json_unquote.simps(2), simp)

section \<open>Numbers\<close>

text \<open>What may follow a value in a printed text.\<close>

definition value_ends :: "string \<Rightarrow> bool" where
  "value_ends r \<longleftrightarrow> r = [] \<or> hd r \<in> {CHR '','', CHR '']'', CHR ''}''}"

lemma show_nat_first: "0 < n \<Longrightarrow> hd (show_nat n) \<noteq> CHR ''0''"
proof (induction n rule: show_nat.induct)
  case (1 n)
  show ?case
  proof (cases "n < 10")
    case True
    then have "digit_val (digit_char n) = n" by simp
    then have "digit_char n \<noteq> CHR ''0''" using 1(2) by (auto simp: digit_val_def)
    then show ?thesis using True by (subst show_nat.simps) simp
  next
    case False
    then show ?thesis using 1 by (subst show_nat.simps) simp
  qed
qed

lemma show_nat_leading: "\<not> (hd (show_nat n) = CHR ''0'' \<and> length (show_nat n) > 1)"
proof (cases "n = 0")
  case True
  then show ?thesis by (subst show_nat.simps)  simp
next
  case False
  then show ?thesis using show_nat_first by simp
qed

lemma digits_run:
  assumes "value_ends r"
  shows "takeWhile is_digit (show_nat n @ r) = show_nat n" "dropWhile is_digit (show_nat n @ r) = r"
proof -
  have d: "x \<in> set (show_nat n) \<Longrightarrow> is_digit x" for x by (rule show_nat_digits)
  have "takeWhile is_digit r = [] \<and> dropWhile is_digit r = r"
    using assms by (cases r) (auto simp: value_ends_def is_digit_def)
  then show "takeWhile is_digit (show_nat n @ r) = show_nat n" "dropWhile is_digit (show_nat n @ r) = r"
    using takeWhile_append2 [of "show_nat n" is_digit r] dropWhile_append2 [of "show_nat n" is_digit r] d by simp_all
qed

lemma json_unsigned_nat: "value_ends r \<Longrightarrow> json_unsigned (show_nat n @ r) = Some (of_nat n, r)"
proof -
  assume r: "value_ends r"
  have "json_unsigned (show_nat n @ r) = (if show_nat n = [] \<or> hd (show_nat n) = CHR ''0'' \<and> length (show_nat n) > 1
     then None else Some (of_nat (dec_val (show_nat n)), r))"
    unfolding json_unsigned_def digits_run [OF r]
    using r by (cases r) (auto simp: Let_def value_ends_def scale10_def)
  then show ?thesis using show_nat_leading by auto
qed

lemma json_number_int: "value_ends r \<Longrightarrow> json_number (show_int i @ r) = Some (JNum (Fin (of_int i)), r)"
proof (cases "i < 0")
  case True
  assume "value_ends r"
  then show ?thesis using True json_unsigned_nat [of r "nat (- i)"] by (simp add: json_number_def show_int_def)
next
  case False
  assume r: "value_ends r"
  have "\<not> starts_with ''-'' (show_nat (nat i) @ r)"
    using show_nat_digits [of "hd (show_nat (nat i))" "nat i"] show_nat_not_Nil [of "nat i"]
    by (cases "show_nat (nat i)") (auto simp: is_digit_def)
  then show ?thesis using r False json_unsigned_nat [of r "nat i"] by (simp add: json_number_def show_int_def)
qed

section \<open>Values\<close>

fun json_ok :: "jsval \<Rightarrow> bool" where
  "json_ok JUndef = False"
| "json_ok JNull = True"
| "json_ok (JBool b) = True"
| "json_ok (JNum n) = (case n of Fin r \<Rightarrow> of_int \<lfloor>r\<rfloor> = r | _ \<Rightarrow> False)"
| "json_ok (JStr s) = True"
| "json_ok (JArr vs) = list_all json_ok vs"
| "json_ok (JObj kvs) = (distinct (map fst kvs) \<and> list_all (\<lambda>kv. json_ok (snd kv)) kvs)"

text \<open>The first character of a printed value is no space and closes nothing.\<close>

definition value_opens :: "string \<Rightarrow> bool" where
  "value_opens s \<longleftrightarrow> s \<noteq> [] \<and> \<not> json_space (hd s) \<and> hd s \<noteq> CHR '']'' \<and> hd s \<noteq> CHR ''}''"

lemma value_opens_append [simp]: "value_opens s \<Longrightarrow> value_opens (s @ r)"
  by (simp add: value_opens_def)

lemma value_opens_skip:
  "value_opens s \<Longrightarrow> skip_space s = s \<and> \<not> starts_with '']'' s \<and> \<not> starts_with ''}'' s"
  by (cases s) (auto simp: value_opens_def)

lemma show_int_first:
  obtains c t where "show_int i = c # t" "is_digit c \<or> c = CHR ''-''"
proof -
  have "\<exists>c t. show_nat m = c # t \<and> is_digit c" for m
    using show_nat_not_Nil [of m] show_nat_digits [of "hd (show_nat m)" m] by (cases "show_nat m") auto
  then obtain c t where "show_nat (nat i) = c # t" "is_digit c" by blast
  then show thesis
    using that [of "CHR ''-''" "show_nat (nat (- i))"] that [of c t] by (cases "i < 0") (simp_all add: show_int_def)
qed

lemma show_int_opens: "value_opens (show_int i)"
proof -
  obtain c t where "show_int i = c # t" "is_digit c \<or> c = CHR ''-''" by (rule show_int_first)
  then show ?thesis by (auto simp: value_opens_def json_space_def is_digit_def)
qed

lemma json_str_opens: "json_ok v \<Longrightarrow> value_opens (json_str v)"
proof (cases v)
  case (JNum n)
  then show "json_ok v \<Longrightarrow> ?thesis" using show_int_opens by (auto simp: show_rat_def split: num.splits)
qed (auto simp: value_opens_def json_quote_def json_space_def)

lemma json_value_int:
  assumes "value_ends r"
  shows "json_value (Suc n) (show_int i @ r) = Some (JNum (Fin (of_int i)), r)"
proof -
  obtain c t where c: "show_int i = c # t" "is_digit c \<or> c = CHR ''-''" by (rule show_int_first)
  have s: "skip_space (c # t @ r) = c # t @ r"
    using value_opens_skip [of "show_int i @ r"] value_opens_append [OF show_int_opens, of i r] c(1) by simp
  have "c \<noteq> CHR ''n''" "c \<noteq> CHR ''t''" "c \<noteq> CHR ''f''" "c \<noteq> CHR 0x22" "c \<noteq> CHR ''[''" "c \<noteq> CHR ''{''"
    using c(2) by (auto simp: is_digit_def)
  then have "json_value (Suc n) (show_int i @ r) = json_number (show_int i @ r)"
    unfolding c(1) append_Cons json_value.simps s Let_def by simp
  then show ?thesis using json_number_int [OF assms] by simp
qed

lemma json_elems_round:
  assumes "vs \<noteq> []" "list_all json_ok vs"
    and "\<And>v r n. v \<in> set vs \<Longrightarrow> value_ends r \<Longrightarrow> 2 * length (json_str v) \<le> n \<Longrightarrow>
      json_value n (json_str v @ r) = Some (v, r)"
    and "2 * length (join_with '','' (map json_str vs)) < n"
  shows "json_elems n (join_with '','' (map json_str vs) @ CHR '']'' # r) = Some (vs, r)"
  using assms
proof (induction vs arbitrary: n)
  case (Cons v vs)
  obtain m where n: "n = Suc m" using Cons.prems(4) by (cases n) auto
  show ?case
  proof (cases vs)
    case Nil
    have "json_value m (json_str v @ CHR '']'' # r) = Some (v, CHR '']'' # r)"
      using Cons.prems(3) [of v "CHR '']'' # r" m] Cons.prems(4) n Nil by (simp add: value_ends_def)
    then show ?thesis using n Nil by simp
  next
    case (Cons w ws)
    let ?t = "join_with '','' (map json_str vs)"
    have l: "2 * length (json_str v) \<le> m" "2 * length ?t < m"
      using Cons.prems(4) n Cons by simp_all
    have "json_value m (json_str v @ CHR '','' # ?t @ CHR '']'' # r) = Some (v, CHR '','' # ?t @ CHR '']'' # r)"
      using Cons.prems(3) [of v _ m] l(1) by (simp add: value_ends_def)
    moreover have "json_elems m (?t @ CHR '']'' # r) = Some (vs, r)"
      using Cons.IH [of m] Cons.prems Cons l(2) by simp
    ultimately show ?thesis using n Cons by simp
  qed
qed simp

definition member_text :: "string \<times> jsval \<Rightarrow> string" where
  "member_text kv = json_quote (fst kv) @ CHR '':'' # json_str (snd kv)"

lemma json_member_head:
  assumes "json_value m (json_str v @ d # t) = Some (v, d # t)" "d = CHR '','' \<or> d = CHR ''}''"
  shows "json_members (Suc m) acc (member_text (k, v) @ d # t) =
    (if d = CHR ''}'' then Some (AList.update k v acc, t) else json_members m (AList.update k v acc) t)"
  using assms json_unquote_quote [of k "CHR '':'' # json_str v @ d # t"]
  by (auto simp: member_text_def json_quote_def)

lemma update_new: "k \<notin> set (map fst acc) \<Longrightarrow> AList.update k v acc = acc @ [(k, v)]"
  by (induction acc) auto

lemma json_members_round:
  assumes "kvs \<noteq> []" "distinct (map fst (acc @ kvs))"
    and "\<And>k v r n. (k, v) \<in> set kvs \<Longrightarrow> value_ends r \<Longrightarrow> 2 * length (json_str v) \<le> n \<Longrightarrow>
      json_value n (json_str v @ r) = Some (v, r)"
    and "2 * length (join_with '','' (map member_text kvs)) < n"
  shows "json_members n acc (join_with '','' (map member_text kvs) @ CHR ''}'' # r) = Some (acc @ kvs, r)"
  using assms
proof (induction kvs arbitrary: n acc)
  case (Cons kv kvs)
  obtain m where n: "n = Suc m" using Cons.prems(4) by (cases n) auto
  obtain k v where kv: "kv = (k, v)" by (cases kv)
  have u: "AList.update k v acc = acc @ [kv]" using Cons.prems(2) kv by (simp add: update_new)
  have v: "json_value m (json_str v @ r) = Some (v, r)" if "value_ends r" for r
    using Cons.prems(3) [of k v r m] Cons.prems(4) n that kv by (cases kvs) (auto simp: member_text_def)
  show ?case
  proof (cases kvs)
    case Nil
    then show ?thesis
      using json_member_head [of m v "CHR ''}''" r acc k] v [of "CHR ''}'' # r"] u kv n by (simp add: value_ends_def)
  next
    case (Cons kw ws)
    let ?t = "join_with '','' (map member_text kvs)"
    have "json_members m (acc @ [kv]) (?t @ CHR ''}'' # r) = Some ((acc @ [kv]) @ kvs, r)"
    proof (rule Cons.IH)
      show "\<And>k v r n. (k, v) \<in> set kvs \<Longrightarrow> value_ends r \<Longrightarrow> 2 * length (json_str v) \<le> n \<Longrightarrow>
        json_value n (json_str v @ r) = Some (v, r)"
        by (rule Cons.prems(3)) auto
    qed (use Cons.prems(2,4) Cons n in auto)
    moreover have "json_members n acc (member_text kv @ CHR '','' # ?t @ CHR ''}'' # r) =
        json_members m (acc @ [kv]) (?t @ CHR ''}'' # r)"
      using json_member_head [of m v "CHR '',''" "?t @ CHR ''}'' # r" acc k] v [of "CHR '','' # ?t @ CHR ''}'' # r"] u kv n
      by (simp add: value_ends_def)
    ultimately show ?thesis using Cons by simp
  qed
qed simp

lemma members_open: "kvs \<noteq> [] \<Longrightarrow> value_opens (join_with '','' (map member_text kvs))"
  by (cases kvs; cases "tl kvs") (auto simp: value_opens_def member_text_def json_quote_def json_space_def)

lemma elems_open: "vs \<noteq> [] \<Longrightarrow> list_all json_ok vs \<Longrightarrow> value_opens (join_with '','' (map json_str vs))"
  by (cases vs; cases "tl vs") (use json_str_opens in auto)

lemma filter_defined: "list_all (\<lambda>kv. json_ok (snd kv)) kvs \<Longrightarrow> filter (\<lambda>kv. snd kv \<noteq> JUndef) kvs = kvs"
  by (rule filter_True) (auto simp: list_all_iff)

theorem json_value_round:
  "json_ok v \<Longrightarrow> value_ends r \<Longrightarrow> 2 * length (json_str v) \<le> n \<Longrightarrow> json_value n (json_str v @ r) = Some (v, r)"
proof (induction v arbitrary: r n rule: json_ok.induct)
  case (4 x)
  then obtain i where i: "x = Fin (of_int i)" by (auto split: num.splits)
  then have "json_str (JNum x) = show_int i" by (simp add: show_rat_def)
  moreover obtain m where "n = Suc m"
    using 4(3) json_str_opens [OF 4(1)] by (cases n) (auto simp: value_opens_def)
  ultimately show ?case using json_value_int [OF 4(2), of m i] i by simp
next
  case (5 s)
  then obtain m where "n = Suc m" by (cases n) (auto simp: json_quote_def)
  then show ?case using json_unquote_quote [of s r] by (simp add: json_quote_def)
next
  case (6 vs)
  then obtain m where n: "n = Suc m" by (cases n) auto
  show ?case
  proof (cases "vs = []")
    case False
    let ?t = "join_with '','' (map json_str vs)"
    have "json_elems m (?t @ CHR '']'' # r) = Some (vs, r)"
      using 6 n False by (intro json_elems_round) (auto simp: list_all_iff)
    moreover have "skip_space (?t @ CHR '']'' # r) = ?t @ CHR '']'' # r"
       "\<not> starts_with '']'' (?t @ CHR '']'' # r)"
      using value_opens_skip [of "?t @ CHR '']'' # r"] elems_open [OF False] 6(2) by simp_all
    ultimately show ?thesis using n by simp
  qed (simp add: n)
next
  case (7 kvs)
  then obtain m where n: "n = Suc m" by (cases n) auto
  have k: "filter (\<lambda>kv. snd kv \<noteq> JUndef) kvs = kvs" using 7(2) by (intro filter_defined) simp
  have m: "map (\<lambda>kv. json_quote (fst kv) @ '':'' @ json_str (snd kv)) kvs = map member_text kvs"
    by (simp add: member_text_def fun_eq_iff)
  have t: "json_str (JObj kvs) = CHR ''{'' # join_with '','' (map member_text kvs) @ ''}''"
    unfolding json_str.simps k m by simp
  show ?case
  proof (cases "kvs = []")
    case False
    let ?t = "join_with '','' (map member_text kvs)"
    have "json_members m [] (?t @ CHR ''}'' # r) = Some ([] @ kvs, r)"
    proof (rule json_members_round)
      show "json_value n' (json_str v @ r') = Some (v, r')"
        if "(k, v) \<in> set kvs" "value_ends r'" "2 * length (json_str v) \<le> n'" for k v r' n'
        using 7(1) [of "(k, v)"] 7(2) that by (auto simp: list_all_iff)
    qed (use 7(2,4) n False t in auto)
    moreover have "skip_space (?t @ CHR ''}'' # r) = ?t @ CHR ''}'' # r"
       "\<not> starts_with ''}'' (?t @ CHR ''}'' # r)"
      using value_opens_skip [of "?t @ CHR ''}'' # r"] members_open [OF False] by simp_all
    ultimately show ?thesis using n unfolding t by simp
  qed (simp add: n)
next
  case 2
  then obtain m where "n = Suc m" by (cases n) auto
  then show ?case by (simp add: json_space_def)
next
  case (3 b)
  then obtain m where "n = Suc m" by (cases n; cases b) auto
  then show ?case by (simp add: json_space_def)
qed simp

theorem json_parse_str: "json_ok v \<Longrightarrow> json_parse (json_str v) = Some v"
  using json_value_round [of v "[]" "Suc (2 * length (json_str v))"]
  by (simp add: json_parse_def value_ends_def skip_space_def del: json_value.simps)

end
