(* ===== verification/Web_Firewall.thy ===== *)
theory Web_Firewall
  imports Managed_List Json_Round
begin

text \<open>
  The page of the firewall (\<open>firewall_manager/firewall_config.html\<close>): the rules of the chosen controller in a table, a
  form for a new rule, the deletion of a rule, and the switch of the firewall with its two buttons.
\<close>

section \<open>Requests\<close>

datatype fw_cont = FControls | FStatus | FSwitches | FRules | FDeleted | FAdded | FStatusSet string

type_synonym fw_act = "fw_cont web_act"

definition fw_getControl :: fw_act where
  "fw_getControl = web_post ''../control/list'' [] FControls"

definition fw_search :: fw_act where
  "fw_search = with_parts ''#control'' (\<lambda>ip port.
     web_post ''../firewall/searchrule'' [(''ip'', ip), (''port'', port)] FRules)"

definition fw_delRule :: "jsval \<Rightarrow> jsval \<Rightarrow> jsval \<Rightarrow> fw_act" where
  "fw_delRule ruleID cip cport =
     web_post ''../firewall/delrule'' [(''ip'', cip), (''port'', cport), (''rid'', ruleID)] FDeleted"

text \<open>The fields of the form; the lists among them show a value or nothing.\<close>

definition rule_fields :: "fw_cont web \<Rightarrow> (string \<times> jsval) list" where
  "rule_fields w =
     (let field = (\<lambda>k. (k, JStr (vals (w_page w) (''#'' @ k)))); choice = (\<lambda>k. (k, list_val (''#'' @ k) w))
      in [choice ''switchid'', field ''src-inport'', field ''vlan-id'', field ''src-mac'', field ''dst-mac'',
          choice ''dl-type'', field ''src-ip'', field ''dst-ip'', choice ''nw-proto'', field ''tp-src'', field ''tp-dst'',
          field ''vlan-priority'', field ''nw-tos'', field ''priority'', choice ''action''])"

definition fw_add :: fw_act where
  "fw_add = with_parts ''#control'' (\<lambda>ip port w.
     (let content = drop_empty (rule_fields w)
      in web_post ''../firewall/addrule''
           [(''ip'', ip), (''port'', port), (''content'', JStr (json_str (JObj content)))] FAdded w))"

definition fw_getFirewallStatus :: fw_act where
  "fw_getFirewallStatus = with_parts ''#control'' (\<lambda>ip port.
     web_post ''../firewall/getstatus'' [(''ip'', ip), (''port'', port)] FStatus)"

definition fw_onControl :: fw_act where
  "fw_onControl = acts
     [fw_getFirewallStatus,
      with_parts ''#control'' (\<lambda>ip port. web_post ''../switchinfo'' [(''ip'', ip), (''port'', port)] FSwitches)]"

definition fw_onStatus :: "string \<Rightarrow> fw_act" where
  "fw_onStatus action = with_parts ''#control'' (\<lambda>ip port.
     web_post ''../firewall/setstatus'' [(''ip'', ip), (''port'', port), (''action'', JStr action)] (FStatusSet action))"

definition fw_init :: "string \<Rightarrow> fw_act" where
  "fw_init user = acts
     [at_page (set_html ''#user_login span'' user), at_page (set_shown ''#datatable-table'' False), fw_getControl]"

section \<open>Details\<close>

definition isContain :: "string list \<Rightarrow> string \<Rightarrow> bool" where
  "isContain arr value = list_ex (\<lambda>x. value = x) arr"

definition fw_hidden :: "string list" where
  "fw_hidden = [''meter-id'', ''group-id'', ''table'', ''idle_timeout'', ''hard_timeout'', ''cip'', ''cport'']"

definition fw_viewDetails :: "jsval \<Rightarrow> fw_act" where
  "fw_viewDetails obj =
     (let cont = concat (map (\<lambda>(i, v). detail_text i v) (filter (\<lambda>(i, v). \<not> isContain fw_hidden i) (own_props obj)))
      in acts [at_page (set_html ''#flow_details'' []), at_page (append_html ''#flow_details'' cont),
               at_page (set_shown ''#myModal'' True)])"

section \<open>Answers\<close>

definition rule_keys :: "string list" where
  "rule_keys = [''ruleid'', ''switchid'', ''src-inport'', ''vlan-id'', ''src-mac'', ''dst-mac'', ''dl-type'', ''src-ip'',
     ''dst-ip'', ''nw-proto'', ''tp-src'', ''tp-dst'', ''vlan-priority'', ''nw-tos'', ''priority'', ''action'']"

definition rule_data :: "jsval \<Rightarrow> jsval" where
  "rule_data d = lassign (JObj (map (\<lambda>k. (k, JStr ''-'')) rule_keys)) d"

definition rule_buttons :: "jsval \<Rightarrow> string" where
  "rule_buttons datas =
     row_button ''btn-success'' (CHR 0x27 # ''viewDetails('' @ json_str datas @ '')'' @ [CHR 0x27, CHR 0x27]) w_view @
     row_button ''btn-danger'' (sq (''delRule('' @ dq (js_str (pget datas ''ruleid'')) @ '', '' @
       dq (js_str (pget datas ''cip'')) @ '', '' @ dq (js_str (pget datas ''cport'')) @ '')'')) w_delete"

definition rule_row :: "jsval \<Rightarrow> jsval" where
  "rule_row d = (let datas = rule_data d
     in JArr [pget datas ''ruleid'', pget datas ''switchid'', pget datas ''src-ip'', pget datas ''dst-ip'',
              pget datas ''nw-proto'', pget datas ''action'', JStr (rule_buttons datas)])"

definition fw_onRules :: "bool list \<Rightarrow> jsval \<Rightarrow> fw_act" where
  "fw_onRules heads data = when_ok data (acts
     [show_rows heads (map rule_row (each_value (pget data ''data''))),
      at_page (set_shown ''#datatable-table'' True)])"

definition fw_onDeleted :: "jsval \<Rightarrow> fw_act" where
  "fw_onDeleted resp = (if status_ok resp then fw_search else say del_failed)"

definition fw_onAdded :: "jsval \<Rightarrow> fw_act" where
  "fw_onAdded data = when_ok data
     (if truthy (pget data ''data'') then
        acts [say add_done, at_page (set_shown ''#myModal2'' False), fw_search]
      else say add_failed)"

definition fw_onControls :: "jsval \<Rightarrow> fw_act" where
  "fw_onControls data = acts
     [when_ok data (acts (map (item_act (\<lambda>d. does (add_option ''#control''
        (js_str (pget d ''ip'') @ ''|'' @ js_str (pget d ''port''))))) (each_value (pget data ''data'')))),
      fw_onControl]"

definition fw_onSwitches :: "jsval \<Rightarrow> fw_act" where
  "fw_onSwitches data = when_ok data (acts
     ([does (clear_options ''#switchid''), does (add_option ''#switchid'' [])] @
      map (item_act (\<lambda>d. does (add_option ''#switchid'' (js_str (pget d ''dpid''))))) (each_value (pget data ''data''))))"

text \<open>The buttons of the switch of the firewall, by their attribute \<open>action\<close>.\<close>

definition status_button :: "string \<Rightarrow> string" where
  "status_button a = ''button[action='' @ sq a @ '']''"

definition light_status :: "string \<Rightarrow> fw_act" where
  "light_status a = acts
     [at_page (remove_class (status_button ''ON'') ''btn-success''), at_page (remove_class (status_button ''OFF'') ''btn-success''),
      at_page (add_class (status_button a) ''btn-success'')]"

definition fw_onStatusAnswer :: "jsval \<Rightarrow> fw_act" where
  "fw_onStatusAnswer resp = when_ok resp (light_status (js_str (pget resp ''data'')))"

definition status_failed :: string where
  "status_failed = [CHR 0xE8, CHR 0xAE, CHR 0xBE, CHR 0xE7, CHR 0xBD, CHR 0xAE, CHR 0xE9, CHR 0x98, CHR 0xB2, CHR 0xE7,
     CHR 0x81, CHR 0xAB, CHR 0xE5, CHR 0xA2, CHR 0x99, CHR 0xE7, CHR 0x8A, CHR 0xB6, CHR 0xE6, CHR 0x80, CHR 0x81,
     CHR 0xE5, CHR 0xA4, CHR 0xB1, CHR 0xE8, CHR 0xB4, CHR 0xA5] @ ''!''"

definition fw_onStatusSet :: "string \<Rightarrow> jsval \<Rightarrow> fw_act" where
  "fw_onStatusSet action resp = (if status_ok resp then light_status action else say status_failed)"

fun fw_callback :: "bool list \<Rightarrow> fw_cont \<Rightarrow> jsval \<Rightarrow> fw_act" where
  "fw_callback heads FControls = fw_onControls"
| "fw_callback heads FStatus = fw_onStatusAnswer"
| "fw_callback heads FSwitches = fw_onSwitches"
| "fw_callback heads FRules = fw_onRules heads"
| "fw_callback heads FDeleted = fw_onDeleted"
| "fw_callback heads FAdded = fw_onAdded"
| "fw_callback heads (FStatusSet a) = fw_onStatusSet a"

section \<open>The page in use\<close>

datatype fw_event =
    Choose string
  | Press_search
  | Press_add
  | Press_delete jsval jsval jsval
  | Press_view jsval
  | Press_status string

fun fw_do :: "(string list \<Rightarrow> string option) \<Rightarrow> fw_event \<Rightarrow> fw_act" where
  "fw_do no_match (Choose v) = acts [does (select_option no_match ''#control'' v), fw_onControl]"
| "fw_do no_match Press_search = fw_search"
| "fw_do no_match Press_add = fw_add"
| "fw_do no_match (Press_delete r c p) = fw_delRule r c p"
| "fw_do no_match (Press_view d) = fw_viewDetails d"
| "fw_do no_match (Press_status a) = fw_onStatus a"

text \<open>The page as it is loaded: the button \<open>ON\<close> has the class \<open>btn-success\<close>.\<close>

definition fw_start :: "fw_cont web" where
  "fw_start = blank_web\<lparr>w_page := add_class (status_button ''ON'') ''btn-success'' blank_page\<rparr>"

text \<open>The state of the firewall that an answer acknowledges.\<close>

definition acknowledged :: "fw_cont \<Rightarrow> answer \<Rightarrow> string option" where
  "acknowledged k a = (case (k, a) of
       (FStatus, Success d) \<Rightarrow> if status_ok d then Some (js_str (pget d ''data'')) else None
     | (FStatusSet x, Success d) \<Rightarrow> if status_ok d then Some x else None
     | _ \<Rightarrow> None)"

text \<open>The states that the page can reach, with the last state acknowledged.\<close>

inductive fw_reach :: "(string list \<Rightarrow> string option) \<Rightarrow> bool list \<Rightarrow> string \<Rightarrow> fw_cont web \<Rightarrow> bool"
  for no_match heads where
  loaded: "fw_reach no_match heads ''ON'' (snd (fw_init user fw_start))"
| used: "fw_reach no_match heads l w \<Longrightarrow> fw_reach no_match heads l (snd (fw_do no_match e w))"
| answered: "fw_reach no_match heads l w \<Longrightarrow> nth_opt (pending (w_page w)) i = Some (r, k) \<Longrightarrow>
    l' = (case acknowledged k a of None \<Rightarrow> l | Some x \<Rightarrow> x) \<Longrightarrow>
    fw_reach no_match heads l' (arrives (fw_callback heads) i a w)"

definition lit :: "fw_cont web \<Rightarrow> string list" where
  "lit w = filter (\<lambda>a. classes (w_page w) (status_button a) ''btn-success'') [''ON'', ''OFF'']"

subsection \<open>What leaves the buttons alone\<close>

text \<open>Statements that keep the classes of the elements.\<close>

definition same_classes :: "'k web \<Rightarrow> 'k web \<Rightarrow> bool" where
  "same_classes w w' \<longleftrightarrow> classes (w_page w') = classes (w_page w)"

abbreviation unlit :: "'k web_act \<Rightarrow> bool" where
  "unlit \<equiv> stepwise same_classes"

interpretation unlit: web_rel same_classes
  by unfold_locales (simp_all add: same_classes_def)

lemma unlit_post: "unlit (web_post u kvs k)" "unlit (show_rows heads rows)" "unlit (say t)"
  by (simp_all add: stepwise_def same_classes_def web_post_def show_rows_def say_def page_simps)

lemma unlit_does: "(\<And>w. classes (w_page (f w)) = classes (w_page w)) \<Longrightarrow> unlit (does f)"
  by (simp add: stepwise_def same_classes_def)

lemma unlit_page: "(\<And>p. classes (f p) = classes p) \<Longrightarrow> unlit (at_page f)"
  by (simp add: stepwise_def same_classes_def)

lemmas unlit_intros = unlit.stmt_rules unlit.parts_rel unlit_post unlit_does unlit_page

lemmas unlit_def = stepwise_def same_classes_def

lemmas list_changes = add_option_def clear_options_def select_option_def Let_def

lemma unlit_do: "unlit (fw_do no_match e)"
proof (cases e)
  case Press_add
  then show ?thesis by (auto simp: unlit_def fw_add_def with_parts_def web_post_def Let_def page_simps split: option.splits)
qed (auto simp: fw_search_def fw_delRule_def fw_viewDetails_def fw_onStatus_def fw_onControl_def
    fw_getFirewallStatus_def Let_def list_changes page_simps intro!: unlit_intros)

lemma unlit_callback:
  "acknowledged k (Success d) = None \<Longrightarrow> unlit (fw_callback heads k d)"
  by (cases k) (auto simp: acknowledged_def fw_onControls_def fw_onControl_def fw_onSwitches_def fw_onRules_def
      fw_onDeleted_def fw_onAdded_def fw_onStatusAnswer_def fw_onStatusSet_def fw_search_def fw_getFirewallStatus_def
      list_changes page_simps intro!: unlit_intros split: if_splits)

lemma lit_light: "lit (snd (light_status a w)) = filter ((=) a) [''ON'', ''OFF'']"
proof -
  have "status_button ''ON'' \<noteq> status_button ''OFF''" by (simp add: status_button_def sq_def)
  moreover have "status_button a = status_button b \<longleftrightarrow> a = b" for a b
    by (simp add: status_button_def sq_def)
  ultimately show ?thesis by (auto simp: lit_def light_status_def page_simps)
qed

lemma acknowledged_lights:
  "acknowledged k a = Some x \<Longrightarrow> \<exists>d. a = Success d \<and> fw_callback heads k d = light_status x"
  by (auto simp: acknowledged_def fw_onStatusAnswer_def fw_onStatusSet_def when_ok_cases act_when_def
      split: fw_cont.splits answer.splits if_splits)

text \<open>
  C10: the buttons show the state of the firewall that the controller acknowledged last (switched on, before the
  first answer), whatever else the user does and in whatever order the answers arrive.
\<close>

theorem status_shows_acknowledged:
  assumes "fw_reach no_match heads l w"
  shows "lit w = filter ((=) l) [''ON'', ''OFF'']"
  using assms
proof (induction rule: fw_reach.induct)
  case (loaded user)
  have "unlit (fw_init user)"
    unfolding fw_init_def fw_getControl_def by (auto simp: page_simps intro!: unlit_intros)
  moreover have "status_button ''ON'' \<noteq> status_button ''OFF''" by (simp add: status_button_def sq_def)
  ultimately show ?case
    by (auto simp: lit_def unlit_def fw_start_def blank_web_def blank_page_def page_simps)
next
  case (used l w e)
  then show ?case using unlit_do [of no_match e] by (simp add: lit_def unlit_def)
next
  case (answered l w i r k l' a)
  let ?w = "w\<lparr>w_page := take_pending i (w_page w)\<rparr>"
  have w: "lit ?w = lit w" by (simp add: lit_def page_simps)
  have arr: "arrives (fw_callback heads) i a w =
      (case a of Success d \<Rightarrow> snd (fw_callback heads k d ?w) | Failure m \<Rightarrow> ?w)"
    using answered(2) by (simp add: arrives_def Let_def)
  show ?case
  proof (cases "acknowledged k a")
    case None
    then have "lit (arrives (fw_callback heads) i a w) = lit ?w"
      unfolding arr using unlit_callback [of k] by (cases a) (auto simp: lit_def unlit_def)
    then show ?thesis using None answered w by simp
  next
    case (Some x)
    then show ?thesis
      unfolding arr using acknowledged_lights [OF Some, of heads] lit_light [of x ?w] answered(3) by auto
  qed
qed

lemma status_shows_acknowledged_witness:
  "lit (snd (fw_do (\<lambda>os. None) Press_search (snd (fw_init ''admin'' fw_start)))) = [''ON'']"
  using status_shows_acknowledged [OF fw_reach.used [OF fw_reach.loaded], of "\<lambda>os. None" Press_search "''admin''"] by simp

section \<open>New rules\<close>

lemma map_of_drop_empty:
  "distinct (map fst kvs) \<Longrightarrow> map_of (drop_empty kvs) k =
     (case map_of kvs k of None \<Rightarrow> None | Some v \<Rightarrow> if js_eq v (JStr []) then None else Some v)"
  by (induction kvs) (auto simp: drop_empty_def map_of_eq_None_iff split: option.splits)

lemma rule_fields_ok: "json_ok (JObj (drop_empty (rule_fields w)))" "distinct (map fst (rule_fields w))"
proof -
  have v: "json_ok (list_val s w)" for s by (cases "w_selected w s") (simp_all add: list_val_def)
  show d: "distinct (map fst (rule_fields w))" by (simp add: rule_fields_def Let_def)
  have "list_all (\<lambda>kv. json_ok (snd kv)) (rule_fields w)" using v by (simp add: rule_fields_def Let_def)
  then show "json_ok (JObj (drop_empty (rule_fields w)))"
    using distinct_map_filter [OF d] by (auto simp: drop_empty_def list_all_iff)
qed

text \<open>
  A new rule is sent as it was filled in.  With a controller \<open>ip|port\<close> chosen, the form sends one request, whose
  content parses to an object with exactly the fields that are not empty.
\<close>

theorem rule_submitted:
  assumes "w_selected w ''#control'' = Some (ip @ CHR ''|'' # port)" "CHR ''|'' \<notin> set ip" "CHR ''|'' \<notin> set port"
  shows "\<exists>c kvs. fw_add w = (None, w\<lparr>w_page := send POST ''../firewall/addrule''
       (post_form [(''ip'', JStr ip), (''port'', JStr port), (''content'', JStr c)]) FAdded (w_page w)\<rparr>) \<and>
     json_parse c = Some (JObj kvs) \<and>
     (\<forall>k. pget (JObj kvs) k = (case map_of (rule_fields w) k of None \<Rightarrow> JUndef
        | Some v \<Rightarrow> if v = JStr [] then JUndef else v))"
proof (intro exI conjI)
  let ?kvs = "drop_empty (rule_fields w)"
  show "fw_add w = (None, w\<lparr>w_page := send POST ''../firewall/addrule''
       (post_form [(''ip'', JStr ip), (''port'', JStr port), (''content'', JStr (json_str (JObj ?kvs)))]) FAdded (w_page w)\<rparr>)"
    using assms by (simp add: fw_add_def with_parts_def bar_parts_pair web_post_def Let_def)
  show "json_parse (json_str (JObj ?kvs)) = Some (JObj ?kvs)"
    by (rule json_parse_str [OF rule_fields_ok(1)])
  have "js_eq v (JStr []) \<longleftrightarrow> v = JStr []" if "map_of (rule_fields w) k = Some v" for k v
  proof -
    have "\<forall>x \<in> snd ` set (rule_fields w). x = JNull \<or> (\<exists>s. x = JStr s)"
      by (auto simp: rule_fields_def Let_def list_val_def split: option.splits)
    then show ?thesis using map_of_SomeD [OF that] by (force simp: js_eq_def)
  qed
  then show "\<forall>k. pget (JObj ?kvs) k = (case map_of (rule_fields w) k of None \<Rightarrow> JUndef
        | Some v \<Rightarrow> if v = JStr [] then JUndef else v)"
    by (auto simp: map_of_drop_empty [OF rule_fields_ok(2)] pget.simps split: option.splits)
qed

definition rule_form :: "fw_cont web" where
  "rule_form = (add_option ''#control'' ''10.0.0.1|81'' (add_option ''#action'' ''ALLOW'' fw_start))
     \<lparr>w_page := set_val ''#src-ip'' (JStr ''10.0.0.2'') blank_page,
      w_selected := (\<lambda>s. None)(''#control'' := Some ''10.0.0.1|81'', ''#action'' := Some ''ALLOW'')\<rparr>"

lemma rule_submitted_witness:
  "\<exists>c kvs. fw_add rule_form = (None, rule_form\<lparr>w_page := send POST ''../firewall/addrule''
       (post_form [(''ip'', JStr ''10.0.0.1''), (''port'', JStr ''81''), (''content'', JStr c)]) FAdded (w_page rule_form)\<rparr>) \<and>
     json_parse c = Some (JObj kvs) \<and> pget (JObj kvs) ''src-ip'' = JStr ''10.0.0.2'' \<and>
     pget (JObj kvs) ''dst-ip'' = JUndef \<and> pget (JObj kvs) ''dl-type'' = JNull"
proof -
  have "w_selected rule_form ''#control'' = Some (''10.0.0.1'' @ CHR ''|'' # ''81'')" by (simp add: rule_form_def)
  moreover have "map_of (rule_fields rule_form) ''src-ip'' = Some (JStr ''10.0.0.2'')"
    "map_of (rule_fields rule_form) ''dst-ip'' = Some (JStr [])" "map_of (rule_fields rule_form) ''dl-type'' = Some JNull"
    by (simp_all add: rule_fields_def Let_def rule_form_def list_val_def page_simps val_text_def blank_page_def)
  ultimately show ?thesis
    using rule_submitted [of rule_form "''10.0.0.1''" "''81''"] by fastforce
qed

section \<open>The list of rules\<close>

fun fw_change :: "fw_cont \<Rightarrow> bool" where
  "fw_change FAdded = True"
| "fw_change FDeleted = True"
| "fw_change k = False"

definition fw_granted :: "fw_cont \<Rightarrow> jsval \<Rightarrow> bool" where
  "fw_granted k d \<longleftrightarrow> status_ok d \<and> (k = FAdded \<longrightarrow> truthy (pget d ''data''))"

lemma fw_search_chosen:
  "w_selected w ''#control'' = Some t \<Longrightarrow> fw_search w =
     (None, w\<lparr>w_page := send POST ''../firewall/searchrule''
        (post_form [(''ip'', fst (bar_parts t)), (''port'', snd (bar_parts t))]) FRules (w_page w)\<rparr>)"
  by (simp add: fw_search_def with_parts_def web_post_def)

lemma fw_search_selected: "w_selected (snd (fw_search w)) = w_selected w"
  by (simp add: fw_search_def with_parts_def web_post_def split: option.splits)

interpretation fw_rules: managed_list "fw_callback heads" fw_change fw_granted "''../firewall/searchrule''" "\<lambda>t. FRules"
proof
  fix k d t and w :: "fw_cont web"
  assume k: "fw_change k"
  show "pending (w_page (snd (fw_callback heads k d w))) =
      pending (w_page w) @ [(reload_request ''../firewall/searchrule'' t, FRules)]"
    if "fw_granted k d" "w_selected w ''#control'' = Some t"
    using k that by (cases k) (simp_all add: fw_granted_def fw_onAdded_def fw_onDeleted_def say_def fw_search_chosen
        reload_request_def page_simps)
  show "pending (w_page (snd (fw_callback heads k d w))) = pending (w_page w)" if "\<not> fw_granted k d"
    using k that by (cases k; cases "status_ok d")
      (simp_all add: fw_granted_def fw_onAdded_def fw_onDeleted_def say_def page_simps)
  show "w_selected (snd (fw_callback heads k d w)) ''#control'' = w_selected w ''#control''"
    using k by (cases k) (simp_all add: fw_onAdded_def fw_onDeleted_def say_def fw_search_selected when_ok_cases act_when_def)
qed

end
