(* ===== verification/Web_Flows.thy ===== *)
theory Web_Flows
  imports Managed_List Json_Round Base64 Cookies
begin

text \<open>
  The page of the flow tables (\<open>flow_table_config/flow_table_config.html\<close>): the entries of the chosen controller in a
  table with the buttons to view and delete one, the dialog that clears the table of a switch, and the dialogs for
  adding and changing an entry, whose buttons the page no longer has.
\<close>

section \<open>Requests\<close>

datatype fl_cont = LControls | LCleared | LRows | LAdded | LEdited | LDeleted | LSwitches2 | LSwitches3

type_synonym fl_act = "fl_cont web_act"

definition fl_getControl :: fl_act where
  "fl_getControl = web_post ''../control/list'' [] LControls"

definition fl_search :: fl_act where
  "fl_search = with_parts ''#control'' (\<lambda>ip port. web_post ''../flowtable/search'' [(''ip'', ip), (''port'', port)] LRows)"

definition clearFlowTable :: fl_act where
  "clearFlowTable = clear_table ''../flowtable/cleanflow'' LCleared"

text \<open>
  Texts are sequences of UTF-8 bytes here, and of code units in \<open>Base64\<close>.  Characters outside of the basic plane have
  two code units in the script and are not modelled.
\<close>

definition str_units :: "string \<Rightarrow> units" where
  "str_units s = utf8_decode (map of_char s)"

definition units_str :: "units \<Rightarrow> string" where
  "units_str us = concat (map utf8_of_code us)"

definition fl_viewDetails :: "jsval \<Rightarrow> fl_act" where
  "fl_viewDetails obj = does (\<lambda>w. w\<lparr>w_location :=
     Some (''edit_flow_table.html?obj='' @ units_str (encode (str_units (stringify obj))))\<rparr>)"

text \<open>The content of a new entry is empty: all of its fields are commented out.\<close>

definition fl_add :: fl_act where
  "fl_add = with_parts ''#myModal2 #controlip'' (\<lambda>ip port.
     web_post ''../flowtable/add'' [(''ip'', ip), (''port'', port), (''content'', JStr (json_str (JObj [])))] LAdded)"

text \<open>\<open>delFlowItem\<close>, with the answer to its question.\<close>

definition delFlowItem :: "bool \<Rightarrow> jsval \<Rightarrow> fl_act" where
  "delFlowItem = delete_item ''../flowtable/del'' (\<lambda>obj. [(''ip'', pget obj ''cip''), (''port'', pget obj ''cport''),
     (''content'', JStr (json_str (JObj [(''DPID'', pget obj ''dpid''), (''uuid'', pget obj ''uuid'')])))]) LDeleted"

section \<open>The dialog for changing an entry\<close>

text \<open>
  The fields that \<open>editFlowItem\<close> fills, with those that are selection lists marked; a value for a list is a text or
  a number.
\<close>

definition item_fields :: "(string \<times> bool) list" where
  "item_fields = [(''idle_timeout'', False), (''hard_timeout'', False), (''arp_spa'', False), (''arp_tpa'', False),
     (''arp_sha'', False), (''arp_tha'', False), (''vlan-id'', False), (''src-mac'', False), (''dst-mac'', False),
     (''dl-type'', True), (''src-ip'', False), (''dst-ip'', False), (''nw-proto'', True), (''tp-src'', False),
     (''tp-dst'', False), (''vlan-priority'', False), (''nw-tos'', False), (''priority'', False), (''meter-id'', False),
     (''group-id'', False)]"

definition item_field :: "string \<Rightarrow> string" where
  "item_field k = ''#myModal1 #'' @ k"

definition fill_item :: "(string list \<Rightarrow> string option) \<Rightarrow> jsval \<Rightarrow> string \<times> bool \<Rightarrow> fl_cont web \<Rightarrow> fl_cont web" where
  "fill_item no_match obj kc =
     (let (k, choice) = kc; x = pget obj k; v = (if js_eq x (JStr ''-'') then JStr [] else x)
      in if choice then select_option no_match (item_field k) (val_text v)
         else (\<lambda>w. w\<lparr>w_page := set_val (item_field k) v (w_page w)\<rparr>))"

text \<open>\<open>$("#myModal1 #action_key").change\<close>, and that of the dialog for adding.\<close>

definition on_action_key :: "string \<Rightarrow> fl_act" where
  "on_action_key m w = at_page (set_shown (m @ '' #action_value'') (w_selected w (m @ '' #action_key'') \<noteq> Some [])) w"

definition set_action :: "(string list \<Rightarrow> string option) \<Rightarrow> jsval \<Rightarrow> fl_act" where
  "set_action no_match x =
     (let put = (\<lambda>k v. acts [does (select_option no_match (item_field ''action_key'') k),
                             at_page (set_val (item_field ''action_value'') v)])
      in if js_eq x (JStr ''-'') then put [] (JStr [])
         else case x of JStr s \<Rightarrow> (let paris = JArr (map JStr (split_on CHR ''='' s))
                                in put (val_text (elem_at paris 0)) (elem_at paris 1))
              | _ \<Rightarrow> raises TypeError)"

definition editFlowItem :: "(string list \<Rightarrow> string option) \<Rightarrow> jsval \<Rightarrow> fl_act" where
  "editFlowItem no_match obj =
     (if nullish obj then raises TypeError
      else acts
        [at_page (set_val (item_field ''controlip'')
           (JStr (js_str (pget obj ''cip'') @ ''|'' @ js_str (pget obj ''cport'')))),
         at_page (set_val (item_field ''switchid'') (pget obj ''dpid'')),
         does (fold (fill_item no_match obj) item_fields),
         set_action no_match (pget obj ''action''),
         on_action_key ''#myModal1'',
         at_page (set_shown ''#myModal1'' True)])"

definition item_content :: "fl_cont web \<Rightarrow> (string \<times> jsval) list" where
  "item_content w =
     (let field = (\<lambda>k. (k, JStr (vals (w_page w) (item_field k)))); choice = (\<lambda>k. (k, list_val (item_field k) w));
          key = w_selected w (item_field ''action_key'');
          action = (if key = Some [] then []
                    else js_str (list_val (item_field ''action_key'') w) @ ''='' @ vals (w_page w) (item_field ''action_value''))
      in [field ''switchid'', field ''src-inport'', field ''idle_timeout'', field ''hard_timeout'', field ''arp_spa'',
          field ''arp_tpa'', field ''arp_sha'', field ''arp_tha'', field ''mpls_lable'', field ''vlan-id'',
          field ''src-mac'', field ''dst-mac'', choice ''dl-type'', field ''src-ip'', field ''dst-ip'',
          choice ''nw-proto'', field ''tp-src'', field ''tp-dst'', field ''vlan-priority'', field ''nw-tos'',
          field ''priority'', (''action'', JStr action), field ''meter-id'', field ''group-id''])"

definition fl_edit :: fl_act where
  "fl_edit w =
     (let (ip, port) = bar_parts (vals (w_page w) (item_field ''controlip''))
      in web_post ''../flowtable/edit'' [(''ip'', ip), (''port'', port),
           (''content'', JStr (json_str (JObj (drop_empty (item_content w)))))] LEdited w)"

section \<open>Answers\<close>

definition flow_data :: "jsval \<Rightarrow> jsval" where
  "flow_data d = lassign (JObj (map (\<lambda>k. (k, JStr ''-''))
     [''dpid'', ''uuid'', ''creater'', ''createTime'', ''idleTimeout'', ''hardTimeout'', ''priority''])) d"

definition flow_buttons :: "jsval \<Rightarrow> string" where
  "flow_buttons datas =
     row_button ''btn-success'' (sq (''viewDetails('' @ json_str datas @ '')'')) w_view @
     ''<button type'' @ sq ''button'' @ '' class='' @ sq ''btn btn-danger btn-small'' @ '' onclick='' @
     sq (''delFlowItem('' @ json_str datas @ '')'') @ ''>'' @ w_delete @ ''</button>''"

definition flow_row :: "jsval \<Rightarrow> jsval" where
  "flow_row d = (let datas = flow_data d
     in JArr [pget datas ''dpid'', pget datas ''uuid'', pget datas ''creater'', pget datas ''createTime'',
              pget datas ''tableId'', pget datas ''idleTimeout'', pget datas ''hardTimeout'', pget datas ''priority'',
              JStr (flow_buttons datas)])"

definition fl_onRows :: "bool list \<Rightarrow> jsval \<Rightarrow> fl_act" where
  "fl_onRows heads data = when_ok data (acts
     [show_rows heads (map flow_row (each_value (pget data ''data''))),
      at_page (set_shown ''#datatable-table'' True)])"

definition fl_onControls :: "jsval \<Rightarrow> fl_act" where
  "fl_onControls = list_controls [''#control'', ''#myModal2 #controlip'', ''#myModal3 #controlip'']"

definition fl_onCleared :: "jsval \<Rightarrow> fl_act" where
  "fl_onCleared resp = when_ok resp (acts [say clear_done, hide ''#myModal3'', fl_search])"

definition fl_onAdded :: "jsval \<Rightarrow> fl_act" where
  "fl_onAdded = answer_change add_done add_failed [hide ''#myModal2'', fl_search]"

definition fl_onEdited :: "jsval \<Rightarrow> fl_act" where
  "fl_onEdited = answer_change edit_done edit_failed [hide ''#myModal1'', fl_search]"

definition fl_onDeleted :: "jsval \<Rightarrow> fl_act" where
  "fl_onDeleted = answer_change del_done del_failed [fl_search]"

fun fl_callback :: "bool list \<Rightarrow> fl_cont \<Rightarrow> jsval \<Rightarrow> fl_act" where
  "fl_callback heads LControls = fl_onControls"
| "fl_callback heads LCleared = fl_onCleared"
| "fl_callback heads LRows = fl_onRows heads"
| "fl_callback heads LAdded = fl_onAdded"
| "fl_callback heads LEdited = fl_onEdited"
| "fl_callback heads LDeleted = fl_onDeleted"
| "fl_callback heads LSwitches2 = list_switches ''#myModal2 #switchid''"
| "fl_callback heads LSwitches3 = list_switches ''#myModal3 #switchid''"

section \<open>Handlers of the page\<close>

definition fl_on_clear_control :: fl_act where
  "fl_on_clear_control = choose_control ''#myModal3 #controlip'' ''#myModal3 #switchid'' LSwitches3"

definition fl_on_add_control :: fl_act where
  "fl_on_add_control = with_parts ''#myModal2 #controlip'' (\<lambda>ip port.
     web_post ''../switchinfo'' [(''ip'', ip), (''port'', port)] LSwitches2)"

definition fl_init :: "string \<Rightarrow> fl_act" where
  "fl_init user = acts [at_page (set_html ''#user_login span'' user), at_page (set_shown ''#datatable-table'' False),
     fl_getControl]"

section \<open>The list of entries\<close>

fun fl_change :: "fl_cont \<Rightarrow> bool" where
  "fl_change LControls = False"
| "fl_change LRows = False"
| "fl_change LSwitches2 = False"
| "fl_change LSwitches3 = False"
| "fl_change k = True"

definition fl_granted :: "fl_cont \<Rightarrow> jsval \<Rightarrow> bool" where
  "fl_granted k d \<longleftrightarrow> status_ok d \<and> (k \<noteq> LCleared \<longrightarrow> truthy (pget d ''data''))"

lemma fl_search_chosen:
  "w_selected w ''#control'' = Some t \<Longrightarrow> fl_search w =
     (None, w\<lparr>w_page := send POST ''../flowtable/search''
        (post_form [(''ip'', fst (bar_parts t)), (''port'', snd (bar_parts t))]) LRows (w_page w)\<rparr>)"
  by (simp add: fl_search_def with_parts_def web_post_def)

lemma fl_search_selected: "w_selected (snd (fl_search w)) = w_selected w"
  by (simp add: fl_search_def with_parts_def web_post_def split: option.splits)

lemmas fl_changes = fl_onAdded_def fl_onEdited_def fl_onDeleted_def fl_onCleared_def answer_change_def hide_def say_def

interpretation fl_entries: managed_list "fl_callback heads" fl_change fl_granted "''../flowtable/search''" "\<lambda>t. LRows"
proof
  fix k d t and w :: "fl_cont web"
  assume k: "fl_change k"
  show "pending (w_page (snd (fl_callback heads k d w))) =
      pending (w_page w) @ [(reload_request ''../flowtable/search'' t, LRows)]"
    if "fl_granted k d" "w_selected w ''#control'' = Some t"
    using k that by (cases k) (simp_all add: fl_granted_def fl_changes fl_search_chosen reload_request_def page_simps)
  show "pending (w_page (snd (fl_callback heads k d w))) = pending (w_page w)" if "\<not> fl_granted k d"
    using k that by (cases k; cases "status_ok d") (simp_all add: fl_granted_def fl_changes fl_search_chosen reload_request_def page_simps)
  show "w_selected (snd (fl_callback heads k d w)) ''#control'' = w_selected w ''#control''"
    using k by (cases k) (simp_all add: fl_changes fl_search_selected when_ok_cases act_when_def)
qed

text \<open>
  C22: the list of flow entries follows its changes.  When additions, changes, deletions and clearings wait for
  their answers, then after all of them have come, in any order, the page has asked for the list again exactly once for
  each that was granted, with the chosen controller, and for nothing else.
\<close>

theorem flow_changes_reload:
  assumes "answers_each qs as" "\<forall>q \<in> set qs. fl_change (snd q)" "pending (w_page w) = qs"
    and "w_selected w ''#control'' = Some t"
  shows "pending (w_page (answer_all (fl_callback heads) as w)) =
    replicate (count_granted fl_granted qs as) (reload_request ''../flowtable/search'' t, LRows)"
  using fl_entries.each_grant_reloads [of qs as w "[]" t heads] assms by simp

definition two_deletions :: "fl_cont web" where
  "two_deletions = snd (acts [delFlowItem True (JObj [(''uuid'', JStr ''1'')]), delFlowItem True (JObj [(''uuid'', JStr ''2'')])]
     (add_option ''#control'' ''all|all'' blank_web))"

lemma flow_changes_reload_witness:
  "pending (w_page (answer_all (fl_callback [])
     [(1, Success (JObj [(''status'', JStr ''0''), (''data'', JBool True)])), (0, Failure [])] two_deletions)) =
   [(reload_request ''../flowtable/search'' ''all|all'', LRows)]"
proof -
  have "w_selected two_deletions ''#control'' = Some ''all|all''"
    by (simp add: two_deletions_def delFlowItem_def delete_item_def web_post_def add_option_def Let_def blank_web_def)
  moreover have "length (pending (w_page two_deletions)) = 2" "map snd (pending (w_page two_deletions)) = [LDeleted, LDeleted]"
    by (simp_all add: two_deletions_def delFlowItem_def delete_item_def web_post_def add_option_def Let_def page_simps blank_web_def
        blank_page_def)
  then obtain r s where "pending (w_page two_deletions) = [(r, LDeleted), (s, LDeleted)]"
    by (auto simp: map_eq_Cons_conv)
  ultimately show ?thesis
    using flow_changes_reload [of "[(r, LDeleted), (s, LDeleted)]"
      "[(1, Success (JObj [(''status'', JStr ''0''), (''data'', JBool True)])), (0, Failure [])]" two_deletions "''all|all''" "[]"]
    by (simp add: grants_def fl_granted_def status_ok_def pget.simps)
qed

end
