(* ===== verification/Web_Forms.thy ===== *)
theory Web_Forms
  imports Js_Value
begin

text \<open>
  The forms for flow entries (\<open>flow_table_config/edit_flow_table.html\<close> and \<open>add_flow_table.html\<close>).  A form is a tree
  of elements; the functions \<open>loop_obj\<close> and \<open>loop_for_value_by_id\<close> of the pages write the properties of an entry into
  its fields and read an entry from them.  Groups of fields are elements of class \<open>child\<close>, and the attribute \<open>level\<close>
  tells how deep a field is.  Elements of the pages without an id and a level appear only as children of groups.
\<close>

section \<open>Elements\<close>

text \<open>The number of the element in its page, \<open>id\<close>, \<open>level\<close>, whether it is of class \<open>child\<close>, whether it is a field.\<close>

datatype el = El (el_addr: nat) (el_id: string) (el_level: "string option") (el_child: bool) (el_field: bool)
  (el_kids: "el list")

text \<open>The values of the fields.  A selection list without a choice has none.\<close>

type_synonym field_values = "nat \<Rightarrow> string option"

fun all_els :: "el \<Rightarrow> el list" where
  "all_els (El a i l c f ks) = El a i l c f ks # concat (map all_els ks)"

definition descendants :: "el \<Rightarrow> el list" where
  "descendants e = concat (map all_els (el_kids e))"

lemma all_els_size: "d \<in> set (all_els e) \<Longrightarrow> size d \<le> size e"
proof (induction e rule: all_els.induct)
  case (1 a i l c f ks)
  then consider "d = El a i l c f ks" | k where "k \<in> set ks" "d \<in> set (all_els k)" by auto
  then show ?case
  proof cases
    case 2
    then have "size d \<le> size k" using 1(1) by blast
    also have "\<dots> \<le> size_list size ks" using 2(1) by (simp add: size_list_estimation')
    finally show ?thesis by simp
  qed simp
qed

lemma descendants_size: "d \<in> set (descendants e) \<Longrightarrow> size d < size e"
proof (cases e)
  case (El a i l c f ks)
  assume "d \<in> set (descendants e)"
  then obtain k where k: "k \<in> set ks" "d \<in> set (all_els k)" using El by (auto simp: descendants_def)
  then have "size d \<le> size_list size ks"
    using all_els_size [OF k(2)] size_list_estimation' [of k ks "size d" size] by simp
  then show ?thesis using El by simp
qed

text \<open>\<open>obj.find("[level='\<dots>']")\<close>\<close>

definition find_level :: "string \<Rightarrow> el \<Rightarrow> el list" where
  "find_level lv e = filter (\<lambda>d. el_level d = Some lv) (descendants e)"

text \<open>
  \<open>$("#" + k, ctx)\<close> for a name \<open>k\<close> that is an identifier, as those of the entries are.  In each element of \<open>ctx\<close> it is
  the first element of the document with that id, when this one is inside, and all those inside with that id
  otherwise.
\<close>

definition select_id :: "el \<Rightarrow> string \<Rightarrow> el list \<Rightarrow> el list" where
  "select_id doc k ctx = concat (map (\<lambda>e.
     (let inside = descendants e
      in case find (\<lambda>d. el_id d = k) (all_els doc) of
           None \<Rightarrow> []
         | Some d \<Rightarrow> if el_addr d \<in> set (map el_addr inside) then [d] else filter (\<lambda>d. el_id d = k) inside)) ctx)"

section \<open>Reading a form\<close>

definition level_of :: "el \<Rightarrow> string" where
  "level_of e = (case el_level e of None \<Rightarrow> ''undefined'' | Some l \<Rightarrow> l)"

text \<open>\<open>.val()\<close>\<close>

definition el_val :: "field_values \<Rightarrow> el \<Rightarrow> jsval" where
  "el_val st e = (if el_field e then (case st (el_addr e) of None \<Rightarrow> JNull | Some s \<Rightarrow> JStr s) else JStr [])"

definition set_all :: "(string \<times> jsval) list \<Rightarrow> (string \<times> jsval) list" where
  "set_all entries = fold (\<lambda>(k, v). AList.update k v) entries []"

text \<open>\<open>loop_for_value_by_id\<close> of the page for editing.\<close>

function edit_values :: "el \<Rightarrow> string \<Rightarrow> field_values \<Rightarrow> jsval" where
  "edit_values obj level st = JObj (set_all (map (\<lambda>d. (el_id d,
     if el_child d then edit_values d ''1'' st else el_val st d)) (find_level (level_of obj @ level) obj)))"
  by pat_completeness auto

termination
  by (relation "measure (\<lambda>(e, l, st). size e)") (auto simp: find_level_def descendants_size)

text \<open>
  That of the page for adding: a group named \<open>writeAction\<close> is read only when its first child element has a value, and
  an object without properties is not returned.
\<close>

definition first_child_val :: "field_values \<Rightarrow> el \<Rightarrow> jsval" where
  "first_child_val st e = (case el_kids e of [] \<Rightarrow> JUndef | k # _ \<Rightarrow> el_val st k)"

definition obj_or_undefined :: "(string \<times> jsval) list \<Rightarrow> jsval" where
  "obj_or_undefined kvs = (if kvs = [] then JUndef else JObj kvs)"

function add_values :: "el \<Rightarrow> string \<Rightarrow> field_values \<Rightarrow> jsval" where
  "add_values obj level st = obj_or_undefined (set_all (concat (map (\<lambda>d.
     if el_child d then
       (if truthy (first_child_val st d) \<or> el_id d \<noteq> ''writeAction'' then [(el_id d, add_values d ''1'' st)] else [])
     else [(el_id d, el_val st d)]) (find_level (level_of obj @ level) obj))))"
  by pat_completeness auto

termination
  by (relation "measure (\<lambda>(e, l, st). size e)") (auto simp: find_level_def descendants_size)

declare edit_values.simps [simp del] add_values.simps [simp del]

section \<open>Filling a form\<close>

text \<open>
  \<open>loop_obj\<close>: the writes in their order.  A property that is an object (or null, which the script takes for
  one) is written into the element of its name, any other is the value of that element, which is a text
  field and drops line breaks.
\<close>

definition val_string :: "jsval \<Rightarrow> string" where
  "val_string v = one_line (if nullish v then [] else js_str v)"

lemma own_props_size: "(k, x) \<in> set (own_props v) \<Longrightarrow> is_object x \<or> x = JNull \<Longrightarrow> size x < size v"
proof (cases v)
  case (JArr vs)
  assume "(k, x) \<in> set (own_props v)"
  then have "x \<in> set vs" using JArr by (auto dest: set_zip_rightD)
  then have "size x \<le> size_list size vs" by (simp add: size_list_estimation')
  then show ?thesis using JArr by simp
next
  case (JObj kvs)
  assume "(k, x) \<in> set (own_props v)"
  then show ?thesis using JObj jsval_size_prop [of k x kvs] by simp
next
  case (JStr s)
  assume "(k, x) \<in> set (own_props v)" "is_object x \<or> x = JNull"
  then have "x \<in> set (map (\<lambda>c. JStr [c]) s)" using JStr by (auto dest: set_zip_rightD)
  then show ?thesis using \<open>is_object x \<or> x = JNull\<close> by auto
qed auto

function writes :: "el \<Rightarrow> jsval \<Rightarrow> el list \<Rightarrow> (nat \<times> string) list" where
  "writes doc v ctx = concat (map (\<lambda>(k, x). let selector = select_id doc k ctx in
     if is_object x \<or> x = JNull then writes doc x selector
     else map (\<lambda>e. (el_addr e, val_string x)) selector) (own_props v))"
  by pat_completeness auto

termination
  by (relation "measure (\<lambda>(doc, v, ctx). size v)") (auto dest: own_props_size)

declare writes.simps [simp del]

definition loop_obj :: "el \<Rightarrow> jsval \<Rightarrow> el list \<Rightarrow> field_values \<Rightarrow> field_values" where
  "loop_obj doc v ctx st = fold (\<lambda>(a, s) st. st(a := Some s)) (writes doc v ctx) st"

section \<open>The form for editing\<close>

definition edit_match :: el where
  "edit_match =
    El 16 ''match'' None True False [
     El 17 [] None False False [
      El 18 ''collapseOne'' None False False [
       El 19 ''inport'' None False True [],
       El 20 ''ethDst'' None False True [],
       El 21 ''ethSrc'' None False True [],
       El 22 ''ethType'' None False True [],
       El 23 ''vlanId'' None False True [],
       El 24 ''vlanPcp'' None False True [],
       El 25 ''ipDscp'' None False True [],
       El 26 ''ipEcn'' (Some ''l11'') False True [],
       El 27 ''ipProto'' None False True [],
       El 28 ''ipv4Src'' None False True [],
       El 29 ''ipv4Dst'' None False True [],
       El 30 ''tcpSrc'' None False True [],
       El 31 ''tcpDst'' None False True [],
       El 32 ''udpSrc'' None False True [],
       El 33 ''udpDst'' None False True [],
       El 34 ''arpOp'' None False True [],
       El 35 ''arpSpa'' None False True [],
       El 36 ''arpTpa'' None False True [],
       El 37 ''arpSha'' None False True [],
       El 38 ''arpTha'' None False True [],
       El 39 ''mplsLabel'' None False True []]]]"

definition edit_applySetField :: el where
  "edit_applySetField =
    El 52 ''setField'' (Some ''l111'') True False [
     El 53 [] None False False [],
     El 54 ''collapsetgroup'' None False False [
      El 55 ''inport'' (Some ''l1111'') False True [],
      El 56 ''ethDst'' (Some ''l1111'') False True [],
      El 57 ''ethSrc'' (Some ''l1111'') False True [],
      El 58 ''ethType'' (Some ''l1111'') False True [],
      El 59 ''vlanId'' (Some ''l1111'') False True [],
      El 60 ''vlanPcp'' (Some ''l1111'') False True [],
      El 61 ''ipDscp'' (Some ''l1111'') False True [],
      El 62 ''ipEcn'' (Some ''l1111'') False True [],
      El 63 ''ipProto'' (Some ''l1111'') False True [],
      El 64 ''ipv4Src'' (Some ''l1111'') False True [],
      El 65 ''ipv4Dst'' (Some ''l1111'') False True [],
      El 66 ''tcpSrc'' (Some ''l1111'') False True [],
      El 67 ''tcpDst'' (Some ''l1111'') False True [],
      El 68 ''udpSrc'' (Some ''l1111'') False True [],
      El 69 ''udpDst'' (Some ''l1111'') False True [],
      El 70 ''arpOp'' (Some ''l1111'') False True [],
      El 71 ''arpSpa'' (Some ''l1111'') False True [],
      El 72 ''arpTpa'' (Some ''l1111'') False True [],
      El 73 ''arpSha'' (Some ''l1111'') False True [],
      El 74 ''arpTha'' (Some ''l1111'') False True [],
      El 75 ''mplsLabel'' (Some ''l1111'') False True []]]"

definition edit_applyAction :: el where
  "edit_applyAction =
    El 43 ''applyAction'' (Some ''l11'') True False [
     El 44 [] None False False [],
     El 45 ''collapseapplyAction'' None False False [
      El 46 ''output'' (Some ''l111'') False True [],
      El 47 ''pushVlan'' (Some ''l111'') False True [],
      El 48 ''popVlan'' (Some ''l111'') False True [],
      El 49 ''pushMpls'' (Some ''l111'') False True [],
      El 50 ''popMpls'' (Some ''l111'') False True [],
      El 51 ''group'' (Some ''l111'') False True [],
      edit_applySetField]]"

definition edit_writeSetField :: el where
  "edit_writeSetField =
    El 85 ''setField'' (Some ''l111'') True False [
     El 86 [] None False False [],
     El 87 ''collapesetField'' None False False [
      El 88 ''inport'' (Some ''l1111'') False True [],
      El 89 ''ethDst'' (Some ''l1111'') False True [],
      El 90 ''ethSrc'' (Some ''l1111'') False True [],
      El 91 ''vlanId'' (Some ''l1111'') False True [],
      El 92 ''vlanPcp'' (Some ''l1111'') False True [],
      El 93 ''ipDscp'' (Some ''l1111'') False True [],
      El 94 ''ipEcn'' (Some ''l1111'') False True [],
      El 95 ''ipProto'' (Some ''l1111'') False True [],
      El 96 ''ipv4Src'' (Some ''l1111'') False True [],
      El 97 ''ipv4Dst'' (Some ''l1111'') False True [],
      El 98 ''tcpSrc'' (Some ''l1111'') False True [],
      El 99 ''tcpDst'' (Some ''l1111'') False True [],
      El 100 ''udpSrc'' (Some ''l1111'') False True [],
      El 101 ''udpDst'' (Some ''l1111'') False True [],
      El 102 ''arpOp'' (Some ''l1111'') False True [],
      El 103 ''arpSpa'' (Some ''l1111'') False True [],
      El 104 ''arpTpa'' (Some ''l1111'') False True [],
      El 105 ''arpSha'' (Some ''l1111'') False True [],
      El 106 ''arpTha'' (Some ''l1111'') False True [],
      El 107 ''mplsLabel'' (Some ''l1111'') False True []]]"

definition edit_writeAction :: el where
  "edit_writeAction =
    El 76 ''writeAction'' (Some ''l11'') True False [
     El 77 [] None False False [],
     El 78 ''collapsewriteAction'' None False False [
      El 79 ''output'' (Some ''l111'') False True [],
      El 80 ''pushVlan'' (Some ''l111'') False True [],
      El 81 ''popVlan'' (Some ''l111'') False True [],
      El 82 ''pushMpls'' (Some ''l111'') False True [],
      El 83 ''popMpls'' (Some ''l111'') False True [],
      El 84 ''group'' (Some ''l111'') False True [],
      edit_writeSetField]]"

definition edit_instruction :: el where
  "edit_instruction =
    El 40 ''instruction'' (Some ''l1'') True False [
     El 41 [] None False False [
      El 42 ''collapseactions'' None False False [
       edit_applyAction,
       edit_writeAction,
       El 108 ''clearAction'' (Some ''l11'') False True [],
       El 109 ''gotoTable'' (Some ''l11'') False True [],
       El 110 ''meter'' (Some ''l11'') False True []]]]"

definition edit_form :: el where
  "edit_form =
    El 6 [] (Some ''l1'') False False [
     El 7 ''controller'' None False True [],
     El 8 ''dpid'' (Some ''l1'') False True [],
     El 9 ''uuid'' (Some ''l1'') False True [],
     El 10 ''creater'' None False True [],
     El 11 ''createTime'' None False True [],
     El 12 ''tableId'' None False True [],
     El 13 ''idleTimeout'' None False True [],
     El 14 ''hardTimeout'' None False True [],
     El 15 ''priority'' None False True [],
     edit_match,
     edit_instruction]"

definition edit_body :: el where
  "edit_body =
    El 0 [] None False False [
     El 1 ''sidebar'' None False False [
      El 2 ''side-nav'' None False False []],
     El 3 ''user_login'' None False False [],
     El 4 ''myModal2'' None False False [
      El 5 ''user-form'' None False False [
       edit_form]],
     El 111 ''flow_preserve'' None False False [],
     El 112 ''myModal'' None False False [
      El 113 ''myModalLabel'' None False False [],
      El 114 ''flow_details'' None False False []]]"

section \<open>The form for adding\<close>

definition add_match :: el where
  "add_match =
    El 13 ''match'' (Some ''l1'') True False [
     El 14 [] None False False [
      El 15 ''collapseOne'' None False False [
       El 16 ''inport'' (Some ''l11'') False True [],
       El 17 ''ethDst'' (Some ''l11'') False True [],
       El 18 ''ethSrc'' (Some ''l11'') False True [],
       El 19 ''ethType'' (Some ''l11'') False True [],
       El 20 ''vlanId'' (Some ''l11'') False True [],
       El 21 ''vlanPcp'' (Some ''l11'') False True [],
       El 22 ''ipDscp'' (Some ''l11'') False True [],
       El 23 ''ipEcn'' (Some ''l11'') False True [],
       El 24 ''ipProto'' (Some ''l11'') False True [],
       El 25 ''ipv4Src'' (Some ''l11'') False True [],
       El 26 ''ipv4Dst'' (Some ''l11'') False True [],
       El 27 ''tcpSrc'' (Some ''l11'') False True [],
       El 28 ''tcpDst'' (Some ''l11'') False True [],
       El 29 ''udpSrc'' (Some ''l11'') False True [],
       El 30 ''udpDst'' (Some ''l11'') False True [],
       El 31 ''arpOp'' (Some ''l11'') False True [],
       El 32 ''arpSpa'' (Some ''l11'') False True [],
       El 33 ''arpTpa'' (Some ''l11'') False True [],
       El 34 ''arpSha'' (Some ''l11'') False True [],
       El 35 ''arpTha'' (Some ''l11'') False True [],
       El 36 ''mplsLabel'' (Some ''l11'') False True []]]]"

definition add_applySetField :: el where
  "add_applySetField =
    El 49 ''setField'' (Some ''l111'') True False [
     El 50 [] None False False [],
     El 51 ''collapsetgroup'' None False False [
      El 52 ''inport'' (Some ''l1111'') False True [],
      El 53 ''ethDst'' (Some ''l1111'') False True [],
      El 54 ''ethSrc'' (Some ''l1111'') False True [],
      El 55 ''ethType'' (Some ''l1111'') False True [],
      El 56 ''vlanId'' (Some ''l1111'') False True [],
      El 57 ''vlanPcp'' (Some ''l1111'') False True [],
      El 58 ''ipDscp'' (Some ''l1111'') False True [],
      El 59 ''ipEcn'' (Some ''l1111'') False True [],
      El 60 ''ipProto'' (Some ''l1111'') False True [],
      El 61 ''ipv4Src'' (Some ''l1111'') False True [],
      El 62 ''ipv4Dst'' (Some ''l1111'') False True [],
      El 63 ''tcpSrc'' (Some ''l1111'') False True [],
      El 64 ''tcpDst'' (Some ''l1111'') False True [],
      El 65 ''udpSrc'' (Some ''l1111'') False True [],
      El 66 ''udpDst'' (Some ''l1111'') False True [],
      El 67 ''arpOp'' (Some ''l1111'') False True [],
      El 68 ''arpSpa'' (Some ''l1111'') False True [],
      El 69 ''arpTpa'' (Some ''l1111'') False True [],
      El 70 ''arpSha'' (Some ''l1111'') False True [],
      El 71 ''arpTha'' (Some ''l1111'') False True [],
      El 72 ''mplsLabel'' (Some ''l1111'') False True []]]"

definition add_applyAction :: el where
  "add_applyAction =
    El 40 ''applyAction'' (Some ''l11'') True False [
     El 41 [] None False False [],
     El 42 ''collapseapplyAction'' None False False [
      El 43 ''output'' (Some ''l111'') False True [],
      El 44 ''pushVlan'' (Some ''l111'') False True [],
      El 45 ''popVlan'' (Some ''l111'') False True [],
      El 46 ''pushMpls'' (Some ''l111'') False True [],
      El 47 ''popMpls'' (Some ''l111'') False True [],
      El 48 ''group'' (Some ''l111'') False True [],
      add_applySetField]]"

definition add_writeSetField :: el where
  "add_writeSetField =
    El 82 ''setField'' (Some ''l111'') True False [
     El 83 [] None False False [],
     El 84 ''collapesetField'' None False False [
      El 85 ''inport'' (Some ''l1111'') False True [],
      El 86 ''ethDst'' (Some ''l1111'') False True [],
      El 87 ''ethSrc'' (Some ''l1111'') False True [],
      El 88 ''vlanId'' (Some ''l1111'') False True [],
      El 89 ''vlanPcp'' (Some ''l1111'') False True [],
      El 90 ''ipDscp'' (Some ''l1111'') False True [],
      El 91 ''ipEcn'' (Some ''l1111'') False True [],
      El 92 ''ipProto'' (Some ''l1111'') False True [],
      El 93 ''ipv4Src'' (Some ''l1111'') False True [],
      El 94 ''ipv4Dst'' (Some ''l1111'') False True [],
      El 95 ''tcpSrc'' (Some ''l1111'') False True [],
      El 96 ''tcpDst'' (Some ''l1111'') False True [],
      El 97 ''udpSrc'' (Some ''l1111'') False True [],
      El 98 ''udpDst'' (Some ''l1111'') False True [],
      El 99 ''arpOp'' (Some ''l1111'') False True [],
      El 100 ''arpSpa'' (Some ''l1111'') False True [],
      El 101 ''arpTpa'' (Some ''l1111'') False True [],
      El 102 ''arpSha'' (Some ''l1111'') False True [],
      El 103 ''arpTha'' (Some ''l1111'') False True [],
      El 104 ''mplsLabel'' (Some ''l1111'') False True []]]"

definition add_writeAction :: el where
  "add_writeAction =
    El 73 ''writeAction'' (Some ''l11'') True False [
     El 74 [] None False False [],
     El 75 ''collapsewriteAction'' None False False [
      El 76 ''output'' (Some ''l111'') False True [],
      El 77 ''pushVlan'' (Some ''l111'') False True [],
      El 78 ''popVlan'' (Some ''l111'') False True [],
      El 79 ''pushMpls'' (Some ''l111'') False True [],
      El 80 ''popMpls'' (Some ''l111'') False True [],
      El 81 ''group'' (Some ''l111'') False True [],
      add_writeSetField]]"

definition add_instruction :: el where
  "add_instruction =
    El 37 ''instruction'' (Some ''l1'') True False [
     El 38 [] None False False [
      El 39 ''collapseactions'' None False False [
       add_applyAction,
       add_writeAction,
       El 105 ''clearAction'' None False False [
        El 106 ''clearAction'' (Some ''l11'') False True []],
       El 107 ''gotoTable'' None False False [
        El 108 ''gotoTable'' (Some ''l11'') False True []],
       El 109 ''meter'' None False False [
        El 110 ''meter'' (Some ''l11'') False True []]]]]"

definition add_form :: el where
  "add_form =
    El 6 [] (Some ''l1'') False False [
     El 7 ''controller'' (Some ''l1'') False True [],
     El 8 ''DPID'' (Some ''l1'') False True [],
     El 9 ''tableId'' (Some ''l1'') False True [],
     El 10 ''idleTimeout'' (Some ''l1'') False True [],
     El 11 ''hardTimeout'' (Some ''l1'') False True [],
     El 12 ''priority'' (Some ''l1'') False True [],
     add_match,
     add_instruction]"

definition add_body :: el where
  "add_body =
    El 0 [] None False False [
     El 1 ''sidebar'' None False False [
      El 2 ''side-nav'' None False False []],
     El 3 ''user_login'' None False False [],
     El 4 ''myModal2'' None False False [
      El 5 ''user-form'' None False False [
       add_form]],
     El 111 ''flow_preserve'' None False False [],
     El 112 ''myModal'' None False False [
      El 113 ''myModalLabel'' None False False [],
      El 114 ''flow_details'' None False False []]]"

end
