(* ===== verification/Form_Values.thy ===== *)
theory Form_Values
  imports Web_Forms Json_Round
begin

text \<open>
  What the functions on forms do, by the structure of the form: the values that \<open>edit_values\<close> finds by the
  attribute \<open>level\<close> are those of the fields of each group, in their order; a value written by \<open>loop_obj\<close> under a
  path of names is the value of the element that the names lead to.
\<close>

section \<open>Levels\<close>

text \<open>
  A form follows the scheme of levels when the elements of a group at level \<open>lv\<close> that have a level have this one, the
  fields of a group in it one more, and nothing inside a field has one.  An element with a longer level outside
  of every group of that level is never found, and allowed.
\<close>

fun levels_ok :: "string \<Rightarrow> el \<Rightarrow> bool" where
  "levels_ok lv (El a i l c f ks) \<longleftrightarrow> (case l of
       None \<Rightarrow> list_all (levels_ok lv) ks
     | Some m \<Rightarrow>
         if m = lv then (if c then list_all (levels_ok (lv @ ''1'')) ks else ks = [])
         else length lv < length m \<and> ks = [])"

text \<open>The elements of a group: those of its level that are not inside another one.\<close>

fun members :: "string \<Rightarrow> el \<Rightarrow> el list" where
  "members lv (El a i l c f ks) = (case l of
       None \<Rightarrow> concat (map (members lv) ks)
     | Some m \<Rightarrow> if m = lv then [El a i l c f ks] else [])"

lemma levels_longer:
  "levels_ok lv e \<Longrightarrow> d \<in> set (all_els e) \<Longrightarrow> el_level d = Some m \<Longrightarrow> length lv \<le> length m"
proof (induction lv e rule: levels_ok.induct)
  case (1 lv a i l c f ks)
  show ?case
  proof (cases "d = El a i l c f ks")
    case True
    then show ?thesis using 1(3,5) by (auto split: if_splits)
  next
    case False
    then obtain k where k: "k \<in> set ks" "d \<in> set (all_els k)" using 1(4) by auto
    show ?thesis
    proof (cases l)
      case None
      then show ?thesis using 1(1) [OF _ k(1) _ k(2) 1(5)] 1(3) k(1) by (simp add: list_all_iff)
    next
      case (Some x)
      then have "x = lv" "c" "list_all (levels_ok (lv @ ''1'')) ks" using 1(3) k(1) by (auto split: if_splits)
      then show ?thesis using 1(2) [OF Some _ _ k(1) _ k(2) 1(5)] k(1) by (fastforce simp: list_all_iff)
    qed
  qed
qed

lemma found_members: "levels_ok lv e \<Longrightarrow> filter (\<lambda>d. el_level d = Some lv) (all_els e) = members lv e"
proof (induction lv e rule: levels_ok.induct)
  case (1 lv a i l c f ks)
  show ?case
  proof (cases l)
    case None
    then have "map (\<lambda>k. filter (\<lambda>d. el_level d = Some lv) (all_els k)) ks = map (members lv) ks"
      using 1(1,3) by (auto simp: list_all_iff)
    then show ?thesis using None by (simp add: filter_concat o_def cong: map_cong)
  next
    case (Some m)
    show ?thesis
    proof (cases "m = lv \<and> c")
      case True
      have "\<not> el_level d = Some lv" if "k \<in> set ks" "d \<in> set (all_els k)" for k d
        using levels_longer [of "lv @ ''1''" k d lv] 1(3) that True Some by (auto simp: list_all_iff)
      then have "filter (\<lambda>d. el_level d = Some lv) (concat (map all_els ks)) = []" by (auto simp: filter_empty_conv)
      then show ?thesis using True Some by simp
    next
      case False
      then show ?thesis using 1(3) Some by (auto split: if_splits)
    qed
  qed
qed

lemma find_level_members:
  assumes "list_all (levels_ok lv) (el_kids e)"
  shows "find_level lv e = concat (map (members lv) (el_kids e))"
proof -
  have "map (\<lambda>k. filter (\<lambda>d. el_level d = Some lv) (all_els k)) (el_kids e) = map (members lv) (el_kids e)"
    using assms found_members by (auto simp: list_all_iff)
  then show ?thesis by (simp add: find_level_def descendants_def filter_concat o_def cong: map_cong)
qed

section \<open>Values by structure\<close>

fun group_values :: "string \<Rightarrow> field_values \<Rightarrow> el \<Rightarrow> (string \<times> jsval) list" where
  "group_values lv st (El a i l c f ks) = (case l of
       None \<Rightarrow> concat (map (group_values lv st) ks)
     | Some m \<Rightarrow>
         if m = lv then [(i, if c then JObj (concat (map (group_values (lv @ ''1'') st) ks))
                             else el_val st (El a i l c f ks))]
         else [])"

text \<open>The names in a group are distinct, and so on inside.\<close>

fun names_ok :: "string \<Rightarrow> el \<Rightarrow> bool" where
  "names_ok lv (El a i l c f ks) \<longleftrightarrow> (case l of
       None \<Rightarrow> list_all (names_ok lv) ks
     | Some m \<Rightarrow>
         m = lv \<and> c \<longrightarrow> distinct (map el_id (concat (map (members (lv @ ''1'')) ks))) \<and>
           list_all (names_ok (lv @ ''1'')) ks)"

lemma set_all_distinct: "distinct (map fst kvs) \<Longrightarrow> set_all kvs = kvs"
proof -
  have "distinct (map fst (acc @ kvs)) \<Longrightarrow> fold (\<lambda>(k, v). AList.update k v) kvs acc = acc @ kvs" for acc
  proof (induction kvs arbitrary: acc)
    case (Cons kv kvs)
    have "k \<notin> set (map fst as) \<Longrightarrow> AList.update k v as = as @ [(k, v)]" for k v and as :: "(string \<times> jsval) list"
      by (induction as) auto
    then show ?case using Cons by (cases kv) auto
  qed simp
  from this [of "[]"] show "distinct (map fst kvs) \<Longrightarrow> set_all kvs = kvs" by (simp add: set_all_def)
qed

lemma group_values_members:
  "levels_ok lv e \<Longrightarrow> map fst (group_values lv st e) = map el_id (members lv e)"
proof (induction lv e rule: levels_ok.induct)
  case (1 lv a i l c f ks)
  show ?case
  proof (cases l)
    case None
    then have "map (\<lambda>k. map fst (group_values lv st k)) ks = map (\<lambda>k. map el_id (members lv k)) ks"
      using 1(1,3) by (auto simp: list_all_iff)
    then show ?thesis using None by (simp add: map_concat o_def cong: map_cong)
  qed simp
qed

definition group_ok :: "string \<Rightarrow> el list \<Rightarrow> bool" where
  "group_ok lv ks \<longleftrightarrow> list_all (levels_ok lv) ks \<and> list_all (names_ok lv) ks \<and>
     distinct (map el_id (concat (map (members lv) ks)))"

definition member_value :: "string \<Rightarrow> field_values \<Rightarrow> el \<Rightarrow> string \<times> jsval" where
  "member_value lv st d = (el_id d,
     if el_child d then JObj (concat (map (group_values (lv @ ''1'') st) (el_kids d))) else el_val st d)"

lemma group_values_map: "group_values lv st e = map (member_value lv st) (members lv e)"
proof (induction lv e rule: members.induct)
  case (1 lv a i l c f ks)
  show ?case
  proof (cases l)
    case None
    then have "map (group_values lv st) ks = map (\<lambda>k. map (member_value lv st) (members lv k)) ks"
      using 1 by auto
    then show ?thesis using None by (simp add: map_concat o_def cong: map_cong)
  qed (simp add: member_value_def)
qed

lemma members_ok:
  "levels_ok lv e \<Longrightarrow> names_ok lv e \<Longrightarrow> d \<in> set (members lv e) \<Longrightarrow>
     el_level d = Some lv \<and> (el_child d \<longrightarrow> group_ok (lv @ ''1'') (el_kids d))"
proof (induction lv e rule: members.induct)
  case (1 lv a i l c f ks)
  then show ?case by (cases l) (auto simp: group_ok_def list_all_iff split: if_splits)
qed

lemma edit_values_group:
  "group_ok (level_of e @ level) (el_kids e) \<Longrightarrow>
     edit_values e level st = JObj (concat (map (group_values (level_of e @ level) st) (el_kids e)))"
proof (induction e level st rule: edit_values.induct)
  case (1 e level st)
  let ?lv = "level_of e @ level"
  let ?ms = "concat (map (members ?lv) (el_kids e))"
  have ms: "find_level ?lv e = ?ms"
    using 1(2) by (intro find_level_members) (simp add: group_ok_def)
  have v: "(if el_child d then edit_values d ''1'' st else el_val st d) = snd (member_value ?lv st d)" if "d \<in> set ?ms" for d
  proof -
    obtain k where k: "k \<in> set (el_kids e)" "d \<in> set (members ?lv k)" using \<open>d \<in> set ?ms\<close> by auto
    then have d: "el_level d = Some ?lv" "el_child d \<Longrightarrow> group_ok (?lv @ ''1'') (el_kids d)"
      using members_ok [of ?lv k d] 1(2) by (auto simp: group_ok_def list_all_iff)
    then have "level_of d = ?lv" by (simp add: level_of_def)
    then show ?thesis using 1(1) [of d] d(2) \<open>d \<in> set ?ms\<close> ms by (simp add: member_value_def)
  qed
  have e: "map (\<lambda>d. (el_id d, if el_child d then edit_values d ''1'' st else el_val st d)) ?ms = map (member_value ?lv st) ?ms"
    using v by (auto simp: member_value_def)
  have "set_all (map (member_value ?lv st) ?ms) = map (member_value ?lv st) ?ms"
    using 1(2) by (intro set_all_distinct) (simp add: group_ok_def member_value_def o_def)
  moreover have "map (member_value ?lv st) ?ms = concat (map (group_values ?lv st) (el_kids e))"
    by (simp add: group_values_map [abs_def] map_concat o_def)
  ultimately show ?case
    unfolding edit_values.simps [of e] ms e by simp
qed

section \<open>Fields\<close>

text \<open>The fields of a group with the names that lead to them.\<close>

fun fields :: "string \<Rightarrow> el \<Rightarrow> (string list \<times> nat) list" where
  "fields lv (El a i l c f ks) = (case l of
       None \<Rightarrow> concat (map (fields lv) ks)
     | Some m \<Rightarrow>
         if m = lv then
           (if c then map (\<lambda>(p, x). (i # p, x)) (concat (map (fields (lv @ ''1'')) ks))
            else if f then [([i], a)] else [])
         else [])"

definition field_json :: "string option \<Rightarrow> jsval" where
  "field_json v = (case v of None \<Rightarrow> JNull | Some s \<Rightarrow> JStr s)"

lemma distinct_values:
  assumes "group_ok lv ks"
  shows "distinct (map fst (concat (map (group_values lv st) ks)))"
proof -
  have "map fst (concat (map (group_values lv st) ks)) = map el_id (concat (map (members lv) ks))"
    using assms group_values_members [of lv _ st]
    by (simp add: group_ok_def list_all_iff map_concat o_def cong: map_cong)
  then show ?thesis using assms by (simp add: group_ok_def)
qed

lemma field_entry:
  "levels_ok lv e \<Longrightarrow> names_ok lv e \<Longrightarrow> (p, x) \<in> set (fields lv e) \<Longrightarrow>
     \<exists>k q v. p = k # q \<and> (k, v) \<in> set (group_values lv st e) \<and> get_path v q = field_json (st x)"
proof (induction lv e arbitrary: p rule: fields.induct)
  case (1 lv a i l c f ks)
  show ?case
  proof (cases l)
    case None
    then obtain k where k: "k \<in> set ks" "(p, x) \<in> set (fields lv k)" using 1(5) by auto
    then show ?thesis using 1(1) [OF None k(1) _ _ k(2)] 1(3,4) None by (fastforce simp: list_all_iff)
  next
    case (Some m)
    then have m: "m = lv" using 1(5) by (auto split: if_splits)
    show ?thesis
    proof (cases c)
      case True
      then obtain p' k where k: "p = i # p'" "k \<in> set ks" "(p', x) \<in> set (fields (lv @ ''1'') k)"
        using 1(5) Some m by auto
      have g: "group_ok (lv @ ''1'') ks" using 1(3,4) Some m True by (simp add: group_ok_def)
      then obtain k' q v where v: "p' = k' # q" "(k', v) \<in> set (group_values (lv @ ''1'') st k)"
          "get_path v q = field_json (st x)"
        using 1(2) [OF Some m True k(2) _ _ k(3)] k(2) by (auto simp: group_ok_def list_all_iff)
      have "map_of (concat (map (group_values (lv @ ''1'') st) ks)) k' = Some v"
        using v(2) k(2) by (intro map_of_is_SomeI distinct_values [OF g]) auto
      then show ?thesis using k(1) v(1,3) Some m True by (simp add: pget.simps)
    next
      case False
      then show ?thesis using 1(5) Some m by (auto simp: el_val_def field_json_def split: if_splits)
    qed
  qed
qed

lemma field_read:
  assumes "group_ok lv ks" "(p, x) \<in> set (concat (map (fields lv) ks))"
  shows "get_path (JObj (concat (map (group_values lv st) ks))) p = field_json (st x)"
proof -
  obtain e where e: "e \<in> set ks" "(p, x) \<in> set (fields lv e)" using assms(2) by auto
  then obtain k q v where v: "p = k # q" "(k, v) \<in> set (group_values lv st e)" "get_path v q = field_json (st x)"
    using field_entry [of lv e p x st] assms(1) by (auto simp: group_ok_def list_all_iff)
  have "map_of (concat (map (group_values lv st) ks)) k = Some v"
    using v(2) e(1) by (intro map_of_is_SomeI distinct_values [OF assms(1)]) auto
  then show ?thesis using v by (simp add: pget.simps)
qed

lemma el_val_ok: "json_ok (el_val st e)"
  by (auto simp: el_val_def split: option.splits)

lemma group_values_ok:
  "levels_ok lv e \<Longrightarrow> names_ok lv e \<Longrightarrow> list_all (\<lambda>kv. json_ok (snd kv)) (group_values lv st e)"
proof (induction lv e rule: levels_ok.induct)
  case (1 lv a i l c f ks)
  show ?case
  proof (cases l)
    case None
    then show ?thesis using 1 by (auto simp: list_all_iff)
  next
    case (Some m)
    show ?thesis
    proof (cases "m = lv \<and> c")
      case True
      then have "group_ok (lv @ ''1'') ks" using 1(3,4) Some by (simp add: group_ok_def)
      then show ?thesis using 1(2) True Some distinct_values [of _ ks st] by (auto simp: group_ok_def list_all_iff)
    next
      case False
      then show ?thesis using Some el_val_ok by auto
    qed
  qed
qed

lemma group_json_ok: "group_ok lv ks \<Longrightarrow> json_ok (JObj (concat (map (group_values lv st) ks)))"
  using distinct_values [of lv ks st] group_values_ok [of lv _ st] by (auto simp: group_ok_def list_all_iff)

section \<open>Filling\<close>

text \<open>The elements that a path of names leads to, and the paths of an object that end in a plain value.\<close>

fun resolve :: "el \<Rightarrow> string list \<Rightarrow> el list \<Rightarrow> el list" where
  "resolve doc [] ctx = ctx"
| "resolve doc (k # p) ctx = resolve doc p (select_id doc k ctx)"

fun has_leaf :: "jsval \<Rightarrow> string list \<Rightarrow> bool" where
  "has_leaf v [] \<longleftrightarrow> \<not> is_object v \<and> v \<noteq> JNull"
| "has_leaf (JObj kvs) (k # p) \<longleftrightarrow> (case map_of kvs k of None \<Rightarrow> False | Some x \<Rightarrow> has_leaf x p)"
| "has_leaf v (k # p) \<longleftrightarrow> False"

lemma has_leaf_object: "has_leaf v (k # p) \<Longrightarrow> is_object v"
  by (cases v) auto

lemma writes_leaf:
  "p \<noteq> [] \<Longrightarrow> has_leaf v p \<Longrightarrow> x \<in> set (map el_addr (resolve doc p ctx)) \<Longrightarrow>
     (x, val_string (get_path v p)) \<in> set (writes doc v ctx)"
proof (induction p arbitrary: v ctx)
  case (Cons k p)
  then obtain kvs y where v: "v = JObj kvs" "map_of kvs k = Some y" "has_leaf y p"
    by (cases v) (auto split: option.splits)
  have m: "(k, y) \<in> set (own_props v)" using v(1,2) by (simp add: map_of_SomeD)
  have g: "get_path v (k # p) = get_path y p" using v(1,2) by (simp add: pget.simps)
  show ?case
  proof (cases p)
    case Nil
    then have "\<not> is_object y" "y \<noteq> JNull" using v(3) by simp_all
    then show ?thesis
      using m Cons.prems(3) Nil unfolding g by (subst writes.simps) (force simp: Let_def)
  next
    case (Cons l q)
    then have "(x, val_string (get_path y p)) \<in> set (writes doc y (select_id doc k ctx))"
      using Cons.IH [of y "select_id doc k ctx"] v(3) Cons.prems(3) by simp
    moreover have "is_object y" using v(3) Cons has_leaf_object by simp
    ultimately show ?thesis
      using m unfolding g by (subst writes.simps) (force simp: Let_def)
  qed
qed simp

definition put :: "nat \<times> string \<Rightarrow> field_values \<Rightarrow> field_values" where
  "put ws st = st(fst ws := Some (snd ws))"

lemma loop_obj_put: "loop_obj doc v ctx st = fold put (writes doc v ctx) st"
  by (simp add: loop_obj_def put_def [abs_def] case_prod_beta')

lemma fold_put_other: "a \<notin> set (map fst ws) \<Longrightarrow> fold put ws st a = st a"
  by (induction ws arbitrary: st) (auto simp: put_def)

lemma fold_put: "distinct (map fst ws) \<Longrightarrow> (a, s) \<in> set ws \<Longrightarrow> fold put ws st a = Some s"
proof (induction ws arbitrary: st)
  case (Cons w ws)
  have "put (a, s) st a = Some s" by (simp add: put_def)
  then show ?case using Cons fold_put_other [of a ws "put w st"] by auto
qed simp

lemma loop_obj_leaf:
  assumes "distinct (map fst (writes doc v ctx))" "p \<noteq> []" "has_leaf v p" "x \<in> set (map el_addr (resolve doc p ctx))"
  shows "loop_obj doc v ctx st x = Some (val_string (get_path v p))"
  unfolding loop_obj_put using fold_put [OF assms(1) writes_leaf [OF assms(2-4)]] .

section \<open>The form for editing\<close>

text \<open>
  Its levels and names are in order, and the names that lead to a field of the form lead to the same field from the
  body of the page.
\<close>

lemma edit_form_ok: "group_ok ''l1'' (el_kids edit_form)"
  by code_simp

text \<open>The names of the elements in a part of the page, with their numbers, and the search in them.\<close>

definition named :: "el \<Rightarrow> (string \<times> nat) list" where
  "named e = map (\<lambda>d. (el_id d, el_addr d)) (descendants e)"

definition select_named :: "(string \<times> nat) list \<Rightarrow> (string \<times> nat) list \<Rightarrow> string \<Rightarrow> nat list" where
  "select_named page ns k = (case map_of page k of
     None \<Rightarrow> []
   | Some a \<Rightarrow> if a \<in> set (map snd ns) then [a] else map snd (filter (\<lambda>n. fst n = k) ns))"

lemma find_map_of: "map_option el_addr (find (\<lambda>d. el_id d = k) ds) = map_of (map (\<lambda>d. (el_id d, el_addr d)) ds) k"
  by (induction ds) auto

lemma select_id_named:
  assumes "el_id doc \<noteq> k"
  shows "map el_addr (select_id doc k [e]) = select_named (named doc) (named e) k"
proof -
  have "all_els doc = doc # descendants doc" by (cases doc) (simp add: descendants_def)
  then have f: "find (\<lambda>d. el_id d = k) (all_els doc) = find (\<lambda>d. el_id d = k) (descendants doc)" using assms by simp
  show ?thesis
  proof (cases "find (\<lambda>d. el_id d = k) (descendants doc)")
    case None
    then show ?thesis
      using find_map_of [of k "descendants doc"] unfolding select_id_def f by (simp add: select_named_def named_def)
  next
    case (Some d)
    then have "map_of (map (\<lambda>d. (el_id d, el_addr d)) (descendants doc)) k = Some (el_addr d)"
      using find_map_of [of k "descendants doc"] by simp
    then show ?thesis
      unfolding select_id_def f using Some by (simp add: select_named_def named_def Let_def filter_map o_def)
  qed
qed

lemma select_id_first:
  assumes "find (\<lambda>d. el_id d = k) (descendants doc) = Some d" "el_id doc \<noteq> k" "el_addr d \<in> set (map snd (named e))"
  shows "select_id doc k [e] = [d]"
proof -
  have "all_els doc = doc # descendants doc" by (cases doc) (simp add: descendants_def)
  then show ?thesis using assms by (simp add: select_id_def named_def o_def)
qed

lemma select_id_inside:
  assumes "find (\<lambda>d. el_id d = k) (descendants doc) = Some c" "el_id doc \<noteq> k" "el_addr c \<notin> set (map snd (named e))"
    and "find (\<lambda>d. el_id d = k) (descendants e) = Some d" "length (filter (\<lambda>n. fst n = k) (named e)) = 1"
  shows "select_id doc k [e] = [d]"
proof -
  have "all_els doc = doc # descendants doc" by (cases doc) (simp add: descendants_def)
  moreover have "filter (\<lambda>d. el_id d = k) (descendants e) = [d]"
  proof -
    have "length (filter (\<lambda>d. el_id d = k) (descendants e)) = 1"
      using assms(5) by (simp add: named_def filter_map o_def)
    then obtain x where x: "filter (\<lambda>d. el_id d = k) (descendants e) = [x]" by (auto simp: length_Suc_conv)
    moreover have "d \<in> set (filter (\<lambda>d. el_id d = k) (descendants e))"
      using assms(4) by (auto simp: find_Some_iff)
    ultimately show ?thesis by simp
  qed
  ultimately show ?thesis using assms by (simp add: select_id_def named_def o_def)
qed

text \<open>The groups of the form, and the fields in them.\<close>

lemma page_first:
  "find (\<lambda>d. el_id d = ''instruction'') (descendants edit_body) = Some edit_instruction"
  "find (\<lambda>d. el_id d = ''applyAction'') (descendants edit_body) = Some edit_applyAction"
  "find (\<lambda>d. el_id d = ''writeAction'') (descendants edit_body) = Some edit_writeAction"
  "find (\<lambda>d. el_id d = ''setField'') (descendants edit_body) = Some edit_applySetField"
  "find (\<lambda>d. el_id d = ''setField'') (descendants edit_writeAction) = Some edit_writeSetField"
  by code_simp+

lemma page_inside:
  "el_addr edit_instruction \<in> set (map snd (named edit_body))"
  "el_addr edit_applyAction \<in> set (map snd (named edit_instruction))"
  "el_addr edit_writeAction \<in> set (map snd (named edit_instruction))"
  "el_addr edit_applySetField \<in> set (map snd (named edit_applyAction))"
  "el_addr edit_applySetField \<notin> set (map snd (named edit_writeAction))"
  "length (filter (\<lambda>n. fst n = ''setField'') (named edit_writeAction)) = 1"
  by code_simp+

lemma body_no_id [simp]: "el_id edit_body = []"
  by (simp add: edit_body_def)

lemma page_groups:
  "select_id edit_body ''instruction'' [edit_body] = [edit_instruction]"
  "select_id edit_body ''applyAction'' [edit_instruction] = [edit_applyAction]"
  "select_id edit_body ''writeAction'' [edit_instruction] = [edit_writeAction]"
  "select_id edit_body ''setField'' [edit_applyAction] = [edit_applySetField]"
  "select_id edit_body ''setField'' [edit_writeAction] = [edit_writeSetField]"
  using page_inside by (simp_all add: select_id_first [OF page_first(1)] select_id_first [OF page_first(2)]
    select_id_first [OF page_first(3)] select_id_first [OF page_first(4)]
    select_id_inside [OF page_first(4) _ _ page_first(5)])

definition inner :: "string \<Rightarrow> el \<Rightarrow> (string list \<times> nat) list" where
  "inner lv e = concat (map (fields lv) (el_kids e))"

definition under :: "string \<Rightarrow> (string list \<times> nat) list \<Rightarrow> (string list \<times> nat) list" where
  "under k fs = map (\<lambda>(p, a). (k # p, a)) fs"

definition deeper :: "(string list \<times> nat) list \<Rightarrow> (string list \<times> nat) list" where
  "deeper fs = filter (\<lambda>(p, a). tl p \<noteq> []) fs"

lemma fields_group:
  "el_level g = Some lv \<Longrightarrow> el_child g \<Longrightarrow> fields lv g = under (el_id g) (inner (lv @ ''1'') g)"
  by (cases g) (simp add: under_def inner_def)

lemma fields_nonempty: "(p, a) \<in> set (fields lv e) \<Longrightarrow> p \<noteq> []"
  by (induction lv e arbitrary: p rule: fields.induct) (auto split: option.splits if_splits)

lemma deeper_simps [simp]:
  "deeper [] = []" "deeper (([k], a) # fs) = deeper fs" "deeper (fs @ gs) = deeper fs @ deeper gs"
  "deeper (under k (inner lv e)) = under k (inner lv e)"
  using fields_nonempty by (auto simp: deeper_def under_def inner_def filter_id_conv)

lemma group_attrs [simp]:
  "el_level edit_instruction = Some ''l1''" "el_child edit_instruction" "el_id edit_instruction = ''instruction''"
  "el_level edit_applyAction = Some ''l11''" "el_child edit_applyAction" "el_id edit_applyAction = ''applyAction''"
  "el_level edit_writeAction = Some ''l11''" "el_child edit_writeAction" "el_id edit_writeAction = ''writeAction''"
  "el_level edit_applySetField = Some ''l111''" "el_child edit_applySetField" "el_id edit_applySetField = ''setField''"
  "el_level edit_writeSetField = Some ''l111''" "el_child edit_writeSetField" "el_id edit_writeSetField = ''setField''"
  by (simp_all add: edit_instruction_def edit_applyAction_def edit_writeAction_def edit_applySetField_def
      edit_writeSetField_def)

lemma match_no_fields: "fields ''l1'' edit_match = []"
  by (simp add: edit_match_def)

lemma fields_deeper:
  "deeper (inner ''l1'' edit_form) = under ''instruction'' (inner ''l11'' edit_instruction)"
  "deeper (inner ''l11'' edit_instruction) =
     under ''applyAction'' (inner ''l111'' edit_applyAction) @ under ''writeAction'' (inner ''l111'' edit_writeAction)"
  "deeper (inner ''l111'' edit_applyAction) = under ''setField'' (inner ''l1111'' edit_applySetField)"
  "deeper (inner ''l111'' edit_writeAction) = under ''setField'' (inner ''l1111'' edit_writeSetField)"
  "deeper (inner ''l1111'' edit_applySetField) = []"
  "deeper (inner ''l1111'' edit_writeSetField) = []"
proof -
  show "deeper (inner ''l1'' edit_form) = under ''instruction'' (inner ''l11'' edit_instruction)"
    unfolding inner_def [of _ edit_form]
    by (simp add: edit_form_def match_no_fields fields_group [of edit_instruction])
  show "deeper (inner ''l11'' edit_instruction) =
     under ''applyAction'' (inner ''l111'' edit_applyAction) @ under ''writeAction'' (inner ''l111'' edit_writeAction)"
    unfolding inner_def [of _ edit_instruction]
    by (simp add: edit_instruction_def fields_group [of edit_applyAction]
        fields_group [of edit_writeAction])
  show "deeper (inner ''l111'' edit_applyAction) = under ''setField'' (inner ''l1111'' edit_applySetField)"
    unfolding inner_def [of _ edit_applyAction]
    by (simp add: edit_applyAction_def fields_group [of edit_applySetField])
  show "deeper (inner ''l111'' edit_writeAction) = under ''setField'' (inner ''l1111'' edit_writeSetField)"
    unfolding inner_def [of _ edit_writeAction]
    by (simp add: edit_writeAction_def fields_group [of edit_writeSetField])
  show "deeper (inner ''l1111'' edit_applySetField) = []"
    by (simp add: inner_def edit_applySetField_def)
  show "deeper (inner ''l1111'' edit_writeSetField) = []"
    by (simp add: inner_def edit_writeSetField_def)
qed

text \<open>The fields are those that their names select.\<close>

fun found_names :: "(string \<times> nat) list \<Rightarrow> (string \<times> nat) list \<Rightarrow> (string list \<times> nat) list \<Rightarrow> bool" where
  "found_names page ns [] \<longleftrightarrow> True"
| "found_names page ns (([k], a) # fs) \<longleftrightarrow> k \<noteq> [] \<and> select_named page ns k = [a] \<and> found_names page ns fs"
| "found_names page ns (f # fs) \<longleftrightarrow> found_names page ns fs"

lemma found_names_in:
  "found_names page ns fs \<Longrightarrow> ([k], a) \<in> set fs \<Longrightarrow> k \<noteq> [] \<and> select_named page ns k = [a]"
  by (induction page ns fs rule: found_names.induct) auto

definition found_in :: "el \<Rightarrow> (string list \<times> nat) list \<Rightarrow> bool" where
  "found_in e fs \<longleftrightarrow> found_names (named edit_body) (named e) fs"

lemma set_fields_found_in:
  "found_in edit_applySetField (inner ''l1111'' edit_applySetField)"
  by code_simp

lemma write_fields_found_in:
  "found_in edit_writeSetField (inner ''l1111'' edit_writeSetField)"
  by code_simp

lemma fields_found_in:
  "found_in edit_body (inner ''l1'' edit_form)"
  "found_in edit_instruction (inner ''l11'' edit_instruction)"
  "found_in edit_applyAction (inner ''l111'' edit_applyAction)"
  "found_in edit_writeAction (inner ''l111'' edit_writeAction)"
  by code_simp+

definition leads :: "el \<Rightarrow> (string list \<times> nat) list \<Rightarrow> bool" where
  "leads e fs \<longleftrightarrow> (\<forall>p a. (p, a) \<in> set fs \<longrightarrow> map el_addr (resolve edit_body p [e]) = [a])"

lemma leads_append: "leads e fs \<Longrightarrow> leads e gs \<Longrightarrow> leads e (fs @ gs)"
  by (auto simp: leads_def)

lemma leads_under: "select_id edit_body k [e] = [g] \<Longrightarrow> leads g fs \<Longrightarrow> leads e (under k fs)"
  by (auto simp: leads_def under_def)

lemma leads_found:
  assumes "found_in e (inner lv g)" "leads e (deeper (inner lv g))"
  shows "leads e (inner lv g)"
  unfolding leads_def
proof (intro allI impI)
  fix p a
  assume m: "(p, a) \<in> set (inner lv g)"
  then obtain k q where p: "p = k # q" using fields_nonempty [of p a lv] by (cases p) (auto simp: inner_def)
  show "map el_addr (resolve edit_body p [e]) = [a]"
  proof (cases q)
    case Nil
    then have "k \<noteq> [] \<and> select_named (named edit_body) (named e) k = [a]"
      using assms(1) m p found_names_in [of _ _ "inner lv g" k a] by (auto simp: found_in_def)
    moreover have "el_id edit_body \<noteq> k" using calculation by auto
    ultimately show ?thesis using select_id_named [of edit_body k e] p Nil by simp
  next
    case Cons
    then have "(p, a) \<in> set (deeper (inner lv g))" using m p by (simp add: deeper_def)
    then show ?thesis using assms(2) unfolding leads_def by blast
  qed
qed

lemma no_more [simp]: "leads e []"
  by (simp add: leads_def)

lemma edit_fields_lead: "leads edit_body (inner ''l1'' edit_form)"
proof -
  have f: "leads edit_applySetField (inner ''l1111'' edit_applySetField)"
    "leads edit_writeSetField (inner ''l1111'' edit_writeSetField)"
    by (rule leads_found; simp only: set_fields_found_in write_fields_found_in fields_deeper no_more)+
  have a: "leads edit_applyAction (inner ''l111'' edit_applyAction)"
    "leads edit_writeAction (inner ''l111'' edit_writeAction)"
    using leads_under [OF page_groups(4) f(1)] leads_under [OF page_groups(5) f(2)]
    by (rule_tac leads_found; simp only: fields_found_in fields_deeper)+
  have "leads edit_instruction (inner ''l11'' edit_instruction)"
    using leads_append [OF leads_under [OF page_groups(2) a(1)] leads_under [OF page_groups(3) a(2)]]
    by (intro leads_found) (simp_all only: fields_found_in fields_deeper)
  from leads_under [OF page_groups(1) this] show ?thesis
    by (intro leads_found) (simp_all only: fields_found_in fields_deeper)
qed

lemma edit_values_form:
  "edit_values edit_form [] st = JObj (concat (map (group_values ''l1'' st) (el_kids edit_form)))"
proof -
  have "level_of edit_form @ [] = ''l1''" by (simp add: level_of_def edit_form_def)
  then show ?thesis using edit_values_group [of edit_form "[]" st] edit_form_ok by simp
qed

lemma edit_form_field:
  "(p, a) \<in> set (inner ''l1'' edit_form) \<Longrightarrow> get_path (edit_values edit_form [] st) p = field_json (st a)"
  unfolding edit_values_form inner_def by (rule field_read [OF edit_form_ok])

lemma edit_form_json: "json_ok (edit_values edit_form [] st)"
  unfolding edit_values_form by (rule group_json_ok [OF edit_form_ok])

lemma controller_not_sent: "list_all (\<lambda>(p, a). a \<noteq> 7) (inner ''l1'' edit_form)"
  by code_simp

text \<open>
  C21: \<open>loop_for_value_by_id\<close> reads a form by its structure.  On an element whose levels follow the scheme and whose
  names do not clash, the object that the search for levels collects has the values of the fields in each group, in
  their order, and nothing else.
\<close>

theorem form_values_by_structure:
  assumes "group_ok (level_of e @ level) (el_kids e)"
  shows "edit_values e level st = JObj (concat (map (group_values (level_of e @ level) st) (el_kids e)))"
  using assms by (rule edit_values_group)

lemma form_values_by_structure_witness:
  "edit_values edit_form [] (\<lambda>a. Some []) = JObj (concat (map (group_values ''l1'' (\<lambda>a. Some [])) (el_kids edit_form)))"
proof -
  have "level_of edit_form @ [] = ''l1''" by (simp add: level_of_def edit_form_def)
  then show ?thesis using form_values_by_structure [of edit_form "[]" "\<lambda>a. Some []"] edit_form_ok by simp
qed

section \<open>The form for adding\<close>

text \<open>What is read from a form depends on the fields in it only.\<close>

lemma all_els_trans: "d \<in> set (all_els e) \<Longrightarrow> x \<in> set (all_els d) \<Longrightarrow> x \<in> set (all_els e)"
  by (induction e rule: all_els.induct) auto

lemma kids_in_all: "k \<in> set (el_kids d) \<Longrightarrow> k \<in> set (all_els d)"
  by (cases d; cases k) force

lemma self_in_all: "d \<in> set (all_els d)"
  by (cases d) simp

lemma descendants_in: "d \<in> set (descendants e) \<Longrightarrow> x \<in> set (all_els d) \<Longrightarrow> x \<in> set (descendants e)"
  using all_els_trans by (fastforce simp: descendants_def)

lemma descendants_all: "x \<in> set (descendants d) \<Longrightarrow> x \<in> set (all_els d)"
  by (cases d) (auto simp: descendants_def)

lemma add_values_cong:
  "\<forall>d \<in> set (descendants e). st (el_addr d) = st' (el_addr d) \<Longrightarrow> add_values e lv st = add_values e lv st'"
proof (induction e lv st rule: add_values.induct)
  case (1 e lv st)
  have d: "set (descendants d) \<subseteq> set (descendants e)" "d \<in> set (descendants e)" if "d \<in> set (find_level l e)" for d l
    using that descendants_in [of d e] descendants_all [of _ d] by (auto simp: find_level_def)
  have v: "el_val st x = el_val st' x" if "x \<in> set (descendants e)" for x
    using 1(2) that by (simp add: el_val_def)
  have f: "first_child_val st d = first_child_val st' d" if "d \<in> set (find_level l e)" for d l
    using v descendants_in [OF d(2) [OF that]] kids_in_all [of _ d]
    by (auto simp: first_child_val_def split: list.split)
  have "(if el_child d then
           if truthy (first_child_val st d) \<or> el_id d \<noteq> ''writeAction'' then [(el_id d, add_values d ''1'' st)] else []
         else [(el_id d, el_val st d)]) =
        (if el_child d then
           if truthy (first_child_val st' d) \<or> el_id d \<noteq> ''writeAction'' then [(el_id d, add_values d ''1'' st')] else []
         else [(el_id d, el_val st' d)])" if "d \<in> set (find_level (level_of e @ lv) e)" for d
    using 1(1) [OF that] 1(2) d [OF that] f [OF that] v by auto
  then show ?case
    unfolding add_values.simps [of e] by (simp cong: map_cong)
qed

lemma members_group: "el_level g = Some lv \<Longrightarrow> members lv g = [g]"
  by (cases g) simp

lemma levels_inside: "levels_ok lv g \<Longrightarrow> el_level g = Some lv \<Longrightarrow> el_child g \<Longrightarrow> list_all (levels_ok (lv @ ''1'')) (el_kids g)"
  by (cases g) simp

lemma add_groups [simp]:
  "el_level add_match = Some ''l1''" "el_child add_match" "el_id add_match = ''match''"
  "el_level add_instruction = Some ''l1''" "el_child add_instruction" "el_id add_instruction = ''instruction''"
  "el_level add_applyAction = Some ''l11''" "el_child add_applyAction" "el_id add_applyAction = ''applyAction''"
  "el_level add_writeAction = Some ''l11''" "el_child add_writeAction" "el_id add_writeAction = ''writeAction''"
  by (simp_all add: add_match_def add_instruction_def add_applyAction_def add_writeAction_def)

lemma add_form_levels: "list_all (levels_ok ''l1'') (el_kids add_form)"
  by code_simp

lemma add_levels:
  "find_level ''l1'' add_form =
     [El 7 ''controller'' (Some ''l1'') False True [], El 8 ''DPID'' (Some ''l1'') False True [],
      El 9 ''tableId'' (Some ''l1'') False True [], El 10 ''idleTimeout'' (Some ''l1'') False True [],
      El 11 ''hardTimeout'' (Some ''l1'') False True [], El 12 ''priority'' (Some ''l1'') False True [],
      add_match, add_instruction]"
  "find_level ''l11'' add_instruction =
     [add_applyAction, add_writeAction, El 106 ''clearAction'' (Some ''l11'') False True [],
      El 108 ''gotoTable'' (Some ''l11'') False True [], El 110 ''meter'' (Some ''l11'') False True []]"
proof -
  have "levels_ok ''l1'' add_instruction" using add_form_levels by (simp add: add_form_def)
  then have i: "list_all (levels_ok ''l11'') (el_kids add_instruction)"
    using levels_inside [of "''l1''" add_instruction] by simp
  show "find_level ''l1'' add_form = [El 7 ''controller'' (Some ''l1'') False True [],
      El 8 ''DPID'' (Some ''l1'') False True [], El 9 ''tableId'' (Some ''l1'') False True [],
      El 10 ''idleTimeout'' (Some ''l1'') False True [], El 11 ''hardTimeout'' (Some ''l1'') False True [],
      El 12 ''priority'' (Some ''l1'') False True [], add_match, add_instruction]"
    unfolding find_level_members [OF add_form_levels]
    by (simp add: add_form_def members_group [of add_match] members_group [of add_instruction])
  show "find_level ''l11'' add_instruction = [add_applyAction, add_writeAction,
      El 106 ''clearAction'' (Some ''l11'') False True [], El 108 ''gotoTable'' (Some ''l11'') False True [],
      El 110 ''meter'' (Some ''l11'') False True []]"
    unfolding find_level_members [OF i]
    by (simp add: add_instruction_def members_group [of add_applyAction] members_group [of add_writeAction])
qed

lemma write_group_quiet: "\<not> truthy (first_child_val st add_writeAction)"
  by (simp add: first_child_val_def add_writeAction_def el_val_def)

definition write_addrs :: "nat list" where
  "write_addrs = map el_addr (all_els add_writeAction)"

lemma write_addrs_apart:
  "list_all (\<lambda>d. el_addr d \<notin> set write_addrs) (descendants add_match)"
  "list_all (\<lambda>d. el_addr d \<notin> set write_addrs) (descendants add_applyAction)"
  "list_all (\<lambda>a. a \<notin> set write_addrs) [7, 8, 9, 10, 11, 12, 106, 108, 110]"
  by code_simp+

text \<open>What is entered for the actions to write has no influence on what is read from the form.\<close>

lemma add_values_write:
  assumes "\<forall>a. a \<notin> set write_addrs \<longrightarrow> st a = st' a"
  shows "add_values add_form [] st = add_values add_form [] st'"
proof -
  have s: "st a = st' a" if "a \<in> {7, 8, 9, 10, 11, 12, 106, 108, 110}" for a
    using assms write_addrs_apart(3) that by auto
  have g: "add_values add_match ''1'' st = add_values add_match ''1'' st'"
    "add_values add_applyAction ''1'' st = add_values add_applyAction ''1'' st'"
    using assms write_addrs_apart by (auto simp: list_all_iff intro!: add_values_cong)
  have l: "level_of add_form @ [] = ''l1''" "level_of add_instruction @ ''1'' = ''l11''"
    by (simp_all add: level_of_def add_form_def)
  have "add_values add_instruction ''1'' st = add_values add_instruction ''1'' st'"
    unfolding add_values.simps [of add_instruction] l add_levels(2) using s g(2) write_group_quiet by (simp add: el_val_def)
  then show ?thesis
    unfolding add_values.simps [of add_form] l add_levels(1) using s g(1) by (simp add: el_val_def)
qed

end
