(* ===== verification/Web_Entry.thy ===== *)
theory Web_Entry
  imports Web_Flows Form_Values
begin

text \<open>
  The pages for one flow entry: \<open>flow_table_config/edit_flow_table.html\<close>, which shows the entry that its address
  carries and saves the form, and \<open>add_flow_table.html\<close>.  An entry viewed on the list reaches the form, and its values
  are those that the form saves.
\<close>

section \<open>The page for editing\<close>

datatype ed_cont = ESaved

text \<open>A page with a form: its requests and lists, and the values of the fields.\<close>

record 'k form_page =
  f_web :: "'k web"
  f_fields :: field_values

definition getQueryString :: "string \<Rightarrow> string \<Rightarrow> string option" where
  "getQueryString name search = map_option js_unescape
     (param_scan (\<lambda>c. c = CHR ''&'') (\<lambda>s. starts_with (map lower (name @ ''='')) (map lower s)) (length name + 1)
        (CHR ''&'' # drop 1 search))"

text \<open>
  The entry in the query of the address: \<open>decode\<close> of null raises an exception, and so does \<open>JSON.parse\<close> of a text
  that is no value.
\<close>

definition edit_params :: "string \<Rightarrow> js_error + jsval" where
  "edit_params search =
     (case getQueryString ''obj'' search of
        None \<Rightarrow> Inl TypeError
      | Some t \<Rightarrow> (case json_parse (units_str (decode (str_units t))) of None \<Rightarrow> Inl SyntaxError | Some v \<Rightarrow> Inr v))"

definition controller_field :: nat where
  "controller_field = 7"

definition edit_init :: "string \<Rightarrow> ed_cont form_page \<Rightarrow> js_error option \<times> ed_cont form_page" where
  "edit_init search e =
     (case edit_params search of
        Inl x \<Rightarrow> (Some x, e)
      | Inr params \<Rightarrow>
          if nullish params then (Some TypeError, e)
          else (None, e\<lparr>f_fields := loop_obj edit_body params [edit_body] ((f_fields e)(controller_field :=
                 Some (js_str (pget params ''cip'') @ ''|'' @ js_str (pget params ''cport''))))\<rparr>))"

text \<open>\<open>add\<close>, the handler of the button that saves the form.\<close>

definition edit_save :: "ed_cont form_page \<Rightarrow> js_error option \<times> ed_cont form_page" where
  "edit_save e =
     (let content = edit_values edit_form [] (f_fields e)
      in case f_fields e controller_field of
           None \<Rightarrow> (Some TypeError, e)
         | Some t \<Rightarrow> (None, e\<lparr>f_web := snd (web_post ''../flowtable/edit''
             [(''ip'', fst (bar_parts t)), (''port'', snd (bar_parts t)), (''content'', JStr (json_str content))]
             ESaved (f_web e))\<rparr>))"

definition edit_onSaved :: "jsval \<Rightarrow> ed_cont web_act" where
  "edit_onSaved = answer_change (''add success'' @ [CHR 0xEF, CHR 0xBC, CHR 0x81])
     (''add failed'' @ [CHR 0xEF, CHR 0xBC, CHR 0x81]) [does (\<lambda>w. w\<lparr>w_location := Some ''flow_table_config.html''\<rparr>)]"

text \<open>The page before its script runs: every field is empty.\<close>

definition edit_start :: "ed_cont form_page" where
  "edit_start = \<lparr>f_web = blank_web, f_fields = (\<lambda>a. Some [])\<rparr>"

section \<open>The page for adding\<close>

datatype ad_cont = AControls | ASwitches | AAdded

text \<open>The lists of controllers and of switches are fields of the form.\<close>

definition add_fields :: "ad_cont form_page \<Rightarrow> field_values" where
  "add_fields e = (f_fields e)(7 := w_selected (f_web e) ''#controller'', 8 := w_selected (f_web e) ''#DPID'')"

definition add_getControl :: "ad_cont web_act" where
  "add_getControl = web_post ''../control/list'' [] AControls"

definition add_onController :: "ad_cont web_act" where
  "add_onController w =
     (case w_selected w ''#controller'' of
        None \<Rightarrow> (None, w)
      | Some host \<Rightarrow> act_when (host \<noteq> [])
          (at_page (send GET ''../switchinfo''
             (post_form [(''ip'', fst (bar_parts host)), (''port'', snd (bar_parts host))]) ASwitches)) w)"

definition add_onControls :: "jsval \<Rightarrow> ad_cont web_act" where
  "add_onControls data = acts [list_controls [''#controller''] data, when_ok data add_onController]"

definition add_onSwitches :: "jsval \<Rightarrow> ad_cont web_act" where
  "add_onSwitches = list_switches ''#DPID''"

definition add_save :: "ad_cont form_page \<Rightarrow> js_error option \<times> ad_cont form_page" where
  "add_save e =
     (let content = add_values add_form [] (add_fields e);
          (err, w) = with_parts ''#controller'' (\<lambda>ip port. web_post ''../flowtable/add''
            [(''ip'', ip), (''port'', port),
             (''content'', if content = JUndef then JUndef else JStr (json_str content))] AAdded) (f_web e)
      in (err, e\<lparr>f_web := w\<rparr>))"

definition add_onAdded :: "jsval \<Rightarrow> ad_cont web_act" where
  "add_onAdded = answer_change (''add success'' @ [CHR 0xEF, CHR 0xBC, CHR 0x81])
     (''add failed'' @ [CHR 0xEF, CHR 0xBC, CHR 0x81]) []"

fun add_callback :: "ad_cont \<Rightarrow> jsval \<Rightarrow> ad_cont web_act" where
  "add_callback AControls = add_onControls"
| "add_callback ASwitches = add_onSwitches"
| "add_callback AAdded = add_onAdded"

section \<open>The entry in an address\<close>

text \<open>Texts that consist of characters of the basic plane, in UTF-8.\<close>

definition bmp_text :: "string \<Rightarrow> bool" where
  "bmp_text s \<longleftrightarrow> units_str (str_units s) = s"

lemma utf8_decode_units: "units_ok 256 s \<Longrightarrow> units_ok 65536 (utf8_decode s)"
proof (induction s rule: utf8_decode.induct)
  case (2 c s)
  have u: "unit_at s i AND 63 < 64" for i by (simp add: and_63)
  have "units_ok 256 (drop n s)" for n using 2(4) by (simp add: units_ok_drop)
  moreover have "push_bit 6 (c AND 31) OR (unit_at s 0 AND 63) < 65536"
    using u [of 0] by (subst push_or_add) (simp_all add: and_31)
  moreover have "push_bit 12 (c AND 15) OR push_bit 6 (unit_at s 0 AND 63) OR (unit_at s 1 AND 63) < 65536"
  proof -
    have "push_bit 6 (unit_at s 0 AND 63) OR (unit_at s 1 AND 63) = (unit_at s 0 AND 63) * 64 + (unit_at s 1 AND 63)"
      using u [of 1] by (subst push_or_add) simp_all
    moreover have "\<dots> < 2 ^ 12" using u [of 0] u [of 1] by simp
    ultimately show ?thesis by (simp add: push_or_add and_15)
  qed
  ultimately show ?case using 2 by simp
qed simp

lemma str_units_ok: "units_ok 65536 (str_units s)"
  unfolding str_units_def by (rule utf8_decode_units) (auto simp: units_ok_def)

lemma no_cr_units: "bmp_text s \<Longrightarrow> CHR 0x0D \<notin> set s \<Longrightarrow> 13 \<notin> set (str_units s)"
proof
  assume s: "bmp_text s" "CHR 0x0D \<notin> set s" "13 \<in> set (str_units s)"
  have "CHR 0x0D \<in> set (utf8_of_code 13)" by code_simp
  then have "CHR 0x0D \<in> set (units_str (str_units s))" using s(3) by (auto simp: units_str_def)
  then show False using s(1,2) by (simp add: bmp_text_def)
qed

lemma ascii_units: "list_all (\<lambda>u. u < 128) us \<Longrightarrow> str_units (units_str us) = us"
proof (induction us)
  case (Cons u us)
  have u: "(of_char (char_of u :: char) :: nat) = u" using Cons(2) by simp
  have "str_units (units_str (u # us)) = utf8_decode (u # map of_char (units_str us))"
    using Cons(2) by (simp add: str_units_def units_str_def utf8_of_code_def)
  then show ?case using Cons by (simp add: str_units_def)
qed (simp add: str_units_def units_str_def)

lemma ascii_text: "list_all (\<lambda>u. u < 128) us \<Longrightarrow> units_str us = map char_of us"
  by (induction us) (simp_all add: units_str_def utf8_of_code_def)

lemma json_char_no_cr: "CHR 0x0D \<notin> set (json_char c)"
proof -
  have "list_all (\<lambda>d. hex_digit d \<noteq> CHR 0x0D) [0..<16]" by code_simp
  then have "\<forall>d < 16. hex_digit d \<noteq> CHR 0x0D" by (auto simp: list_all_iff)
  moreover have "(of_char c :: nat) < 256" by simp
  then have "(of_char c :: nat) div 16 < 16" by linarith
  moreover have "(of_char c :: nat) mod 16 < 16" by simp
  ultimately have "hex_digit (of_char c div 16) \<noteq> CHR 0x0D" "hex_digit (of_char c mod 16) \<noteq> CHR 0x0D" by blast+
  then show ?thesis unfolding json_char_def by (simp split: if_split)
qed

lemma json_quote_no_cr: "CHR 0x0D \<notin> set (json_quote s)"
  using json_char_no_cr by (auto simp: json_quote_def)

lemma join_with_no: "c \<notin> set d \<Longrightarrow> \<forall>w \<in> set ws. c \<notin> set w \<Longrightarrow> c \<notin> set (join_with d ws)"
  by (induction d ws rule: join_with.induct) auto

lemma json_str_no_cr: "json_ok v \<Longrightarrow> CHR 0x0D \<notin> set (json_str v)"
proof (induction v rule: json_ok.induct)
  case (4 n)
  then obtain i where "n = Fin (of_int i)" by (cases n) (auto dest: sym)
  moreover have "CHR 0x0D \<notin> set (show_int i)"
    using show_nat_digits [of "CHR 0x0D"] by (auto simp: show_int_def is_digit_def)
  ultimately show ?case by (simp add: show_rat_def)
next
  case (6 vs)
  then show ?case using join_with_no [of _ "'',''" "map json_str vs"] by (auto simp: list_all_iff)
next
  case (7 kvs)
  have "CHR 0x0D \<notin> set (json_quote (fst kv) @ '':'' @ json_str (snd kv))" if "kv \<in> set kvs" for kv
    using 7 json_quote_no_cr that by (auto simp: list_all_iff)
  then show ?case
    using join_with_no [of "CHR 0x0D" "'',''" "map (\<lambda>kv. json_quote (fst kv) @ '':'' @ json_str (snd kv))
      (filter (\<lambda>kv. snd kv \<noteq> JUndef) kvs)"] by auto
qed (auto simp: json_quote_no_cr)

lemma b64_text:
  assumes "units_ok 65536 us"
  shows "units_str (encode us) = map char_of (encode us)" "str_units (units_str (encode us)) = encode us"
    "c \<in> {CHR ''#'', CHR ''&'', CHR ''%''} \<Longrightarrow> c \<notin> set (units_str (encode us))"
proof -
  have a: "list_all (\<lambda>u. u < 128) (encode us)"
    using encode_alphabet [OF assms] by (fastforce simp: list_all_iff is_b64_unit_def)
  show t: "units_str (encode us) = map char_of (encode us)" by (rule ascii_text [OF a])
  show "str_units (units_str (encode us)) = encode us" by (rule ascii_units [OF a])
  assume c: "c \<in> {CHR ''#'', CHR ''&'', CHR ''%''}"
  show "c \<notin> set (units_str (encode us))"
  proof
    assume "c \<in> set (units_str (encode us))"
    then obtain u where "u \<in> set (encode us)" "c = char_of u" unfolding t by auto
    then have "is_b64_unit u" "(of_char c :: nat) = u" using encode_alphabet [OF assms] a by (auto simp: list_all_iff)
    then show False using c by (auto simp: is_b64_unit_def)
  qed
qed

lemma js_unescape_plain: "CHR ''%'' \<notin> set s \<Longrightarrow> js_unescape s = s"
  by (induction s) auto

lemma takeWhile_absent: "c \<notin> set s \<Longrightarrow> takeWhile (\<lambda>x. x \<noteq> c) s = s"
  by (auto simp: takeWhile_eq_all_conv)

lemma link_query:
  assumes "CHR ''#'' \<notin> set t" "CHR ''&'' \<notin> set t" "CHR ''%'' \<notin> set t"
  shows "getQueryString ''obj'' (location_search (''edit_flow_table.html?obj='' @ t)) = Some t"
  using assms by (simp add: getQueryString_def location_search_def takeWhile_absent js_unescape_plain lower_def)

lemma link_entry:
  assumes "json_ok v" "bmp_text (json_str v)"
  shows "edit_params (location_search (the (w_location (snd (fl_viewDetails v w))))) = Inr v"
proof -
  let ?us = "str_units (json_str v)"
  have "stringify v = json_str v" using assms(1) by (auto simp: stringify_def)
  then have "getQueryString ''obj'' (location_search (the (w_location (snd (fl_viewDetails v w))))) =
      Some (units_str (encode ?us))"
    using link_query b64_text(3) [OF str_units_ok] by (simp add: fl_viewDetails_def)
  moreover have "decode (encode ?us) = ?us"
    using decode_encode [OF str_units_ok no_cr_units [OF assms(2) json_str_no_cr [OF assms(1)]]] .
  ultimately show ?thesis
    using assms(2) json_parse_str [OF assms(1)] by (simp add: edit_params_def b64_text(2) [OF str_units_ok] bmp_text_def)
qed

text \<open>
  C5: the link of an entry carries the entry.  What the page for editing reads from its address, after the button that
  views an entry was pressed on the list, is this entry, whatever texts it has in it.
\<close>

theorem viewed_entry_opens:
  assumes "json_ok v" "bmp_text (json_str v)" "w_location (snd (fl_viewDetails v w)) = Some url"
  shows "edit_params (location_search url) = Inr v"
  using link_entry [OF assms(1,2), of w] assms(3) by simp

definition sample_entry :: jsval where
  "sample_entry = JObj [(''cip'', JStr ''10.0.0.1''), (''cport'', JStr ''81''), (''dpid'', JStr ''1''), (''priority'', JNum (Fin 5)),
     (''instruction'', JObj [(''writeAction'', JObj [(''setField'', JObj [(''inport'', JStr ''2'')])])])]"

lemma sample_ok: "json_ok sample_entry" "bmp_text (json_str sample_entry)"
  by code_simp+

lemma viewed_entry_opens_witness:
  "edit_params (location_search (the (w_location (snd (fl_viewDetails sample_entry blank_web))))) = Inr sample_entry"
proof -
  have "w_location (snd (fl_viewDetails sample_entry blank_web)) =
      Some (the (w_location (snd (fl_viewDetails sample_entry blank_web))))"
    by (simp add: fl_viewDetails_def)
  from viewed_entry_opens [OF sample_ok this] show ?thesis .
qed

section \<open>The entry in the form\<close>

text \<open>
  C6: a viewed entry is saved as it is.  When the address of the page carries the entry \<open>v\<close>, no two of its values go
  to one field, and none to the hidden field of the controller, the button that saves the form sends one request to
  the controller of the entry; its content parses, and has in each field that the form sends the text of the entry's
  value (without line breaks, which a text field does not hold), where the entry has a plain one, and what the field held before, where nothing was written into it.
\<close>

theorem entry_saved:
  assumes "edit_params search = Inr v" "\<not> nullish v"
    and "pget v ''cip'' = JStr ip" "pget v ''cport'' = JStr port" "CHR ''|'' \<notin> set ip" "CHR ''|'' \<notin> set port"
    and "distinct (map fst (writes edit_body v [edit_body]))" "controller_field \<notin> fst ` set (writes edit_body v [edit_body])"
  shows "\<exists>c content. edit_save (snd (edit_init search e)) =
        (None, (snd (edit_init search e))\<lparr>f_web := snd (web_post ''../flowtable/edit''
          [(''ip'', JStr ip), (''port'', JStr port), (''content'', JStr c)] ESaved (f_web e))\<rparr>) \<and>
      json_parse c = Some content \<and>
      (\<forall>(p, a) \<in> set (inner ''l1'' edit_form).
         (has_leaf v p \<longrightarrow> get_path content p = JStr (val_string (get_path v p))) \<and>
         (a \<notin> fst ` set (writes edit_body v [edit_body]) \<longrightarrow> get_path content p = field_json (f_fields e a)))"
proof -
  let ?st0 = "(f_fields e)(controller_field := Some (ip @ CHR ''|'' # port))"
  let ?st = "loop_obj edit_body v [edit_body] ?st0"
  let ?content = "edit_values edit_form [] ?st"
  have i: "edit_init search e = (None, e\<lparr>f_fields := ?st\<rparr>)"
    using assms(1-4) by (simp add: edit_init_def)
  have c: "?st controller_field = Some (ip @ CHR ''|'' # port)"
    using fold_put_other [of controller_field] assms(8) by (simp add: loop_obj_put)
  have "get_path ?content p = JStr (val_string (get_path v p))" if "(p, a) \<in> set (inner ''l1'' edit_form)" "has_leaf v p" for p a
  proof -
    have "p \<noteq> []" using that(1) fields_nonempty [of p a] by (auto simp: inner_def)
    moreover have "a \<in> set (map el_addr (resolve edit_body p [edit_body]))"
      using edit_fields_lead that(1) by (simp add: leads_def)
    ultimately show ?thesis
      using edit_form_field [OF that(1)] loop_obj_leaf [OF assms(7) _ that(2)] by (simp add: field_json_def)
  qed
  moreover have "get_path ?content p = field_json (f_fields e a)"
    if "(p, a) \<in> set (inner ''l1'' edit_form)" "a \<notin> fst ` set (writes edit_body v [edit_body])" for p a
  proof -
    have "a \<noteq> controller_field" using controller_not_sent that(1) by (auto simp: list_all_iff controller_field_def)
    then show ?thesis
      using edit_form_field [OF that(1)] fold_put_other [of a "writes edit_body v [edit_body]"] that(2)
      by (simp add: loop_obj_put)
  qed
  moreover have "edit_save (e\<lparr>f_fields := ?st\<rparr>) = (None, e\<lparr>f_fields := ?st, f_web := snd (web_post ''../flowtable/edit''
      [(''ip'', JStr ip), (''port'', JStr port), (''content'', JStr (json_str ?content))] ESaved (f_web e))\<rparr>)"
    using c assms(5,6) by (simp add: edit_save_def bar_parts_pair Let_def)
  ultimately show ?thesis
    using json_parse_str [OF edit_form_json] by (intro exI [of _ "json_str ?content"] exI [of _ ?content]) (auto simp: i)
qed

lemma sample_writes: "map fst (writes edit_body sample_entry [edit_body]) = [8, 15, 88]"
  by code_simp

lemma entry_saved_witness:
  "\<exists>c content.
     edit_save (snd (edit_init (location_search (the (w_location (snd (fl_viewDetails sample_entry blank_web))))) edit_start)) =
       (None, (snd (edit_init (location_search (the (w_location (snd (fl_viewDetails sample_entry blank_web))))) edit_start))
         \<lparr>f_web := snd (web_post ''../flowtable/edit''
           [(''ip'', JStr ''10.0.0.1''), (''port'', JStr ''81''), (''content'', JStr c)] ESaved (f_web edit_start))\<rparr>) \<and>
     json_parse c = Some content \<and>
     get_path content [''instruction'', ''writeAction'', ''setField'', ''inport''] = JStr ''2''"
proof -
  let ?p = "[''instruction'', ''writeAction'', ''setField'', ''inport'']"
  let ?s = "location_search (the (w_location (snd (fl_viewDetails sample_entry blank_web))))"
  have p: "(?p, 88) \<in> set (inner ''l1'' edit_form)" by code_simp
  have l: "has_leaf sample_entry ?p" "val_string (get_path sample_entry ?p) = ''2''"
    by (simp_all add: sample_entry_def pget.simps val_string_def one_line_def)
  have v: "pget sample_entry ''cip'' = JStr ''10.0.0.1''" "pget sample_entry ''cport'' = JStr ''81''" "\<not> nullish sample_entry"
    by (simp_all add: sample_entry_def pget.simps)
  have w: "distinct (map fst (writes edit_body sample_entry [edit_body]))"
    "controller_field \<notin> fst ` set (writes edit_body sample_entry [edit_body])"
    unfolding set_map [symmetric] sample_writes by (simp_all add: controller_field_def)
  show ?thesis
    using entry_saved [OF link_entry [OF sample_ok] v(3,1,2) _ _ w, of blank_web edit_start] p l by fastforce
qed

section \<open>Actions to write\<close>

text \<open>
  C20: the page for adding sends nothing of the actions to write.  Two forms that differ only in the fields of the group
  \<open>writeAction\<close> are sent as the same request: the page tests the value of the first element in the group, which is
  its heading.
\<close>

theorem write_actions_not_sent:
  assumes "\<forall>a. a \<notin> set (map el_addr (all_els add_writeAction)) \<longrightarrow> st a = f_fields e a"
  shows "f_web (snd (add_save (e\<lparr>f_fields := st\<rparr>))) = f_web (snd (add_save e))"
proof -
  have "add_values add_form [] (add_fields (e\<lparr>f_fields := st\<rparr>)) = add_values add_form [] (add_fields e)"
    using assms by (intro add_values_write) (simp add: write_addrs_def add_fields_def)
  then show ?thesis by (simp add: add_save_def Let_def split: prod.split)
qed

definition add_start :: "ad_cont form_page" where
  "add_start = \<lparr>f_web = add_option ''#DPID'' ''1'' (add_option ''#controller'' ''10.0.0.1|81'' blank_web),
     f_fields = (\<lambda>a. Some [])\<rparr>"

lemma write_actions_not_sent_witness:
  "f_web (snd (add_save (add_start\<lparr>f_fields := (\<lambda>a. Some [])(76 := Some ''2'')\<rparr>))) = f_web (snd (add_save add_start))"
proof -
  have "76 \<in> set (map el_addr (all_els add_writeAction))" by code_simp
  then show ?thesis
    using write_actions_not_sent [of "(\<lambda>a. Some [])(76 := Some ''2'')" add_start] by (auto simp: add_start_def)
qed

end
