(* ===== verification/Web_Tables.thy ===== *)
theory Web_Tables
  imports Managed_List
begin

text \<open>
  Three pages with a table: the meters (\<open>meter_table_config/meter_table_config.html\<close>), the groups
  (\<open>group_table_config/group_table_config.html\<close>) and the gateways (\<open>gateway_config/gateway_config.html\<close>).
\<close>

section \<open>Meters\<close>

text \<open>
  The first element \<open>#controlip\<close> of the page is that of the dialog \<open>#myModal2\<close>, and so is \<open>#switchid\<close>.  There is no
  element \<open>#myModal1\<close>.
\<close>

datatype mt_cont = MControls | MCleared | MRows | MAdded | MEdited | MDeleted | MSwitches2 | MSwitches3

type_synonym mt_act = "mt_cont web_act"

definition mt_getControl :: mt_act where
  "mt_getControl = web_post ''../control/list'' [] MControls"

definition clearMeterTable :: mt_act where
  "clearMeterTable = clear_table ''../meter/cleanMeter'' MCleared"

definition mt_search :: mt_act where
  "mt_search = with_parts ''#control'' (\<lambda>ip port. web_post ''../meter/search'' [(''ip'', ip), (''port'', port)] MRows)"

definition meter_content :: "mt_cont web \<Rightarrow> (string \<times> jsval) list" where
  "meter_content w =
     (let field = (\<lambda>k s. (k, JStr (vals (w_page w) s)))
      in [(''DPID'', list_val ''#myModal2 #switchid'' w), field ''meterId'' ''#meter-id'',
          (''flags'', list_val ''#flags'' w), (''type'', list_val ''#type'' w), field ''precLevel'' ''#precLevel'',
          field ''rate'' ''#rate'', field ''burstSize'' ''#burstSize''])"

definition mt_add :: mt_act where
  "mt_add = with_parts ''#myModal2 #controlip'' (\<lambda>ip port w. web_post ''../meter/add''
     [(''ip'', ip), (''port'', port), (''content'', JStr (json_str (JObj (meter_content w))))] MAdded w)"

text \<open>The details are written into \<open>#flow_details\<close>, but the dialog that is to be shown does not exist.\<close>

definition editMeterItem :: "jsval \<Rightarrow> mt_act" where
  "editMeterItem obj =
     acts [at_page (set_html ''#flow_details'' []),
           at_page (append_html ''#flow_details'' (concat (map (\<lambda>(i, v). detail_text i v) (own_props obj))))]"

text \<open>\<open>$("#myModal1 #control").val()\<close> is undefined.\<close>

definition mt_edit :: mt_act where
  "mt_edit = raises TypeError"

definition delMeterItem :: "bool \<Rightarrow> jsval \<Rightarrow> mt_act" where
  "delMeterItem = delete_item ''../meter/del'' (\<lambda>obj. [(''ip'', pget obj ''cip''), (''port'', pget obj ''cport''),
     (''content'', JStr (json_str (JObj [(''DPID'', pget obj ''dpid''), (''meterId'', pget obj ''meterId'')])))]) MDeleted"

text \<open>A button of a row, as these pages write it.\<close>

definition item_button :: "string \<Rightarrow> string \<Rightarrow> jsval \<Rightarrow> string \<Rightarrow> string" where
  "item_button cls f datas label =
     ''<button type'' @ sq ''button'' @ '' class='' @ sq (''btn '' @ cls @ '' btn-small'') @ '' onclick='' @
     sq (f @ ''('' @ json_str datas @ '')'') @ ''>'' @ label @ ''</button>''"

definition meter_row :: "jsval \<Rightarrow> jsval" where
  "meter_row d =
     (let datas = lassign (JObj (map (\<lambda>k. (k, JStr ''-''))
            [''dpid'', ''meterId'', ''flags'', ''type'', ''precLevel'', ''rate'', ''burstSize''])) d
      in JArr [pget datas ''dpid'', pget datas ''meter-id'', pget datas ''flags'', pget datas ''type'',
               pget datas ''precLevel'', pget datas ''rate'', pget datas ''burstSize'',
               JStr (item_button ''btn-primary'' ''editMeterItem'' datas w_edit @
                     item_button ''btn-danger'' ''delMeterItem'' datas w_delete)])"

definition mt_onRows :: "bool list \<Rightarrow> jsval \<Rightarrow> mt_act" where
  "mt_onRows heads data = when_ok data (acts
     [show_rows heads (map meter_row (each_value (pget data ''data''))), at_page (set_shown ''#datatable-table'' True)])"

definition mt_onControls :: "jsval \<Rightarrow> mt_act" where
  "mt_onControls = list_controls [''#control'', ''#myModal2 #controlip'', ''#myModal3 #controlip'']"

definition mt_onCleared :: "jsval \<Rightarrow> mt_act" where
  "mt_onCleared resp = when_ok resp (acts [say clear_done, hide ''#myModal3'', mt_search])"

text \<open>After an addition the page names the function that hides the dialog and does not call it.\<close>

definition mt_onAdded :: "jsval \<Rightarrow> mt_act" where
  "mt_onAdded = answer_change add_done add_failed []"

definition mt_onEdited :: "jsval \<Rightarrow> mt_act" where
  "mt_onEdited = answer_change edit_done edit_failed [mt_search]"

definition mt_onDeleted :: "jsval \<Rightarrow> mt_act" where
  "mt_onDeleted = answer_change del_done del_failed [mt_search]"

fun mt_callback :: "bool list \<Rightarrow> mt_cont \<Rightarrow> jsval \<Rightarrow> mt_act" where
  "mt_callback heads MControls = mt_onControls"
| "mt_callback heads MCleared = mt_onCleared"
| "mt_callback heads MRows = mt_onRows heads"
| "mt_callback heads MAdded = mt_onAdded"
| "mt_callback heads MEdited = mt_onEdited"
| "mt_callback heads MDeleted = mt_onDeleted"
| "mt_callback heads MSwitches2 = list_switches ''#myModal2 #switchid''"
| "mt_callback heads MSwitches3 = list_switches ''#myModal3 #switchid''"

text \<open>The handlers of \<open>#control\<close> and of the list in the dialog for adding do the same.\<close>

definition mt_on_control :: mt_act where
  "mt_on_control = with_parts ''#myModal2 #controlip'' (\<lambda>ip port.
     web_post ''../switchinfo'' [(''ip'', ip), (''port'', port)] MSwitches2)"

definition mt_on_clear_control :: mt_act where
  "mt_on_clear_control = choose_control ''#myModal3 #controlip'' ''#myModal3 #switchid'' MSwitches3"

definition mt_init :: "string \<Rightarrow> mt_act" where
  "mt_init user = acts [at_page (set_html ''#user_login span'' user), hide ''#datatable-table'', mt_getControl]"

section \<open>Groups\<close>

text \<open>
  This page has no dialog for adding: the first \<open>#controlip\<close> and \<open>#switchid\<close> are those of the dialog for clearing, and
  the elements \<open>#group-id\<close>, \<open>#type\<close> and \<open>#addGroupDialog\<close> do not exist.
\<close>

datatype gr_cont = GControls | GCleared | GRows | GAdded | GDeleted | GSwitches3

type_synonym gr_act = "gr_cont web_act"

definition gr_getControl :: gr_act where
  "gr_getControl = web_post ''../control/list'' [] GControls"

text \<open>The variable \<open>b\<close> is not declared in this page.\<close>

definition gr_viewDetails :: gr_act where
  "gr_viewDetails = raises ReferenceError"

definition clearGroupTable :: gr_act where
  "clearGroupTable = clear_table ''../group/clearGroup'' GCleared"

definition gr_search :: gr_act where
  "gr_search = with_parts ''#control'' (\<lambda>ip port. web_post ''../group/search'' [(''ip'', ip), (''port'', port)] GRows)"

definition gr_add :: gr_act where
  "gr_add = with_parts ''#myModal3 #controlip'' (\<lambda>ip port w. web_post ''../group/add''
     [(''ip'', ip), (''port'', port), (''content'', JStr (json_str (JObj [(''DPID'', list_val ''#myModal3 #switchid'' w),
        (''groupId'', JUndef), (''type'', JUndef), (''buckets'', JArr [])])))] GAdded w)"

definition delGroupItem :: "bool \<Rightarrow> jsval \<Rightarrow> gr_act" where
  "delGroupItem = delete_item ''../group/del'' (\<lambda>obj. [(''ip'', pget obj ''cip''), (''port'', pget obj ''cport''),
     (''content'', JStr (json_str (JObj [(''DPID'', pget obj ''dpid''), (''groupId'', pget obj ''groupId'')])))]) GDeleted"

text \<open>The button that views a group is overwritten by the next one.\<close>

definition group_row :: "jsval \<Rightarrow> jsval" where
  "group_row d =
     (let datas = lassign (JObj (map (\<lambda>k. (k, JStr ''-'')) [''dpid'', ''type'', ''groupId''])) d
      in JArr [pget datas ''dpid'', pget datas ''type'', pget datas ''groupId'',
               JStr (item_button ''btn-primary'' ''editGroupItem'' datas w_edit @
                     item_button ''btn-danger'' ''delGroupItem'' datas w_delete)])"

definition gr_onRows :: "bool list \<Rightarrow> jsval \<Rightarrow> gr_act" where
  "gr_onRows heads data = when_ok data (acts
     [show_rows heads (map group_row (each_value (pget data ''data''))), at_page (set_shown ''#datatable-table'' True),
      at_page (set_css ''#datatable-table'' ''width'' ''100%'')])"

definition gr_onControls :: "jsval \<Rightarrow> gr_act" where
  "gr_onControls = list_controls [''#control'', ''#myModal3 #controlip'']"

definition gr_onCleared :: "jsval \<Rightarrow> gr_act" where
  "gr_onCleared resp = when_ok resp (acts [say clear_done, hide ''#myModal3''])"

definition gr_onAdded :: "jsval \<Rightarrow> gr_act" where
  "gr_onAdded = answer_change add_done add_failed []"

definition gr_onDeleted :: "jsval \<Rightarrow> gr_act" where
  "gr_onDeleted = answer_change del_done del_failed [gr_search]"

fun gr_callback :: "bool list \<Rightarrow> gr_cont \<Rightarrow> jsval \<Rightarrow> gr_act" where
  "gr_callback heads GControls = gr_onControls"
| "gr_callback heads GCleared = gr_onCleared"
| "gr_callback heads GRows = gr_onRows heads"
| "gr_callback heads GAdded = gr_onAdded"
| "gr_callback heads GDeleted = gr_onDeleted"
| "gr_callback heads GSwitches3 = list_switches ''#myModal3 #switchid''"

text \<open>The handler of \<open>#control\<close> reads the list of the dialog for clearing.\<close>

definition gr_on_control :: gr_act where
  "gr_on_control = with_parts ''#myModal3 #controlip'' (\<lambda>ip port.
     web_post ''../switchinfo'' [(''ip'', ip), (''port'', port)] GSwitches3)"

definition gr_on_clear_control :: gr_act where
  "gr_on_clear_control = choose_control ''#myModal3 #controlip'' ''#myModal3 #switchid'' GSwitches3"

definition gr_init :: "string \<Rightarrow> gr_act" where
  "gr_init user = acts [at_page (set_html ''#user_login span'' user), hide ''#datatable-table'', gr_getControl]"

section \<open>Gateways\<close>

datatype gw_cont = WControls string | WRows jsval jsval | WAdded | WDeleted

type_synonym gw_act = "gw_cont web_act"

definition gw_getControl :: "string \<Rightarrow> gw_act" where
  "gw_getControl obj = web_post ''../control/list'' [] (WControls obj)"

definition gw_search :: gw_act where
  "gw_search = with_parts ''#control'' (\<lambda>ip port.
     web_post ''../gateway/list'' [(''ip'', ip), (''port'', port)] (WRows ip port))"

definition gw_add :: gw_act where
  "gw_add = with_parts ''#controlip'' (\<lambda>ip port w. web_post ''../gateway/add''
     [(''ip'', ip), (''port'', port), (''name'', JStr (vals (w_page w) ''#name'')),
      (''address'', JStr (vals (w_page w) ''#address''))] WAdded w)"

definition gw_del :: "bool \<Rightarrow> jsval \<Rightarrow> gw_act" where
  "gw_del = delete_item ''../gateway/del'' (\<lambda>obj. [(''ip'', pget obj ''ip''), (''port'', pget obj ''port''),
     (''name'', pget obj ''name'')]) WDeleted"

text \<open>The object of a row names the controller that the request went to.\<close>

definition gateway_obj :: "jsval \<Rightarrow> jsval \<Rightarrow> jsval \<Rightarrow> jsval" where
  "gateway_obj ip port d = JObj [(''ip'', ip), (''port'', port), (''name'', pget d ''name'')]"

definition gateway_row :: "jsval \<Rightarrow> jsval \<Rightarrow> jsval \<Rightarrow> jsval" where
  "gateway_row ip port d = JArr [pget d ''name'', pget d ''subnet'', JStr (row_button ''btn-danger''
     (CHR 0x27 # ''del('' @ json_str (gateway_obj ip port d) @ '')'' @ [CHR 0x27, CHR 0x27]) w_delete)]"

definition gw_onRows :: "jsval \<Rightarrow> jsval \<Rightarrow> bool list \<Rightarrow> jsval \<Rightarrow> gw_act" where
  "gw_onRows ip port heads data = when_ok data (acts
     [item_rows heads (gateway_row ip port) (each_value (pget data ''data'')),
      at_page (set_shown ''#datatable-table'' True), at_page (set_css ''#datatable-table'' ''width'' ''100%'')])"

definition gw_onAdded :: "jsval \<Rightarrow> gw_act" where
  "gw_onAdded = answer_change add_done add_failed [hide ''#myModal2'', gw_search]"

definition gw_onDeleted :: "jsval \<Rightarrow> gw_act" where
  "gw_onDeleted = answer_change del_done del_failed [gw_search]"

fun gw_callback :: "bool list \<Rightarrow> gw_cont \<Rightarrow> jsval \<Rightarrow> gw_act" where
  "gw_callback heads (WControls s) = list_controls [s]"
| "gw_callback heads (WRows ip port) = gw_onRows ip port heads"
| "gw_callback heads WAdded = gw_onAdded"
| "gw_callback heads WDeleted = gw_onDeleted"

definition gw_init :: "string \<Rightarrow> gw_act" where
  "gw_init user = acts [at_page (set_html ''#user_login span'' user), hide ''#datatable-table'',
     gw_getControl ''#controlip'', gw_getControl ''#control'']"

section \<open>The lists follow their changes\<close>

text \<open>The answers that make each page ask for its list again, and when they do.\<close>

definition mt_granted :: "mt_cont \<Rightarrow> jsval \<Rightarrow> bool" where
  "mt_granted k d \<longleftrightarrow> status_ok d \<and> (k \<noteq> MCleared \<longrightarrow> truthy (pget d ''data''))"

definition table_granted :: "'k \<Rightarrow> jsval \<Rightarrow> bool" where
  "table_granted k d \<longleftrightarrow> status_ok d \<and> truthy (pget d ''data'')"

lemma mt_search_chosen:
  "w_selected w ''#control'' = Some t \<Longrightarrow> mt_search w =
     (None, w\<lparr>w_page := send POST ''../meter/search''
        (post_form [(''ip'', fst (bar_parts t)), (''port'', snd (bar_parts t))]) MRows (w_page w)\<rparr>)"
  by (simp add: mt_search_def with_parts_def web_post_def)

lemma mt_search_selected: "w_selected (snd (mt_search w)) = w_selected w"
  by (simp add: mt_search_def with_parts_def web_post_def split: option.splits)

lemmas mt_changes = mt_onCleared_def mt_onEdited_def mt_onDeleted_def answer_change_def hide_def say_def

interpretation meters: managed_list "mt_callback heads" "\<lambda>k. k \<in> {MCleared, MEdited, MDeleted}" mt_granted
  "''../meter/search''" "\<lambda>t. MRows"
proof
  fix k d t and w :: "mt_cont web"
  assume k: "k \<in> {MCleared, MEdited, MDeleted}"
  show "pending (w_page (snd (mt_callback heads k d w))) =
      pending (w_page w) @ [(reload_request ''../meter/search'' t, MRows)]"
    if "mt_granted k d" "w_selected w ''#control'' = Some t"
    using k that by (auto simp: mt_granted_def mt_changes mt_search_chosen reload_request_def page_simps)
  show "pending (w_page (snd (mt_callback heads k d w))) = pending (w_page w)" if "\<not> mt_granted k d"
    using k that by (cases "status_ok d") (auto simp: mt_granted_def mt_changes page_simps)
  show "w_selected (snd (mt_callback heads k d w)) ''#control'' = w_selected w ''#control''"
    using k by (auto simp: mt_changes mt_search_selected when_ok_cases act_when_def)
qed

lemma gr_search_chosen:
  "w_selected w ''#control'' = Some t \<Longrightarrow> gr_search w =
     (None, w\<lparr>w_page := send POST ''../group/search''
        (post_form [(''ip'', fst (bar_parts t)), (''port'', snd (bar_parts t))]) GRows (w_page w)\<rparr>)"
  by (simp add: gr_search_def with_parts_def web_post_def)

lemma gr_search_selected: "w_selected (snd (gr_search w)) = w_selected w"
  by (simp add: gr_search_def with_parts_def web_post_def split: option.splits)

lemmas gr_changes = gr_onDeleted_def answer_change_def say_def

interpretation groups: managed_list "gr_callback heads" "\<lambda>k. k = GDeleted" table_granted
  "''../group/search''" "\<lambda>t. GRows"
proof
  fix k d t and w :: "gr_cont web"
  assume k: "k = GDeleted"
  show "pending (w_page (snd (gr_callback heads k d w))) =
      pending (w_page w) @ [(reload_request ''../group/search'' t, GRows)]"
    if "table_granted k d" "w_selected w ''#control'' = Some t"
    using k that by (simp add: table_granted_def gr_changes gr_search_chosen reload_request_def page_simps)
  show "pending (w_page (snd (gr_callback heads k d w))) = pending (w_page w)" if "\<not> table_granted k d"
    using k that by (cases "status_ok d") (simp_all add: table_granted_def gr_changes page_simps)
  show "w_selected (snd (gr_callback heads k d w)) ''#control'' = w_selected w ''#control''"
    using k by (simp add: gr_changes gr_search_selected when_ok_cases act_when_def)
qed

lemma gw_search_chosen:
  "w_selected w ''#control'' = Some t \<Longrightarrow> gw_search w =
     (None, w\<lparr>w_page := send POST ''../gateway/list''
        (post_form [(''ip'', fst (bar_parts t)), (''port'', snd (bar_parts t))])
        (WRows (fst (bar_parts t)) (snd (bar_parts t))) (w_page w)\<rparr>)"
  by (simp add: gw_search_def with_parts_def web_post_def)

lemma gw_search_selected: "w_selected (snd (gw_search w)) = w_selected w"
  by (simp add: gw_search_def with_parts_def web_post_def split: option.splits)

lemmas gw_changes = gw_onAdded_def gw_onDeleted_def answer_change_def hide_def say_def

interpretation gateways: managed_list "gw_callback heads" "\<lambda>k. k \<in> {WAdded, WDeleted}" table_granted
  "''../gateway/list''" "\<lambda>t. WRows (fst (bar_parts t)) (snd (bar_parts t))"
proof
  fix k d t and w :: "gw_cont web"
  assume k: "k \<in> {WAdded, WDeleted}"
  show "pending (w_page (snd (gw_callback heads k d w))) = pending (w_page w) @
      [(reload_request ''../gateway/list'' t, WRows (fst (bar_parts t)) (snd (bar_parts t)))]"
    if "table_granted k d" "w_selected w ''#control'' = Some t"
    using k that by (auto simp: table_granted_def gw_changes gw_search_chosen reload_request_def page_simps)
  show "pending (w_page (snd (gw_callback heads k d w))) = pending (w_page w)" if "\<not> table_granted k d"
    using k that by (cases "status_ok d") (auto simp: table_granted_def gw_changes page_simps)
  show "w_selected (snd (gw_callback heads k d w)) ''#control'' = w_selected w ''#control''"
    using k by (auto simp: gw_changes gw_search_selected when_ok_cases act_when_def)
qed

section \<open>What the rows show and delete\<close>

text \<open>
  The table of meters has a column for a property that the entries do not have: it shows nothing for an entry that
  names its meter \<open>meterId\<close>, as the deletion of the page does.
\<close>

lemma assign_props_other:
  "k \<notin> fst ` set kvs \<Longrightarrow> pget (JObj (assign_props kvs acc)) k = pget (JObj acc) k"
  unfolding assign_props_def by (induction kvs arbitrary: acc) (auto simp: update_conv' pget.simps)

lemma meter_id_not_shown:
  "''meter-id'' \<notin> fst ` set kvs \<Longrightarrow> \<exists>a r. meter_row (JObj kvs) = JArr (a # JUndef # r)"
  by (simp add: meter_row_def Let_def assign_props_other) (simp add: pget.simps)

text \<open>Each granted change makes the pages ask again, and nothing else does, in whatever order the answers come.\<close>

lemma meter_changes_reload:
  assumes "answers_each qs as" "\<forall>q \<in> set qs. snd q \<in> {MCleared, MEdited, MDeleted}" "pending (w_page w) = qs"
    and "w_selected w ''#control'' = Some t"
  shows "pending (w_page (answer_all (mt_callback heads) as w)) =
    replicate (count_granted mt_granted qs as) (reload_request ''../meter/search'' t, MRows)"
  using meters.each_grant_reloads [of qs as w "[]" t heads] assms by simp

lemma group_changes_reload:
  assumes "answers_each qs as" "\<forall>q \<in> set qs. snd q = GDeleted" "pending (w_page w) = qs"
    and "w_selected w ''#control'' = Some t"
  shows "pending (w_page (answer_all (gr_callback heads) as w)) =
    replicate (count_granted table_granted qs as) (reload_request ''../group/search'' t, GRows)"
  using groups.each_grant_reloads [of qs as w "[]" t heads] assms by simp

lemma gateway_changes_reload:
  assumes "answers_each qs as" "\<forall>q \<in> set qs. snd q \<in> {WAdded, WDeleted}" "pending (w_page w) = qs"
    and "w_selected w ''#control'' = Some t"
  shows "pending (w_page (answer_all (gw_callback heads) as w)) =
    replicate (count_granted table_granted qs as)
      (reload_request ''../gateway/list'' t, WRows (fst (bar_parts t)) (snd (bar_parts t)))"
  using gateways.each_grant_reloads [of qs as w "[]" t heads] assms by simp

end
