(* ===== verification/Web_Tenants.thy ===== *)
theory Web_Tenants
  imports Managed_List
begin

text \<open>
  The page of the tenants (\<open>multitenant_manage/renant_config.html\<close>): the tenants of the chosen controller in a table,
  dialogs for a new tenant and a new member, and a dialog that lists the members of a tenant, each with a link that
  deletes it.
\<close>

section \<open>State\<close>

text \<open>The entries of the dialog of members are elements of the page, numbered as they are created.\<close>

datatype tn_cont = TControls | TRows | TMembers | TMemberDeleted nat | TDeleted | TMemberAdded | TAdded

record tn_page =
  t_web :: "tn_cont web"
  t_members :: "(nat \<times> string) list"
  t_next :: nat

type_synonym tn_act = "tn_page \<Rightarrow> js_error option \<times> tn_page"

definition on_web :: "tn_cont web_act \<Rightarrow> tn_act" where
  "on_web a p = (case a (t_web p) of (e, w) \<Rightarrow> (e, p\<lparr>t_web := w\<rparr>))"

section \<open>Requests\<close>

definition tn_getControl :: "tn_cont web_act" where
  "tn_getControl = web_post ''../control/list'' [] TControls"

definition tn_search :: "tn_cont web_act" where
  "tn_search = with_parts ''#control'' (\<lambda>ip port.
     web_post ''../renant/searchrenant'' [(''ip'', ip), (''port'', port)] TRows)"

definition tenant_info :: "string \<Rightarrow> string \<Rightarrow> string \<Rightarrow> string" where
  "tenant_info cip cport tenant = cip @ ''|'' @ cport @ ''|'' @ tenant"

definition tn_viewDetails :: "string \<Rightarrow> string \<Rightarrow> string \<Rightarrow> tn_cont web_act" where
  "tn_viewDetails tenant cip cport = acts
     [at_page (set_val ''#myModal #tenant_info'' (JStr (tenant_info cip cport tenant))),
      web_post ''../renant/searchtenantmember''
        [(''ip'', JStr cip), (''port'', JStr cport), (''tenantid'', JStr tenant)] TMembers]"

text \<open>The fields of a request about a member, from the text that the dialog keeps.\<close>

definition member_form :: "string \<Rightarrow> string \<Rightarrow> (string \<times> jsval) list" where
  "member_form t mac =
     (let info = JArr (map JStr (split_on CHR ''|'' t))
      in [(''ip'', elem_at info 0), (''port'', elem_at info 1), (''tenantid'', elem_at info 2), (''mac'', JStr mac)])"

definition delTenantMember :: "nat \<Rightarrow> string \<Rightarrow> tn_cont web_act" where
  "delTenantMember i mac w =
     web_post ''../renant/deltenantmember'' (member_form (vals (w_page w) ''#myModal #tenant_info'') mac) (TMemberDeleted i) w"

definition tn_delRule :: "string \<Rightarrow> string \<Rightarrow> string \<Rightarrow> tn_cont web_act" where
  "tn_delRule ruleID cip cport =
     web_post ''../renant/delrenant'' [(''ip'', JStr cip), (''port'', JStr cport), (''content'', JStr ruleID)] TDeleted"

definition showAddTenantMemberBox :: "string \<Rightarrow> string \<Rightarrow> string \<Rightarrow> tn_cont web_act" where
  "showAddTenantMemberBox tenantid cip cport = acts
     [at_page (set_val ''#myModal3 #tenant_info'' (JStr (tenant_info cip cport tenantid))),
      at_page (set_val ''#myModal3 #src-inport'' (JStr [])), at_page (set_shown ''#myModal3'' True)]"

definition addTenantMember :: "tn_cont web_act" where
  "addTenantMember w =
     (let mac = vals (w_page w) ''#myModal3 #src-inport''
      in if truthy (JStr mac) \<and> mac = [] then (None, w)
         else web_post ''../renant/addtenantmember'' (member_form (vals (w_page w) ''#myModal3 #tenant_info'') mac)
                TMemberAdded w)"

text \<open>\<open>#src-inport\<close> is the field of the dialog for a new tenant, the first of the page with this name.\<close>

definition tn_add :: "tn_cont web_act" where
  "tn_add = with_parts ''#control'' (\<lambda>ip port w. web_post ''../renant/addrenant''
     [(''ip'', ip), (''port'', port), (''content'', JStr (vals (w_page w) ''#src-inport''))] TAdded w)"

definition tn_init :: "string \<Rightarrow> tn_cont web_act" where
  "tn_init user = acts [at_page (set_html ''#user_login span'' user), hide ''#datatable-table'', tn_getControl]"

section \<open>Answers\<close>

definition tenant_call :: "string \<Rightarrow> jsval \<Rightarrow> string" where
  "tenant_call f d = sq (f @ ''('' @ dq (js_str (pget d ''tenant-id'')) @ '', '' @ dq (js_str (pget d ''cip'')) @ '', '' @
     dq (js_str (pget d ''cport'')) @ '')'')"

definition w_add :: string where
  "w_add = [CHR 0xE6, CHR 0xB7, CHR 0xBB, CHR 0xE5, CHR 0x8A, CHR 0xA0]"

definition tenant_row :: "jsval \<Rightarrow> jsval" where
  "tenant_row d = JArr [pget d ''tenant-id'', pget d ''tenant-name'', JStr (
     row_button ''btn-success'' (tenant_call ''viewDetails'' d) w_view @
     row_button ''btn-primary'' (tenant_call ''showAddTenantMemberBox'' d) w_add @
     row_button ''btn-danger'' (tenant_call ''delRule'' d) w_delete)]"

definition tn_onRows :: "bool list \<Rightarrow> jsval \<Rightarrow> tn_cont web_act" where
  "tn_onRows heads data = when_ok data (acts
     [item_rows heads tenant_row (each_value (pget data ''data'')), at_page (set_shown ''#datatable-table'' True)])"

definition tn_onDeleted :: "jsval \<Rightarrow> tn_cont web_act" where
  "tn_onDeleted resp = (if status_ok resp then tn_search else say del_failed)"

definition tn_onMemberAdded :: "jsval \<Rightarrow> tn_cont web_act" where
  "tn_onMemberAdded resp = (if status_ok resp then acts [say add_done, hide ''#myModal3''] else say add_failed)"

definition tn_onAdded :: "jsval \<Rightarrow> tn_cont web_act" where
  "tn_onAdded data = (if status_ok data then acts [say add_done, hide ''#myModal2'', tn_search] else say add_failed)"

fun tn_web_callback :: "bool list \<Rightarrow> tn_cont \<Rightarrow> jsval \<Rightarrow> tn_cont web_act" where
  "tn_web_callback heads TControls = list_controls [''#control'']"
| "tn_web_callback heads TRows = tn_onRows heads"
| "tn_web_callback heads TDeleted = tn_onDeleted"
| "tn_web_callback heads TMemberAdded = tn_onMemberAdded"
| "tn_web_callback heads TAdded = tn_onAdded"
| "tn_web_callback heads k = (\<lambda>data. does id)"

text \<open>The answers for the dialog of members: it is filled anew, and an entry is removed when its deletion was granted.\<close>

definition tn_onMembers :: "jsval \<Rightarrow> tn_act" where
  "tn_onMembers data p =
     (let d = pget data ''data''; ms = each_value (pget d ''members'')
      in if \<not> status_ok data then (None, p)
         else if nullish d \<or> list_ex nullish ms then (Some TypeError, p)
         else (None, p\<lparr>t_web := (t_web p)\<lparr>w_page := set_shown ''#myModal'' True (w_page (t_web p))\<rparr>,
                t_members := zip [t_next p..<t_next p + length ms] (map (\<lambda>m. js_str (pget m ''mac'')) ms),
                t_next := t_next p + length ms\<rparr>))"

definition tn_onMemberDeleted :: "nat \<Rightarrow> jsval \<Rightarrow> tn_act" where
  "tn_onMemberDeleted i resp p =
     (if status_ok resp then (None, p\<lparr>t_members := filter (\<lambda>m. fst m \<noteq> i) (t_members p)\<rparr>)
      else on_web (say del_failed) p)"

fun tn_callback :: "bool list \<Rightarrow> tn_cont \<Rightarrow> jsval \<Rightarrow> tn_act" where
  "tn_callback heads TMembers data = tn_onMembers data"
| "tn_callback heads (TMemberDeleted i) data = tn_onMemberDeleted i data"
| "tn_callback heads k data = on_web (tn_web_callback heads k data)"

definition tn_arrives :: "bool list \<Rightarrow> nat \<Rightarrow> answer \<Rightarrow> tn_page \<Rightarrow> tn_page" where
  "tn_arrives heads i a p =
     (case nth_opt (pending (w_page (t_web p))) i of
        None \<Rightarrow> p
      | Some (r, k) \<Rightarrow>
          (let p' = p\<lparr>t_web := (t_web p)\<lparr>w_page := take_pending i (w_page (t_web p))\<rparr>\<rparr>
           in case a of Success d \<Rightarrow> snd (tn_callback heads k d p') | Failure m \<Rightarrow> p'))"

section \<open>The page in use\<close>

text \<open>A link deletes the member of its entry, so it needs an entry that is shown.\<close>

datatype tn_event =
    T_choose string
  | T_search
  | T_view string string string
  | T_delete_member nat string
  | T_delete string string string
  | T_member_box string string string
  | T_add_member
  | T_add

fun tn_do :: "(string list \<Rightarrow> string option) \<Rightarrow> tn_event \<Rightarrow> tn_cont web_act" where
  "tn_do no_match (T_choose v) = does (select_option no_match ''#control'' v)"
| "tn_do no_match T_search = tn_search"
| "tn_do no_match (T_view i c p) = tn_viewDetails i c p"
| "tn_do no_match (T_delete_member i mac) = delTenantMember i mac"
| "tn_do no_match (T_delete i c p) = tn_delRule i c p"
| "tn_do no_match (T_member_box i c p) = showAddTenantMemberBox i c p"
| "tn_do no_match T_add_member = addTenantMember"
| "tn_do no_match T_add = tn_add"

fun tn_possible :: "tn_page \<Rightarrow> tn_event \<Rightarrow> bool" where
  "tn_possible p (T_delete_member i mac) \<longleftrightarrow> (i, mac) \<in> set (t_members p)"
| "tn_possible p e \<longleftrightarrow> True"

definition tn_start :: tn_page where
  "tn_start = \<lparr>t_web = blank_web, t_members = [], t_next = 0\<rparr>"

inductive tn_reach :: "(string list \<Rightarrow> string option) \<Rightarrow> bool list \<Rightarrow> tn_page \<Rightarrow> bool"
  for no_match heads where
  t_loaded: "tn_reach no_match heads (snd (on_web (tn_init user) tn_start))"
| t_used: "tn_reach no_match heads p \<Longrightarrow> tn_possible p e \<Longrightarrow> tn_reach no_match heads (snd (on_web (tn_do no_match e) p))"
| t_answered: "tn_reach no_match heads p \<Longrightarrow> tn_reach no_match heads (tn_arrives heads i a p)"

section \<open>Requests that a statement may add\<close>

definition sent_only :: "('k \<Rightarrow> bool) \<Rightarrow> 'k web \<Rightarrow> 'k web \<Rightarrow> bool" where
  "sent_only P w w' \<longleftrightarrow> (\<forall>q \<in> set (pending (w_page w')). q \<in> set (pending (w_page w)) \<or> P (snd q))"

abbreviation sends_only :: "('k \<Rightarrow> bool) \<Rightarrow> 'k web_act \<Rightarrow> bool" where
  "sends_only P \<equiv> stepwise (sent_only P)"

interpretation sends: web_rel "sent_only P"
  by unfold_locales (auto simp: sent_only_def)

lemma sends_does: "(\<And>w. pending (w_page (f w)) = pending (w_page w)) \<Longrightarrow> sends_only P (does f)"
  by (simp add: stepwise_def sent_only_def)

lemma sends_page: "(\<And>p. pending (f p) = pending p) \<Longrightarrow> sends_only P (at_page f)"
  by (simp add: stepwise_def sent_only_def)

lemma sends_post: "P k \<Longrightarrow> sends_only P (web_post u kvs k)"
  by (auto simp: stepwise_def sent_only_def web_post_def page_simps)

lemma sends_post_now: "(\<And>w. P (k w)) \<Longrightarrow> sends_only P (\<lambda>w. web_post u (f w) (k w) w)"
  by (auto simp: stepwise_def sent_only_def web_post_def page_simps)

lemma sends_nothing: "sends_only P (item_rows heads row items)" "sends_only P (say t)" "sends_only P (hide t)"
  by (simp_all add: stepwise_def sent_only_def item_rows_def show_rows_def say_def hide_def page_simps)

lemmas sends_intros = sends.stmt_rules sends.parts_rel sends_does sends_page sends_post sends_post_now sends_nothing

lemmas sends_only_def = stepwise_def sent_only_def

lemma pending_fold_options: "pending (w_page (fold (\<lambda>s. add_option s v) doms w)) = pending (w_page w)"
  by (induction doms arbitrary: w) (simp_all add: add_option_def Let_def)

lemma sends_controls: "sends_only P (list_controls doms data)"
  unfolding list_controls_def add_to_lists_def by (auto simp: pending_fold_options intro!: sends_intros)

section \<open>The dialog of members\<close>

definition deletes_below :: "nat \<Rightarrow> tn_cont \<Rightarrow> bool" where
  "deletes_below n k \<longleftrightarrow> (case k of TMemberDeleted i \<Rightarrow> i < n | _ \<Rightarrow> True)"

text \<open>The entries have distinct numbers, and no entry and no deletion that waits for its answer has a number to come.\<close>

definition tn_inv :: "tn_page \<Rightarrow> bool" where
  "tn_inv p \<longleftrightarrow> distinct (map fst (t_members p)) \<and> (\<forall>m \<in> set (t_members p). fst m < t_next p) \<and>
     (\<forall>q \<in> set (pending (w_page (t_web p))). deletes_below (t_next p) (snd q))"

lemma tn_inv_web:
  assumes "tn_inv p" "sends_only (deletes_below (t_next p)) a"
  shows "tn_inv (snd (on_web a p))"
proof -
  obtain e w where "a (t_web p) = (e, w)" by force
  then show ?thesis using assms by (auto simp: tn_inv_def on_web_def sends_only_def) (metis snd_conv)+
qed

lemmas tn_requests = tn_search_def tn_viewDetails_def tn_delRule_def showAddTenantMemberBox_def tn_add_def
  tn_init_def tn_getControl_def

lemma tn_do_sends:
  assumes "tn_inv p" "tn_possible p e"
  shows "sends_only (deletes_below (t_next p)) (tn_do no_match e)"
proof (cases e)
  case (T_delete_member i mac)
  then have "deletes_below (t_next p) (TMemberDeleted i)" using assms by (auto simp: tn_inv_def deletes_below_def)
  then show ?thesis using T_delete_member by (auto simp: sends_only_def delTenantMember_def web_post_def page_simps)
next
  case T_add_member
  then show ?thesis by (auto simp: sends_only_def addTenantMember_def web_post_def page_simps deletes_below_def Let_def)
qed (auto simp: tn_requests select_option_def page_simps deletes_below_def intro!: sends_intros)

lemma tn_web_callback_sends: "sends_only (deletes_below n) (tn_web_callback heads k d)"
  by (cases k) (auto simp: tn_onRows_def tn_onDeleted_def tn_onMemberAdded_def tn_onAdded_def tn_search_def page_simps
      deletes_below_def intro!: sends_intros sends_controls)

lemma tn_callback_inv:
  assumes "tn_inv p"
  shows "tn_inv (snd (tn_callback heads k d p))"
proof -
  have w: "tn_inv (snd (on_web (tn_web_callback heads k d) p))"
    using tn_inv_web [OF assms tn_web_callback_sends] .
  have "tn_inv (snd (tn_onMembers d p))"
    using assms by (auto simp: tn_inv_def tn_onMembers_def Let_def page_simps deletes_below_def
        split: tn_cont.splits dest: set_zip_leftD)
  moreover have "tn_inv (snd (tn_onMemberDeleted i d p))" for i
    using assms tn_inv_web [OF assms sends_nothing(2), of del_failed]
    by (auto simp: tn_inv_def tn_onMemberDeleted_def distinct_map_filter)
  ultimately show ?thesis using w by (cases k) simp_all
qed

lemma tn_arrives_inv:
  assumes "tn_inv p"
  shows "tn_inv (tn_arrives heads i a p)"
proof -
  let ?p = "p\<lparr>t_web := (t_web p)\<lparr>w_page := take_pending i (w_page (t_web p))\<rparr>\<rparr>"
  have "tn_inv ?p"
    using assms by (auto simp: tn_inv_def page_simps dest: in_set_takeD in_set_dropD)
  then show ?thesis using assms tn_callback_inv [of ?p] by (auto simp: tn_arrives_def Let_def split: option.split answer.split)
qed

lemma tn_reach_inv: "tn_reach no_match heads p \<Longrightarrow> tn_inv p"
proof (induction rule: tn_reach.induct)
  case (t_loaded user)
  have "tn_inv tn_start" by (simp add: tn_inv_def tn_start_def blank_web_def blank_page_def)
  moreover have "sends_only (deletes_below (t_next tn_start)) (tn_init user)"
    by (auto simp: tn_requests page_simps deletes_below_def intro!: sends_intros)
  ultimately show ?case by (rule tn_inv_web)
next
  case (t_used p e)
  then show ?case using tn_inv_web tn_do_sends by blast
next
  case (t_answered p i a)
  then show ?case by (simp add: tn_arrives_inv)
qed

section \<open>Deletions of members\<close>

text \<open>The entries whose deletion is granted by the answers, which name the requests as in \<open>answers_each\<close>.\<close>

fun granted_rows :: "(request \<times> tn_cont) list \<Rightarrow> (nat \<times> answer) list \<Rightarrow> nat list" where
  "granted_rows qs [] = []"
| "granted_rows qs ((i, a) # as) =
     (case (snd (qs ! i), a) of
        (TMemberDeleted m, Success d) \<Rightarrow> if status_ok d then [m] else []
      | _ \<Rightarrow> []) @ granted_rows (take i qs @ drop (Suc i) qs) as"

lemma arrives_deletion:
  assumes "i < length qs" "snd (qs ! i) = TMemberDeleted m" "pending (w_page (t_web p)) = qs"
  shows "t_members (tn_arrives heads i a p) = filter (\<lambda>x. fst x \<notin> set (granted_rows qs [(i, a)])) (t_members p)"
    and "pending (w_page (t_web (tn_arrives heads i a p))) = take i qs @ drop (Suc i) qs"
proof -
  obtain r where q: "qs ! i = (r, TMemberDeleted m)" using assms(2) by (cases "qs ! i") simp
  have n: "nth_opt (pending (w_page (t_web p))) i = Some (r, TMemberDeleted m)"
    using assms(1,3) q by (simp add: nth_opt_def)
  show "t_members (tn_arrives heads i a p) = filter (\<lambda>x. fst x \<notin> set (granted_rows qs [(i, a)])) (t_members p)"
    using q by (cases a) (simp_all add: tn_arrives_def n Let_def tn_onMemberDeleted_def on_web_def say_def)
  show "pending (w_page (t_web (tn_arrives heads i a p))) = take i qs @ drop (Suc i) qs"
    using q n [unfolded assms(3)] assms(3)
    by (cases a) (simp_all add: tn_arrives_def Let_def tn_onMemberDeleted_def on_web_def say_def page_simps)
qed

text \<open>
  C23: the dialog shows the members that are left.  When deletions of members wait for their answers, then after all
  of them have come, in any order, the entries shown are those shown before without the ones whose deletion was
  granted; a deletion that was refused, or that failed, leaves its entry in place.
\<close>

theorem members_after_deletions:
  assumes "answers_each qs as" "\<forall>q \<in> set qs. \<exists>m. snd q = TMemberDeleted m" "pending (w_page (t_web p)) = qs"
  shows "t_members (fold (\<lambda>(i, a). tn_arrives heads i a) as p) =
     filter (\<lambda>m. fst m \<notin> set (granted_rows qs as)) (t_members p)"
  using assms
proof (induction qs as arbitrary: p rule: answers_each.induct)
  case (1 qs)
  then show ?case by simp
next
  case (2 qs i a as)
  then obtain m where m: "i < length qs" "snd (qs ! i) = TMemberDeleted m" by (auto simp: all_set_conv_all_nth)
  note s = arrives_deletion [OF m 2(4), of heads a]
  have "\<forall>q \<in> set (take i qs @ drop (Suc i) qs). \<exists>m. snd q = TMemberDeleted m"
    using 2(3) by (auto dest: in_set_takeD in_set_dropD)
  then show ?case using 2(1) [of "tn_arrives heads i a p"] 2(2) s by (auto intro: filter_cong)
qed

definition two_members :: tn_page where
  "two_members = tn_start\<lparr>t_members := [(0, ''a''), (1, ''b'')], t_next := 2,
     t_web := snd (acts [delTenantMember 0 ''a'', delTenantMember 1 ''b''] blank_web)\<rparr>"

lemma members_after_deletions_witness:
  "t_members (fold (\<lambda>(i, a). tn_arrives [] i a) [(1, Success (JObj [(''status'', JStr ''0'')])), (0, Failure [])] two_members) =
     [(0, ''a'')]"
proof -
  have "map snd (pending (w_page (t_web two_members))) = [TMemberDeleted 0, TMemberDeleted 1]"
    by (simp add: two_members_def delTenantMember_def web_post_def page_simps blank_web_def blank_page_def)
  then obtain r s where q: "pending (w_page (t_web two_members)) = [(r, TMemberDeleted 0), (s, TMemberDeleted 1)]"
    by (auto simp: map_eq_Cons_conv)
  have "t_members two_members = [(0, ''a''), (1, ''b'')]" by (simp add: two_members_def)
  then show ?thesis
    using members_after_deletions [OF _ _ q, of "[(1, Success (JObj [(''status'', JStr ''0'')])), (0, Failure [])]" "[]"]
    by (simp add: status_ok_def pget.simps)
qed

text \<open>
  C24: a deletion that is answered late removes nothing from the dialog when this has been filled anew in the
  meantime, even if the same member is in it again.
\<close>

theorem late_deletion_harmless:
  assumes "tn_reach no_match heads p" "nth_opt (pending (w_page (t_web p))) i = Some (r, TMembers)"
    and "status_ok d" "\<not> nullish (pget d ''data'')" "\<not> list_ex nullish (each_value (pget (pget d ''data'') ''members''))"
    and "p' = tn_arrives heads i (Success d) p"
    and "nth_opt (pending (w_page (t_web p'))) j = Some (r', TMemberDeleted m)"
  shows "t_members (tn_arrives heads j a p') = t_members p'"
proof -
  have p': "t_members p' = zip [t_next p..<t_next p + length (each_value (pget (pget d ''data'') ''members''))]
      (map (\<lambda>m. js_str (pget m ''mac'')) (each_value (pget (pget d ''data'') ''members'')))"
    "set (pending (w_page (t_web p'))) \<subseteq> set (pending (w_page (t_web p)))"
    using assms(2-6) by (auto simp: tn_arrives_def Let_def tn_onMembers_def page_simps dest: in_set_takeD in_set_dropD)
  have "(r', TMemberDeleted m) \<in> set (pending (w_page (t_web p')))"
    using assms(7) by (auto simp: nth_opt_def split: if_splits dest: nth_mem)
  then have "(r', TMemberDeleted m) \<in> set (pending (w_page (t_web p)))" using p'(2) by blast
  then have "m < t_next p"
    using tn_reach_inv [OF assms(1)] by (fastforce simp: tn_inv_def deletes_below_def)
  then have "fst x \<noteq> m" if "x \<in> set (t_members p')" for x
    using that p'(1) by (cases x) (auto dest: set_zip_leftD)
  then have "filter (\<lambda>x. fst x \<noteq> m) (t_members p') = t_members p'" by (simp add: filter_id_conv)
  then show ?thesis
    using assms(7) by (cases a) (simp_all add: tn_arrives_def Let_def tn_onMemberDeleted_def on_web_def say_def)
qed

definition one_member :: jsval where
  "one_member = JObj [(''status'', JStr ''0''), (''data'', JObj [(''members'', JArr [JObj [(''mac'', JStr ''a'')]])])]"

definition viewed_twice :: tn_page where
  "viewed_twice =
     (let use = (\<lambda>e p. snd (on_web (tn_do (\<lambda>os. None) e) p)); view = T_view ''t'' ''10.0.0.1'' ''81''
      in use view (use (T_delete_member 0 ''a'') (tn_arrives [] 1 (Success one_member)
           (use view (snd (on_web (tn_init ''admin'') tn_start))))))"

lemmas eval_tenants = viewed_twice_def Let_def tn_arrives_def tn_onMembers_def on_web_def delTenantMember_def tn_requests
  web_post_def hide_def page_simps tn_start_def blank_web_def blank_page_def one_member_def status_ok_def pget.simps
  each_value_def nth_opt_def

lemma viewed_twice_reach: "tn_reach (\<lambda>os. None) [] viewed_twice"
proof -
  have "tn_reach (\<lambda>os. None) [] (tn_arrives [] 1 (Success one_member) (snd (on_web
      (tn_do (\<lambda>os. None) (T_view ''t'' ''10.0.0.1'' ''81'')) (snd (on_web (tn_init ''admin'') tn_start)))))" (is "tn_reach _ _ ?p")
    by (intro tn_reach.intros) simp
  moreover have "tn_possible ?p (T_delete_member 0 ''a'')" by (simp add: eval_tenants)
  ultimately show ?thesis
    unfolding viewed_twice_def Let_def by (intro t_used [where e = "T_view ''t'' ''10.0.0.1'' ''81''"] t_used) simp_all
qed

lemma late_deletion_harmless_witness:
  "t_members (tn_arrives [] 1 (Success one_member) (tn_arrives [] 2 (Success one_member) viewed_twice)) = [(1, ''a'')]"
proof -
  obtain r where "nth_opt (pending (w_page (t_web viewed_twice))) 2 = Some (r, TMembers)" by (simp add: eval_tenants)
  moreover obtain s where
    "nth_opt (pending (w_page (t_web (tn_arrives [] 2 (Success one_member) viewed_twice)))) 1 = Some (s, TMemberDeleted 0)"
    by (simp add: eval_tenants)
  moreover have "status_ok one_member" "\<not> nullish (pget one_member ''data'')"
    "\<not> list_ex nullish (each_value (pget (pget one_member ''data'') ''members''))"
    by (simp_all add: one_member_def status_ok_def each_value_def pget.simps)
  moreover have "t_members (tn_arrives [] 2 (Success one_member) viewed_twice) = [(1, ''a'')]" by (simp add: eval_tenants)
  ultimately show ?thesis using late_deletion_harmless [OF viewed_twice_reach] by simp
qed

text \<open>A new member without an address is sent: the test for it can not hold.\<close>

lemma empty_member_sent:
  "vals (w_page w) ''#myModal3 #src-inport'' = [] \<Longrightarrow>
     map snd (pending (w_page (snd (addTenantMember w)))) = map snd (pending (w_page w)) @ [TMemberAdded]"
  by (simp add: addTenantMember_def web_post_def page_simps Let_def)

end
