(* ===== verification/Web_Chart.thy ===== *)
theory Web_Chart
  imports Web_Page
begin

text \<open>
  The script of the page with the topology graph (\<open>chart/chart.html\<close>): the switches, links and hosts of a controller
  are collected into the nodes and links of a graph, which a library draws, and into the list of the hosts at each port
  of a switch.  The requests of this page are answered before the script goes on, so the answer is an argument.
\<close>

section \<open>State\<close>

text \<open>A name is a text or a number; \<open>_.uniq\<close> compares names by identity.\<close>

record chart_node =
  n_category :: nat
  n_name :: jsval
  n_size :: nat

record chart_host =
  h_dpid :: string
  h_hosts :: jsval
  h_total :: jsval

text \<open>The graph drawn last, the requests sent, and the number of calls of \<open>initAll\<close>, which starts the topology view.\<close>

record chart_page =
  c_web :: "unit web"
  c_nodes :: "chart_node list"
  c_links :: "(jsval \<times> jsval) list"
  c_host :: "chart_host list"
  c_drawn :: "(chart_node list \<times> (jsval \<times> jsval) list) option"
  c_sent :: "request list"
  c_started :: nat

type_synonym ch_act = "chart_page stmt"

definition in_web :: "unit web_act \<Rightarrow> ch_act" where
  "in_web a p = (case a (c_web p) of (e, w) \<Rightarrow> (e, p\<lparr>c_web := w\<rparr>))"

text \<open>\<open>$.ajax\<close> with \<open>async: false\<close>: the statement that handles a success, or the message of an error.\<close>

definition ajax_now :: "string \<Rightarrow> (string \<times> jsval) list \<Rightarrow> answer \<Rightarrow> (jsval \<Rightarrow> ch_act) \<Rightarrow> ch_act" where
  "ajax_now url form a success = acts
     [does (\<lambda>p. p\<lparr>c_sent := c_sent p @ [\<lparr>req_method = POST, req_url = url, req_body = post_form form\<rparr>]\<rparr>),
      case a of Success d \<Rightarrow> success d | Failure m \<Rightarrow> in_web (say ''error'')]"

definition ch_parts :: "(jsval \<Rightarrow> jsval \<Rightarrow> ch_act) \<Rightarrow> ch_act" where
  "ch_parts f p = (case w_selected (c_web p) ''#control'' of
     None \<Rightarrow> (Some TypeError, p)
   | Some t \<Rightarrow> f (fst (bar_parts t)) (snd (bar_parts t)) p)"

section \<open>Controllers and the fabric\<close>

definition ch_getControl :: ch_act where
  "ch_getControl = in_web (web_post ''../control/list'' [] ())"

definition ch_onControls :: "jsval \<Rightarrow> ch_act" where
  "ch_onControls data = acts
     [in_web (list_controls [''#control''] data),
      when_ok data (does (\<lambda>p. p\<lparr>c_started := Suc (c_started p)\<rparr>))]"

definition setupFabric :: "answer \<Rightarrow> ch_act" where
  "setupFabric a = ch_parts (\<lambda>ip port.
     ajax_now ''../topology/setFabric'' [(''ip'', ip), (''port'', port)] a (\<lambda>d. in_web (say ''success!'')))"

definition delFabric :: "answer \<Rightarrow> ch_act" where
  "delFabric a = ch_parts (\<lambda>ip port.
     ajax_now ''../topology/deleteFabric'' [(''ip'', ip), (''port'', port)] a (\<lambda>d. in_web (say ''success!'')))"

definition partFabric :: "answer \<Rightarrow> ch_act" where
  "partFabric a p = ajax_now ''../topology/partFabric'' [(''partF'', JStr (vals (w_page (c_web p)) ''#partF''))] a
     (\<lambda>d. in_web (say ''success!'')) p"

definition searchTwo :: ch_act where
  "searchTwo = ch_parts (\<lambda>ip port. in_web (does (\<lambda>w. w\<lparr>w_location :=
     Some (''chart.html?ipp='' @ js_str ip @ ''&portt='' @ js_str port)\<rparr>)))"

section \<open>The graph\<close>

definition switch_node :: "jsval \<Rightarrow> chart_node" where
  "switch_node v = \<lparr>n_category = 0, n_name = v, n_size = 30\<rparr>"

definition host_node :: "jsval \<Rightarrow> chart_node" where
  "host_node v = \<lparr>n_category = 1, n_name = v, n_size = 15\<rparr>"

definition add_node :: "chart_node \<Rightarrow> ch_act" where
  "add_node n = does (\<lambda>p. p\<lparr>c_nodes := c_nodes p @ [n]\<rparr>)"

definition add_link :: "jsval \<Rightarrow> jsval \<Rightarrow> ch_act" where
  "add_link s t = does (\<lambda>p. p\<lparr>c_links := c_links p @ [(s, t)]\<rparr>)"

definition initDPID :: "string \<Rightarrow> ch_act" where
  "initDPID v = in_web (does (add_option ''#dpid'' v))"

definition link_row :: "jsval \<Rightarrow> jsval" where
  "link_row d = JArr [pget d ''src_switch'', pget d ''src_port'', pget d ''dst_switch'', pget d ''dst_port'']"

definition link_item :: "jsval \<Rightarrow> ch_act" where
  "link_item d = acts
     [add_link (pget d ''src_switch'') (pget d ''dst_switch''), add_node (switch_node (pget d ''src_switch'')),
      add_node (switch_node (pget d ''dst_switch''))]"

definition links_answer :: "bool list \<Rightarrow> jsval \<Rightarrow> ch_act" where
  "links_answer heads data = when_ok data
     (let d = pget data ''data''; rs = each_value (pget d ''relation'')
      in if nullish d then raises TypeError
         else acts (map (\<lambda>v. add_node (switch_node v)) (each_value (pget d ''nodes'')) @ map (item_act link_item) rs @
           [in_web (acts [show_rows heads (map link_row rs), at_page (set_shown ''#datatable-table'' True),
                          at_page (set_shown ''.hostbody'' True)])]))"

definition host_link :: "jsval \<Rightarrow> jsval \<Rightarrow> ch_act" where
  "host_link dpid h = acts [add_node (host_node (pget h ''ip'')), add_link dpid (pget h ''ip'')]"

definition port_name :: "jsval \<Rightarrow> string" where
  "port_name d = js_str (pget d ''dpid'') @ ''|'' @ js_str (pget d ''port'')"

definition host_item :: "jsval \<Rightarrow> ch_act" where
  "host_item d = acts (add_node (switch_node (pget d ''dpid'')) #
     map (item_act (host_link (pget d ''dpid''))) (each_value (pget d ''hosts'')) @
     [does (\<lambda>p. p\<lparr>c_host := c_host p @ [\<lparr>h_dpid = port_name d, h_hosts = pget d ''hosts'', h_total = pget d ''total''\<rparr>]\<rparr>),
      initDPID (port_name d)])"

text \<open>\<open>_.uniq(nodes, false, \<dots> name)\<close>\<close>

fun uniq_by :: "('a \<Rightarrow> 'b) \<Rightarrow> 'b list \<Rightarrow> 'a list \<Rightarrow> 'a list" where
  "uniq_by f seen [] = []"
| "uniq_by f seen (x # xs) = (if f x \<in> set seen then uniq_by f seen xs else x # uniq_by f (f x # seen) xs)"

definition draw :: "chart_page \<Rightarrow> chart_page" where
  "draw p = p\<lparr>c_nodes := uniq_by n_name [] (c_nodes p),
     c_web := (c_web p)\<lparr>w_page := set_html ''#chart'' [] (w_page (c_web p))\<rparr>,
     c_drawn := Some (uniq_by n_name [] (c_nodes p), c_links p)\<rparr>"

definition hosts_answer :: "jsval \<Rightarrow> ch_act" where
  "hosts_answer data = acts
     [when_ok data
        (let d = pget data ''data''
         in if nullish d then raises TypeError
            else acts (map (\<lambda>v. add_node (switch_node v)) (each_value (pget d ''nodes'')) @
              map (item_act host_item) (each_value (pget d ''relation'')))),
      does draw]"

definition ch_search :: "bool list \<Rightarrow> answer \<Rightarrow> answer \<Rightarrow> ch_act" where
  "ch_search heads a1 a2 = acts
     [in_web (does (clear_options ''#dpid'')), does (\<lambda>p. p\<lparr>c_nodes := [], c_links := []\<rparr>),
      ch_parts (\<lambda>ip port. acts
        [ajax_now ''../topology/link'' [(''ip'', ip), (''port'', port)] a1 (links_answer heads),
         ajax_now ''../topology/host'' [(''ip'', ip), (''port'', port)] a2 hosts_answer])]"

section \<open>The hosts at a port\<close>

definition host_row :: "jsval \<Rightarrow> jsval" where
  "host_row h = JArr [pget h ''ip'', pget h ''mac'']"

definition ch_searchHost :: "bool list \<Rightarrow> ch_act" where
  "ch_searchHost heads p =
     (let found = filter (\<lambda>h. w_selected (c_web p) ''#dpid'' = Some (h_dpid h)) (c_host p);
          hs = concat (map (\<lambda>h. each_value (h_hosts h)) found);
          totals = map h_total (filter (\<lambda>h. each_value (h_hosts h) \<noteq> []) found);
          total = (if totals = [] then JNum (Fin 0) else last totals)
      in if list_ex nullish hs then (Some TypeError, p)
         else in_web (acts
           [does (\<lambda>w. w\<lparr>w_tables := showTables heads (JArr (map host_row hs)) total (w_tables w)\<rparr>),
            at_page (set_shown ''#datatable-table1'' True)]) p)"

definition ch_init :: "string \<Rightarrow> ch_act" where
  "ch_init user = acts
     [in_web (acts [at_page (set_html ''#user_login span'' user), hide ''#datatable-table'', hide ''#datatable-table1'',
                    hide ''.hostbody'']),
      ch_getControl]"

definition chart_start :: chart_page where
  "chart_start = \<lparr>c_web = blank_web, c_nodes = [], c_links = [], c_host = [], c_drawn = None, c_sent = [], c_started = 0\<rparr>"

section \<open>The graph is closed\<close>

definition node_names :: "chart_page \<Rightarrow> jsval set" where
  "node_names p = n_name ` set (c_nodes p)"

text \<open>
  Nodes are only added, and so are links whose ends are nodes, provided that \<open>x\<close> (if any) is a node already.
\<close>

definition grows :: "jsval option \<Rightarrow> chart_page \<Rightarrow> chart_page \<Rightarrow> bool" where
  "grows x p p' \<longleftrightarrow> ((\<forall>v. x = Some v \<longrightarrow> v \<in> node_names p) \<longrightarrow> node_names p \<subseteq> node_names p' \<and>
     (\<forall>(s, t) \<in> set (c_links p'). (s, t) \<in> set (c_links p) \<or> s \<in> node_names p' \<and> t \<in> node_names p'))"

interpretation growth: stmt_rel "grows x"
proof
  show "grows x s s" for s by (auto simp: grows_def)
  show "grows x s t \<Longrightarrow> grows x t u \<Longrightarrow> grows x s u" for s t u
    unfolding grows_def by (auto simp: subset_iff)
qed

lemma grows_web: "stepwise (grows x) (in_web a)"
  by (auto simp: stepwise_def grows_def in_web_def node_names_def split: prod.split)

lemma grows_node: "stepwise (grows x) (add_node n)"
  by (auto simp: stepwise_def grows_def add_node_def node_names_def)

lemma grows_link_item: "stepwise (grows x) (link_item d)"
  by (auto simp: stepwise_def grows_def link_item_def add_link_def add_node_def node_names_def switch_node_def)

lemma grows_host_link: "stepwise (grows (Some v)) (host_link v h)"
  by (auto simp: stepwise_def grows_def host_link_def add_link_def add_node_def node_names_def host_node_def)

lemma grows_sent:
  "stepwise (grows x) (does (\<lambda>p. p\<lparr>c_sent := f p\<rparr>))" "stepwise (grows x) (does (\<lambda>p. p\<lparr>c_host := g p\<rparr>))"
  by (auto simp: stepwise_def grows_def node_names_def)

lemma grows_host_item: "stepwise (grows x) (host_item d)"
proof -
  let ?v = "pget d ''dpid''"
  let ?rest = "map (item_act (host_link ?v)) (each_value (pget d ''hosts'')) @
     [does (\<lambda>p. p\<lparr>c_host := c_host p @ [\<lparr>h_dpid = port_name d, h_hosts = pget d ''hosts'', h_total = pget d ''total''\<rparr>]\<rparr>),
      initDPID (port_name d)]"
  have r: "stepwise (grows (Some ?v)) (acts ?rest)"
    by (auto intro!: growth.acts_rel growth.item_rel grows_host_link grows_sent grows_web simp: initDPID_def)
  have "grows x p (snd (host_item d p))" for p
  proof -
    let ?p = "p\<lparr>c_nodes := c_nodes p @ [switch_node ?v]\<rparr>"
    have "snd (host_item d p) = snd (acts ?rest ?p)"
      by (simp add: host_item_def add_node_def acts.simps(2) del: acts_last acts_more)
    moreover have "grows (Some ?v) ?p (snd (acts ?rest ?p))" using r unfolding stepwise_def by blast
    ultimately show ?thesis by (auto simp: grows_def node_names_def switch_node_def)
  qed
  then show ?thesis by (simp add: stepwise_def)
qed

lemma uniq_by_names: "f ` set (uniq_by f [] xs) = f ` set xs"
proof -
  have "f ` set (uniq_by f seen xs) \<union> set seen = f ` set xs \<union> set seen" for seen
    by (induction f seen xs rule: uniq_by.induct) auto
  from this [of "[]"] show ?thesis by simp
qed

lemma grows_draw: "stepwise (grows x) (does draw)"
  by (auto simp: stepwise_def grows_def draw_def node_names_def uniq_by_names)

lemma grows_ajax: "(\<And>d. stepwise (grows x) (f d)) \<Longrightarrow> stepwise (grows x) (ajax_now u form a f)"
  unfolding ajax_now_def by (rule growth.acts_rel) (auto simp: grows_sent grows_web split: answer.split)

lemma grows_links_answer: "stepwise (grows x) (links_answer heads d)"
  unfolding links_answer_def Let_def
  by (auto intro!: growth.stmt_rules grows_node grows_link_item grows_web)

lemma grows_hosts_answer: "stepwise (grows x) (hosts_answer d)"
  unfolding hosts_answer_def Let_def
  by (auto intro!: growth.stmt_rules grows_node grows_host_item grows_draw)

lemma uniq_by_distinct: "distinct (map f (uniq_by f seen xs)) \<and> set seen \<inter> f ` set (uniq_by f seen xs) = {}"
  by (induction f seen xs rule: uniq_by.induct) auto

lemma draw_last:
  "hosts_answer d p = (None, p') \<Longrightarrow> \<exists>q. p' = draw q \<and> grows None p q"
proof -
  assume h: "hosts_answer d p = (None, p')"
  let ?a = "when_ok d
        (let x = pget d ''data''
         in if nullish x then raises TypeError
            else acts (map (\<lambda>v. add_node (switch_node v)) (each_value (pget x ''nodes'')) @
              map (item_act host_item) (each_value (pget x ''relation''))))"
  have "stepwise (grows None) ?a"
    unfolding Let_def by (auto intro!: growth.stmt_rules grows_node grows_host_item)
  then have g: "grows None p (snd (?a p))" unfolding stepwise_def by blast
  obtain e q where q: "?a p = (e, q)" by force
  then have "p' = draw q" using h by (cases e) (simp_all add: hosts_answer_def)
  then show ?thesis using g q by (intro exI [of _ q]) simp
qed

text \<open>
  C9: the graph that is drawn is a graph.  Whatever the controller answers, when a search reaches the drawing, no two
  of the nodes have the same name, and both ends of each link are nodes.
\<close>

theorem drawn_graph_closed:
  assumes "ch_search heads a1 (Success d2) p = (None, p')"
  shows "\<exists>ns ls. c_drawn p' = Some (ns, ls) \<and> distinct (map n_name ns) \<and>
    (\<forall>(s, t) \<in> set ls. s \<in> n_name ` set ns \<and> t \<in> n_name ` set ns)"
proof -
  let ?p0 = "p\<lparr>c_web := clear_options ''#dpid'' (c_web p), c_nodes := [], c_links := []\<rparr>"
  obtain t where t: "w_selected (c_web ?p0) ''#control'' = Some t"
    using assms by (auto simp: ch_search_def in_web_def ch_parts_def split: option.splits)
  define form where "form = [(''ip'', fst (bar_parts t)), (''port'', snd (bar_parts t))]"
  have "acts [ajax_now ''../topology/link'' form a1 (links_answer heads),
      ajax_now ''../topology/host'' form (Success d2) hosts_answer] ?p0 = (None, p')"
    using assms t by (simp add: ch_search_def in_web_def ch_parts_def form_def)
  then obtain p1 where p1: "ajax_now ''../topology/link'' form a1 (links_answer heads) ?p0 = (None, p1)"
      "ajax_now ''../topology/host'' form (Success d2) hosts_answer p1 = (None, p')"
    by (auto split: prod.splits option.splits)
  define p2 where "p2 = p1\<lparr>c_sent := c_sent p1 @
     [\<lparr>req_method = POST, req_url = ''../topology/host'', req_body = post_form form\<rparr>]\<rparr>"
  have p2: "hosts_answer d2 p2 = (None, p')" "grows None p1 p2"
    using p1(2) by (auto simp: ajax_now_def grows_def node_names_def p2_def)
  obtain q where q: "p' = draw q" "grows None p2 q" using draw_last [OF p2(1)] by blast
  have "grows None ?p0 p1"
    using grows_ajax [of None "links_answer heads"] grows_links_answer p1(1) unfolding stepwise_def by (metis snd_conv)
  then have "grows None ?p0 q" using p2(2) q(2) growth.R_trans by blast
  then have "\<forall>(s, t) \<in> set (c_links q). s \<in> node_names q \<and> t \<in> node_names q" by (auto simp: grows_def)
  then show ?thesis
    using uniq_by_distinct [of n_name "[]" "c_nodes q"] by (simp add: q(1) draw_def uniq_by_names node_names_def)
qed

definition small_links :: jsval where
  "small_links = JObj [(''status'', JStr ''0''), (''data'', JObj [(''nodes'', JArr [JStr ''1'']), (''relation'', JArr [
     JObj [(''src_switch'', JStr ''1''), (''src_port'', JStr ''1''), (''dst_switch'', JStr ''2''), (''dst_port'', JStr ''1'')]])])]"

definition small_hosts :: jsval where
  "small_hosts = JObj [(''status'', JStr ''0''), (''data'', JObj [(''nodes'', JArr []), (''relation'', JArr [
     JObj [(''dpid'', JStr ''2''), (''port'', JStr ''7''), (''total'', JNum (Fin 1)),
       (''hosts'', JArr [JObj [(''ip'', JStr ''10.0.0.1''), (''mac'', JStr ''a'')]])]])])]"

definition chosen_chart :: chart_page where
  "chosen_chart = chart_start\<lparr>c_web := add_option ''#control'' ''10.0.0.9|81'' blank_web\<rparr>"

lemmas eval_chart = ch_search_def ch_parts_def in_web_def ajax_now_def links_answer_def hosts_answer_def Let_def item_act_def
  link_item_def add_node_def add_link_def host_item_def host_link_def initDPID_def status_ok_def each_value_def pget.simps
  draw_def port_name_def

lemma small_search:
  "ch_search [] (Success small_links) (Success small_hosts) chosen_chart =
     (None, snd (ch_search [] (Success small_links) (Success small_hosts) chosen_chart))"
  by (simp add: eval_chart small_links_def small_hosts_def chosen_chart_def chart_start_def add_option_def
      clear_options_def show_rows_def blank_web_def)

lemma drawn_graph_closed_witness:
  "\<exists>ns ls. c_drawn (snd (ch_search [] (Success small_links) (Success small_hosts) chosen_chart)) = Some (ns, ls) \<and>
     distinct (map n_name ns) \<and> (\<forall>(s, t) \<in> set ls. s \<in> n_name ` set ns \<and> t \<in> n_name ` set ns)"
  by (rule drawn_graph_closed [OF small_search])

section \<open>The list of hosts is never emptied\<close>

definition host_entry :: "jsval \<Rightarrow> chart_host" where
  "host_entry d = \<lparr>h_dpid = port_name d, h_hosts = pget d ''hosts'', h_total = pget d ''total''\<rparr>"

definition same_hosts :: "chart_page \<Rightarrow> chart_page \<Rightarrow> bool" where
  "same_hosts p p' \<longleftrightarrow> c_host p' = c_host p"

interpretation hosts: stmt_rel same_hosts
  by unfold_locales (simp_all add: same_hosts_def)

lemma same_hosts_acts:
  "stepwise same_hosts (in_web a)" "stepwise same_hosts (add_node n)" "stepwise same_hosts (add_link s t)"
  "stepwise same_hosts (does (\<lambda>p. p\<lparr>c_sent := f p\<rparr>))" "stepwise same_hosts (does draw)"
  "stepwise same_hosts (link_item d)" "stepwise same_hosts (host_link s d)"
  by (simp_all add: stepwise_def same_hosts_def in_web_def add_node_def add_link_def draw_def link_item_def host_link_def
      split: prod.split)

lemma host_item_adds:
  assumes "host_item d p = (None, p')"
  shows "c_host p' = c_host p @ [host_entry d]"
proof -
  let ?as = "add_node (switch_node (pget d ''dpid'')) # map (item_act (host_link (pget d ''dpid''))) (each_value (pget d ''hosts''))"
  have "stepwise same_hosts (acts ?as)"
    by (intro hosts.acts_rel) (auto simp: same_hosts_acts intro!: hosts.item_rel)
  moreover obtain e q where q: "acts ?as p = (e, q)" by force
  ultimately have "c_host q = c_host p" unfolding stepwise_def same_hosts_def by (metis snd_conv)
  moreover have "host_item d = acts (?as @ [does (\<lambda>p. p\<lparr>c_host := c_host p @ [host_entry d]\<rparr>), initDPID (port_name d)])"
    by (simp add: host_item_def host_entry_def)
  then have "host_item d p = (case acts ?as p of (None, w') \<Rightarrow> acts [does (\<lambda>p. p\<lparr>c_host := c_host p @ [host_entry d]\<rparr>),
      initDPID (port_name d)] w' | (Some e, w') \<Rightarrow> (Some e, w'))"
    unfolding acts_append [symmetric] by simp
  then have "c_host p' = c_host q @ [host_entry d]"
    using assms unfolding q by (cases e) (auto simp: initDPID_def in_web_def)
  ultimately show ?thesis by simp
qed

lemma host_items_add: "acts (map (item_act host_item) ds) p = (None, p') \<Longrightarrow> c_host p' = c_host p @ map host_entry ds"
proof (induction ds arbitrary: p)
  case (Cons d ds)
  then obtain q where "item_act host_item d p = (None, q)" "acts (map (item_act host_item) ds) q = (None, p')"
    by (auto simp: acts.simps(2) simp del: acts_last acts_more split: prod.splits option.splits)
  then have "c_host p' = c_host q @ map host_entry ds" "item_act host_item d p = (None, q)" using Cons.IH by blast+
  moreover from this(2) have "c_host q = c_host p @ [host_entry d]"
    using host_item_adds [of d p q] by (auto simp: item_act_def split: if_splits)
  ultimately show ?case by simp
qed simp

text \<open>
  A search adds the ports that it finds to those of the searches before, so after a second search the hosts of a port
  are listed twice.
\<close>

lemma hosts_answer_adds:
  assumes "hosts_answer d p = (None, p')" "status_ok d"
  shows "c_host p' = c_host p @ map host_entry (each_value (pget (pget d ''data'') ''relation''))"
proof -
  let ?ns = "map (\<lambda>v. add_node (switch_node v)) (each_value (pget (pget d ''data'') ''nodes''))"
  have "stepwise same_hosts (acts ?ns)" by (intro hosts.acts_rel) (auto simp: same_hosts_acts)
  moreover obtain e q where q: "acts ?ns p = (e, q)" by force
  ultimately have "c_host q = c_host p" unfolding stepwise_def same_hosts_def by (metis snd_conv)
  moreover from assms q have "e = None" "\<exists>r. acts (map (item_act host_item)
      (each_value (pget (pget d ''data'') ''relation''))) q = (None, r) \<and> p' = draw r"
    by (auto simp: hosts_answer_def acts_append Let_def split: if_splits prod.splits option.splits)
  ultimately show ?thesis using host_items_add by (fastforce simp: draw_def)
qed

end
