(* ===== verification/Web_Controllers.thy ===== *)
theory Web_Controllers
  imports Managed_List Cookies
begin

text \<open>
  The page of the controllers (\<open>cluster_config/cluster_config.html\<close>) and that of the switches of one controller
  (\<open>interchanger_desc/interchanger_desc.html\<close>), to which a button of the first leads with the controller in the
  address.
\<close>

section \<open>Controllers\<close>

datatype cl_cont = CControls | CAdded | CDeleted

type_synonym cl_act = "cl_cont web_act"

definition cl_search :: cl_act where
  "cl_search = web_post ''../control/list'' [] CControls"

definition cl_add :: cl_act where
  "cl_add w = web_post ''../control/add''
     [(''ip'', JStr (vals (w_page w) ''#ip'')), (''port'', JStr (vals (w_page w) ''#port''))] CAdded w"

definition viewSwitchesInfo :: "jsval \<Rightarrow> cl_act" where
  "viewSwitchesInfo obj =
     (let control = js_str (pget obj ''ip'') @ ''|'' @ js_str (pget obj ''port'')
      in does (\<lambda>w. w\<lparr>w_location := Some (''../interchanger_desc/interchanger_desc.html?control='' @ control)\<rparr>))"

text \<open>\<open>flag\<close> is what the user answered to the question.\<close>

definition cl_del :: "bool \<Rightarrow> jsval \<Rightarrow> cl_act" where
  "cl_del flag obj = act_when flag
     (web_post ''../control/del'' [(''ip'', pget obj ''ip''), (''port'', pget obj ''port'')] CDeleted)"

definition exclaim :: string where
  "exclaim = [CHR 0xEF, CHR 0xBC, CHR 0x81]"

definition controller_row :: "jsval \<Rightarrow> jsval" where
  "controller_row d = JArr [pget d ''ip'', pget d ''port'', JStr (
     row_button ''btn-danger'' (CHR 0x27 # ''del('' @ json_str d @ '')'' @ [CHR 0x27, CHR 0x27]) ''Delete'' @
     row_button ''btn-primary'' (sq (''viewSwitchesInfo('' @ json_str d @ '')'')) ''View switch information'')]"

definition cl_onControls :: "bool list \<Rightarrow> jsval \<Rightarrow> cl_act" where
  "cl_onControls heads data =
     when_ok data (item_rows heads controller_row (each_value (pget data ''data'')))"

definition cl_onAdded :: "jsval \<Rightarrow> cl_act" where
  "cl_onAdded data = when_ok data
     (if truthy (pget data ''data'') then
        acts [say (''add success'' @ exclaim), at_page (set_shown ''#myModal2'' False), cl_search]
      else say (''add failed'' @ exclaim))"

definition cl_onDeleted :: "jsval \<Rightarrow> cl_act" where
  "cl_onDeleted data = when_ok data
     (if truthy (pget data ''data'') then acts [say (''delete success'' @ exclaim), cl_search]
      else say (''delete failed'' @ exclaim))"

fun cl_callback :: "bool list \<Rightarrow> cl_cont \<Rightarrow> jsval \<Rightarrow> cl_act" where
  "cl_callback heads CControls = cl_onControls heads"
| "cl_callback heads CAdded = cl_onAdded"
| "cl_callback heads CDeleted = cl_onDeleted"

definition cl_init :: "string \<Rightarrow> cl_act" where
  "cl_init user = acts [at_page (set_html ''#user_login span'' user), cl_search]"

section \<open>Switches\<close>

datatype sw_cont = SControls | SSwitches

type_synonym sw_act = "sw_cont web_act"

definition sw_getControl :: sw_act where
  "sw_getControl = web_post ''../control/list'' [] SControls"

text \<open>\<open>parseInt(v, 16).toString(10)\<close>\<close>

definition parse_hex :: "string \<Rightarrow> int option" where
  "parse_hex s =
     (let t = trim_left s;
          (sg, u) = (if starts_with ''-'' t then (- 1, drop 1 t)
                     else if starts_with ''+'' t then (1, drop 1 t) else (1, t));
          ds = takeWhile is_hex (if starts_with ''0x'' u \<or> starts_with ''0X'' u then drop 2 u else u)
      in if ds = [] then None else map_option (\<lambda>n. sg * int n) (radix_val 16 0 ds))"

definition port_number :: "jsval \<Rightarrow> string" where
  "port_number v =
     (if js_eq v (JStr ''fffffffe'') then ''LOCAL''
      else case parse_hex (js_str v) of None \<Rightarrow> ''NaN'' | Some i \<Rightarrow> show_int i)"

definition port_text :: "jsval \<Rightarrow> string" where
  "port_text d =
     ''<div class='' @ sq ''span4'' @ '' style='' @
     sq ''margin-left:0px;padding: 5px;width: 250px;border-bottom: 1px solid #cccccc;'' @ ''>'' @
     ''<p>interface name:'' @ js_str (pget d ''name'') @ ''</p>'' @
     ''<p>interface number:'' @ port_number (pget d ''portNumber'') @ ''</p>'' @
     ''<p>MAC address:'' @ js_str (pget d ''hardwareAddress'') @ ''</p>'' @ ''</div>''"

definition searchNetPort :: "jsval \<Rightarrow> sw_act" where
  "searchNetPort obj =
     (if list_ex nullish (each_value obj) then raises TypeError
      else acts [at_page (set_html ''#netport'' []),
                 at_page (append_html ''#netport'' (concat (map port_text (each_value obj)))),
                 at_page (set_shown ''#myModal2'' True)])"

definition sw_search :: sw_act where
  "sw_search = with_parts ''#control'' (\<lambda>ip port.
     web_post ''../switchinfo'' [(''ip'', ip), (''port'', port)] SSwitches)"

definition switch_row :: "jsval \<Rightarrow> jsval" where
  "switch_row d = JArr [pget d ''dpid'', pget d ''ip'', pget d ''port'', pget d ''manufacturer'', pget d ''software'',
     pget d ''hardware'', pget d ''openflow'', JStr (row_button ''btn-success''
       (CHR 0x27 # ''searchNetPort('' @ stringify (pget d ''netport'') @ '')'' @ [CHR 0x27, CHR 0x27])
       ''view network interface information'')]"

definition sw_onSwitches :: "bool list \<Rightarrow> jsval \<Rightarrow> sw_act" where
  "sw_onSwitches heads data = when_ok data (acts
     [item_rows heads switch_row (each_value (pget data ''data'')),
      at_page (set_shown ''#datatable-table'' True),
      at_page (set_css ''#datatable-table'' ''width'' ''100%'')])"

text \<open>
  \<open>getURLParam\<close>: the expression is \<open>(\?|&)key=([^&]*)(&|$)\<close>, ignoring case, and the function returns its first
  group, the character before the key.
\<close>

fun separator_scan :: "(char \<Rightarrow> bool) \<Rightarrow> (string \<Rightarrow> bool) \<Rightarrow> string \<Rightarrow> string option" where
  "separator_scan sep hit [] = None"
| "separator_scan sep hit (c # s) = (if sep c \<and> hit s then Some [c] else separator_scan sep hit s)"

definition sw_getURLParam :: "string \<Rightarrow> string \<Rightarrow> string option" where
  "sw_getURLParam key search = map_option js_unescape
     (separator_scan (\<lambda>c. c = CHR ''?'' \<or> c = CHR ''&'')
        (\<lambda>s. starts_with (map lower (key @ ''='')) (map lower s)) search)"

text \<open>The callback of the start of the page, with the query of its address.\<close>

definition sw_callback0 :: "(string list \<Rightarrow> string option) \<Rightarrow> string \<Rightarrow> sw_act" where
  "sw_callback0 no_match search =
     (let control = sw_getURLParam ''control'' search
      in acts [act_when (control \<noteq> None \<and> control \<noteq> Some [])
                 (does (select_option no_match ''#control'' (the control))),
               sw_search])"

definition sw_onControls :: "(string list \<Rightarrow> string option) \<Rightarrow> string \<Rightarrow> jsval \<Rightarrow> sw_act" where
  "sw_onControls no_match search data = when_ok data (acts
     (map (item_act (\<lambda>d. does (add_option ''#control''
        (js_str (pget d ''ip'') @ ''|'' @ js_str (pget d ''port''))))) (each_value (pget data ''data'')) @
      [sw_callback0 no_match search]))"

fun sw_callback :: "(string list \<Rightarrow> string option) \<Rightarrow> string \<Rightarrow> bool list \<Rightarrow> sw_cont \<Rightarrow> jsval \<Rightarrow> sw_act" where
  "sw_callback no_match search heads SControls = sw_onControls no_match search"
| "sw_callback no_match search heads SSwitches = sw_onSwitches heads"

definition sw_init :: "string \<Rightarrow> sw_act" where
  "sw_init user = acts [at_page (set_html ''#user_login span'' user), at_page (set_shown ''#datatable-table'' False),
     sw_getControl]"

section \<open>From the controllers to the switches\<close>

lemma link_param:
  "w_location (snd (viewSwitchesInfo obj w)) = Some url \<Longrightarrow>
     sw_getURLParam ''control'' (location_search url) = Some ''?''"
  by (auto simp: viewSwitchesInfo_def Let_def location_search_def sw_getURLParam_def lower_def)

lemma no_question_option: "''?'' \<notin> set (map (\<lambda>d. f d @ ''|'' @ g d) ds)"
proof
  assume "''?'' \<in> set (map (\<lambda>d. f d @ ''|'' @ g d) ds)"
  then obtain d where "f d @ ''|'' @ g d = ''?''" by auto
  then show False by (cases "f d") auto
qed

text \<open>
  C40: the button that leads to the switches of a controller shows those of the first controller, whichever was chosen.  The
  page reads \<open>?\<close> from its address, no option of its list has this value, and a list that is told to show an unknown value
  falls back to its first option, as browsers do (the hypothesis on \<open>no_match\<close>).  So, with any controllers listed, the
  only request asks for the switches of the first of them; with none listed an exception is raised and nothing is asked.
\<close>

theorem switch_link_ignored:
  assumes "w_location (snd (viewSwitchesInfo obj v)) = Some url" "\<And>os. no_match os = first_option os"
    and "status_ok data" "\<not> list_ex nullish (each_value (pget data ''data''))" "w_options w ''#control'' = []"
  shows "case each_value (pget data ''data'') of
      [] \<Rightarrow> fst (sw_onControls no_match (location_search url) data w) = Some TypeError \<and>
        pending (w_page (snd (sw_onControls no_match (location_search url) data w))) = pending (w_page w)
    | d # ds \<Rightarrow> fst (sw_onControls no_match (location_search url) data w) = None \<and>
        pending (w_page (snd (sw_onControls no_match (location_search url) data w))) = pending (w_page w) @
          [(reload_request ''../switchinfo'' (js_str (pget d ''ip'') @ ''|'' @ js_str (pget d ''port'')), SSwitches)]"
proof -
  let ?os = "map (\<lambda>d. js_str (pget d ''ip'') @ ''|'' @ js_str (pget d ''port'')) (each_value (pget data ''data''))"
  let ?add = "\<lambda>d. add_option ''#control'' (js_str (pget d ''ip'') @ ''|'' @ js_str (pget d ''port''))"
  let ?w = "fold ?add (each_value (pget data ''data'')) w"
  have w: "w_options ?w ''#control'' = ?os" "w_page ?w = w_page w"
    unfolding options_fold using assms(5) by simp_all
  have "''?'' \<notin> set ?os" by (rule no_question_option)
  moreover have "sw_onControls no_match (location_search url) data w = sw_callback0 no_match (location_search url) ?w"
    using assms(3) acts_items [OF assms(4), of ?add w]
    by (simp add: sw_onControls_def acts_append)
  ultimately show ?thesis
    using link_param [OF assms(1)] w
    by (auto simp: sw_callback0_def select_option_def sw_search_def with_parts_def web_post_def reload_request_def
        page_simps assms(2) first_option_def split: list.splits)
qed

definition two_controllers :: jsval where
  "two_controllers = JObj [(''status'', JStr ''0''), (''data'', JArr
     [JObj [(''ip'', JStr ''10.0.0.1''), (''port'', JStr ''81'')], JObj [(''ip'', JStr ''10.0.0.2''), (''port'', JStr ''81'')]])]"

lemma switch_link_ignored_witness:
  "pending (w_page (snd (sw_onControls first_option ''?control=10.0.0.2|81'' two_controllers blank_web))) =
     [(reload_request ''../switchinfo'' ''10.0.0.1|81'', SSwitches)]"
proof -
  have l: "w_location (snd (viewSwitchesInfo (JObj [(''ip'', JStr ''10.0.0.2''), (''port'', JStr ''81'')]) blank_web)) =
      Some ''../interchanger_desc/interchanger_desc.html?control=10.0.0.2|81''"
    by (simp add: viewSwitchesInfo_def pget.simps)
  have s: "location_search ''../interchanger_desc/interchanger_desc.html?control=10.0.0.2|81'' = ''?control=10.0.0.2|81''"
    by (simp add: location_search_def)
  have d: "status_ok two_controllers" "\<not> list_ex nullish (each_value (pget two_controllers ''data''))"
    by (simp_all add: status_ok_def two_controllers_def each_value_def pget.simps)
  show ?thesis
    using switch_link_ignored [OF l refl d, of blank_web] unfolding s
    by (simp add: blank_web_def blank_page_def two_controllers_def each_value_def pget.simps)
qed

section \<open>The list of controllers\<close>

text \<open>The list does not depend on a chosen controller; otherwise a change is answered as on the other pages.\<close>

theorem cl_change_reloads:
  assumes "k = CAdded \<or> k = CDeleted"
  shows "pending (w_page (snd (cl_callback heads k data w))) = pending (w_page w) @
    (if status_ok data \<and> truthy (pget data ''data'')
     then [(\<lparr>req_method = POST, req_url = ''../control/list'', req_body = post_form []\<rparr>, CControls)] else [])"
  using assms by (auto simp: cl_onAdded_def cl_onDeleted_def cl_search_def web_post_def say_def page_simps when_ok_cases act_when_def)

section \<open>Port numbers\<close>

lemma radix_val_prefix: "radix_val 16 a s = Some n \<Longrightarrow> list_all is_hex s"
  by (induction s arbitrary: a) (auto simp: is_hex_def split: option.splits if_splits)

text \<open>A port number is shown in decimal.\<close>

lemma port_number_decimal:
  assumes "s \<noteq> []" "radix_val 16 0 s = Some n" "s \<noteq> ''fffffffe''"
  shows "port_number (JStr s) = show_nat n"
proof -
  have h: "list_all is_hex s" using radix_val_prefix assms(2) by blast
  obtain c t where c: "s = c # t" "is_hex c" using assms(1) h by (cases s) auto
  have "\<not> is_hex CHR ''-''" "\<not> is_hex CHR ''+''" "\<not> is_hex CHR ''x''" "\<not> is_hex CHR ''X''" "is_hex x \<Longrightarrow> \<not> is_space x" for x
    by (auto simp: is_hex_def hex_val_def is_space_def)
  then have "trim_left s = s" "\<not> starts_with ''-'' s" "\<not> starts_with ''+'' s" "\<not> starts_with ''0x'' s" "\<not> starts_with ''0X'' s"
    using c h by (auto simp: trim_left_def) (cases t; auto)+
  moreover have t: "takeWhile is_hex s = s" using h by (auto simp: list_all_iff)
  ultimately have "parse_hex s = Some (int n)"
    using assms(1,2) by (simp add: parse_hex_def t [simplified] Let_def) (simp add: t)
  then show ?thesis using assms(3) by (simp add: port_number_def show_int_def)
qed

end
