(* ===== verification/Web_Openstack.thy ===== *)
theory Web_Openstack
  imports Web_Controllers Json_Round
begin

text \<open>
  The page for OpenStack (\<open>open_manage/openstack_main.html\<close>): the OpenStack controllers, the settings of the chosen
  controller, its networks, subnets and ports, and the outer networks, each of which can be bound to a port of a switch.
  The part of the script that draws a topology is a copy of that of the page with the graph (\<open>Web_Chart\<close>).
\<close>

section \<open>State\<close>

datatype os_cont = OControls | OControllers | OAdded | ODeleted | ONetworks | OSubnets | OPorts
  | OSwitches string jsval jsval | OBound | OExternal | OUpdated | OSaved | OConfig

text \<open>
  The value chosen in each group of radio buttons; for each row of the outer networks the options of its list of
  switches, with the values and the attributes \<open>rel\<close>, and the number of the option chosen.
\<close>

record os_page =
  o_web :: "os_cont web"
  o_radio :: "string \<Rightarrow> string option"
  o_one :: "string \<Rightarrow> (string \<times> string option) list"
  o_chosen :: "string \<Rightarrow> nat"

type_synonym os_act = "os_page stmt"

definition in_os :: "os_cont web_act \<Rightarrow> os_act" where
  "in_os a p = (case a (o_web p) of (e, w) \<Rightarrow> (e, p\<lparr>o_web := w\<rparr>))"

definition os_parts :: "(jsval \<Rightarrow> jsval \<Rightarrow> os_act) \<Rightarrow> os_act" where
  "os_parts f p = (case w_selected (o_web p) ''#control'' of
     None \<Rightarrow> (Some TypeError, p)
   | Some t \<Rightarrow> f (fst (bar_parts t)) (snd (bar_parts t)) p)"

section \<open>OpenStack controllers\<close>

definition os_getControl :: "os_cont web_act" where
  "os_getControl = web_post ''../control/list'' [] OControls"

definition os_add :: "os_cont web_act" where
  "os_add w = web_post ''../openstack/add'' [(''ip'', JStr (vals (w_page w) ''#ip''))] OAdded w"

definition searchController :: "os_cont web_act" where
  "searchController = acts [hide ''#datatable-table3'', web_post ''../openstack/list'' [] OControllers]"

definition controller_line :: "jsval \<Rightarrow> string" where
  "controller_line d =
     ''<tr><td>'' @ js_str d @ ''</td><td>'' @ row_button ''btn-danger'' (CHR 0x27 # ''delController('' @ stringify d @ '')'' @
       [CHR 0x27, CHR 0x27]) ''delete'' @ ''</td></tr>''"

definition onControllers :: "jsval \<Rightarrow> os_cont web_act" where
  "onControllers data = when_ok data (acts
     (map (\<lambda>d. at_page (append_html ''#datatable-table3 tbody'' (controller_line d))) (each_value (pget data ''data'')) @
      [at_page (set_shown ''#datatable-table3'' True)]))"

definition delController :: "jsval \<Rightarrow> os_cont web_act" where
  "delController controller = web_post ''../openstack/delController'' [(''controller'', controller)] ODeleted"

section \<open>Networks, subnets and ports\<close>

definition table_line :: "string list \<Rightarrow> string" where
  "table_line cells = ''<tr>'' @ concat (map (\<lambda>c. ''<td>'' @ c @ ''</td>'') cells) @ ''</tr>''"

text \<open>A list is hidden and asked for; its answer fills the body of the table.\<close>

definition ask_list :: "string \<Rightarrow> string \<Rightarrow> os_cont \<Rightarrow> os_cont web_act" where
  "ask_list table url k = acts [hide table, web_post url [] k]"

definition fill_list :: "string \<Rightarrow> (jsval \<Rightarrow> os_cont web_act) \<Rightarrow> jsval \<Rightarrow> os_cont web_act" where
  "fill_list table line data = when_ok data (acts
     (at_page (set_html (table @ '' tbody'') []) # map (item_act line) (each_value (pget data ''data'')) @
      [at_page (set_shown table True)]))"

definition searchNetwork :: "os_cont web_act" where
  "searchNetwork = ask_list ''#datatable-table4'' ''../openstack/allnetwork'' ONetworks"

definition onNetworks :: "jsval \<Rightarrow> os_cont web_act" where
  "onNetworks = fill_list ''#datatable-table4'' (\<lambda>d. at_page (append_html ''#datatable-table4 tbody''
     (table_line (map (\<lambda>k. js_str (pget d k)) [''name'', ''id'', ''shared'', ''provider:network_type'', ''tenant_id'']))))"

definition searchSubnets :: "os_cont web_act" where
  "searchSubnets = ask_list ''#datatable-table5'' ''../openstack/allsubnets'' OSubnets"

definition onSubnets :: "jsval \<Rightarrow> os_cont web_act" where
  "onSubnets = fill_list ''#datatable-table5'' (\<lambda>d. at_page (append_html ''#datatable-table5 tbody''
     (table_line (map (\<lambda>k. js_str (pget d k)) [''name'', ''id'', ''network_id'', ''gateway_ip'', ''tenant_id'']))))"

definition searchPorts :: "os_cont web_act" where
  "searchPorts = ask_list ''#datatable-table6'' ''../openstack/allports'' OPorts"

definition onPorts :: "jsval \<Rightarrow> os_cont web_act" where
  "onPorts = fill_list ''#datatable-table6'' (\<lambda>d. item_act (\<lambda>ips. item_act (\<lambda>a.
     at_page (append_html ''#datatable-table6 tbody'' (table_line
       [js_str (pget a ''ip_address''), js_str (pget d ''mac_address''), js_str (pget a ''subnet_id''),
        js_str (pget d ''id''), js_str (pget d ''tenant_id'')]))) (elem_at ips 0)) (pget d ''fixed_ips''))"

section \<open>Outer networks\<close>

text \<open>The number of a port, \<open>-1\<close> for the local one.\<close>

definition port_ten :: "jsval \<Rightarrow> string" where
  "port_ten v =
     (if js_eq v (JStr ''fffffffe'') then ''-1''
      else case parse_hex (js_str v) of None \<Rightarrow> ''NaN'' | Some i \<Rightarrow> show_int i)"

definition one_list :: "string \<Rightarrow> string" where
  "one_list i = ''#selectone'' @ i"

definition two_list :: "string \<Rightarrow> string" where
  "two_list i = ''#selecttwo'' @ i"

definition showNetCommand :: "string \<Rightarrow> jsval \<Rightarrow> jsval \<Rightarrow> os_act" where
  "showNetCommand i bandDpid bandPort = acts
     [os_parts (\<lambda>ip port. in_os (web_post ''../switchinfo'' [(''ip'', ip), (''port'', port)] (OSwitches i bandDpid bandPort))),
      in_os (acts [at_page (set_shown (''#divone'' @ i) True), at_page (set_shown (''#btone'' @ i) False)])]"

definition hideNetCommand :: "string \<Rightarrow> os_act" where
  "hideNetCommand i = in_os (acts [at_page (set_shown (''#divone'' @ i) False), at_page (set_shown (''#btone'' @ i) True)])"

text \<open>
  The value of an option ends at the first apostrophe of its text, which stands between two of them.  The library reads
  entities such as \<open>&amp;\<close> in it, which are not modelled.
\<close>

definition attr_value :: "string \<Rightarrow> string" where
  "attr_value s = takeWhile (\<lambda>c. c \<noteq> CHR 0x27) s"

definition add_switch :: "string \<Rightarrow> jsval \<Rightarrow> jsval \<Rightarrow> os_act" where
  "add_switch i bandDpid d = does (\<lambda>p.
     let os = o_one p i @ [(attr_value (stringify (pget d ''netport'')), Some (attr_value (js_str (pget d ''dpid''))))]
     in p\<lparr>o_one := (o_one p)(i := os),
          o_chosen := (if js_eq (pget d ''dpid'') bandDpid then (o_chosen p)(i := length os - 1) else o_chosen p)\<rparr>)"

definition add_port :: "string \<Rightarrow> jsval option \<Rightarrow> jsval \<Rightarrow> os_cont web_act" where
  "add_port i bandPort d = does (\<lambda>w.
     let v = port_ten (pget d ''portNumber''); w' = add_option (two_list i) v w
     in if (case bandPort of None \<Rightarrow> False | Some b \<Rightarrow> js_eq (pget d ''portNumber'') b)
        then w'\<lparr>w_selected := (w_selected w')(two_list i := Some v)\<rparr> else w')"

definition os_onSwitches :: "string \<Rightarrow> jsval \<Rightarrow> jsval \<Rightarrow> jsval \<Rightarrow> os_act" where
  "os_onSwitches i bandDpid bandPort data = when_ok data
     (let ds = each_value (pget data ''data'');
          found = filter (\<lambda>d. js_eq (pget d ''dpid'') bandDpid) ds;
          firstobj = (if found = [] then JUndef else pget (last found) ''netport'')
      in acts ([does (\<lambda>p. p\<lparr>o_one := (o_one p)(i := [([], None)]), o_chosen := (o_chosen p)(i := 0)\<rparr>),
                in_os (does (\<lambda>w. add_option (two_list i) [] (clear_options (two_list i) w)))] @
               map (item_act (add_switch i bandDpid)) ds @
               [act_when (truthy firstobj)
                  (in_os (acts (map (item_act (add_port i (Some bandPort))) (each_value firstobj))))]))"

text \<open>\<open>showRoutePort\<close>: the ports of the switch chosen; \<open>JSON.parse\<close> takes the null of an empty list for the value null.\<close>

definition showRoutePort :: "string \<Rightarrow> os_act" where
  "showRoutePort i p =
     (let show = (\<lambda>obj. in_os (acts (does (clear_options (two_list i)) #
                          map (item_act (add_port i None)) (each_value obj))) p)
      in case nth_opt (o_one p i) (o_chosen p i) of
           None \<Rightarrow> show JNull
         | Some (v, rel) \<Rightarrow> (case json_parse v of None \<Rightarrow> (Some SyntaxError, p) | Some obj \<Rightarrow> show obj))"

definition submitRoutePort :: "string \<Rightarrow> os_act" where
  "submitRoutePort i = os_parts (\<lambda>ip port p.
     (let dpid = (case nth_opt (o_one p i) (o_chosen p i) of Some (v, Some rel) \<Rightarrow> JStr rel | _ \<Rightarrow> JUndef)
      in in_os (web_post ''../openstack/bandPort''
           [(''ip'', ip), (''port'', port), (''dpid'', dpid), (''bandport'', list_val (two_list i) (o_web p)),
            (''outip'', JStr (htmls (w_page (o_web p)) (''#tdone'' @ i)))] OBound) p))"

definition external_line :: "string \<Rightarrow> jsval \<Rightarrow> string" where
  "external_line i d =
     ''<tr><td id='' @ sq (''tdone'' @ i) @ '' >'' @ js_str (pget d ''external_out_interface_ip'') @ ''</td><td>'' @
     js_str (pget d ''external_out_interface_mac'') @ ''</td><td>'' @ js_str (pget d ''external_gateway_ip'') @ ''</td><td>'' @
     js_str (pget d ''external_gateway_mac'') @ ''</td><td>'' @
     ''<button id='' @ sq (''btone'' @ i) @ '' type='' @ sq ''button'' @ '' class='' @ sq ''btn btn-success btn-small'' @
     '' onclick=showNetCommand('' @ i @ '','' @ sq (js_str (pget d ''external_dpid'')) @ '','' @
     sq (js_str (pget d ''external_port'')) @ '')>bound switch port</button>'' @
     ''<div id='' @ sq (''divone'' @ i) @ '' style='' @ sq ''display:none'' @ ''>'' @
     ''<select id='' @ sq (''selectone'' @ i) @ '' onchange='' @ sq (''showRoutePort('' @ i @ '')'') @ ''></select>'' @
     ''<select id='' @ sq (''selecttwo'' @ i) @ ''></select>'' @
     ''<button id='' @ sq (''bttwo'' @ i) @ ''type='' @ sq ''button'' @ '' class='' @ sq ''btn btn-primary btn-small'' @
     '' onclick='' @ sq (''submitRoutePort('' @ i @ '')'') @ ''>bound</button>'' @
     ''<button type='' @ sq ''button'' @ '' class='' @ sq ''btn btn-success btn-small'' @ '' onclick='' @
     sq (''hideNetCommand('' @ i @ '')'') @ ''>cancel</button></div>'' @ ''</td></tr>''"

definition searchExternal :: os_act where
  "searchExternal = os_parts (\<lambda>ip port. in_os (acts
     [hide ''#datatable-table7'', web_post ''../openstack/allExternal'' [(''ip'', ip), (''port'', port)] OExternal]))"

definition onExternal :: "jsval \<Rightarrow> os_cont web_act" where
  "onExternal data = when_ok data (acts
     (at_page (set_html ''#datatable-table7 tbody'' []) #
      map (\<lambda>(i, d). item_act (\<lambda>d. at_page (\<lambda>p. set_html (''#tdone'' @ i) (js_str (pget d ''external_out_interface_ip''))
          (append_html ''#datatable-table7 tbody'' (external_line i d) p))) d)
        (own_props (pget data ''data'')) @
      [at_page (set_shown ''#datatable-table7'' True)]))"

definition updateExternal :: os_act where
  "updateExternal = os_parts (\<lambda>ip port. in_os (web_post ''../openstack/updateExternal'' [(''ip'', ip), (''port'', port)] OUpdated))"

section \<open>Settings\<close>

text \<open>
  Each group of radio buttons has one for 0 and one for 1, with the identifiers \<open><group>0\<close> and \<open><group>1\<close>;
  checking one of them unchecks the other, and a number that neither has changes nothing.
\<close>

definition check_radio :: "string \<Rightarrow> jsval \<Rightarrow> os_page \<Rightarrow> os_page" where
  "check_radio g v p =
     (if js_str v \<in> {''0'', ''1''} then p\<lparr>o_radio := (o_radio p)(g := Some (js_str v))\<rparr> else p)"

definition radio_val :: "string \<Rightarrow> os_page \<Rightarrow> jsval" where
  "radio_val g p = (case o_radio p g of None \<Rightarrow> JUndef | Some v \<Rightarrow> JStr v)"

text \<open>A text field drops the line breaks of the text that is put in it.\<close>

definition set_field :: "string \<Rightarrow> jsval \<Rightarrow> os_page \<Rightarrow> os_page" where
  "set_field k v p =
     p\<lparr>o_web := (o_web p)\<lparr>w_page := set_val (CHR ''#'' # k) (JStr (one_line (val_text v))) (w_page (o_web p))\<rparr>\<rparr>"

definition field_val :: "string \<Rightarrow> os_page \<Rightarrow> jsval" where
  "field_val k p = JStr (vals (w_page (o_web p)) (CHR ''#'' # k))"

definition updateConfig :: os_act where
  "updateConfig = os_parts (\<lambda>ip port p.
     (let ipflow = radio_val ''ipflow'' p; fabricon = radio_val ''fabricon'' p;
          openstackon = radio_val ''openstackon'' p; physupport = radio_val ''physupport'' p;
          maxswitch = field_val ''maxswitch'' p; maxbuff = field_val ''maxbuff'' p; maxlength = field_val ''maxlength'' p
      in in_os (web_post ''../openstack/updateConfig''
           [(''ip'', ip), (''port'', port), (''ipflow'', ipflow), (''fabricon'', fabricon), (''openstackon'', openstackon),
            (''physupport'', physupport), (''maxswitch'', maxswitch), (''maxbuff'', maxbuff), (''maxlength'', maxlength)]
           OSaved) p))"

definition searchConfig :: os_act where
  "searchConfig = os_parts (\<lambda>ip port. in_os (web_post ''../openstack/searchConfig'' [(''ip'', ip), (''port'', port)] OConfig))"

definition onConfig :: "jsval \<Rightarrow> os_act" where
  "onConfig data = when_ok data
     (let allconfig = pget data ''data''
      in if nullish allconfig then raises TypeError
         else acts [does (check_radio ''ipflow'' (pget allconfig ''ip_match_flows'')),
                    does (check_radio ''fabricon'' (pget allconfig ''auto_fabric'')),
                    does (check_radio ''openstackon'' (pget allconfig ''openvstack_on'')),
                    does (check_radio ''physupport'' (pget allconfig ''use_phy'')),
                    does (set_field ''maxswitch'' (pget allconfig ''max_switch'')),
                    does (set_field ''maxbuff'' (pget allconfig ''buff_num'')),
                    does (set_field ''maxlength'' (pget allconfig ''buff_len''))])"

section \<open>Answers\<close>

definition os_onAdded :: "jsval \<Rightarrow> os_act" where
  "os_onAdded data = when_ok data
     (if truthy (pget data ''data'') then acts [in_os (acts [say (''add success'' @ exclaim), hide ''#myModal2'']), searchConfig]
      else in_os (say (''add failed'' @ exclaim)))"

text \<open>After a deletion the page says that an addition was made, and asks for the settings.\<close>

definition os_onDeleted :: "jsval \<Rightarrow> os_act" where
  "os_onDeleted data = when_ok data
     (if truthy (pget data ''data'') then acts [in_os (say (''add success'' @ exclaim)), searchConfig]
      else in_os (say (''add failed'' @ exclaim)))"

fun os_callback :: "os_cont \<Rightarrow> jsval \<Rightarrow> os_act" where
  "os_callback OControls data = in_os (list_controls [''#control''] data)"
| "os_callback OControllers data = in_os (onControllers data)"
| "os_callback OAdded data = os_onAdded data"
| "os_callback ODeleted data = os_onDeleted data"
| "os_callback ONetworks data = in_os (onNetworks data)"
| "os_callback OSubnets data = in_os (onSubnets data)"
| "os_callback OPorts data = in_os (onPorts data)"
| "os_callback (OSwitches i bandDpid bandPort) data = os_onSwitches i bandDpid bandPort data"
| "os_callback OBound data = when_ok data (in_os (say (js_str (pget data ''data''))))"
| "os_callback OExternal data = in_os (onExternal data)"
| "os_callback OUpdated data = when_ok data (in_os (say (js_str (pget data ''data''))))"
| "os_callback OSaved data = when_ok data (in_os (say ''success!''))"
| "os_callback OConfig data = onConfig data"

definition os_init :: "string \<Rightarrow> os_act" where
  "os_init user = acts
     [in_os (acts [at_page (set_html ''#user_login span'' user), hide ''#datatable-table'', hide ''#datatable-table1'',
                   hide ''.hostbody'', os_getControl, searchController])]"

section \<open>Settings are saved as they were loaded\<close>

lemma check_radio_simps [simp]:
  "o_web (check_radio g v p) = o_web p" "js_str v \<in> {''0'', ''1''} \<Longrightarrow> o_radio (check_radio g v p) = (o_radio p)(g \<mapsto> js_str v)"
  by (simp_all add: check_radio_def)

lemma radio_val_field [simp]: "radio_val g (set_field k v p) = radio_val g p"
  by (simp add: radio_val_def set_field_def)

lemma radio_val_check [simp]:
  "js_str v \<in> {''0'', ''1''} \<Longrightarrow> radio_val g (check_radio h v p) = (if g = h then JStr (js_str v) else radio_val g p)"
  by (simp add: radio_val_def del: insert_iff)

lemma field_val_set [simp]:
  "field_val j (set_field k v p) = (if j = k then JStr (one_line (val_text v)) else field_val j p)"
  by (simp add: field_val_def set_field_def page_simps val_text_def)

lemma set_field_simps [simp]:
  "w_selected (o_web (set_field k v p)) = w_selected (o_web p)"
  "pending (w_page (o_web (set_field k v p))) = pending (w_page (o_web p))"
  by (simp_all add: set_field_def page_simps)

text \<open>
  C29: the settings are saved as they were loaded.  When the answer with the settings of a controller has filled the page
  and nothing is changed, the button that saves sends each setting, under the name that the service knows it by when it
  saves, with the value that it came with under the name it has when it is loaded: \<open>ip_match_flows\<close> as \<open>ipflow\<close>,
  \<open>auto_fabric\<close> as \<open>fabricon\<close>, \<open>openvstack_on\<close> as \<open>openstackon\<close>, \<open>use_phy\<close> as \<open>physupport\<close>, \<open>max_switch\<close> as
  \<open>maxswitch\<close>, \<open>buff_num\<close> as \<open>maxbuff\<close> and \<open>buff_len\<close> as \<open>maxlength\<close>.  The four settings with buttons are sent as
  they were, if each came as 0 or 1; the three texts without their line breaks, a missing one as the empty text.
\<close>

theorem config_saved_as_loaded:
  assumes "status_ok data" "cfg = pget data ''data''" "\<not> nullish cfg" "w_selected (o_web p) ''#control'' = Some t"
    and "js_str (pget cfg ''ip_match_flows'') = flows" "js_str (pget cfg ''auto_fabric'') = fabric"
    and "js_str (pget cfg ''openvstack_on'') = openstack" "js_str (pget cfg ''use_phy'') = phy"
    and "{flows, fabric, openstack, phy} \<subseteq> {''0'', ''1''}"
  shows "pending (w_page (o_web (snd (updateConfig (snd (onConfig data p)))))) = pending (w_page (o_web p)) @
    [(\<lparr>req_method = POST, req_url = ''../openstack/updateConfig'', req_body = post_form
        [(''ip'', fst (bar_parts t)), (''port'', snd (bar_parts t)),
         (''ipflow'', JStr flows), (''fabricon'', JStr fabric), (''openstackon'', JStr openstack), (''physupport'', JStr phy),
         (''maxswitch'', JStr (one_line (val_text (pget cfg ''max_switch'')))),
         (''maxbuff'', JStr (one_line (val_text (pget cfg ''buff_num'')))),
         (''maxlength'', JStr (one_line (val_text (pget cfg ''buff_len''))))]\<rparr>, OSaved)]"
proof -
  let ?p = "snd (onConfig data p)"
  have r: "js_str (pget cfg ''ip_match_flows'') \<in> {''0'', ''1''}" "js_str (pget cfg ''auto_fabric'') \<in> {''0'', ''1''}"
    "js_str (pget cfg ''openvstack_on'') \<in> {''0'', ''1''}" "js_str (pget cfg ''use_phy'') \<in> {''0'', ''1''}"
    using assms(5-9) by auto
  have c: "?p = set_field ''maxlength'' (pget cfg ''buff_len'') (set_field ''maxbuff'' (pget cfg ''buff_num'')
      (set_field ''maxswitch'' (pget cfg ''max_switch'') (check_radio ''physupport'' (pget cfg ''use_phy'')
      (check_radio ''openstackon'' (pget cfg ''openvstack_on'') (check_radio ''fabricon'' (pget cfg ''auto_fabric'')
      (check_radio ''ipflow'' (pget cfg ''ip_match_flows'') p))))))"
    using assms(1,3) by (simp add: onConfig_def assms(2) [symmetric] acts.simps(2))
  have "radio_val ''ipflow'' ?p = JStr flows" "radio_val ''fabricon'' ?p = JStr fabric"
    "radio_val ''openstackon'' ?p = JStr openstack" "radio_val ''physupport'' ?p = JStr phy"
    unfolding c by (simp_all only: radio_val_field radio_val_check [OF r(1)] radio_val_check [OF r(2)]
        radio_val_check [OF r(3)] radio_val_check [OF r(4)] assms(5-8)) simp_all
  moreover have "field_val ''maxswitch'' ?p = JStr (one_line (val_text (pget cfg ''max_switch'')))"
    "field_val ''maxbuff'' ?p = JStr (one_line (val_text (pget cfg ''buff_num'')))"
    "field_val ''maxlength'' ?p = JStr (one_line (val_text (pget cfg ''buff_len'')))"
    unfolding c by simp_all
  moreover have "w_selected (o_web ?p) = w_selected (o_web p)" "pending (w_page (o_web ?p)) = pending (w_page (o_web p))"
    unfolding c by simp_all
  ultimately show ?thesis
    using assms(4) by (simp add: updateConfig_def os_parts_def in_os_def web_post_def page_simps)
qed

definition sample_config :: jsval where
  "sample_config = JObj [(''status'', JStr ''0''), (''data'', JObj [(''ip_match_flows'', JNum (Fin 1)), (''auto_fabric'', JStr ''0''),
     (''openvstack_on'', JStr ''1''), (''use_phy'', JStr ''0''), (''max_switch'', JStr ''8''), (''buff_num'', JNull),
     (''buff_len'', JStr ''64'')])]"

definition chosen_os :: os_page where
  "chosen_os = \<lparr>o_web = add_option ''#control'' ''10.0.0.1|81'' blank_web, o_radio = (\<lambda>g. None), o_one = (\<lambda>i. []),
     o_chosen = (\<lambda>i. 0)\<rparr>"

lemma config_saved_as_loaded_witness:
  "pending (w_page (o_web (snd (updateConfig (snd (onConfig sample_config chosen_os)))))) =
    [(\<lparr>req_method = POST, req_url = ''../openstack/updateConfig'', req_body = post_form
        [(''ip'', JStr ''10.0.0.1''), (''port'', JStr ''81''), (''ipflow'', JStr ''1''), (''fabricon'', JStr ''0''),
         (''openstackon'', JStr ''1''), (''physupport'', JStr ''0''), (''maxswitch'', JStr ''8''), (''maxbuff'', JStr []),
         (''maxlength'', JStr ''64'')]\<rparr>, OSaved)]"
proof -
  have "status_ok sample_config" "\<not> nullish (pget sample_config ''data'')"
    by (simp_all add: sample_config_def status_ok_def pget.simps)
  moreover have "w_selected (o_web chosen_os) ''#control'' = Some ''10.0.0.1|81''" "pending (w_page (o_web chosen_os)) = []"
    by (simp_all add: chosen_os_def add_option_def Let_def blank_web_def blank_page_def)
  moreover have n: "js_str (JNum (Fin 1)) = ''1''" by code_simp
  moreover have "bar_parts ''10.0.0.1|81'' = (JStr ''10.0.0.1'', JStr ''81'')"
    using bar_parts_pair [of "''10.0.0.1''" "''81''"] by simp
  ultimately show ?thesis
    using config_saved_as_loaded [of sample_config "pget sample_config ''data''" chosen_os "''10.0.0.1|81''" "''1''" "''0''" "''1''" "''0''"]
    by (simp add: sample_config_def pget.simps val_text_def one_line_def)
qed

section \<open>The ports of a switch\<close>

definition switch_option :: "jsval \<Rightarrow> string \<times> string option" where
  "switch_option d = (attr_value (stringify (pget d ''netport'')), Some (attr_value (js_str (pget d ''dpid''))))"

lemma acts_add_switch:
  assumes "\<not> list_ex nullish ds"
  shows "\<exists>q. acts (map (item_act (add_switch i bandDpid)) ds) p = (None, q) \<and> o_one q i = o_one p i @ map switch_option ds \<and>
    o_web q = o_web p"
  using assms
proof (induction ds arbitrary: p)
  case (Cons d ds)
  obtain r where r: "item_act (add_switch i bandDpid) d p = (None, r)" "o_one r i = o_one p i @ [switch_option d]"
      "o_web r = o_web p"
    using Cons.prems by (simp add: item_act_def add_switch_def Let_def switch_option_def)
  then show ?case
    using Cons.IH [of r] Cons.prems by (auto simp: acts.simps(2) simp del: acts_last acts_more)
qed simp

lemma port_options_fold:
  "acts (map (item_act (add_port i None)) ds) w = (None, fold (\<lambda>d. add_option (two_list i) (port_ten (pget d ''portNumber''))) ds w)"
  if "\<not> list_ex nullish ds"
proof -
  have "add_port i None d = does (add_option (two_list i) (port_ten (pget d ''portNumber'')))" for d :: jsval
    by (simp add: add_port_def Let_def)
  then have "add_port i None = (\<lambda>d. does (add_option (two_list i) (port_ten (pget d ''portNumber''))))" by (rule ext)
  then show ?thesis using acts_items [OF that, of "\<lambda>d. add_option (two_list i) (port_ten (pget d ''portNumber''))" w] by simp
qed

text \<open>
  C25: choosing a switch for an outer network shows its ports.  The ports travel through the value of an option, as JSON in
  an attribute between apostrophes; unless their text has an apostrophe or an ampersand, choosing the \<open>j\<close>-th of the switches
  that were listed fills the second list with exactly its ports, in their order and nothing else: each as the decimal
  numeral of its hexadecimal number, the local port \<open>fffffffe\<close> as -1, one without a number as NaN.
\<close>

theorem ports_of_chosen_switch:
  assumes "os_onSwitches i bandDpid bandPort data p = (None, p')" "status_ok data"
    and "\<not> list_ex nullish (each_value (pget data ''data''))" "j < length (each_value (pget data ''data''))"
    and "ports = pget (each_value (pget data ''data'') ! j) ''netport''" "json_ok ports"
    and "set (json_str ports) \<inter> {CHR 0x27, CHR ''&''} = {}" "\<not> list_ex nullish (each_value ports)"
  shows "\<exists>q. showRoutePort i (p'\<lparr>o_chosen := (o_chosen p')(i := Suc j)\<rparr>) = (None, q) \<and>
    w_options (o_web q) (''#selecttwo'' @ i) = map (\<lambda>d.
      let n = pget d ''portNumber'' in if js_eq n (JStr ''fffffffe'') then ''-1''
        else case parse_hex (js_str n) of None \<Rightarrow> ''NaN'' | Some k \<Rightarrow> show_int k) (each_value ports)"
proof -
  let ?ds = "each_value (pget data ''data'')"
  let ?p = "p\<lparr>o_one := (o_one p)(i := [([], None)]), o_chosen := (o_chosen p)(i := 0),
     o_web := add_option (two_list i) [] (clear_options (two_list i) (o_web p))\<rparr>"
  obtain q where q: "acts (map (item_act (add_switch i bandDpid)) ?ds) ?p = (None, q)"
      "o_one q i = ([], None) # map switch_option ?ds"
    using acts_add_switch [OF assms(3), of i bandDpid ?p] by auto
  have "\<exists>b a. os_onSwitches i bandDpid bandPort data p =
      (case acts (map (item_act (add_switch i bandDpid)) ?ds) ?p of (None, r) \<Rightarrow> acts [act_when b (in_os a)] r
       | (Some e, r) \<Rightarrow> (Some e, r))"
    using assms(2) by (auto simp: os_onSwitches_def Let_def acts_append in_os_def acts.simps(2) simp del: acts_last acts_more)
  then obtain b a where "act_when b (in_os a) q = (None, p')" using assms(1) q(1) by auto
  then have "o_one p' i = o_one q i" by (cases b) (auto simp: in_os_def split: prod.splits)
  then have "nth_opt (o_one p' i) (Suc j) = Some (switch_option (?ds ! j))"
    using assms(4) by (simp add: q(2) nth_opt_def)
  moreover have "fst (switch_option (?ds ! j)) = json_str ports"
    using assms(5-7) by (auto simp: switch_option_def stringify_def attr_value_def takeWhile_eq_all_conv)
  ultimately obtain rel where "nth_opt (o_one p' i) (Suc j) = Some (json_str ports, rel)" by (cases "switch_option (?ds ! j)") auto
  moreover have "json_parse (json_str ports) = Some ports" by (rule json_parse_str [OF assms(6)])
  ultimately have "\<exists>q. showRoutePort i (p'\<lparr>o_chosen := (o_chosen p')(i := Suc j)\<rparr>) = (None, q) \<and>
      w_options (o_web q) (two_list i) = map (\<lambda>d. port_ten (pget d ''portNumber'')) (each_value ports)"
    using port_options_fold [OF assms(8), of i "clear_options (two_list i) (o_web p')"]
    by (simp add: showRoutePort_def Let_def in_os_def acts.simps(2) options_fold clear_options_def
        del: acts_last acts_more split: prod.split)
  then show ?thesis by (simp add: two_list_def port_ten_def Let_def)
qed

definition one_switch :: jsval where
  "one_switch = JObj [(''status'', JStr ''0''), (''data'', JArr [JObj [(''dpid'', JStr ''1''), (''ip'', JStr ''10.0.0.2''),
     (''netport'', JArr [JObj [(''portNumber'', JStr ''1f'')], JObj [(''portNumber'', JStr ''fffffffe'')]])]])]"

lemma ports_of_chosen_switch_witness:
  "\<exists>q. showRoutePort ''0'' ((snd (os_onSwitches ''0'' (JStr ''9'') (JStr ''1f'') one_switch chosen_os))
       \<lparr>o_chosen := (o_chosen (snd (os_onSwitches ''0'' (JStr ''9'') (JStr ''1f'') one_switch chosen_os)))(''0'' := 1)\<rparr>) = (None, q) \<and>
     w_options (o_web q) ''#selecttwo0'' = [''31'', ''-1'']"
proof -
  let ?ports = "JArr [JObj [(''portNumber'', JStr ''1f'')], JObj [(''portNumber'', JStr ''fffffffe'')]]"
  let ?d = "JObj [(''dpid'', JStr ''1''), (''ip'', JStr ''10.0.0.2''), (''netport'', ?ports)]"
  have e: "each_value (pget one_switch ''data'') = [?d]" "status_ok one_switch"
    by (simp_all add: one_switch_def each_value_def status_ok_def pget.simps)
  have o: "os_onSwitches ''0'' (JStr ''9'') (JStr ''1f'') one_switch chosen_os =
      (None, snd (os_onSwitches ''0'' (JStr ''9'') (JStr ''1f'') one_switch chosen_os))"
    by (simp add: os_onSwitches_def e Let_def item_act_def add_switch_def in_os_def pget.simps)
  have ports: "each_value ?ports = [JObj [(''portNumber'', JStr ''1f'')], JObj [(''portNumber'', JStr ''fffffffe'')]]"
    by (simp add: each_value_def)
  have t: "parse_hex ''1f'' = Some 31" "show_int 31 = ''31''" "set (json_str ?ports) \<inter> {CHR 0x27, CHR ''&''} = {}"
    by code_simp+
  have a: "\<not> list_ex nullish (each_value (pget one_switch ''data''))" "0 < length (each_value (pget one_switch ''data''))"
    "?ports = pget (each_value (pget one_switch ''data'') ! 0) ''netport''" "json_ok ?ports" "\<not> list_ex nullish (each_value ?ports)"
    unfolding e(1) ports by (simp_all add: pget.simps)
  show ?thesis
    using ports_of_chosen_switch [OF o e(2) a(1-4) t(3) a(5)] unfolding ports by (simp add: t(1,2) pget.simps)
qed

end
