(* ===== verification/Web_Group.thy ===== *)
theory Web_Group
  imports Web_Page Form_Values
begin

text \<open>
  The page for a new group (\<open>group_table_config/add_group_table.html\<close>).  Its form has any number of buckets: a button
  adds the markup of a bucket, and each bucket has a button that removes it.  \<open>add_group\<close> sends what this page's
  \<open>loop_for_value_by_id\<close> reads from the form.
\<close>

section \<open>The form\<close>

fun field_els :: "nat \<Rightarrow> string \<Rightarrow> string list \<Rightarrow> el list" where
  "field_els a lv [] = []"
| "field_els a lv (n # ns) = El a n (Some lv) False True [] # field_els (Suc a) lv ns"

definition bucket_setField :: "nat \<Rightarrow> string \<Rightarrow> el" where
  "bucket_setField a body = El a ''setField'' (Some ''l111'') True False [El (a + 1) body None False False
     (field_els (a + 2) ''l1111'' [''inport'', ''ethDst'', ''ethSrc'', ''ethType'', ''vlanId'', ''vlanPcp'', ''ipDscp'',
        ''ipEcn'', ''ipProto'', ''ipv4Src'', ''ipv4Dst'', ''tcpSrc'', ''tcpDst'', ''udpSrc'',
        ''udpDst'', ''arpOp'', ''arpSpa'', ''arpTpa'', ''arpSha'', ''arpTha'', ''mplsLabel''])]"

definition bucket_action :: "nat \<Rightarrow> string \<Rightarrow> string \<Rightarrow> el" where
  "bucket_action a body set_body = El a ''action'' (Some ''l11'') True False [El (a + 1) body None False False
     (field_els (a + 2) ''l111'' [''output'', ''pushVlan'', ''popVlan'', ''pushMpls'', ''popMpls'', ''group''] @
      [bucket_setField (a + 8) set_body])]"

definition bucket_el :: "nat \<Rightarrow> string \<Rightarrow> string \<Rightarrow> string \<Rightarrow> string \<Rightarrow> el" where
  "bucket_el a i body action_body set_body = El a i None False False [El (a + 1) body None False False
     (field_els (a + 2) ''l11'' [''weight'', ''watchPort'', ''watchGroup''] @ [bucket_action (a + 5) action_body set_body])]"

text \<open>The bucket that the page comes with, and the one that is added when \<open>bucket_index\<close> is \<open>n\<close>.\<close>

definition first_bucket :: el where
  "first_bucket = bucket_el 10 ''bukcets_node_op'' ''collapseOne'' ''collapseactions'' ''collapsetgroup''"

definition new_bucket :: "nat \<Rightarrow> el" where
  "new_bucket n = bucket_el (10 + 40 * Suc n) [] (''collapse'' @ show_nat n)
     (''action_collapseactions'' @ show_nat n) (''setField_collapsetgroup'' @ show_nat n)"

definition group_form :: "el list \<Rightarrow> el" where
  "group_form bs = El 0 [] (Some ''l1'') False False
     [El 1 ''controlip'' None False True [], El 2 ''DPID'' (Some ''l1'') False True [], El 3 ''type'' (Some ''l1'') False True [],
      El 4 ''groupId'' (Some ''l1'') False True [], El 5 ''buckets'' (Some ''l1'') True False bs]"

section \<open>The script\<close>

datatype gp_cont = PControls | PSwitches | PAdded

text \<open>\<open>g_next\<close> is \<open>bucket_index\<close>.  The lists of controllers and of switches are fields of the form.\<close>

record group_page =
  g_web :: "gp_cont web"
  g_fields :: field_values
  g_buckets :: "el list"
  g_next :: nat

definition gp_fields :: "group_page \<Rightarrow> field_values" where
  "gp_fields p = (g_fields p)(1 := w_selected (g_web p) ''#controlip'', 2 := w_selected (g_web p) ''#DPID'')"

text \<open>
  \<open>loop_for_value_by_id\<close> of this page leaves out the fields without a value, and an object without properties is not
  returned; a group in which nothing is filled in is a property without a value.
\<close>

function group_vals :: "el \<Rightarrow> string \<Rightarrow> field_values \<Rightarrow> jsval" where
  "group_vals obj level st = obj_or_undefined (set_all (concat (map (\<lambda>d.
     if el_child d then [(el_id d, group_vals d ''1'' st)]
     else if truthy (el_val st d) then [(el_id d, el_val st d)] else []) (find_level (level_of obj @ level) obj))))"
  by pat_completeness auto

termination
  by (relation "measure (\<lambda>(e, l, st). size e)") (auto simp: find_level_def descendants_size)

declare group_vals.simps [simp del]

definition gp_getControl :: "gp_cont web_act" where
  "gp_getControl = web_post ''../control/list'' [] PControls"

definition gp_onController :: "gp_cont web_act" where
  "gp_onController = choose_control ''#controlip'' ''#DPID'' PSwitches"

definition gp_onControls :: "jsval \<Rightarrow> gp_cont web_act" where
  "gp_onControls data = acts [list_controls [''#controlip''] data, when_ok data gp_onController]"

definition add_group :: "group_page \<Rightarrow> js_error option \<times> group_page" where
  "add_group p =
     (let content = group_vals (group_form (g_buckets p)) [] (gp_fields p);
          (err, w) = with_parts ''#controlip'' (\<lambda>ip port. web_post ''../group/add''
            [(''ip'', ip), (''port'', port),
             (''content'', if content = JUndef then JUndef else JStr (json_str content))] PAdded) (g_web p)
      in (err, p\<lparr>g_web := w\<rparr>))"

definition gp_onAdded :: "jsval \<Rightarrow> gp_cont web_act" where
  "gp_onAdded = answer_change add_done add_failed []"

fun gp_callback :: "gp_cont \<Rightarrow> jsval \<Rightarrow> gp_cont web_act" where
  "gp_callback PControls = gp_onControls"
| "gp_callback PSwitches = list_switches ''#DPID''"
| "gp_callback PAdded = gp_onAdded"

text \<open>The handlers of \<open>.addBucket\<close> and \<open>.delBucket\<close>.  The fields of a new bucket are empty.\<close>

definition addBucket :: "group_page \<Rightarrow> group_page" where
  "addBucket p =
     (let b = new_bucket (g_next p)
      in p\<lparr>g_buckets := g_buckets p @ [b], g_next := Suc (g_next p),
           g_fields := (\<lambda>a. if a \<in> set (map el_addr (all_els b)) then Some [] else g_fields p a)\<rparr>)"

definition delBucket :: "nat \<Rightarrow> group_page \<Rightarrow> group_page" where
  "delBucket i p = p\<lparr>g_buckets := take i (g_buckets p) @ drop (Suc i) (g_buckets p)\<rparr>"

definition gp_init :: "string \<Rightarrow> gp_cont web_act" where
  "gp_init user = acts [at_page (set_html ''#user_login span'' user), hide ''#datatable-table'', gp_getControl]"

section \<open>The page in use\<close>

datatype gp_event =
    Add_bucket
  | Delete_bucket nat
  | Type_field nat string
  | Choose_controller string
  | Choose_switch string
  | Save_group

fun gp_do :: "(string list \<Rightarrow> string option) \<Rightarrow> gp_event \<Rightarrow> group_page \<Rightarrow> group_page" where
  "gp_do no_match Add_bucket p = addBucket p"
| "gp_do no_match (Delete_bucket i) p = delBucket i p"
| "gp_do no_match (Type_field a t) p =
     (if list_ex (\<lambda>e. el_addr e = a \<and> el_field e) (descendants (group_form (g_buckets p)))
      then p\<lparr>g_fields := (g_fields p)(a := Some t)\<rparr> else p)"
| "gp_do no_match (Choose_controller c) p =
     p\<lparr>g_web := snd (gp_onController (select_option no_match ''#controlip'' c (g_web p)))\<rparr>"
| "gp_do no_match (Choose_switch d) p = p\<lparr>g_web := select_option no_match ''#DPID'' d (g_web p)\<rparr>"
| "gp_do no_match Save_group p = snd (add_group p)"

definition gp_start :: group_page where
  "gp_start = \<lparr>g_web = blank_web, g_fields = (\<lambda>a. Some []), g_buckets = [first_bucket], g_next = 0\<rparr>"

inductive gp_reach :: "group_page \<Rightarrow> bool" where
  start: "gp_reach (gp_start\<lparr>g_web := snd (gp_init user (g_web gp_start))\<rparr>)"
| user: "gp_reach p \<Longrightarrow> gp_reach (gp_do no_match e p)"
| server: "gp_reach p \<Longrightarrow> gp_reach (p\<lparr>g_web := arrives gp_callback i a (g_web p)\<rparr>)"

section \<open>The buckets of a page\<close>

text \<open>The buckets are numbered: 0 is that of the page, and \<open>Suc n\<close> the one added when \<open>bucket_index\<close> is \<open>n\<close>.\<close>

fun bucket_no :: "nat \<Rightarrow> el" where
  "bucket_no 0 = first_bucket"
| "bucket_no (Suc n) = new_bucket n"

definition buckets_ok :: "group_page \<Rightarrow> bool" where
  "buckets_ok p \<longleftrightarrow> (\<exists>ns. g_buckets p = map bucket_no ns \<and> distinct ns \<and> (\<forall>n \<in> set ns. n \<le> g_next p))"

lemma buckets_okI: "g_buckets p = map bucket_no ns \<Longrightarrow> distinct ns \<Longrightarrow> \<forall>n \<in> set ns. n \<le> g_next p \<Longrightarrow> buckets_ok p"
  by (auto simp: buckets_ok_def)

lemma buckets_web [simp]: "buckets_ok (p\<lparr>g_web := w\<rparr>) = buckets_ok p"
  by (simp add: buckets_ok_def)

lemma buckets_fields [simp]: "buckets_ok (p\<lparr>g_fields := f\<rparr>) = buckets_ok p"
  by (simp add: buckets_ok_def)

lemma buckets_added: "buckets_ok p \<Longrightarrow> buckets_ok (addBucket p)"
proof -
  assume "buckets_ok p"
  then obtain ns where ns: "g_buckets p = map bucket_no ns" "distinct ns" "\<forall>n \<in> set ns. n \<le> g_next p"
    by (auto simp: buckets_ok_def)
  show ?thesis
    using ns by (intro buckets_okI [of _ "ns @ [Suc (g_next p)]"]) (auto simp: addBucket_def Let_def)
qed

lemma buckets_deleted: "buckets_ok p \<Longrightarrow> buckets_ok (delBucket i p)"
proof -
  assume "buckets_ok p"
  then obtain ns where ns: "g_buckets p = map bucket_no ns" "distinct ns" "\<forall>n \<in> set ns. n \<le> g_next p"
    by (auto simp: buckets_ok_def)
  have "set (take i ns) \<inter> set (drop (Suc i) ns) = {}"
    using ns(2) set_take_disj_set_drop_if_distinct [of ns i "Suc i"] by simp
  then show ?thesis
    using ns by (intro buckets_okI [of _ "take i ns @ drop (Suc i) ns"])
      (auto simp: delBucket_def take_map drop_map dest: in_set_takeD in_set_dropD)
qed

lemma buckets_do: "buckets_ok p \<Longrightarrow> buckets_ok (gp_do no_match e p)"
  by (cases e) (simp_all add: buckets_added buckets_deleted add_group_def split_beta Let_def)

lemma buckets_reach: "gp_reach p \<Longrightarrow> buckets_ok p"
proof (induction rule: gp_reach.induct)
  case (start user)
  show ?case by (intro buckets_okI [of _ "[0]"]) (simp_all add: gp_start_def)
qed (simp_all add: buckets_do)

text \<open>The elements of different buckets are different.\<close>

definition addrs :: "el list \<Rightarrow> nat list" where
  "addrs es = map el_addr (concat (map all_els es))"

lemma addrs_simps [simp]:
  "addrs [] = []" "addrs (El a i l c f ks # es) = a # addrs ks @ addrs es" "addrs (es @ es') = addrs es @ addrs es'"
  by (simp_all add: addrs_def)

lemma addrs_field_els: "n = a + length ns \<Longrightarrow> addrs (field_els a lv ns) = [a..<n]"
  by (induction a lv ns arbitrary: n rule: field_els.induct) (simp_all add: upt_rec)

lemma addrs_fields:
  "addrs es = [b..<m] \<Longrightarrow> m = n \<Longrightarrow> b = a + length ns \<Longrightarrow> b \<le> n \<Longrightarrow> addrs (field_els a lv ns @ es) = [a..<n]"
  using upt_add_eq_append [of a b "n - b"] by (simp add: addrs_field_els)

lemma addrs_nested:
  "addrs ks = [b..<n] \<Longrightarrow> b = a + 2 \<Longrightarrow> b \<le> n \<Longrightarrow> addrs [El a i l c f [El (a + 1) j m d g ks]] = [a..<n]"
  by (simp add: upt_conv_Cons)

lemma addrs_setField: "addrs [bucket_setField a b] = [a..<a + 23]"
  unfolding bucket_setField_def by (intro addrs_nested [OF addrs_field_els]) simp_all

lemma addrs_action: "addrs [bucket_action a b c] = [a..<a + 31]"
  unfolding bucket_action_def
  by (intro addrs_nested [OF addrs_fields [OF addrs_setField]]) simp_all

lemma addrs_bucket: "addrs [bucket_el a i b c d] = [a..<a + 36]"
  unfolding bucket_el_def
  by (intro addrs_nested [OF addrs_fields [OF addrs_action]]) simp_all

lemma addrs_bucket_no: "addrs [bucket_no n] = [10 + 40 * n..<46 + 40 * n]"
  by (cases n) (simp_all add: first_bucket_def new_bucket_def addrs_bucket del: addrs_simps)

lemma buckets_apart: "a \<in> set (addrs [bucket_no m]) \<Longrightarrow> a \<in> set (addrs [bucket_no n]) \<Longrightarrow> m = n"
  by (simp add: addrs_bucket_no)

section \<open>What is read from the form\<close>

text \<open>What an element found by its level adds to the object.\<close>

definition own_entry :: "field_values \<Rightarrow> el \<Rightarrow> (string \<times> jsval) list" where
  "own_entry st d = (if el_child d then [(el_id d, group_vals d ''1'' st)]
     else if truthy (el_val st d) then [(el_id d, el_val st d)] else [])"

lemma group_vals_entries:
  "group_vals e lv st = obj_or_undefined (set_all (concat (map (own_entry st) (find_level (level_of e @ lv) e))))"
  unfolding group_vals.simps [of e] own_entry_def ..

lemma map_of_set_all: "map_of (set_all kvs) k = map_of (rev kvs) k"
  by (induction kvs rule: rev_induct) (auto simp: set_all_def update_conv')

lemma pget_collected: "pget (obj_or_undefined (set_all kvs)) k = (case map_of (rev kvs) k of None \<Rightarrow> JUndef | Some v \<Rightarrow> v)"
proof (cases "set_all kvs = []")
  case True
  then have "map_of (rev kvs) k = None" using map_of_set_all [of kvs k] by simp
  then show ?thesis using True by (simp add: obj_or_undefined_def)
qed (simp add: obj_or_undefined_def pget.simps map_of_set_all)

lemma level_fields:
  "filter (\<lambda>d. el_level d = Some l) (concat (map all_els (field_els a lv ns))) = (if l = lv then field_els a lv ns else [])"
  by (cases "l = lv"; induction a lv ns rule: field_els.induct) simp_all

lemma levels_setField:
  "filter (\<lambda>d. el_level d = Some l) (all_els (bucket_setField a b)) =
     (if l = ''l111'' then [bucket_setField a b] else []) @
     filter (\<lambda>d. el_level d = Some l) (descendants (bucket_setField a b))"
  "l \<noteq> ''l1111'' \<Longrightarrow> filter (\<lambda>d. el_level d = Some l) (descendants (bucket_setField a b)) = []"
  by (simp_all add: bucket_setField_def descendants_def level_fields del: field_els.simps)

lemma levels_action:
  "l \<in> {''l1'', ''l11''} \<Longrightarrow> filter (\<lambda>d. el_level d = Some l) (all_els (bucket_action a b c)) =
     (if l = ''l11'' then [bucket_action a b c] else [])"
  using levels_setField [of l "a + 8" c]
  by (auto simp: bucket_action_def level_fields simp del: field_els.simps all_els.simps(1) [of _ "''setField''"])

lemma levels_bucket:
  "filter (\<lambda>d. el_level d = Some ''l1'') (all_els (bucket_el a i b c d)) = []"
  "filter (\<lambda>d. el_level d = Some ''l11'') (all_els (bucket_el a i b c d)) =
     field_els (a + 2) ''l11'' [''weight'', ''watchPort'', ''watchGroup''] @ [bucket_action (a + 5) c d]"
  using levels_action [of "''l1''" "a + 5" c d] levels_action [of "''l11''" "a + 5" c d]
  by (simp_all add: bucket_el_def level_fields del: field_els.simps)

text \<open>A field of a bucket, and the actions of a bucket.\<close>

definition bucket_part :: "(el \<Rightarrow> jsval) \<Rightarrow> string \<Rightarrow> el \<Rightarrow> jsval" where
  "bucket_part val f b = (case find (\<lambda>d. el_id d = f) (descendants b) of None \<Rightarrow> JUndef | Some d \<Rightarrow> val d)"

definition last_filled :: "jsval list \<Rightarrow> jsval" where
  "last_filled vs = (case filter truthy (rev vs) of [] \<Rightarrow> JUndef | v # _ \<Rightarrow> v)"

lemma last_filled_simps [simp]:
  "last_filled [] = JUndef" "last_filled (vs @ [v]) = (if truthy v then v else last_filled vs)"
  by (simp_all add: last_filled_def)

lemma last_filled_case: "(case (if truthy (last_filled vs) then Some (last_filled vs) else None) of
    None \<Rightarrow> JUndef | Some v \<Rightarrow> v) = last_filled vs"
  by (induction vs rule: rev_induct) auto

lemma parts_bucket:
  assumes "\<forall>x \<in> {i, c, d, e}. x \<notin> {''weight'', ''watchPort'', ''watchGroup'', ''action''}"
  shows "bucket_part val ''weight'' (bucket_el a i c d e) = val (El (Suc (Suc a)) ''weight'' (Some ''l11'') False True [])"
    "bucket_part val ''watchPort'' (bucket_el a i c d e) =
       val (El (Suc (Suc (Suc a))) ''watchPort'' (Some ''l11'') False True [])"
    "bucket_part val ''watchGroup'' (bucket_el a i c d e) =
       val (El (Suc (Suc (Suc (Suc a)))) ''watchGroup'' (Some ''l11'') False True [])"
    "bucket_part val ''action'' (bucket_el a i c d e) = val (bucket_action (Suc (Suc (Suc (Suc (Suc a))))) d e)"
  using assms by (auto simp: bucket_part_def bucket_el_def bucket_action_def descendants_def eval_nat_numeral)

text \<open>What the search for levels finds in a bucket.\<close>

definition bucket_entries :: "field_values \<Rightarrow> el \<Rightarrow> (string \<times> jsval) list" where
  "bucket_entries st b = concat (map (own_entry st) (filter (\<lambda>d. el_level d = Some ''l11'') (all_els b)))"

lemma entries_bucket:
  "map_of (rev (bucket_entries st (bucket_no n))) f =
     (if f \<in> {''weight'', ''watchPort'', ''watchGroup''} then
        (let v = bucket_part (el_val st) f (bucket_no n) in if truthy v then Some v else None)
      else if f = ''action'' then Some (bucket_part (\<lambda>d. group_vals d ''1'' st) f (bucket_no n)) else None)"
proof -
  obtain a i c d e where b: "bucket_no n = bucket_el a i c d e"
      "\<forall>x \<in> {i, c, d, e}. x \<notin> {''weight'', ''watchPort'', ''watchGroup'', ''action''}"
    by (cases n) (simp_all add: first_bucket_def new_bucket_def)
  have "el_child (bucket_action a d e)" "el_id (bucket_action a d e) = ''action''" for a
    by (simp_all add: bucket_action_def)
  then show ?thesis
    using parts_bucket [OF b(2)] unfolding b(1)
    by (simp add: bucket_entries_def own_entry_def levels_bucket Let_def eval_nat_numeral)
qed

lemma entries_buckets:
  assumes "F = {''weight'', ''watchPort'', ''watchGroup''}"
  shows "f \<in> F \<Longrightarrow> map_of (rev (concat (map (\<lambda>n. bucket_entries st (bucket_no n)) ns))) f =
      (let v = last_filled (map (\<lambda>n. bucket_part (el_val st) f (bucket_no n)) ns) in if truthy v then Some v else None)"
    and "map_of (rev (concat (map (\<lambda>n. bucket_entries st (bucket_no n)) ns))) ''action'' =
      (if ns = [] then None else Some (bucket_part (\<lambda>d. group_vals d ''1'' st) ''action'' (bucket_no (last ns))))"
    and "f \<notin> insert ''action'' F \<Longrightarrow> map_of (rev (concat (map (\<lambda>n. bucket_entries st (bucket_no n)) ns))) f = None"
  unfolding assms by (induction ns rule: rev_induct) (auto simp: entries_bucket map_add_def Let_def simp del: bucket_no.simps)

lemma concat_map_pieces: "concat (map f (concat (map g ns))) = concat (map (\<lambda>n. concat (map f (g n))) ns)"
  by (induction ns) simp_all

text \<open>What is entered in one bucket changes no other.\<close>

lemma typed_elsewhere:
  assumes "a \<in> set (addrs [bucket_no m])" "m \<noteq> n"
  shows "bucket_part (el_val (st(a := v))) f (bucket_no n) = bucket_part (el_val st) f (bucket_no n)"
proof -
  have "el_addr d \<noteq> a" if "d \<in> set (descendants (bucket_no n))" for d
  proof -
    have "el_addr d \<in> set (addrs [bucket_no n])"
      using descendants_all [OF that] by (simp add: addrs_def)
    then show ?thesis using buckets_apart assms by blast
  qed
  moreover have "d \<in> set es" if "find P es = Some d" for P d and es :: "el list"
    using that by (auto simp: find_Some_iff)
  ultimately show ?thesis by (auto simp: bucket_part_def el_val_def split: option.split)
qed

lemma group_form_vals:
  "\<exists>kvs. kvs \<noteq> [] \<and> group_vals (group_form (map bucket_no ns)) [] st = JObj kvs \<and>
     pget (JObj kvs) ''buckets'' =
       obj_or_undefined (set_all (concat (map (\<lambda>n. bucket_entries st (bucket_no n)) ns)))"
proof -
  let ?bs = "map bucket_no ns"
  let ?B = "El 5 ''buckets'' (Some ''l1'') True False ?bs"
  have quiet: "filter (\<lambda>d. el_level d = Some ''l1'') (all_els (bucket_no n)) = []" for n
    by (cases n) (simp_all add: first_bucket_def new_bucket_def levels_bucket)
  then have "filter (\<lambda>d. el_level d = Some ''l1'') (concat (map all_els ?bs)) = []"
    by (auto simp: filter_empty_conv)
  then have "find_level ''l1'' (group_form ?bs) =
      [El 2 ''DPID'' (Some ''l1'') False True [], El 3 ''type'' (Some ''l1'') False True [],
       El 4 ''groupId'' (Some ''l1'') False True [], ?B]"
    by (simp add: find_level_def descendants_def group_form_def)
  moreover have "level_of (group_form ?bs) = ''l1''" by (simp add: level_of_def group_form_def)
  ultimately obtain xs where top: "group_vals (group_form ?bs) [] st = obj_or_undefined (set_all (xs @ own_entry st ?B))"
    using group_vals_entries [of "group_form ?bs" "[]" st]
    by (simp only: append_Nil2 list.map concat.simps append_assoc [symmetric])
  have "find_level ''l11'' ?B = concat (map (\<lambda>n. filter (\<lambda>d. el_level d = Some ''l11'') (all_els (bucket_no n))) ns)"
    by (simp add: find_level_def descendants_def filter_concat o_def)
  then have buckets: "group_vals ?B ''1'' st = obj_or_undefined (set_all (concat (map (\<lambda>n. bucket_entries st (bucket_no n)) ns)))"
    by (simp add: group_vals_entries [of ?B] level_of_def bucket_entries_def concat_map_pieces)
  have v: "pget (obj_or_undefined (set_all (xs @ own_entry st ?B))) ''buckets'' = group_vals ?B ''1'' st"
    by (simp add: pget_collected own_entry_def)
  have "map_of (set_all (xs @ own_entry st ?B)) ''buckets'' = Some (group_vals ?B ''1'' st)"
    by (simp add: map_of_set_all own_entry_def)
  then have n: "set_all (xs @ own_entry st ?B) \<noteq> []" by auto
  then show ?thesis using top v buckets by (intro exI [of _ "set_all (xs @ own_entry st ?B)"]) (simp add: obj_or_undefined_def)
qed

text \<open>
  C8: all buckets of a new group are sent as one.  Whatever buckets were added and removed and whatever was
  entered, the button that saves the group sends one request to the controller chosen.  Its object \<open>buckets\<close> has a single weight, port and
  group to watch, each that of the last bucket in which it is filled in, and the actions of the last bucket; nothing is left of the
  actions of the other buckets.
\<close>

theorem buckets_sent_as_one:
  assumes "gp_reach p" "w_selected (g_web p) ''#controlip'' = Some t"
  shows "\<exists>c. add_group p = (None, p\<lparr>g_web := snd (web_post ''../group/add''
        [(''ip'', fst (bar_parts t)), (''port'', snd (bar_parts t)), (''content'', JStr (json_str c))] PAdded (g_web p))\<rparr>) \<and>
      (\<forall>f \<in> {''weight'', ''watchPort'', ''watchGroup''}.
         get_path c [''buckets'', f] = last_filled (map (bucket_part (el_val (gp_fields p)) f) (g_buckets p))) \<and>
      get_path c [''buckets'', ''action''] =
        (if g_buckets p = [] then JUndef
         else bucket_part (\<lambda>d. group_vals d ''1'' (gp_fields p)) ''action'' (last (g_buckets p)))"
proof -
  obtain ns where ns: "g_buckets p = map bucket_no ns"
    using buckets_reach [OF assms(1)] by (auto simp: buckets_ok_def)
  obtain kvs where c: "group_vals (group_form (map bucket_no ns)) [] (gp_fields p) = JObj kvs"
      "pget (JObj kvs) ''buckets'' =
         obj_or_undefined (set_all (concat (map (\<lambda>n. bucket_entries (gp_fields p) (bucket_no n)) ns)))"
    using group_form_vals by blast
  have "add_group p = (None, p\<lparr>g_web := snd (web_post ''../group/add''
      [(''ip'', fst (bar_parts t)), (''port'', snd (bar_parts t)), (''content'', JStr (json_str (JObj kvs)))] PAdded (g_web p))\<rparr>)"
    using assms(2) ns c(1) by (simp add: add_group_def with_parts_def web_post_def)
  moreover have "get_path (JObj kvs) [''buckets'', f] = last_filled (map (bucket_part (el_val (gp_fields p)) f) (g_buckets p))"
    if "f \<in> {''weight'', ''watchPort'', ''watchGroup''}" for f
    using entries_buckets(1) [OF refl that] ns c(2) by (simp add: pget_collected o_def Let_def last_filled_case)
  moreover have "get_path (JObj kvs) [''buckets'', ''action''] =
      (if g_buckets p = [] then JUndef
       else bucket_part (\<lambda>d. group_vals d ''1'' (gp_fields p)) ''action'' (last (g_buckets p)))"
    using entries_buckets(2) [OF refl] ns c(2) by (simp add: pget_collected last_map)
  ultimately show ?thesis by (intro exI [of _ "JObj kvs"]) blast
qed

text \<open>A page with two buckets, in which different weights were entered.\<close>

definition one_controller :: jsval where
  "one_controller = JObj [(''status'', JStr ''0''), (''data'', JArr [JObj [(''ip'', JStr ''10.0.0.1''), (''port'', JStr ''81'')]])]"

definition opened_form :: group_page where
  "opened_form = (let p = gp_start\<lparr>g_web := snd (gp_init ''admin'' (g_web gp_start))\<rparr>
     in p\<lparr>g_web := arrives gp_callback 0 (Success one_controller) (g_web p)\<rparr>)"

definition filled_form :: group_page where
  "filled_form = gp_do (\<lambda>os. None) (Type_field 52 ''2'') (gp_do (\<lambda>os. None) (Type_field 12 ''1'')
     (gp_do (\<lambda>os. None) Add_bucket opened_form))"

lemma filled_form_reach: "gp_reach filled_form"
proof -
  have "gp_reach opened_form"
    unfolding opened_form_def Let_def by (intro gp_reach.server gp_reach.start)
  then show ?thesis unfolding filled_form_def by (intro gp_reach.user)
qed

lemma filled_form_state:
  "w_selected (g_web filled_form) ''#controlip'' = Some ''10.0.0.1|81''"
  "map (bucket_part (el_val (gp_fields filled_form)) ''weight'') (g_buckets filled_form) = [JStr ''1'', JStr ''2'']"
  "map (bucket_part (el_val (gp_fields filled_form)) ''watchPort'') (g_buckets filled_form) = [JStr [], JStr []]"
  by code_simp+

lemma buckets_sent_as_one_witness:
  "fst (add_group filled_form) = None \<and>
   (\<exists>c. pending (w_page (g_web (snd (add_group filled_form)))) = pending (w_page (g_web filled_form)) @
      [(\<lparr>req_method = POST, req_url = ''../group/add'', req_body = post_form [(''ip'', JStr ''10.0.0.1''), (''port'', JStr ''81''),
          (''content'', JStr (json_str c))]\<rparr>, PAdded)] \<and>
    get_path c [''buckets'', ''weight''] = JStr ''2'' \<and> get_path c [''buckets'', ''watchPort''] = JUndef)"
proof -
  have t: "bar_parts ''10.0.0.1|81'' = (JStr ''10.0.0.1'', JStr ''81'')" by code_simp
  from buckets_sent_as_one [OF filled_form_reach filled_form_state(1)]
  obtain c where c: "add_group filled_form = (None, filled_form\<lparr>g_web := snd (web_post ''../group/add''
        [(''ip'', JStr ''10.0.0.1''), (''port'', JStr ''81''), (''content'', JStr (json_str c))] PAdded (g_web filled_form))\<rparr>)"
      "\<forall>f \<in> {''weight'', ''watchPort'', ''watchGroup''}. get_path c [''buckets'', f] =
         last_filled (map (bucket_part (el_val (gp_fields filled_form)) f) (g_buckets filled_form))"
    unfolding t fst_conv snd_conv by blast
  have "get_path c [''buckets'', ''weight''] = JStr ''2''" "get_path c [''buckets'', ''watchPort''] = JUndef"
    using c(2) filled_form_state by (simp_all add: last_filled_def del: get_path.simps)
  then show ?thesis using c(1) by (intro conjI exI [of _ c]) (simp_all add: web_post_def page_simps)
qed

end
