(* ===== verification/Web_Switch_List.thy ===== *)
theory Web_Switch_List
  imports Web_Controllers Flow_Run
begin

text \<open>
  Two pages of \<open>WebRoot-FlowTable\<close>: the list of the switches of a controller that leads to the page of the flow table
  of one (\<open>flowtable_manager/flow_table_config.html\<close>), and the list of its hosts (\<open>hostinfo/index.html\<close>).  On the first,
  the button for a search loads the page again with the controller chosen in its address.
\<close>

section \<open>Switches\<close>

datatype fs_cont = XControls | XSwitches

type_synonym fs_act = "fs_cont web_act"

definition colon_parts :: "string \<Rightarrow> jsval \<times> jsval" where
  "colon_parts t = (let ps = JArr (map JStr (split_on CHR '':'' t)) in (elem_at ps 0, elem_at ps 1))"

definition fs_getControl :: fs_act where
  "fs_getControl = web_post ''../control/list'' [] XControls"

text \<open>The address of the flow table of a switch, and that of the page with another controller.\<close>

definition onCickViewButton :: "jsval \<Rightarrow> fs_act" where
  "onCickViewButton d = (if nullish d then raises TypeError else does (\<lambda>w. w\<lparr>w_location := Some
     (''./flow_table_detail.html?dpid='' @ js_str (pget d ''dpid'') @ ''&controller='' @ js_str (list_val ''#control'' w))\<rparr>))"

definition fs_search :: fs_act where
  "fs_search = does (\<lambda>w. w\<lparr>w_location := Some (''./flow_table_config.html?control='' @ js_str (list_val ''#control'' w))\<rparr>)"

definition fs_option :: "jsval \<Rightarrow> string" where
  "fs_option d = js_str (pget d ''ip'') @ '':'' @ js_str (pget d ''port'')"

text \<open>The callback of the start of the page, with the query of its address.\<close>

definition fs_callback0 :: "(string list \<Rightarrow> string option) \<Rightarrow> string \<Rightarrow> fs_act" where
  "fs_callback0 no_match search =
     (let control = getURLParam ''control'' search
      in acts [act_when (control \<noteq> None \<and> control \<noteq> Some [])
                 (does (select_option no_match ''#control'' (the control))),
               (\<lambda>w. case w_selected w ''#control'' of
                  None \<Rightarrow> (Some TypeError, w)
                | Some t \<Rightarrow> web_post ''../switchinfo''
                    [(''ip'', fst (colon_parts t)), (''port'', snd (colon_parts t))] XSwitches w)])"

definition fs_onControls :: "(string list \<Rightarrow> string option) \<Rightarrow> string \<Rightarrow> jsval \<Rightarrow> fs_act" where
  "fs_onControls no_match search data = when_ok data (acts
     (map (item_act (\<lambda>d. does (add_option ''#control'' (fs_option d)))) (each_value (pget data ''data'')) @
      [fs_callback0 no_match search]))"

definition fs_row :: "jsval \<Rightarrow> jsval" where
  "fs_row d = JArr [pget d ''dpid'', pget d ''ip'', pget d ''port'', pget d ''manufacturer'', pget d ''software'',
     pget d ''hardware'', pget d ''openflow'', JStr (row_button ''btn-success''
       (sq (''onCickViewButton('' @ json_str (JObj [(''dpid'', pget d ''dpid'')]) @ '')'')) ''View Flow table '')]"

definition fs_onSwitches :: "bool list \<Rightarrow> jsval \<Rightarrow> fs_act" where
  "fs_onSwitches heads data =
     (if status_ok data then acts
        [item_rows heads fs_row (each_value (pget data ''data'')),
         at_page (set_shown ''#datatable-table'' True),
         at_page (set_css ''#datatable-table'' ''width'' ''100%'')]
      else say (js_str (pget data ''data'')))"

fun fs_callback :: "(string list \<Rightarrow> string option) \<Rightarrow> string \<Rightarrow> bool list \<Rightarrow> fs_cont \<Rightarrow> jsval \<Rightarrow> fs_act" where
  "fs_callback no_match search heads XControls = fs_onControls no_match search"
| "fs_callback no_match search heads XSwitches = fs_onSwitches heads"

definition fs_init :: "string \<Rightarrow> fs_act" where
  "fs_init user = acts [at_page (set_html ''#user_login span'' user), at_page (set_shown ''#datatable-table'' False),
     fs_getControl]"

section \<open>From the list to the flow table\<close>

text \<open>Texts that stay as they are in an address.\<close>

definition plain_char :: "char \<Rightarrow> bool" where
  "plain_char c \<longleftrightarrow> c \<in> set ''0123456789abcdefghijklmnopqrstuvwxyzABCDEFGHIJKLMNOPQRSTUVWXYZ.:-_''"

definition url_plain :: "string \<Rightarrow> bool" where
  "url_plain s \<longleftrightarrow> s \<noteq> [] \<and> list_all plain_char s"

lemma marks_not_plain: "\<not> plain_char CHR ''&''" "\<not> plain_char CHR ''?''" "\<not> plain_char CHR ''#''" "\<not> plain_char CHR ''%''"
  by code_simp+

lemma plain_chars:
  assumes "url_plain s"
  shows "CHR ''&'' \<notin> set s" "CHR ''?'' \<notin> set s" "CHR ''#'' \<notin> set s" "CHR ''%'' \<notin> set s" "s \<noteq> []"
  using assms marks_not_plain by (auto simp only: url_plain_def list_all_iff)

lemma unescape_plain: "CHR ''%'' \<notin> set s \<Longrightarrow> js_unescape s = s"
  by (induction s) auto

lemma until_absent [simp]: "c \<notin> set s \<Longrightarrow> takeWhile (\<lambda>x. x \<noteq> c) s = s"
  by (auto simp: takeWhile_eq_all_conv)

lemma until_found [simp]: "c \<notin> set s \<Longrightarrow> takeWhile (\<lambda>x. x \<noteq> c) (s @ c # t) = s"
  by (induction s) auto

lemma scan_skips: "list_all (\<lambda>c. \<not> sep c) s \<Longrightarrow> param_scan sep hit n (s @ t) = param_scan sep hit n t"
  by (induction s) auto

lemma search_param:
  assumes "url_plain c"
  shows "getURLParam ''control'' (location_search (''./flow_table_config.html?control='' @ c)) = Some c"
  using plain_chars [OF assms]
  by (simp add: getURLParam_def location_search_def lower_def unescape_plain)

lemma detail_params:
  assumes "url_plain d" "url_plain c"
  defines "search \<equiv> location_search (''./flow_table_detail.html?dpid='' @ d @ ''&controller='' @ c)"
  shows "getURLParam ''dpid'' search = Some d" "getURLParam ''controller'' search = Some c"
proof -
  have s: "search = ''?dpid='' @ d @ ''&controller='' @ c"
    using plain_chars [OF assms(1)] plain_chars [OF assms(2)] by (simp add: search_def location_search_def)
  have sk: "list_all (\<lambda>x. \<not> (x = CHR ''?'' \<or> x = CHR ''&'')) d"
    using plain_chars [OF assms(1)] by (auto simp: list_all_iff)
  show "getURLParam ''dpid'' search = Some d"
    using plain_chars [OF assms(1)] by (simp add: s getURLParam_def lower_def unescape_plain)
  show "getURLParam ''controller'' search = Some c"
    using plain_chars [OF assms(2)] scan_skips [OF sk] by (simp add: s getURLParam_def lower_def unescape_plain)
qed

lemma switches_keep_choice: "w_selected (snd (fs_onSwitches heads data w)) = w_selected w"
  by (simp add: fs_onSwitches_def item_rows_def show_rows_def say_def split: option.split)

lemma chosen_again:
  fixes no_match :: "string list \<Rightarrow> string option"
  assumes "url_plain c" "status_ok data" "\<not> list_ex nullish (each_value (pget data ''data''))"
    and "w_options v ''#control'' = []" "c \<in> set (map fs_option (each_value (pget data ''data'')))"
  defines "w' \<equiv> fs_onControls no_match (location_search (''./flow_table_config.html?control='' @ c)) data v"
  shows "fst w' = None" "w_selected (snd w') ''#control'' = Some c"
    "pending (w_page (snd w')) = pending (w_page v) @ [(\<lparr>req_method = POST, req_url = ''../switchinfo'',
       req_body = post_form [(''ip'', fst (colon_parts c)), (''port'', snd (colon_parts c))]\<rparr>, XSwitches)]"
proof -
  let ?add = "\<lambda>d. add_option ''#control'' (fs_option d)"
  let ?v = "fold ?add (each_value (pget data ''data'')) v"
  have v: "w_options ?v ''#control'' = map fs_option (each_value (pget data ''data''))" "w_page ?v = w_page v"
    unfolding options_fold using assms(4) by simp_all
  have "w' = fs_callback0 no_match (location_search (''./flow_table_config.html?control='' @ c)) ?v"
    using assms(2) acts_items [OF assms(3), of ?add v] by (simp add: w'_def fs_onControls_def acts_append)
  then have "w' = web_post ''../switchinfo'' [(''ip'', fst (colon_parts c)), (''port'', snd (colon_parts c))] XSwitches
      (select_option no_match ''#control'' c ?v)"
    using assms(5) v(1) search_param [OF assms(1)] plain_chars(5) [OF assms(1)]
    by (simp add: fs_callback0_def select_option_def)
  then show "fst w' = None" "w_selected (snd w') ''#control'' = Some c"
    "pending (w_page (snd w')) = pending (w_page v) @ [(\<lparr>req_method = POST, req_url = ''../switchinfo'',
       req_body = post_form [(''ip'', fst (colon_parts c)), (''port'', snd (colon_parts c))]\<rparr>, XSwitches)]"
    using assms(5) v by (simp_all add: web_post_def select_option_def page_simps)
qed

lemma pending_fill: "pending (fill_select s ks extra p) = pending p"
proof -
  have "pending (steps (map (\<lambda>k. append_html s (option_html k)) ks) p) = pending p" for p :: "(fhandler, fcont) page"
    by (induction ks arbitrary: p) (simp_all add: page_simps)
  then show ?thesis by (simp add: fill_select_def steps_append page_simps)
qed

lemma start_requests:
  assumes "getURLParam ''dpid'' search = Some d" "getURLParam ''controller'' search = Some c" "d \<noteq> []"
  shows "map fst (pending (page (startPage user search st))) = map fst (pending (page st)) @
    [\<lparr>req_method = GET, req_url = ''../gn/switch/json/'' @ d @ ''?controller='' @ c, req_body = []\<rparr>,
     \<lparr>req_method = GET, req_url = ''../gn/flow/json/'' @ d @ ''?controller='' @ c, req_body = []\<rparr>]"
  using assms by (simp add: startPage_def param_val_def updateSwitchInfo_def getFlowTables_def addUpdateMatch_def
      addUpdateAction_def editUpdateAction_def editUpdateMatch_def with_controller_def paths_def pending_fill page_simps pget.simps)

text \<open>
  C7: the flow table shown is that of the switch and the controller that the user chose.  When a controller was chosen in the
  list and the button for the search pressed, the page loaded then chooses this controller again and asks for its
  switches; and the button of a switch leads to the page of the flow table, whose first requests are for this switch
  at this controller.
\<close>

theorem chosen_switch_opens:
  assumes "w_selected w ''#control'' = Some c" "url_plain c"
    and "w_location (snd (fs_search w)) = Some url"
    and "status_ok data" "\<not> list_ex nullish (each_value (pget data ''data''))" "w_options v ''#control'' = []"
      "c \<in> set (map fs_option (each_value (pget data ''data'')))"
    and "listed = fs_onControls no_match (location_search url) data v"
    and "url_plain (js_str (pget d ''dpid''))" "\<not> nullish d"
    and "w_location (snd (onCickViewButton d (snd (fs_onSwitches heads switches (snd listed))))) = Some link"
  shows "fst listed = None \<and>
    pending (w_page (snd listed)) = pending (w_page v) @ [(\<lparr>req_method = POST, req_url = ''../switchinfo'',
       req_body = post_form [(''ip'', fst (colon_parts c)), (''port'', snd (colon_parts c))]\<rparr>, XSwitches)] \<and>
    map fst (pending (page (startPage user (location_search link) st))) = map fst (pending (page st)) @
      [\<lparr>req_method = GET, req_url = ''../gn/switch/json/'' @ js_str (pget d ''dpid'') @ ''?controller='' @ c, req_body = []\<rparr>,
       \<lparr>req_method = GET, req_url = ''../gn/flow/json/'' @ js_str (pget d ''dpid'') @ ''?controller='' @ c, req_body = []\<rparr>]"
proof -
  have url: "url = ''./flow_table_config.html?control='' @ c"
    using assms(1,3) by (simp add: fs_search_def list_val_def)
  note again = chosen_again [OF assms(2,4,5,6,7), of no_match, folded url, folded assms(8)]
  have link: "link = ''./flow_table_detail.html?dpid='' @ js_str (pget d ''dpid'') @ ''&controller='' @ c"
    using assms(10,11) again(2) switches_keep_choice [of heads switches "snd listed"]
    by (simp add: onCickViewButton_def list_val_def)
  show ?thesis
    using again(1,3) start_requests [OF detail_params [OF assms(9,2), folded link] plain_chars(5) [OF assms(9)]] by simp
qed

definition three_controllers :: jsval where
  "three_controllers = JObj [(''status'', JStr ''0''), (''data'', JArr (map (\<lambda>ip. JObj [(''ip'', JStr ip), (''port'', JStr ''81'')])
     [''10.0.0.1'', ''10.0.0.2'', ''10.0.0.3'']))]"

text \<open>The second of three controllers, and a switch of it.\<close>

definition chosen_page :: "fs_cont web" where
  "chosen_page = select_option (\<lambda>os. None) ''#control'' ''10.0.0.2:81'' (add_option ''#control'' ''10.0.0.2:81'' blank_web)"

lemma chosen_switch_opens_witness:
  "let listed = fs_onControls (\<lambda>os. None) ''?control=10.0.0.2:81'' three_controllers blank_web
   in pending (w_page (snd listed)) = [(\<lparr>req_method = POST, req_url = ''../switchinfo'',
        req_body = post_form [(''ip'', JStr ''10.0.0.2''), (''port'', JStr ''81'')]\<rparr>, XSwitches)] \<and>
      map fst (pending (page (startPage ''admin'' (location_search
        (the (w_location (snd (onCickViewButton (JObj [(''dpid'', JStr ''00:1a'')]) (snd listed)))))) idle_app))) =
        [\<lparr>req_method = GET, req_url = ''../gn/switch/json/00:1a?controller=10.0.0.2:81'', req_body = []\<rparr>,
         \<lparr>req_method = GET, req_url = ''../gn/flow/json/00:1a?controller=10.0.0.2:81'', req_body = []\<rparr>]"
proof -
  let ?d = "JObj [(''dpid'', JStr ''00:1a'')]"
  define listed where "listed = fs_onControls (\<lambda>os. None) ''?control=10.0.0.2:81'' three_controllers blank_web"
  have l: "location_search ''./flow_table_config.html?control=10.0.0.2:81'' = ''?control=10.0.0.2:81''" by code_simp
  have p: "url_plain ''10.0.0.2:81''" "url_plain ''00:1a''" "colon_parts ''10.0.0.2:81'' = (JStr ''10.0.0.2'', JStr ''81'')"
    by code_simp+
  have w: "w_selected chosen_page ''#control'' = Some ''10.0.0.2:81''" by (simp add: chosen_page_def add_option_def select_option_def Let_def)
  have u: "w_location (snd (fs_search chosen_page)) = Some ''./flow_table_config.html?control=10.0.0.2:81''"
    using w by (simp add: fs_search_def list_val_def)
  have d: "status_ok three_controllers" "\<not> list_ex nullish (each_value (pget three_controllers ''data''))"
      "''10.0.0.2:81'' \<in> set (map fs_option (each_value (pget three_controllers ''data'')))"
    by (simp_all add: status_ok_def three_controllers_def each_value_def fs_option_def pget.simps)
  have b: "w_options blank_web s = []" "pending (w_page blank_web) = []" for s by (simp_all add: blank_web_def blank_page_def)
  have v: "w_location (snd (onCickViewButton ?d (snd (fs_onSwitches [] JUndef (snd listed))))) =
      Some (the (w_location (snd (onCickViewButton ?d (snd listed)))))"
    using switches_keep_choice [of "[]" JUndef "snd listed"] by (simp add: onCickViewButton_def list_val_def)
  note o = chosen_switch_opens [OF w p(1) u d(1,2) b(1) d(3), unfolded l, OF listed_def _ _ v, of "''admin''" idle_app]
  have "js_str (pget ?d ''dpid'') = ''00:1a''" "\<not> nullish ?d" by (simp_all add: pget.simps)
  then show ?thesis using o p b(2) unfolding listed_def [symmetric] Let_def by simp
qed

section \<open>Hosts\<close>

datatype ho_cont = YControls | YHosts

type_synonym ho_act = "ho_cont web_act"

definition ho_getControl :: ho_act where
  "ho_getControl = web_post ''../control/list'' [] YControls"

definition ho_search :: ho_act where
  "ho_search = with_parts ''#control'' (\<lambda>ip port.
     at_page (send GET (''../hosts?controller='' @ js_str ip @ '':'' @ js_str port) [] YHosts))"

definition ho_row :: "jsval \<Rightarrow> jsval" where
  "ho_row d = JArr (map (pget d) [''mac'', ''ip'', ''swip'', ''dpid'', ''inport'', ''subnetid'', ''tenantid'', ''hosttype''])"

definition ho_onHosts :: "bool list \<Rightarrow> jsval \<Rightarrow> ho_act" where
  "ho_onHosts heads data = acts
     [act_when (truthy (pget data ''total'')) (at_page (steps
        [set_text ''.normal'' (pget (pget data ''total'') ''NORMAL''),
         set_text ''.router'' (pget (pget data ''total'') ''ROUTER''),
         set_text ''.gateway'' (pget (pget data ''total'') ''GATEWAY'')])),
      item_rows heads ho_row (each_value (pget data ''hostlist'')),
      at_page (set_shown ''#datatable-table'' True),
      at_page (set_css ''#datatable-table'' ''width'' ''100%'')]"

text \<open>\<open>getURLParam\<close> of this page is that of the page of switches, which returns the character before the key.\<close>

definition ho_callback0 :: "(string list \<Rightarrow> string option) \<Rightarrow> string \<Rightarrow> ho_act" where
  "ho_callback0 no_match search =
     (let control = sw_getURLParam ''control'' search
      in acts [act_when (control \<noteq> None \<and> control \<noteq> Some [])
                 (does (select_option no_match ''#control'' (the control))),
               ho_search])"

definition ho_onControls :: "(string list \<Rightarrow> string option) \<Rightarrow> string \<Rightarrow> jsval \<Rightarrow> ho_act" where
  "ho_onControls no_match search data = when_ok data (acts
     (map (item_act (\<lambda>d. does (add_option ''#control'' (controller_text d)))) (each_value (pget data ''data'')) @
      [ho_callback0 no_match search]))"

fun ho_callback :: "(string list \<Rightarrow> string option) \<Rightarrow> string \<Rightarrow> bool list \<Rightarrow> ho_cont \<Rightarrow> jsval \<Rightarrow> ho_act" where
  "ho_callback no_match search heads YControls = ho_onControls no_match search"
| "ho_callback no_match search heads YHosts = ho_onHosts heads"

definition ho_init :: "string \<Rightarrow> ho_act" where
  "ho_init user = acts [at_page (set_html ''#user_login span'' user), at_page (set_shown ''#datatable-table'' False),
     ho_getControl]"

text \<open>An answer without totals leaves those of the controller searched before next to the hosts of this one.\<close>

lemma totals_left:
  assumes "\<not> truthy (pget data ''total'')" "\<not> list_ex nullish (each_value (pget data ''hostlist''))"
  shows "htmls (w_page (snd (ho_onHosts heads data w))) = htmls (w_page w)"
    and "shown_rows (snd (ho_onHosts heads data w)) = Some (JArr (map ho_row (each_value (pget data ''hostlist''))))"
  using assms by (simp_all add: ho_onHosts_def item_rows_def show_rows_def shown_rows_def showTable_def table_of_def
      page_simps Let_def)

end
