(* ===== verification/Spec2Isabelle.thy ===== *)
theory Spec2Isabelle
  imports Flow_Run Base64 Topo_Full Topo_Random Paging
    Web_Session Web_Firewall Web_Entry Web_Tables Web_Tenants Web_Chart Web_Openstack
    Web_Group Web_Switch_List
begin

text \<open>
  A verification development of the web front end of DCFabric: the JavaScript of its own under
  \<open>src/DCFabric-web\<close>.

  \<^bold>\<open>The program.\<close>  The front end has two large pages, a dozen management pages and some shared scripts.

  \<^item> \<open>WebRoot/jtopo/js/open.js\<close> is the page of the topology.  Its first half draws the switches and hosts of the
    data centre in two views (a tree and circles) and defines the object \<open>Topo\<close> with the operations on both.
    Its second half is the page around the views: menus, the choice and saving of the layout, search,
    virtual networks, windows with details, paths, the bandwidth monitor and full screen.  It keeps the
    views, the current layout, the node clicked first, the windows, and asks the server for the topology,
    the hosts of a switch, paths and bandwidth; answers, timers, mouse and clicks are its events.
  \<^item> \<open>WebRoot-FlowTable/flowtable_manager/flow_table_detail.js\<close> is the page of the flow table of one
    switch.  It loads, sorts and shows the entries, deletes selected ones, and edits single entries as
    forms or as JSON, with a table of keys and rules for the values.
  \<^item> \<open>WebRoot/js/Base64.js\<close>, \<open>cookie.js\<close> and \<open>tables-dynamic.js\<close> encode texts, keep the user's cookie and draw
    the page buttons of tables.

  \<^item> The management pages under \<open>WebRoot\<close> (controllers, switches, firewall, flow, meter and group tables, gateways,
    tenants, the graph of the network, OpenStack) have their scripts inline.  Each loads lists from the server, shows
    them as tables, and asks the server for changes; every page but \<open>login.html\<close> starts with the same script,
    which lets only users who are logged in see it.

  \<^bold>\<open>The language.\<close>  \<open>Js_Value\<close> has the values (objects as association lists in the order of their properties),
  \<open>==\<close>, truth, \<open>String\<close>, property access and the path functions of lodash that the flow page uses;
  \<open>Js_Number\<close> the parsing and printing of numbers, \<open>Js_Regex\<close> regular expressions by derivative-free
  matching, \<open>Json_Round\<close> the round trip of printing and parsing, and
  \<open>Js_Json\<close> the printing and parsing of JSON (fuel twice the length of the text, enough since every
  step of the parser reads a character), \<open>DCF_Prelude\<close> strings and lists.  Strings are lists of bytes of UTF-8.
  Numbers are rationals with the special values; in the layout a coordinate is a real number or
  \<open>None\<close> for NaN.

  \<^bold>\<open>The page.\<close>  \<open>Browser\<close> is what the scripts see of the document: contents, values, classes, visibility, click
  handlers, dialogs, pending requests with the callback that their answer runs, and timers.  \<open>Cookies\<close> has the
  jar of the browser and the functions of \<open>cookie.js\<close> and \<open>open.js\<close> on it; its locale \<open>session_store\<close> states
  what a client relies on (a value stored is read while it lives and is gone once deleted) and is interpreted
  on these functions.

  \<^bold>\<open>The flow table.\<close>  \<open>Flow_Rules\<close>: \<open>intCheck\<close>, \<open>strCheck\<close>, \<open>checkRules\<close>.  \<open>Flow_Config\<close>: \<open>flowTableConfig\<close>, the texts of
  entries, \<open>setAction\<close>, \<open>unsetAction\<close>, \<open>getActionObj\<close>.  \<open>Flow_Table\<close>: the state and the functions of loading, selecting and
  deleting.  \<open>Flow_Editor\<close>: the editors and the dispatch of answers and clicks.  \<open>Flow_Run\<close>: runs of these in any order
  of the answers: a deletion shows the verdict of each delivered answer in the order of delivery and unlocks its dialog when
  every entry has one, an edit sends the \<open>POST\<close> only after a successful \<open>DELETE\<close>, the table is sorted, the selection and its
  buttons agree.  A body that is null ends the handlers of this page with a TypeError, as in the code; it is the value \<open>None\<close> or
  a branch that changes nothing.

  \<^bold>\<open>The topology.\<close>  \<open>Topo_Data\<close>: classification of the data, sub-networks, nodes.  \<open>Layout\<close>: \<open>getCircleLayout\<close> and
  \<open>treeLayoutNodes\<close>; nodes of one size on a circle do not overlap.  \<open>Topo_Scene\<close>: the scene of a view with nodes, links and
  boxes by address, and \<open>linkNodes\<close>; every pair of neighbours gets one link on the scene, and a null neighbour stops it
  (\<open>link_fault\<close>).  \<open>Topo_View\<close>: \<open>initTree\<close>, \<open>initCircle\<close>,
  their layouts, hosts of a switch, added and deleted nodes, flashing.  Its locale \<open>placement\<close> is the contract
  between a view and what places nodes in it (nodes move, nothing else changes), interpreted on both views;
  from it follows that any sequence of interactions keeps a view well formed.  \<open>Topo_Ops\<close>: the object \<open>Topo\<close>;
  bandwidth links leave no trace when they are removed, a saved topology parses to what was saved.  \<open>Markup\<close> and
  \<open>Topo_Html\<close>: the markup that the page inserts, with the tags it leaves open.  \<open>Topo_Ui\<close>, \<open>Topo_Nets\<close>, \<open>Topo_Rates\<close>,
  \<open>Topo_Page\<close>: the state of the page and its handlers as functions from the state to the exception that ended them,
  if any, and the state they left; \<open>answered\<close>, \<open>timed\<close>, \<open>handle\<close>, \<open>run_call\<close> are the dispatch of answers, timers,
  clicks and the functions called by name.  \<open>Page_Steps\<close> abstracts every handler to a few kinds of changes of
  the views, requests and timers (\<open>change\<close>), and the events of the page to the step relation \<open>page_step\<close>.
  \<open>Topo_Session\<close> has what holds in every reachable state, and what the user gets from several parts: the
  monitor, paths, search, the layout remembered.  The timer that a scene sets when the mouse moves has a number,
  which the scene keeps as \<open>mouseTimer\<close> and clears it by.  \<open>Topo_Full\<close>: the two looks of the page after any number of presses of
  the button for the full view.

  \<^bold>\<open>The management pages.\<close>  \<open>Web_Session\<close>: \<open>login\<close>, the first script of every page and \<open>logout\<close>; the cookies refine a
  timer of half an hour that every page restarts.  \<open>Web_Page\<close>: the state of such a page (\<open>web\<close>: the document, the chosen
  options, tables and the location), its statements as functions to the exception that ended them, if any, and
  the state they left, and the steps that the scripts of the pages repeat.  The locale \<open>stmt_rel\<close> carries a transitive relation
  between states from single steps to whole handlers; the clients of it are the arguments for invariants in \<open>Web_Firewall\<close>,
  \<open>Web_Tenants\<close> and \<open>Web_Chart\<close>.  \<open>Managed_List\<close> is the contract of a page with a list: a granted change is followed by one request for
  the list, no other answer asks for it; its locale \<open>managed_list\<close> is interpreted on five pages, and yields that any answers in any order
  cause as many requests for the list as changes were granted.
  \<open>Web_Firewall\<close>: rules and the switch of the firewall; in every reachable state the lit button is that of the status
  acknowledged last.  \<open>Web_Controllers\<close>: the lists of controllers and switches, and the link between them.
  \<open>Web_Flows\<close>: the list of flow entries.  \<open>Web_Forms\<close>: the forms of an entry as trees of elements, \<open>loop_obj\<close> that
  fills them and \<open>loop_for_value_by_id\<close> that reads them; \<open>Form_Values\<close>: reading is the structural traversal of a form, and what is written
  is read back.  \<open>Web_Entry\<close> composes these: an entry viewed in the list is the one
  that the form shows and saves.  \<open>Web_Tables\<close>: meters, groups and gateways.  \<open>Web_Tenants\<close>: tenants and the dialog of their members, whose rows are
  numbered by their creation, so that late answers remove nothing else.  \<open>Web_Chart\<close>: the graph collected from two answers; \<open>Web_Openstack\<close>:
  lists, ports and settings.  \<open>Web_Group\<close>: the form for a new group with its buckets, and what of them is sent.  \<open>Web_Switch_List\<close>: two pages of
  \<open>WebRoot-FlowTable\<close>, the hosts of a controller, and its switches with the link to the page of the flow table, whose first requests are shown
  to be for the switch and controller chosen.

  \<^bold>\<open>Test data.\<close>  \<open>Topo_Random\<close>: \<open>randomDatas\<close>, with \<open>Math.random\<close> as a sequence of numbers; it returns when the
  numbers vary, and a constant sequence keeps it from returning.

  \<^bold>\<open>Tables.\<close>  \<open>Paging\<close>: \<open>fnPagingInfo\<close>, the page buttons and their clicks, \<open>showTable\<close> and \<open>showTables\<close>.

  \<^bold>\<open>Simplifications.\<close>  An answer of the server that the code takes for an array or an object with arrays is one
  (\<open>arr_items\<close> is empty otherwise).  Ids, ip and mac addresses of nodes are strings, as the server sends them: the key of a link
  is the concatenation of two ids, which for numbers would be a sum.  Reading a property of an answer that is null, or of a
  null entry of a list, is a TypeError as in the code (\<open>needs\<close> on the topology, \<open>when_ok\<close> and \<open>item_act\<close> on the management pages,
  the branches for null in the flow page); \<open>pget\<close> by itself gives undefined for null, and stands where the script has tested the
  value or reads a property of one that the server always sends as an object.
  Text fields that a script fills from data drop line breaks in \<open>Web_Forms\<close> and \<open>Web_Openstack\<close>; \<open>set_val\<close> of
  \<open>Browser\<close>, which serves lists and text areas too, keeps them.  A host keeps the size of a new node: the size of its image
  arrives with the loading of the image, which is not an event of the model.  Doubles are real or rational numbers,
  so rounding is not modelled.  The drawing library JTopo is modelled by the elements of a scene and their
  fields, the removal of a node together with its links, and the events it reports; only nodes are selected in
  a scene.  jQuery and DataTables are modelled by \<open>Browser\<close> and \<open>Paging\<close>.  What a list of options shows after an unknown value was set is
  a parameter (\<open>no_match\<close>), which the one property that depends on it takes as the HTML standard has it: the first option.  The editor
  of JSON of the flow page is its current value.

  \<^bold>\<open>Not modelled.\<close>  The copies of the scripts for other pages (\<open>WebRoot-CN\<close>, \<open>WebRoot-FlowTable/jtopo\<close>, \<open>src/main/webapp\<close>), which differ in labels and single lines; the
  pages that show fixed data (\<open>index.html\<close>, \<open>openstack_qos.html\<close>), the part of \<open>openstack_main.html\<close> that repeats the script
  of \<open>chart.html\<close>, and handlers of elements that their page does not have; the vendored libraries (JTopo, jQuery, DataTables, jsoneditor, select2, d3,
  lodash, echarts); and the parts in other languages (the controllers in C and C++, the Java servlets,
  the measurement sensor).

  \<^bold>\<open>Plan.\<close>  What could come next are the virtual networks as a session with a server, and the differences of the copies for other pages.
\<close>

end
